(* ===== verification/Json.thy ===== *)
theory Json
  imports Prelude "HOL-Library.Char_ord" "HOL-Library.List_Lexorder"
begin

text \<open>
  \<open>serde_json::Value\<close> as the durable documents use it. A number is an integer or an IEEE-754
  binary64 kept as its 64 bits, an object is its list of entries in insertion order (the crate is
  built with \<open>preserve_order\<close>). \<open>value_eq\<close> is \<open>==\<close> on values: the order of an object's entries
  does not count. A stored text is a value (\<open>Json\<close>), a text that is no JSON (\<open>Raw\<close>) or several
  texts joined by NUL (\<open>Joined\<close>, only ever digested). Whether a document was written compact or
  indented is not kept.
\<close>

section \<open>binary64 bit patterns\<close>

type_synonym f64 = "64 word"

definition f64_exponent :: "f64 \<Rightarrow> nat" where
  "f64_exponent b = unat (drop_bit 52 b) mod 2048"

definition f64_mantissa :: "f64 \<Rightarrow> nat" where
  "f64_mantissa b = unat b mod 2 ^ 52"

definition f64_negative :: "f64 \<Rightarrow> bool" where
  "f64_negative b = bit b 63"

definition f64_is_finite :: "f64 \<Rightarrow> bool" where
  "f64_is_finite b \<longleftrightarrow> f64_exponent b \<noteq> 2047"

definition f64_is_normal :: "f64 \<Rightarrow> bool" where
  "f64_is_normal b \<longleftrightarrow> f64_exponent b \<noteq> 0 \<and> f64_exponent b \<noteq> 2047"

definition f64_is_zero :: "f64 \<Rightarrow> bool" where
  "f64_is_zero b \<longleftrightarrow> f64_exponent b = 0 \<and> f64_mantissa b = 0"

text \<open>\<open><\<close> against zero, for a value that is not NaN.\<close>

definition f64_lt_zero :: "f64 \<Rightarrow> bool" where
  "f64_lt_zero b \<longleftrightarrow> f64_negative b \<and> \<not> f64_is_zero b"

definition f64_eq :: "f64 \<Rightarrow> f64 \<Rightarrow> bool" where
  "f64_eq a b \<longleftrightarrow> a = b \<or> (f64_is_zero a \<and> f64_is_zero b)"

text \<open>An integer read where a float is expected: nearest binary64, ties to even.\<close>

fun bit_length :: "nat \<Rightarrow> nat" where
  "bit_length n = (if n = 0 then 0 else Suc (bit_length (n div 2)))"

declare bit_length.simps [simp del]

definition round_half_even :: "nat \<Rightarrow> nat \<Rightarrow> nat" where
  "round_half_even n d =
     (let q = n div d; r = n mod d in
      if 2 * r < d then q else if d < 2 * r then Suc q else if even q then q else Suc q)"

definition f64_of_int :: "int \<Rightarrow> f64" where
  "f64_of_int i =
     (if i = 0 then 0
      else let n = nat \<bar>i\<bar>; e = bit_length n - 1;
               m = (if e \<le> 52 then n * 2 ^ (52 - e) else round_half_even n (2 ^ (e - 52)));
               magnitude = (1023 + e) * 2 ^ 52 + (m - 2 ^ 52)
           in of_nat magnitude + (if i < 0 then 2 ^ 63 else 0))"

section \<open>Values\<close>

datatype json =
    JNull
  | JBool bool
  | JInt int
  | JFloat f64
  | JStr string
  | JArr "json list"
  | JObj "(string \<times> json) list"

type_synonym json_object = "(string \<times> json) list"

datatype body = Json json | Raw string | Joined "body list"

definition obj_get :: "json_object \<Rightarrow> string \<Rightarrow> json option" where
  "obj_get o' k = map_of o' k"

text \<open>\<open>Value::get\<close> with a string key: only an object answers.\<close>

definition get_key :: "json \<Rightarrow> string \<Rightarrow> json option" where
  "get_key v k = (case v of JObj o' \<Rightarrow> obj_get o' k | _ \<Rightarrow> None)"

definition as_str :: "json \<Rightarrow> string option" where
  "as_str v = (case v of JStr s \<Rightarrow> Some s | _ \<Rightarrow> None)"

definition as_array :: "json \<Rightarrow> json list option" where
  "as_array v = (case v of JArr xs \<Rightarrow> Some xs | _ \<Rightarrow> None)"

definition as_object :: "json \<Rightarrow> json_object option" where
  "as_object v = (case v of JObj o' \<Rightarrow> Some o' | _ \<Rightarrow> None)"

definition u64_range :: "nat \<Rightarrow> bool" where
  "u64_range n \<longleftrightarrow> n < 2 ^ 64"

definition i64_range :: "int \<Rightarrow> bool" where
  "i64_range i \<longleftrightarrow> - (2 ^ 63) \<le> i \<and> i < 2 ^ 63"

definition as_u64 :: "json \<Rightarrow> nat option" where
  "as_u64 v =
     (case v of JInt i \<Rightarrow> if 0 \<le> i \<and> u64_range (nat i) then Some (nat i) else None | _ \<Rightarrow> None)"

definition as_i64 :: "json \<Rightarrow> int option" where
  "as_i64 v = (case v of JInt i \<Rightarrow> if i64_range i then Some i else None | _ \<Rightarrow> None)"

definition get_str :: "json \<Rightarrow> string \<Rightarrow> string option" where
  "get_str v k = Option.bind (get_key v k) as_str"

text \<open>\<open>Map::insert\<close>: an existing entry keeps its place.\<close>

fun obj_insert :: "string \<Rightarrow> json \<Rightarrow> json_object \<Rightarrow> json_object" where
  "obj_insert k v [] = [(k, v)]"
| "obj_insert k v ((k', v') # o') =
     (if k = k' then (k, v) # o' else (k', v') # obj_insert k v o')"

definition obj_remove :: "string \<Rightarrow> json_object \<Rightarrow> json_object" where
  "obj_remove k o' = filter (\<lambda>(k', _). k' \<noteq> k) o'"

definition obj_remove_all :: "string list \<Rightarrow> json_object \<Rightarrow> json_object" where
  "obj_remove_all ks o' = filter (\<lambda>(k, _). k \<notin> set ks) o'"

function (sequential) value_eq :: "json \<Rightarrow> json \<Rightarrow> bool"
  and values_eq :: "json list \<Rightarrow> json list \<Rightarrow> bool"
  and entries_eq :: "json_object \<Rightarrow> json_object \<Rightarrow> bool" where
  "value_eq JNull JNull = True"
| "value_eq (JBool a) (JBool b) = (a = b)"
| "value_eq (JInt a) (JInt b) = (a = b)"
| "value_eq (JFloat a) (JFloat b) = f64_eq a b"
| "value_eq (JStr a) (JStr b) = (a = b)"
| "value_eq (JArr a) (JArr b) = values_eq a b"
| "value_eq (JObj a) (JObj b) = (length a = length b \<and> entries_eq a b)"
| "value_eq _ _ = False"
| "values_eq [] [] = True"
| "values_eq (x # xs) (y # ys) = (value_eq x y \<and> values_eq xs ys)"
| "values_eq _ _ = False"
| "entries_eq [] b = True"
| "entries_eq (kv # a) b =
     ((case map_of b (fst kv) of None \<Rightarrow> False | Some w \<Rightarrow> value_eq (snd kv) w) \<and> entries_eq a b)"
  by pat_completeness auto
termination
  by (relation "measure (\<lambda>x. case x of
        Inl (a, b) \<Rightarrow> size a
      | Inr (Inl (a, b)) \<Rightarrow> size_list size a
      | Inr (Inr (a, b)) \<Rightarrow> size_list (\<lambda>kv. Suc (size (snd kv))) a)")
     (auto simp: size_prod_simp)

text \<open>Every object of the value names each of its keys once.\<close>

fun wf_json :: "json \<Rightarrow> bool"
  and wf_entries :: "json_object \<Rightarrow> bool" where
  "wf_json (JArr xs) = list_all wf_json xs"
| "wf_json (JObj o') = (distinct (map fst o') \<and> wf_entries o')"
| "wf_json _ = True"
| "wf_entries [] = True"
| "wf_entries (kv # o') = (wf_json (snd kv) \<and> wf_entries o')"

lemma obj_get_simps [simp]:
  "obj_get [] k = None"
  "obj_get ((k', v) # o') k = (if k = k' then Some v else obj_get o' k)"
  by (auto simp: obj_get_def)

lemma obj_get_append:
  "obj_get (a @ b) k = (case obj_get a k of None \<Rightarrow> obj_get b k | Some v \<Rightarrow> Some v)"
  by (auto simp: obj_get_def map_add_def split: option.splits)

lemma get_key_JObj [simp]: "get_key (JObj o') k = obj_get o' k"
  by (simp add: get_key_def)

lemma as_simps [simp]:
  "as_str (JStr s) = Some s" "as_array (JArr xs) = Some xs" "as_object (JObj o') = Some o'"
  by (simp_all add: as_str_def as_array_def as_object_def)

lemma as_str_Some_iff [simp]: "as_str v = Some s \<longleftrightarrow> v = JStr s"
  by (cases v) (auto simp: as_str_def)

lemma as_u64_int [simp]: "as_u64 (JInt (int n)) = (if u64_range n then Some n else None)"
  by (simp add: as_u64_def)

lemma obj_get_insert [simp]:
  "obj_get (obj_insert k v o') k' = (if k' = k then Some v else obj_get o' k')"
  by (induction k v o' rule: obj_insert.induct) auto

lemma obj_get_remove [simp]:
  "obj_get (obj_remove k o') k' = (if k' = k then None else obj_get o' k')"
  by (induction o') (auto simp: obj_remove_def)

lemma obj_get_remove_all [simp]:
  "obj_get (obj_remove_all ks o') k = (if k \<in> set ks then None else obj_get o' k)"
  by (induction o') (auto simp: obj_remove_all_def split: if_splits)

lemma f64_eq_refl [simp]: "f64_eq a a"
  by (simp add: f64_eq_def)

lemma values_eq_refl: "(\<And>x. x \<in> set xs \<Longrightarrow> value_eq x x) \<Longrightarrow> values_eq xs xs"
  by (induction xs) auto

lemma entries_eq_suffix:
  assumes "\<And>kv. kv \<in> set a \<Longrightarrow> map_of b (fst kv) = Some (snd kv) \<and> value_eq (snd kv) (snd kv)"
  shows "entries_eq a b"
  using assms by (induction a) auto

lemma value_eq_refl_aux:
  "(wf_json v \<longrightarrow> value_eq v v) \<and> True"
  "wf_entries es \<Longrightarrow> kv \<in> set es \<Longrightarrow> value_eq (snd kv) (snd kv)"
proof (induction v and es arbitrary: and kv rule: wf_json_wf_entries.induct)
  case (1 xs)
  then show ?case by (auto simp: list_all_iff intro: values_eq_refl)
next
  case (2 es)
  have "entries_eq es es" if "distinct (map fst es)" "wf_entries es"
    by (rule entries_eq_suffix) (use that 2 in \<open>force simp: map_of_eq_Some_iff\<close>)
  then show ?case by simp
qed auto

lemma value_eq_refl: "wf_json v \<Longrightarrow> value_eq v v"
  using value_eq_refl_aux(1) by blast

end
