(* ===== verification/Jobs.thy ===== *)
theory Jobs
  imports Json
begin

text \<open>
  \<open>src/stado-rs/src/models/\<close>: the job record with its JSON form, the lifecycle states and
  prefixes, and the record's own decisions. The JSON form is the one \<open>serde\<close> derives from the
  declaration: a field that is absent reads as its default, a field of another type refuses the
  document, unknown keys are ignored. \<open>job_to_value\<close> writes the fields in declaration order and
  leaves out those the declaration skips. A binary64 that is not finite is written as \<open>null\<close>.
\<close>

section \<open>States and prefixes\<close>

definition is_terminal :: "string \<Rightarrow> bool" where
  "is_terminal state \<longleftrightarrow>
     state = ''completed'' \<or> state = ''uploaded'' \<or> state = ''failed'' \<or> state = ''cancelled''"

definition terminal_prefixes :: "string list" where
  "terminal_prefixes = [''completed'', ''uploaded'', ''failed'', ''cancelled'']"

definition all_prefixes :: "string list" where
  "all_prefixes = [''queue'', ''running'', ''completed'', ''uploaded'', ''failed'', ''cancelled'']"

datatype prefix = Queue | Running | Completed | Uploaded | Failed | Cancelled

fun prefix_as_str :: "prefix \<Rightarrow> string" where
  "prefix_as_str Queue = ''queue''"
| "prefix_as_str Running = ''running''"
| "prefix_as_str Completed = ''completed''"
| "prefix_as_str Uploaded = ''uploaded''"
| "prefix_as_str Failed = ''failed''"
| "prefix_as_str Cancelled = ''cancelled''"

lemmas prefix_words = prefix_as_str.simps

declare prefix_as_str.simps [simp del]

definition prefix_parse :: "string \<Rightarrow> prefix option" where
  "prefix_parse name =
     (if name = ''queue'' then Some Queue
      else if name = ''running'' then Some Running
      else if name = ''completed'' then Some Completed
      else if name = ''uploaded'' then Some Uploaded
      else if name = ''failed'' then Some Failed
      else if name = ''cancelled'' then Some Cancelled
      else None)"

fun prefix_terminal :: "prefix \<Rightarrow> bool" where
  "prefix_terminal Completed = True"
| "prefix_terminal Uploaded = True"
| "prefix_terminal Failed = True"
| "prefix_terminal Cancelled = True"
| "prefix_terminal Queue = False"
| "prefix_terminal Running = False"

section \<open>The record\<close>

record job_secret_ref =
  role :: string
  field :: string

datatype worker_resource =
    Local
  | Aws string string string
  | Gcp string string string nat
  | Azure string string string string string

record worker_allocation =
  wa_host :: string
  wa_kind :: string
  wa_observed_at :: string
  wa_resource :: "worker_resource option"
  wa_error :: "string option"

record job =
  job_id :: string
  command :: string
  gpu_mem_gb :: int
  gpu_type :: string
  machine_type :: string
  provider :: string
  batch_id :: string
  state :: string
  created_at :: string
  started_at :: "string option"
  completed_at :: "string option"
  failed_at :: "string option"
  instance_ref :: "string option"
  worker_allocation :: "worker_allocation option"
  gpu_uuid :: "string option"
  lease_expires_at :: "string option"
  restarts :: int
  submitter_restarts :: bool
  last_restart :: "string option"
  image :: string
  image_project :: string
  boot_disk_gb :: int
  startup_script_uri :: string
  error :: "string option"
  preemptible :: bool
  pin_to_provider :: bool
  max_cost_per_hour_usd :: f64
  preempt_count :: int
  max_preempts_before_ondemand :: int
  priority :: int
  dispatch_attempts :: int
  last_dispatch_attempt :: "string option"
  submitted_by :: string
  submitted_from :: string
  submitted_via :: string
  run_id :: string
  submitter_app :: string
  submission_request_digest :: string
  submission_command_index :: "nat option"
  repo :: string
  repo_ref :: string
  repo_workdir :: string
  repo_extras :: string
  verify_command :: string
  assigned_to :: string
  pinned_host :: string
  runtime_seconds_estimate :: f64
  pre_command :: string
  apt_packages :: "string list"
  output_uri :: string
  exclusive :: bool
  terminates_agent :: bool
  peak_vram_gb :: int
  peak_vram_per_gpu :: bool
  schedule_id :: string
  re_submission_of :: string
  yieldable :: bool
  yield_command :: string
  yield_count :: int
  max_yields_before_protected :: int
  executor :: string
  platform_os :: string
  architecture :: string
  cpu_cores :: int
  memory_gb :: int
  disk_gb :: int
  region :: string
  box_ttl_seconds :: int
  prompt :: string
  prompt_provider :: string
  prompt_model :: string
  prompt_reasoning_effort :: string
  secret_env :: "(string \<times> job_secret_ref) list"
  input_artifacts :: json_object
  resolved_input_artifacts :: json_object
  artifact_paths :: "string list"
  deadline_at :: "string option"
  deferrable :: bool
  not_before :: "string option"
  income_usd_per_hour :: "f64 option"
  income_source :: "string option"

definition default_state :: string where
  "default_state = ''queued''"

definition default_executor :: string where
  "default_executor = ''stado-agent''"

section \<open>The JSON form\<close>

definition flag_field :: "bool \<Rightarrow> json option" where
  "flag_field b = (if b then Some (JBool True) else None)"

definition text_field :: "string \<Rightarrow> json option" where
  "text_field s = (if s = [] then None else Some (JStr s))"

definition opt_text :: "string option \<Rightarrow> json" where
  "opt_text x = (case x of None \<Rightarrow> JNull | Some s \<Rightarrow> JStr s)"

definition f64_value :: "f64 \<Rightarrow> json" where
  "f64_value b = (if f64_is_finite b then JFloat b else JNull)"

definition secret_ref_to_value :: "job_secret_ref \<Rightarrow> json" where
  "secret_ref_to_value r = JObj [(''item'', JStr (role r)), (''field'', JStr (field r))]"

definition secrets_to_value :: "(string \<times> job_secret_ref) list \<Rightarrow> json" where
  "secrets_to_value m = JObj (map (\<lambda>(n, r). (n, secret_ref_to_value r)) m)"

definition secrets_field :: "(string \<times> job_secret_ref) list \<Rightarrow> json option" where
  "secrets_field m = (if m = [] then None else Some (secrets_to_value m))"

fun worker_resource_to_value :: "worker_resource \<Rightarrow> json" where
  "worker_resource_to_value Local = JObj [(''provider'', JStr ''local'')]"
| "worker_resource_to_value (Aws account region' instance') =
     JObj [(''provider'', JStr ''aws''), (''account_id'', JStr account), (''region'', JStr region'),
       (''instance_id'', JStr instance')]"
| "worker_resource_to_value (Gcp project zone name instance') =
     JObj [(''provider'', JStr ''gcp''), (''project_id'', JStr project), (''zone'', JStr zone),
       (''name'', JStr name), (''instance_id'', JInt (int instance'))]"
| "worker_resource_to_value (Azure subscription location name resource vm) =
     JObj [(''provider'', JStr ''azure''), (''subscription_id'', JStr subscription),
       (''location'', JStr location), (''name'', JStr name), (''resource_id'', JStr resource),
       (''vm_id'', JStr vm)]"

definition worker_allocation_to_value :: "worker_allocation \<Rightarrow> json" where
  "worker_allocation_to_value w =
     JObj [(''host'', JStr (wa_host w)), (''kind'', JStr (wa_kind w)),
       (''observed_at'', JStr (wa_observed_at w)),
       (''resource'', (case wa_resource w of None \<Rightarrow> JNull | Some r \<Rightarrow> worker_resource_to_value r)),
       (''error'', opt_text (wa_error w))]"

text \<open>The fields of an object in declaration order; a skipped field is \<open>None\<close>.\<close>

definition present_fields :: "(string \<times> json option) list \<Rightarrow> json_object" where
  "present_fields fs = List.map_filter (\<lambda>(k, x). map_option (Pair k) x) fs"

definition job_fields :: "job \<Rightarrow> (string \<times> json option) list" where
  "job_fields j = [
     (''job_id'', Some (JStr (job_id j))),
     (''command'', Some (JStr (command j))),
     (''gpu_mem_gb'', Some (JInt (gpu_mem_gb j))),
     (''gpu_type'', Some (JStr (gpu_type j))),
     (''machine_type'', Some (JStr (machine_type j))),
     (''provider'', Some (JStr (provider j))),
     (''batch_id'', Some (JStr (batch_id j))),
     (''state'', Some (JStr (state j))),
     (''created_at'', Some (JStr (created_at j))),
     (''started_at'', Some (opt_text (started_at j))),
     (''completed_at'', Some (opt_text (completed_at j))),
     (''failed_at'', Some (opt_text (failed_at j))),
     (''instance_ref'', Some (opt_text (instance_ref j))),
     (''worker_allocation'', map_option worker_allocation_to_value (worker_allocation j)),
     (''gpu_uuid'', map_option JStr (gpu_uuid j)),
     (''lease_expires_at'', map_option JStr (lease_expires_at j)),
     (''restarts'', Some (JInt (restarts j))),
     (''submitter_restarts'', flag_field (submitter_restarts j)),
     (''last_restart'', Some (opt_text (last_restart j))),
     (''image'', Some (JStr (image j))),
     (''image_project'', Some (JStr (image_project j))),
     (''boot_disk_gb'', Some (JInt (boot_disk_gb j))),
     (''startup_script_uri'', Some (JStr (startup_script_uri j))),
     (''error'', Some (opt_text (error j))),
     (''preemptible'', Some (JBool (preemptible j))),
     (''pin_to_provider'', Some (JBool (pin_to_provider j))),
     (''max_cost_per_hour_usd'', Some (f64_value (max_cost_per_hour_usd j))),
     (''preempt_count'', Some (JInt (preempt_count j))),
     (''max_preempts_before_ondemand'', Some (JInt (max_preempts_before_ondemand j))),
     (''priority'', Some (JInt (priority j))),
     (''dispatch_attempts'', Some (JInt (dispatch_attempts j))),
     (''last_dispatch_attempt'', Some (opt_text (last_dispatch_attempt j))),
     (''submitted_by'', Some (JStr (submitted_by j))),
     (''submitted_from'', Some (JStr (submitted_from j))),
     (''submitted_via'', Some (JStr (submitted_via j))),
     (''run_id'', Some (JStr (run_id j))),
     (''submitter_app'', Some (JStr (submitter_app j))),
     (''submission_request_digest'', text_field (submission_request_digest j)),
     (''submission_command_index'', map_option (\<lambda>n. JInt (int n)) (submission_command_index j)),
     (''repo'', Some (JStr (repo j))),
     (''repo_ref'', text_field (repo_ref j)),
     (''repo_workdir'', Some (JStr (repo_workdir j))),
     (''repo_extras'', Some (JStr (repo_extras j))),
     (''verify_command'', Some (JStr (verify_command j))),
     (''assigned_to'', Some (JStr (assigned_to j))),
     (''pinned_host'', Some (JStr (pinned_host j))),
     (''runtime_seconds_estimate'', Some (f64_value (runtime_seconds_estimate j))),
     (''pre_command'', Some (JStr (pre_command j))),
     (''apt_packages'', Some (JArr (map JStr (apt_packages j)))),
     (''output_uri'', Some (JStr (output_uri j))),
     (''exclusive'', Some (JBool (exclusive j))),
     (''terminates_agent'', flag_field (terminates_agent j)),
     (''peak_vram_gb'', Some (JInt (peak_vram_gb j))),
     (''peak_vram_per_gpu'', Some (JBool (peak_vram_per_gpu j))),
     (''schedule_id'', Some (JStr (schedule_id j))),
     (''re_submission_of'', Some (JStr (re_submission_of j))),
     (''yieldable'', Some (JBool (yieldable j))),
     (''yield_command'', Some (JStr (yield_command j))),
     (''yield_count'', Some (JInt (yield_count j))),
     (''max_yields_before_protected'', Some (JInt (max_yields_before_protected j))),
     (''executor'', Some (JStr (executor j))),
     (''platform_os'', Some (JStr (platform_os j))),
     (''architecture'', Some (JStr (architecture j))),
     (''cpu_cores'', Some (JInt (cpu_cores j))),
     (''memory_gb'', Some (JInt (memory_gb j))),
     (''disk_gb'', Some (JInt (disk_gb j))),
     (''region'', Some (JStr (region j))),
     (''box_ttl_seconds'', Some (JInt (box_ttl_seconds j))),
     (''prompt'', Some (JStr (prompt j))),
     (''prompt_provider'', Some (JStr (prompt_provider j))),
     (''prompt_model'', Some (JStr (prompt_model j))),
     (''prompt_reasoning_effort'', Some (JStr (prompt_reasoning_effort j))),
     (''secret_env'', secrets_field (secret_env j)),
     (''input_artifacts'', Some (JObj (input_artifacts j))),
     (''resolved_input_artifacts'', Some (JObj (resolved_input_artifacts j))),
     (''artifact_paths'', Some (JArr (map JStr (artifact_paths j)))),
     (''deadline_at'', map_option JStr (deadline_at j)),
     (''deferrable'', flag_field (deferrable j)),
     (''not_before'', map_option JStr (not_before j)),
     (''income_usd_per_hour'', map_option f64_value (income_usd_per_hour j)),
     (''income_source'', map_option JStr (income_source j))]"

definition job_object :: "job \<Rightarrow> json_object" where
  "job_object j = present_fields (job_fields j)"

definition job_to_value :: "job \<Rightarrow> json" where
  "job_to_value j = JObj (job_object j)"

definition str_or :: "json_object \<Rightarrow> string \<Rightarrow> string \<Rightarrow> string" where
  "str_or o' k d = (case obj_get o' k of Some (JStr s) \<Rightarrow> s | _ \<Rightarrow> d)"

definition int_or :: "json_object \<Rightarrow> string \<Rightarrow> int" where
  "int_or o' k = (case obj_get o' k of Some (JInt i) \<Rightarrow> i | _ \<Rightarrow> 0)"

definition bool_or :: "json_object \<Rightarrow> string \<Rightarrow> bool" where
  "bool_or o' k = (case obj_get o' k of Some (JBool b) \<Rightarrow> b | _ \<Rightarrow> False)"

definition optstr_or :: "json_object \<Rightarrow> string \<Rightarrow> string option" where
  "optstr_or o' k = Option.bind (obj_get o' k) as_str"

fun f64_from_value :: "json \<Rightarrow> f64 option" where
  "f64_from_value (JFloat b) = Some b"
| "f64_from_value (JInt i) = Some (f64_of_int i)"
| "f64_from_value _ = None"

definition f64_or :: "json_object \<Rightarrow> string \<Rightarrow> f64" where
  "f64_or o' k = (case Option.bind (obj_get o' k) f64_from_value of Some b \<Rightarrow> b | None \<Rightarrow> 0)"

definition optf64_or :: "json_object \<Rightarrow> string \<Rightarrow> f64 option" where
  "optf64_or o' k = Option.bind (obj_get o' k) f64_from_value"

definition optnat_or :: "json_object \<Rightarrow> string \<Rightarrow> nat option" where
  "optnat_or o' k = Option.bind (obj_get o' k) as_u64"

definition strs_from_value :: "json \<Rightarrow> string list option" where
  "strs_from_value v =
     (case v of JArr xs \<Rightarrow> if list_all (\<lambda>x. as_str x \<noteq> None) xs then Some (List.map_filter as_str xs)
        else None
      | _ \<Rightarrow> None)"

definition strs_or :: "json_object \<Rightarrow> string \<Rightarrow> string list" where
  "strs_or o' k =
     (case Option.bind (obj_get o' k) strs_from_value of Some xs \<Rightarrow> xs | None \<Rightarrow> [])"

definition object_or :: "json_object \<Rightarrow> string \<Rightarrow> json_object" where
  "object_or o' k = (case obj_get o' k of Some (JObj m) \<Rightarrow> m | _ \<Rightarrow> [])"

text \<open>\<open>item\<close> is the key every reader parses and \<open>role\<close> its alias; both at once is refused.\<close>

definition secret_ref_from_value :: "json \<Rightarrow> job_secret_ref option" where
  "secret_ref_from_value v =
     (case (get_key v ''item'', get_key v ''role'', get_str v ''field'') of
        (Some (JStr r), None, Some f) \<Rightarrow> Some \<lparr>role = r, field = f\<rparr>
      | (None, Some (JStr r), Some f) \<Rightarrow> Some \<lparr>role = r, field = f\<rparr>
      | _ \<Rightarrow> None)"

text \<open>A \<open>BTreeMap\<close> is its entries in key order; inserting replaces an entry of the same key.\<close>

fun btree_insert :: "string \<Rightarrow> 'v \<Rightarrow> (string \<times> 'v) list \<Rightarrow> (string \<times> 'v) list" where
  "btree_insert k v [] = [(k, v)]"
| "btree_insert k v ((k', v') # m) =
     (if k < k' then (k, v) # (k', v') # m
      else if k = k' then (k, v) # m
      else (k', v') # btree_insert k v m)"

definition secrets_from_value :: "json \<Rightarrow> (string \<times> job_secret_ref) list option" where
  "secrets_from_value v =
     (case v of
        JObj m \<Rightarrow>
          if list_all (\<lambda>(_, x). secret_ref_from_value x \<noteq> None) m
          then Some (foldl (\<lambda>acc (k, x). btree_insert k (the (secret_ref_from_value x)) acc) [] m)
          else None
      | _ \<Rightarrow> None)"

definition secrets_or :: "json_object \<Rightarrow> string \<Rightarrow> (string \<times> job_secret_ref) list" where
  "secrets_or o' k =
     (case Option.bind (obj_get o' k) secrets_from_value of Some m \<Rightarrow> m | None \<Rightarrow> [])"

definition worker_resource_from_value :: "json \<Rightarrow> worker_resource option" where
  "worker_resource_from_value v =
     (case get_str v ''provider'' of
        None \<Rightarrow> None
      | Some p \<Rightarrow>
          if p = ''local'' then Some Local
          else if p = ''aws'' then
            (case (get_str v ''account_id'', get_str v ''region'', get_str v ''instance_id'') of
               (Some a, Some r, Some i) \<Rightarrow> Some (Aws a r i) | _ \<Rightarrow> None)
          else if p = ''gcp'' then
            (case (get_str v ''project_id'', get_str v ''zone'', get_str v ''name'',
                   Option.bind (get_key v ''instance_id'') as_u64) of
               (Some p', Some z, Some n, Some i) \<Rightarrow> Some (Gcp p' z n i) | _ \<Rightarrow> None)
          else if p = ''azure'' then
            (case (get_str v ''subscription_id'', get_str v ''location'', get_str v ''name'',
                   get_str v ''resource_id'', get_str v ''vm_id'') of
               (Some s, Some l, Some n, Some r, Some m) \<Rightarrow> Some (Azure s l n r m) | _ \<Rightarrow> None)
          else None)"

text \<open>An optional field: absent and \<open>null\<close> are \<open>None\<close>; a value that does not read is an error.\<close>

definition optional_field :: "json \<Rightarrow> string \<Rightarrow> (json \<Rightarrow> 'a option) \<Rightarrow> 'a option option" where
  "optional_field v k f =
     (case get_key v k of None \<Rightarrow> Some None | Some JNull \<Rightarrow> Some None
      | Some x \<Rightarrow> (case f x of None \<Rightarrow> None | Some a \<Rightarrow> Some (Some a)))"

definition worker_allocation_from_value :: "json \<Rightarrow> worker_allocation option" where
  "worker_allocation_from_value v =
     (case (get_str v ''host'', get_str v ''kind'', get_str v ''observed_at'',
            optional_field v ''resource'' worker_resource_from_value,
            optional_field v ''error'' as_str) of
        (Some h, Some k, Some t, Some r, Some e) \<Rightarrow>
          Some \<lparr>wa_host = h, wa_kind = k, wa_observed_at = t, wa_resource = r, wa_error = e\<rparr>
      | _ \<Rightarrow> None)"

definition worker_or :: "json_object \<Rightarrow> string \<Rightarrow> worker_allocation option" where
  "worker_or o' k = Option.bind (obj_get o' k) worker_allocation_from_value"

text \<open>Whether a field of the object has the type its declaration states, when it is there.\<close>

definition field_ok :: "(json \<Rightarrow> bool) \<Rightarrow> json_object \<Rightarrow> string \<Rightarrow> bool" where
  "field_ok p o' k = pred_option p (obj_get o' k)"

definition str_ok :: "json_object \<Rightarrow> string \<Rightarrow> bool" where
  "str_ok = field_ok (\<lambda>v. as_str v \<noteq> None)"

definition i64_ok :: "json_object \<Rightarrow> string \<Rightarrow> bool" where
  "i64_ok = field_ok (\<lambda>v. case v of JInt i \<Rightarrow> i64_range i | _ \<Rightarrow> False)"

definition bool_ok :: "json_object \<Rightarrow> string \<Rightarrow> bool" where
  "bool_ok = field_ok (\<lambda>v. case v of JBool _ \<Rightarrow> True | _ \<Rightarrow> False)"

definition f64_ok :: "json_object \<Rightarrow> string \<Rightarrow> bool" where
  "f64_ok = field_ok (\<lambda>v. f64_from_value v \<noteq> None)"

definition strs_ok :: "json_object \<Rightarrow> string \<Rightarrow> bool" where
  "strs_ok = field_ok (\<lambda>v. strs_from_value v \<noteq> None)"

definition object_ok :: "json_object \<Rightarrow> string \<Rightarrow> bool" where
  "object_ok = field_ok (\<lambda>v. as_object v \<noteq> None)"

definition secrets_ok :: "json_object \<Rightarrow> string \<Rightarrow> bool" where
  "secrets_ok = field_ok (\<lambda>v. secrets_from_value v \<noteq> None)"

definition optstr_ok :: "json_object \<Rightarrow> string \<Rightarrow> bool" where
  "optstr_ok = field_ok (\<lambda>v. v = JNull \<or> as_str v \<noteq> None)"

definition optnat_ok :: "json_object \<Rightarrow> string \<Rightarrow> bool" where
  "optnat_ok = field_ok (\<lambda>v. v = JNull \<or> as_u64 v \<noteq> None)"

definition optf64_ok :: "json_object \<Rightarrow> string \<Rightarrow> bool" where
  "optf64_ok = field_ok (\<lambda>v. v = JNull \<or> f64_from_value v \<noteq> None)"

definition worker_ok :: "json_object \<Rightarrow> string \<Rightarrow> bool" where
  "worker_ok = field_ok (\<lambda>v. v = JNull \<or> worker_allocation_from_value v \<noteq> None)"

definition job_object_ok :: "json_object \<Rightarrow> bool" where
  "job_object_ok o' \<longleftrightarrow>
     list_all (str_ok o')
       [''job_id'', ''command'', ''gpu_type'', ''machine_type'', ''provider'', ''batch_id'',
        ''state'', ''created_at'', ''image'', ''image_project'', ''startup_script_uri'',
        ''submitted_by'', ''submitted_from'', ''submitted_via'', ''run_id'', ''submitter_app'',
        ''submission_request_digest'', ''repo'', ''repo_ref'', ''repo_workdir'', ''repo_extras'',
        ''verify_command'', ''assigned_to'', ''pinned_host'', ''pre_command'', ''output_uri'',
        ''schedule_id'', ''re_submission_of'', ''yield_command'', ''executor'', ''platform_os'',
        ''architecture'', ''region'', ''prompt'', ''prompt_provider'', ''prompt_model'',
        ''prompt_reasoning_effort''] \<and>
     list_all (i64_ok o')
       [''gpu_mem_gb'', ''restarts'', ''boot_disk_gb'', ''preempt_count'',
        ''max_preempts_before_ondemand'', ''priority'', ''dispatch_attempts'', ''peak_vram_gb'',
        ''yield_count'', ''max_yields_before_protected'', ''cpu_cores'', ''memory_gb'',
        ''disk_gb'', ''box_ttl_seconds''] \<and>
     list_all (optstr_ok o')
       [''started_at'', ''completed_at'', ''failed_at'', ''instance_ref'', ''gpu_uuid'',
        ''lease_expires_at'', ''last_restart'', ''error'', ''last_dispatch_attempt'',
        ''deadline_at'', ''not_before'', ''income_source''] \<and>
     list_all (bool_ok o')
       [''submitter_restarts'', ''preemptible'', ''pin_to_provider'', ''exclusive'',
        ''terminates_agent'', ''peak_vram_per_gpu'', ''yieldable'', ''deferrable''] \<and>
     list_all (f64_ok o')
       [''max_cost_per_hour_usd'', ''runtime_seconds_estimate''] \<and>
     list_all (strs_ok o')
       [''apt_packages'', ''artifact_paths''] \<and>
     list_all (optnat_ok o')
       [''submission_command_index''] \<and>
     list_all (optf64_ok o')
       [''income_usd_per_hour''] \<and>
     list_all (object_ok o')
       [''input_artifacts'', ''resolved_input_artifacts''] \<and>
     list_all (secrets_ok o')
       [''secret_env''] \<and>
     list_all (worker_ok o')
       [''worker_allocation'']"

definition job_of_object :: "json_object \<Rightarrow> job" where
  "job_of_object o' = \<lparr>
     job_id = str_or o' ''job_id'' '''',
     command = str_or o' ''command'' '''',
     gpu_mem_gb = int_or o' ''gpu_mem_gb'',
     gpu_type = str_or o' ''gpu_type'' '''',
     machine_type = str_or o' ''machine_type'' '''',
     provider = str_or o' ''provider'' '''',
     batch_id = str_or o' ''batch_id'' '''',
     state = str_or o' ''state'' default_state,
     created_at = str_or o' ''created_at'' '''',
     started_at = optstr_or o' ''started_at'',
     completed_at = optstr_or o' ''completed_at'',
     failed_at = optstr_or o' ''failed_at'',
     instance_ref = optstr_or o' ''instance_ref'',
     worker_allocation = worker_or o' ''worker_allocation'',
     gpu_uuid = optstr_or o' ''gpu_uuid'',
     lease_expires_at = optstr_or o' ''lease_expires_at'',
     restarts = int_or o' ''restarts'',
     submitter_restarts = bool_or o' ''submitter_restarts'',
     last_restart = optstr_or o' ''last_restart'',
     image = str_or o' ''image'' '''',
     image_project = str_or o' ''image_project'' '''',
     boot_disk_gb = int_or o' ''boot_disk_gb'',
     startup_script_uri = str_or o' ''startup_script_uri'' '''',
     error = optstr_or o' ''error'',
     preemptible = bool_or o' ''preemptible'',
     pin_to_provider = bool_or o' ''pin_to_provider'',
     max_cost_per_hour_usd = f64_or o' ''max_cost_per_hour_usd'',
     preempt_count = int_or o' ''preempt_count'',
     max_preempts_before_ondemand = int_or o' ''max_preempts_before_ondemand'',
     priority = int_or o' ''priority'',
     dispatch_attempts = int_or o' ''dispatch_attempts'',
     last_dispatch_attempt = optstr_or o' ''last_dispatch_attempt'',
     submitted_by = str_or o' ''submitted_by'' '''',
     submitted_from = str_or o' ''submitted_from'' '''',
     submitted_via = str_or o' ''submitted_via'' '''',
     run_id = str_or o' ''run_id'' '''',
     submitter_app = str_or o' ''submitter_app'' '''',
     submission_request_digest = str_or o' ''submission_request_digest'' '''',
     submission_command_index = optnat_or o' ''submission_command_index'',
     repo = str_or o' ''repo'' '''',
     repo_ref = str_or o' ''repo_ref'' '''',
     repo_workdir = str_or o' ''repo_workdir'' '''',
     repo_extras = str_or o' ''repo_extras'' '''',
     verify_command = str_or o' ''verify_command'' '''',
     assigned_to = str_or o' ''assigned_to'' '''',
     pinned_host = str_or o' ''pinned_host'' '''',
     runtime_seconds_estimate = f64_or o' ''runtime_seconds_estimate'',
     pre_command = str_or o' ''pre_command'' '''',
     apt_packages = strs_or o' ''apt_packages'',
     output_uri = str_or o' ''output_uri'' '''',
     exclusive = bool_or o' ''exclusive'',
     terminates_agent = bool_or o' ''terminates_agent'',
     peak_vram_gb = int_or o' ''peak_vram_gb'',
     peak_vram_per_gpu = bool_or o' ''peak_vram_per_gpu'',
     schedule_id = str_or o' ''schedule_id'' '''',
     re_submission_of = str_or o' ''re_submission_of'' '''',
     yieldable = bool_or o' ''yieldable'',
     yield_command = str_or o' ''yield_command'' '''',
     yield_count = int_or o' ''yield_count'',
     max_yields_before_protected = int_or o' ''max_yields_before_protected'',
     executor = str_or o' ''executor'' default_executor,
     platform_os = str_or o' ''platform_os'' '''',
     architecture = str_or o' ''architecture'' '''',
     cpu_cores = int_or o' ''cpu_cores'',
     memory_gb = int_or o' ''memory_gb'',
     disk_gb = int_or o' ''disk_gb'',
     region = str_or o' ''region'' '''',
     box_ttl_seconds = int_or o' ''box_ttl_seconds'',
     prompt = str_or o' ''prompt'' '''',
     prompt_provider = str_or o' ''prompt_provider'' '''',
     prompt_model = str_or o' ''prompt_model'' '''',
     prompt_reasoning_effort = str_or o' ''prompt_reasoning_effort'' '''',
     secret_env = secrets_or o' ''secret_env'',
     input_artifacts = object_or o' ''input_artifacts'',
     resolved_input_artifacts = object_or o' ''resolved_input_artifacts'',
     artifact_paths = strs_or o' ''artifact_paths'',
     deadline_at = optstr_or o' ''deadline_at'',
     deferrable = bool_or o' ''deferrable'',
     not_before = optstr_or o' ''not_before'',
     income_usd_per_hour = optf64_or o' ''income_usd_per_hour'',
     income_source = optstr_or o' ''income_source''\<rparr>"

text \<open>\<open>serde_json::from_value::<Job>\<close>; \<open>None\<close> is its error.\<close>

definition job_from_value :: "json \<Rightarrow> job option" where
  "job_from_value v =
     (case v of
        JObj o' \<Rightarrow> if job_object_ok o' then Some (job_of_object o') else None
      | _ \<Rightarrow> None)"

text \<open>
  What a record a Rust program holds always satisfies (the integers fit their width, a map's keys
  are in order and once each) and what its JSON form can carry (finite floats).
\<close>

definition wf_worker_allocation :: "worker_allocation \<Rightarrow> bool" where
  "wf_worker_allocation w \<longleftrightarrow>
     (case wa_resource w of Some (Gcp _ _ _ i) \<Rightarrow> u64_range i | _ \<Rightarrow> True)"

definition wf_job :: "job \<Rightarrow> bool" where
  "wf_job j \<longleftrightarrow>
     i64_range (gpu_mem_gb j) \<and> i64_range (restarts j) \<and> i64_range (boot_disk_gb j) 
     \<and> i64_range (preempt_count j) \<and> i64_range (max_preempts_before_ondemand j) 
     \<and> i64_range (priority j) \<and> i64_range (dispatch_attempts j) \<and> i64_range 
     (peak_vram_gb j) \<and> i64_range (yield_count j) \<and> i64_range 
     (max_yields_before_protected j) \<and> i64_range (cpu_cores j) \<and> i64_range (memory_gb 
     j) \<and> i64_range (disk_gb j) \<and> i64_range (box_ttl_seconds j) \<and>
     f64_is_finite (max_cost_per_hour_usd j) \<and> f64_is_finite (runtime_seconds_estimate j) \<and>
     pred_option f64_is_finite (income_usd_per_hour j) \<and>
     pred_option u64_range (submission_command_index j) \<and>
     pred_option wf_worker_allocation (worker_allocation j) \<and>
     sorted_wrt (<) (map fst (secret_env j)) \<and>
     wf_json (JObj (input_artifacts j)) \<and> wf_json (JObj (resolved_input_artifacts j))"

section \<open>Reading back what was written\<close>

lemma present_fields_simps:
  "present_fields [] = []"
  "present_fields ((k, x) # fs) =
     (case x of None \<Rightarrow> present_fields fs | Some v \<Rightarrow> (k, v) # present_fields fs)"
  by (auto simp: present_fields_def List.map_filter_def split: option.splits)

lemma present_fields_absent: "k \<notin> fst ` set fs \<Longrightarrow> obj_get (present_fields fs) k = None"
  by (induction fs) (auto simp: present_fields_simps split: option.splits)

lemma obj_get_present_fields:
  "distinct (map fst fs) \<Longrightarrow> (k, x) \<in> set fs \<Longrightarrow> obj_get (present_fields fs) k = x"
proof (induction fs)
  case (Cons f fs)
  then show ?case
    by (cases f) (force simp: present_fields_simps present_fields_absent split: option.splits)
qed simp

lemma obj_get_all_fields:
  "distinct (map fst fs) \<Longrightarrow> list_all (\<lambda>(k, x). obj_get (present_fields fs) k = x) fs"
  by (auto simp: list_all_iff obj_get_present_fields)

definition job_keys :: "string list" where
  "job_keys = [
     ''job_id'', ''command'', ''gpu_mem_gb'', ''gpu_type'',
     ''machine_type'', ''provider'', ''batch_id'', ''state'',
     ''created_at'', ''started_at'', ''completed_at'', ''failed_at'',
     ''instance_ref'', ''worker_allocation'', ''gpu_uuid'', ''lease_expires_at'',
     ''restarts'', ''submitter_restarts'', ''last_restart'', ''image'',
     ''image_project'', ''boot_disk_gb'', ''startup_script_uri'', ''error'',
     ''preemptible'', ''pin_to_provider'', ''max_cost_per_hour_usd'', ''preempt_count'',
     ''max_preempts_before_ondemand'', ''priority'', ''dispatch_attempts'', ''last_dispatch_attempt'',
     ''submitted_by'', ''submitted_from'', ''submitted_via'', ''run_id'',
     ''submitter_app'', ''submission_request_digest'', ''submission_command_index'', ''repo'',
     ''repo_ref'', ''repo_workdir'', ''repo_extras'', ''verify_command'',
     ''assigned_to'', ''pinned_host'', ''runtime_seconds_estimate'', ''pre_command'',
     ''apt_packages'', ''output_uri'', ''exclusive'', ''terminates_agent'',
     ''peak_vram_gb'', ''peak_vram_per_gpu'', ''schedule_id'', ''re_submission_of'',
     ''yieldable'', ''yield_command'', ''yield_count'', ''max_yields_before_protected'',
     ''executor'', ''platform_os'', ''architecture'', ''cpu_cores'',
     ''memory_gb'', ''disk_gb'', ''region'', ''box_ttl_seconds'',
     ''prompt'', ''prompt_provider'', ''prompt_model'', ''prompt_reasoning_effort'',
     ''secret_env'', ''input_artifacts'', ''resolved_input_artifacts'', ''artifact_paths'',
     ''deadline_at'', ''deferrable'', ''not_before'', ''income_usd_per_hour'',
     ''income_source'']"

lemma job_fields_keys: "map fst (job_fields j) = job_keys"
  by (simp add: job_fields_def job_keys_def)

lemma distinct_job_keys: "distinct job_keys"
  unfolding job_keys_def by code_simp

lemma distinct_job_fields: "distinct (map fst (job_fields j))"
  by (simp add: job_fields_keys distinct_job_keys)

lemma job_object_fields: "list_all (\<lambda>(k, x). obj_get (job_object j) k = x) (job_fields j)"
  unfolding job_object_def using distinct_job_fields by (rule obj_get_all_fields)

text \<open>One equation per field of the record.\<close>

lemmas job_object_get = job_object_fields [unfolded job_fields_def list.pred_inject prod.case simp_thms(21)]

lemma strs_from_value_map [simp]: "strs_from_value (JArr (map JStr xs)) = Some xs"
  by (induction xs)
     (auto simp: strs_from_value_def List.map_filter_def list_all_iff split: if_splits)

lemma f64_from_value_f64_value: "f64_is_finite b \<Longrightarrow> f64_from_value (f64_value b) = Some b"
  by (simp add: f64_value_def)

lemma btree_insert_last:
  "(\<And>k'. k' \<in> fst ` set m \<Longrightarrow> k' < k) \<Longrightarrow> btree_insert k v m = m @ [(k, v)]"
  by (induction k v m rule: btree_insert.induct) (auto simp: less_imp_not_less dest: less_asym)

lemma secret_ref_roundtrip [simp]: "secret_ref_from_value (secret_ref_to_value r) = Some r"
  by (simp add: secret_ref_from_value_def secret_ref_to_value_def get_str_def)

lemma foldl_btree_insert:
  assumes "sorted_wrt (<) (map fst (acc @ m))"
  shows "foldl (\<lambda>acc (k, x). btree_insert k (the (secret_ref_from_value x)) acc) acc
     (map (\<lambda>(n, r). (n, secret_ref_to_value r)) m) = acc @ m"
  using assms
proof (induction m arbitrary: acc)
  case (Cons kv m)
  obtain k r where kv: "kv = (k, r)" by (cases kv)
  have "btree_insert k r acc = acc @ [(k, r)]"
    by (rule btree_insert_last) (use Cons.prems in \<open>auto simp: kv sorted_wrt_append\<close>)
  then show ?case using Cons.IH [of "acc @ [kv]"] Cons.prems by (simp add: kv)
qed simp

lemma secrets_roundtrip:
  "sorted_wrt (<) (map fst m) \<Longrightarrow> secrets_from_value (secrets_to_value m) = Some m"
  using foldl_btree_insert [of "[]" m]
  by (auto simp: secrets_from_value_def secrets_to_value_def list_all_iff)

lemma worker_resource_roundtrip:
  "(case r of Gcp _ _ _ i \<Rightarrow> u64_range i | _ \<Rightarrow> True) \<Longrightarrow>
   worker_resource_from_value (worker_resource_to_value r) = Some r"
  by (cases r) (auto simp: worker_resource_from_value_def get_str_def as_u64_def)

lemma worker_resource_value_not_null [simp]: "worker_resource_to_value r \<noteq> JNull"
  by (cases r) auto

lemma worker_allocation_roundtrip:
  "wf_worker_allocation w \<Longrightarrow>
   worker_allocation_from_value (worker_allocation_to_value w) = Some w"
  using worker_resource_roundtrip [of "the (wa_resource w)"]
  by (cases "wa_resource w"; cases "wa_error w")
     (auto simp: worker_allocation_from_value_def worker_allocation_to_value_def get_str_def
       optional_field_def opt_text_def wf_worker_allocation_def split: json.splits
       worker_resource.splits)

lemma opt_text_reads [simp]: "as_str (opt_text x) = x" "opt_text x = JNull \<longleftrightarrow> x = None"
  by (cases x; simp add: opt_text_def as_str_def)+

lemma worker_allocation_value_not_null [simp]: "worker_allocation_to_value w \<noteq> JNull"
  by (simp add: worker_allocation_to_value_def)

lemma optional_binds:
  "pred_option wf_worker_allocation x \<Longrightarrow>
   Option.bind (map_option worker_allocation_to_value x) worker_allocation_from_value = x"
  "pred_option u64_range y \<Longrightarrow> Option.bind (map_option (\<lambda>n. JInt (int n)) y) as_u64 = y"
  "pred_option f64_is_finite z \<Longrightarrow> Option.bind (map_option f64_value z) f64_from_value = z"
  "Option.bind (map_option JStr s) as_str = s"
  by (cases x; cases y; cases z; cases s;
      simp add: worker_allocation_roundtrip f64_from_value_f64_value)+

lemma optional_checks:
  "pred_option p (flag_field b) \<longleftrightarrow> (b \<longrightarrow> p (JBool True))"
  "pred_option p (text_field t) \<longleftrightarrow> (t \<noteq> [] \<longrightarrow> p (JStr t))"
  "pred_option p (secrets_field m) \<longleftrightarrow> (m \<noteq> [] \<longrightarrow> p (secrets_to_value m))"
  "pred_option wf_worker_allocation x \<Longrightarrow>
   pred_option (\<lambda>v. v = JNull \<or> worker_allocation_from_value v \<noteq> None)
     (map_option worker_allocation_to_value x)"
  "pred_option u64_range y \<Longrightarrow>
   pred_option (\<lambda>v. v = JNull \<or> as_u64 v \<noteq> None) (map_option (\<lambda>n. JInt (int n)) y)"
  "pred_option f64_is_finite z \<Longrightarrow>
   pred_option (\<lambda>v. v = JNull \<or> f64_from_value v \<noteq> None) (map_option f64_value z)"
  "pred_option (\<lambda>v. v = JNull \<or> as_str v \<noteq> None) (map_option JStr s)"
  by (auto simp: flag_field_def text_field_def secrets_field_def worker_allocation_roundtrip
      f64_from_value_f64_value option.pred_map o_def option.pred_True
      elim!: option.pred_mono_strong)

lemmas field_reads = str_or_def int_or_def bool_or_def optstr_or_def f64_or_def optf64_or_def
  optnat_or_def strs_or_def object_or_def secrets_or_def worker_or_def flag_field_def
  text_field_def secrets_field_def

lemmas field_checks = field_ok_def str_ok_def i64_ok_def bool_ok_def f64_ok_def strs_ok_def
  object_ok_def secrets_ok_def optstr_ok_def optnat_ok_def optf64_ok_def worker_ok_def

lemma wf_jobD:
  assumes "wf_job j"
  shows "f64_is_finite (max_cost_per_hour_usd j)" "f64_is_finite (runtime_seconds_estimate j)"
    "pred_option f64_is_finite (income_usd_per_hour j)"
    "pred_option u64_range (submission_command_index j)"
    "pred_option wf_worker_allocation (worker_allocation j)"
    "sorted_wrt (<) (map fst (secret_env j))"
  using assms by (simp_all add: wf_job_def)

lemma wf_job_ints:
  assumes "wf_job j"
  shows "i64_range (gpu_mem_gb j) \<and> i64_range (restarts j) \<and> i64_range (boot_disk_gb j) 
     \<and> i64_range (preempt_count j) \<and> i64_range (max_preempts_before_ondemand j) 
     \<and> i64_range (priority j) \<and> i64_range (dispatch_attempts j) \<and> i64_range 
     (peak_vram_gb j) \<and> i64_range (yield_count j) \<and> i64_range 
     (max_yields_before_protected j) \<and> i64_range (cpu_cores j) \<and> i64_range (memory_gb 
     j) \<and> i64_range (disk_gb j) \<and> i64_range (box_ttl_seconds j)"
  using assms by (simp add: wf_job_def)

lemma job_of_object_job_object:
  assumes "wf_job j"
  shows "job_of_object (job_object j) = j"
  by (intro job.equality)
     (simp_all add: job_of_object_def job_object_get field_reads optional_binds
       wf_jobD [OF assms] f64_from_value_f64_value secrets_roundtrip)

lemma job_object_ok_job_object:
  assumes "wf_job j"
  shows "job_object_ok (job_object j)"
  by (simp add: job_object_ok_def field_checks job_object_get optional_checks secrets_roundtrip
      wf_jobD [OF assms] wf_job_ints [OF assms] f64_from_value_f64_value
      del: not_None_eq)

lemma job_roundtrip [doc_simps]:
  "wf_job j \<Longrightarrow> job_from_value (job_to_value j) = Some j"
  by (simp add: job_from_value_def job_to_value_def job_object_ok_job_object
      job_of_object_job_object)

end
