(* ===== verification/Store.thy ===== *)
theory Store
  imports Jobs
begin

text \<open>
  \<open>src/stado-rs/src/queue/contract/\<close>: the blob contract every storage backend implements and
  every queue operation is written against. An operation of the queue is an \<open>async fn\<close> over
  \<open>dyn BlobBackend\<close>: between two of its calls any other process may act. It is therefore a
  program (\<open>prog\<close>): a tree whose inner nodes are the calls of the trait (and the reads of the
  clock, the random source and the process table), with what follows as a function of the answer.
  A backend is a record of functions on its own state. \<open>run\<close> executes a program against a
  backend with nobody in between, \<open>trace\<close> lists the worlds a run passes through (a crash leaves
  one of them), \<open>all_calls\<close> says something of every call a program can make whatever the
  answers are, so also under any interleaving and any failure.

  \<open>lib\<close> holds the functions of other crates: SHA-256 (\<open>sha2\<close>), RFC 3339 and naive time in a given
  format (\<open>chrono\<close>; an instant is an \<open>int\<close>, in nanoseconds), the number of bytes of a text, and
  random UUIDs (\<open>uuid\<close>). The texts of errors are
  abbreviated; an error keeps its variant, and \<open>NotFound\<close> the path the code compares.
  \<open>OutOfFuel\<close> is no error of the code: it is the answer of a loop of the model whose bound on
  rounds is used up. Every retry loop of the queue (a lost compare-and-swap reads again) takes
  such a bound.
\<close>

datatype storage_error =
    StorageConflict string
  | NotFound string
  | PathEscape string
  | GcsError nat string
  | StadoError nat string string
  | Auth string
  | Held string
  | IoError string
  | JsonError
  | HttpError string
  | Other string
  | OutOfFuel

record versioned_text =
  content :: body
  version :: string

record blob_info =
  bi_name :: string
  bi_updated :: "int option"
  bi_metadata :: "(string \<times> string) list"

datatype listing = Every | Oldest nat

record process_owner =
  po_host :: string
  po_pid :: nat

record lib =
  sha256 :: "body \<Rightarrow> 256 word"
  to_rfc3339 :: "int \<Rightarrow> string"
  parse_rfc3339 :: "string \<Rightarrow> int option"
  parse_naive :: "string \<Rightarrow> string \<Rightarrow> int option"
  format_utc :: "string \<Rightarrow> int \<Rightarrow> string"
  byte_length :: "body \<Rightarrow> nat"
  uuid_simple :: "nat \<Rightarrow> string"

definition nanoseconds :: "int \<Rightarrow> int" where
  "nanoseconds seconds = seconds * 1000000000"

text \<open>\<open>models/python_compat.rs\<close>: an instant to the microsecond, without a fraction that is zero.\<close>

definition isoformat_utc :: "lib \<Rightarrow> int \<Rightarrow> string" where
  "isoformat_utc L t =
     (if (t mod 1000000000) div 1000 = 0 then format_utc L ''%Y-%m-%dT%H:%M:%S+00:00'' t
      else format_utc L ''%Y-%m-%dT%H:%M:%S%.6f+00:00'' t)"

text \<open>\<open>hex::encode(Sha256::digest(..))\<close>.\<close>

definition sha256_hex :: "lib \<Rightarrow> body \<Rightarrow> string" where
  "sha256_hex L t = hex_digits 64 (unat (sha256 L t))"

section \<open>Programs\<close>

datatype 'a prog =
    Ret 'a
  | UploadText string body "storage_error + unit \<Rightarrow> 'a prog"
  | DownloadText string "storage_error + body option \<Rightarrow> 'a prog"
  | UploadTextIfAbsent string body "storage_error + bool \<Rightarrow> 'a prog"
  | DownloadTextVersioned string "storage_error + versioned_text option \<Rightarrow> 'a prog"
  | CompareAndSwapText string string body "storage_error + string \<Rightarrow> 'a prog"
  | DeleteBlob string "storage_error + unit \<Rightarrow> 'a prog"
  | ExistsBlob string "storage_error + bool \<Rightarrow> 'a prog"
  | ListPaths string listing "storage_error + string list \<Rightarrow> 'a prog"
  | ListPage string string "nat option" "storage_error + string list \<Rightarrow> 'a prog"
  | SetMetadata string "(string \<times> string) list" "storage_error + unit \<Rightarrow> 'a prog"
  | ListBlobsWithMeta string "storage_error + blob_info list \<Rightarrow> 'a prog"
  | UpdatedAt string "storage_error + int option \<Rightarrow> 'a prog"
  | Now "int \<Rightarrow> 'a prog"
  | NewUuid "string \<Rightarrow> 'a prog"
  | CurrentProcess "process_owner \<Rightarrow> 'a prog"
  | PidAlive nat "bool \<Rightarrow> 'a prog"
  | OwnerRunning string "bool \<Rightarrow> 'a prog"

primrec bindp :: "'a prog \<Rightarrow> ('a \<Rightarrow> 'b prog) \<Rightarrow> 'b prog" where
  "bindp (Ret a) f = f a"
| "bindp (UploadText p t k) f = UploadText p t (\<lambda>r. bindp (k r) f)"
| "bindp (DownloadText p k) f = DownloadText p (\<lambda>r. bindp (k r) f)"
| "bindp (UploadTextIfAbsent p t k) f = UploadTextIfAbsent p t (\<lambda>r. bindp (k r) f)"
| "bindp (DownloadTextVersioned p k) f = DownloadTextVersioned p (\<lambda>r. bindp (k r) f)"
| "bindp (CompareAndSwapText p v t k) f = CompareAndSwapText p v t (\<lambda>r. bindp (k r) f)"
| "bindp (DeleteBlob p k) f = DeleteBlob p (\<lambda>r. bindp (k r) f)"
| "bindp (ExistsBlob p k) f = ExistsBlob p (\<lambda>r. bindp (k r) f)"
| "bindp (ListPaths p l k) f = ListPaths p l (\<lambda>r. bindp (k r) f)"
| "bindp (ListPage p a l k) f = ListPage p a l (\<lambda>r. bindp (k r) f)"
| "bindp (SetMetadata p kv k) f = SetMetadata p kv (\<lambda>r. bindp (k r) f)"
| "bindp (ListBlobsWithMeta p k) f = ListBlobsWithMeta p (\<lambda>r. bindp (k r) f)"
| "bindp (UpdatedAt p k) f = UpdatedAt p (\<lambda>r. bindp (k r) f)"
| "bindp (Now k) f = Now (\<lambda>r. bindp (k r) f)"
| "bindp (NewUuid k) f = NewUuid (\<lambda>r. bindp (k r) f)"
| "bindp (CurrentProcess k) f = CurrentProcess (\<lambda>r. bindp (k r) f)"
| "bindp (PidAlive p k) f = PidAlive p (\<lambda>r. bindp (k r) f)"
| "bindp (OwnerRunning i k) f = OwnerRunning i (\<lambda>r. bindp (k r) f)"

text \<open>The \<open>?\<close> operator: an error ends the function.\<close>

definition bindE :: "('e + 'a) prog \<Rightarrow> ('a \<Rightarrow> ('e + 'b) prog) \<Rightarrow> ('e + 'b) prog" where
  "bindE p f = bindp p (\<lambda>r. case r of Inl e \<Rightarrow> Ret (Inl e) | Inr a \<Rightarrow> f a)"

abbreviation ok :: "'a \<Rightarrow> ('e + 'a) prog" where
  "ok a \<equiv> Ret (Inr a)"

abbreviation fail :: "'e \<Rightarrow> ('e + 'a) prog" where
  "fail e \<equiv> Ret (Inl e)"

text \<open>An error of one layer converted into another's (\<open>From\<close> or \<open>map_err\<close>).\<close>

definition with_error :: "('e \<Rightarrow> 'f) \<Rightarrow> ('e + 'a) prog \<Rightarrow> ('f + 'a) prog" where
  "with_error g p = bindp p (\<lambda>r. Ret (map_err g r))"

type_synonym 'a storage_prog = "(storage_error + 'a) prog"

section \<open>Backends and execution\<close>

record 's backend =
  be_upload_text :: "'s \<Rightarrow> string \<Rightarrow> body \<Rightarrow> (storage_error + unit) \<times> 's"
  be_download_text :: "'s \<Rightarrow> string \<Rightarrow> storage_error + body option"
  be_upload_text_if_absent :: "'s \<Rightarrow> string \<Rightarrow> body \<Rightarrow> (storage_error + bool) \<times> 's"
  be_download_text_versioned :: "'s \<Rightarrow> string \<Rightarrow> storage_error + versioned_text option"
  be_compare_and_swap_text :: "'s \<Rightarrow> string \<Rightarrow> string \<Rightarrow> body \<Rightarrow> (storage_error + string) \<times> 's"
  be_delete :: "'s \<Rightarrow> string \<Rightarrow> (storage_error + unit) \<times> 's"
  be_exists :: "'s \<Rightarrow> string \<Rightarrow> storage_error + bool"
  be_list_paths :: "'s \<Rightarrow> string \<Rightarrow> listing \<Rightarrow> storage_error + string list"
  be_list_page :: "'s \<Rightarrow> string \<Rightarrow> string \<Rightarrow> nat option \<Rightarrow> storage_error + string list"
  be_set_metadata :: "'s \<Rightarrow> string \<Rightarrow> (string \<times> string) list \<Rightarrow> (storage_error + unit) \<times> 's"
  be_list_blobs_with_meta :: "'s \<Rightarrow> string \<Rightarrow> storage_error + blob_info list"
  be_updated_at :: "'s \<Rightarrow> string \<Rightarrow> storage_error + int option"

text \<open>
  What a process acts on: the shared store, the clock, the random source, and its own view of
  processes (itself, which pids of its host exist, which invocations it has running).
\<close>

record 's world =
  disk :: 's
  clock :: int
  uuids :: nat
  this_process :: process_owner
  live_pids :: "nat list"
  active_owners :: "string list"

primrec run :: "lib \<Rightarrow> 's backend \<Rightarrow> 'a prog \<Rightarrow> 's world \<Rightarrow> 'a \<times> 's world" where
  "run L B (Ret a) w = (a, w)"
| "run L B (UploadText p t k) w =
     (let (r, d) = be_upload_text B (disk w) p t in run L B (k r) (w\<lparr>disk := d\<rparr>))"
| "run L B (DownloadText p k) w = run L B (k (be_download_text B (disk w) p)) w"
| "run L B (UploadTextIfAbsent p t k) w =
     (let (r, d) = be_upload_text_if_absent B (disk w) p t in run L B (k r) (w\<lparr>disk := d\<rparr>))"
| "run L B (DownloadTextVersioned p k) w =
     run L B (k (be_download_text_versioned B (disk w) p)) w"
| "run L B (CompareAndSwapText p v t k) w =
     (let (r, d) = be_compare_and_swap_text B (disk w) p v t in run L B (k r) (w\<lparr>disk := d\<rparr>))"
| "run L B (DeleteBlob p k) w =
     (let (r, d) = be_delete B (disk w) p in run L B (k r) (w\<lparr>disk := d\<rparr>))"
| "run L B (ExistsBlob p k) w = run L B (k (be_exists B (disk w) p)) w"
| "run L B (ListPaths p l k) w = run L B (k (be_list_paths B (disk w) p l)) w"
| "run L B (ListPage p a l k) w = run L B (k (be_list_page B (disk w) p a l)) w"
| "run L B (SetMetadata p kv k) w =
     (let (r, d) = be_set_metadata B (disk w) p kv in run L B (k r) (w\<lparr>disk := d\<rparr>))"
| "run L B (ListBlobsWithMeta p k) w = run L B (k (be_list_blobs_with_meta B (disk w) p)) w"
| "run L B (UpdatedAt p k) w = run L B (k (be_updated_at B (disk w) p)) w"
| "run L B (Now k) w = run L B (k (clock w)) w"
| "run L B (NewUuid k) w =
     run L B (k (uuid_simple L (uuids w))) (w\<lparr>uuids := Suc (uuids w)\<rparr>)"
| "run L B (CurrentProcess k) w = run L B (k (this_process w)) w"
| "run L B (PidAlive p k) w = run L B (k (p \<in> set (live_pids w))) w"
| "run L B (OwnerRunning i k) w = run L B (k (i \<in> set (active_owners w))) w"

text \<open>The worlds before each call of a run.\<close>

primrec trace :: "lib \<Rightarrow> 's backend \<Rightarrow> 'a prog \<Rightarrow> 's world \<Rightarrow> 's world list" where
  "trace L B (Ret a) w = []"
| "trace L B (UploadText p t k) w =
     w # (let (r, d) = be_upload_text B (disk w) p t in trace L B (k r) (w\<lparr>disk := d\<rparr>))"
| "trace L B (DownloadText p k) w = w # trace L B (k (be_download_text B (disk w) p)) w"
| "trace L B (UploadTextIfAbsent p t k) w =
     w # (let (r, d) = be_upload_text_if_absent B (disk w) p t
          in trace L B (k r) (w\<lparr>disk := d\<rparr>))"
| "trace L B (DownloadTextVersioned p k) w =
     w # trace L B (k (be_download_text_versioned B (disk w) p)) w"
| "trace L B (CompareAndSwapText p v t k) w =
     w # (let (r, d) = be_compare_and_swap_text B (disk w) p v t
          in trace L B (k r) (w\<lparr>disk := d\<rparr>))"
| "trace L B (DeleteBlob p k) w =
     w # (let (r, d) = be_delete B (disk w) p in trace L B (k r) (w\<lparr>disk := d\<rparr>))"
| "trace L B (ExistsBlob p k) w = w # trace L B (k (be_exists B (disk w) p)) w"
| "trace L B (ListPaths p l k) w = w # trace L B (k (be_list_paths B (disk w) p l)) w"
| "trace L B (ListPage p a l k) w = w # trace L B (k (be_list_page B (disk w) p a l)) w"
| "trace L B (SetMetadata p kv k) w =
     w # (let (r, d) = be_set_metadata B (disk w) p kv in trace L B (k r) (w\<lparr>disk := d\<rparr>))"
| "trace L B (ListBlobsWithMeta p k) w =
     w # trace L B (k (be_list_blobs_with_meta B (disk w) p)) w"
| "trace L B (UpdatedAt p k) w = w # trace L B (k (be_updated_at B (disk w) p)) w"
| "trace L B (Now k) w = w # trace L B (k (clock w)) w"
| "trace L B (NewUuid k) w =
     w # trace L B (k (uuid_simple L (uuids w))) (w\<lparr>uuids := Suc (uuids w)\<rparr>)"
| "trace L B (CurrentProcess k) w = w # trace L B (k (this_process w)) w"
| "trace L B (PidAlive p k) w = w # trace L B (k (p \<in> set (live_pids w))) w"
| "trace L B (OwnerRunning i k) w = w # trace L B (k (i \<in> set (active_owners w))) w"

text \<open>Where a crash can leave the world: before some call, or after the last one.\<close>

definition crash_worlds :: "lib \<Rightarrow> 's backend \<Rightarrow> 'a prog \<Rightarrow> 's world \<Rightarrow> 's world list" where
  "crash_worlds L B p w = trace L B p w @ [snd (run L B p w)]"

section \<open>The facade's calls\<close>

definition upload_text :: "string \<Rightarrow> body \<Rightarrow> unit storage_prog" where
  "upload_text blob_path content' = UploadText blob_path content' Ret"

definition download_text :: "string \<Rightarrow> body option storage_prog" where
  "download_text blob_path = DownloadText blob_path Ret"

definition create_text_if_absent :: "string \<Rightarrow> body \<Rightarrow> bool storage_prog" where
  "create_text_if_absent blob_path content' = UploadTextIfAbsent blob_path content' Ret"

definition read_text_versioned :: "string \<Rightarrow> versioned_text option storage_prog" where
  "read_text_versioned blob_path = DownloadTextVersioned blob_path Ret"

definition compare_and_swap_text :: "string \<Rightarrow> string \<Rightarrow> body \<Rightarrow> string storage_prog" where
  "compare_and_swap_text blob_path expected_version content' =
     (if expected_version = [] then fail (Other ''expected_version is required for compare-and-swap'')
      else CompareAndSwapText blob_path expected_version content' Ret)"

definition delete_blob :: "string \<Rightarrow> unit storage_prog" where
  "delete_blob blob_path = DeleteBlob blob_path Ret"

definition exists_blob :: "string \<Rightarrow> bool storage_prog" where
  "exists_blob blob_path = ExistsBlob blob_path Ret"

definition list_paths :: "string \<Rightarrow> listing \<Rightarrow> string list storage_prog" where
  "list_paths prefix listing' = ListPaths prefix listing' Ret"

definition list_page :: "string \<Rightarrow> string \<Rightarrow> nat option \<Rightarrow> string list storage_prog" where
  "list_page prefix start_after limit = ListPage prefix start_after limit Ret"

definition set_metadata :: "string \<Rightarrow> (string \<times> string) list \<Rightarrow> unit storage_prog" where
  "set_metadata path kv = SetMetadata path kv Ret"

definition list_blobs_with_meta :: "string \<Rightarrow> blob_info list storage_prog" where
  "list_blobs_with_meta prefix = ListBlobsWithMeta prefix Ret"

definition updated_at :: "string \<Rightarrow> int option storage_prog" where
  "updated_at blob_path = UpdatedAt blob_path Ret"

text \<open>The trait's default: a backend whose listing states its metadata answers that listing.\<close>

definition list_blobs_sized :: "string \<Rightarrow> blob_info list storage_prog" where
  "list_blobs_sized prefix = list_blobs_with_meta prefix"

definition now :: "int prog" where
  "now = Now Ret"

definition new_uuid :: "string prog" where
  "new_uuid = NewUuid Ret"

lemmas facade_defs = upload_text_def download_text_def create_text_if_absent_def
  read_text_versioned_def compare_and_swap_text_def delete_blob_def exists_blob_def
  list_paths_def list_page_def set_metadata_def list_blobs_with_meta_def
  updated_at_def now_def new_uuid_def

section \<open>Laws of programs\<close>

lemma sha256_hex_length [simp]: "length (sha256_hex L t) = 64"
  by (simp add: sha256_hex_def)

lemma sha256_hex_nonempty [simp]: "sha256_hex L t \<noteq> []"
  using sha256_hex_length [of L t] by (metis list.size(3) zero_neq_numeral)

lemma sha256_hex_lower [simp]: "list_all is_lower_hex (sha256_hex L t)"
  by (simp add: sha256_hex_def lower_hex_digits)

lemma bindp_Ret_right [simp]: "bindp p Ret = p"
  by (induction p) (auto simp: fun_eq_iff)

lemma bindp_assoc: "bindp (bindp p f) g = bindp p (\<lambda>a. bindp (f a) g)"
  by (induction p) (auto simp: fun_eq_iff)

lemma run_bindp [run_simps]:
  "run L B (bindp p f) w = (case run L B p w of (a, w') \<Rightarrow> run L B (f a) w')"
  by (induction p arbitrary: w) (auto simp: Let_def split: prod.splits)

lemma trace_bindp [run_simps]:
  "trace L B (bindp p f) w =
     trace L B p w @ (case run L B p w of (a, w') \<Rightarrow> trace L B (f a) w')"
  by (induction p arbitrary: w) (auto simp: Let_def split: prod.splits)

lemma bindE_simps [simp]: "bindE (ok a) f = f a" "bindE (fail e) f = fail e"
  by (simp_all add: bindE_def)

lemma run_bindE [run_simps]:
  "run L B (bindE p f) w =
     (case run L B p w of (Inl e, w') \<Rightarrow> (Inl e, w') | (Inr a, w') \<Rightarrow> run L B (f a) w')"
  by (auto simp: bindE_def run_bindp split: prod.splits sum.splits)

lemma trace_bindE [run_simps]:
  "trace L B (bindE p f) w =
     trace L B p w @ (case run L B p w of (Inl e, w') \<Rightarrow> [] | (Inr a, w') \<Rightarrow> trace L B (f a) w')"
  by (auto simp: bindE_def trace_bindp split: prod.splits sum.splits)

lemma run_with_error [run_simps]:
  "run L B (with_error g p) w = (case run L B p w of (r, w') \<Rightarrow> (map_err g r, w'))"
  by (simp add: with_error_def run_bindp split: prod.splits)

lemma run_now [run_simps]: "run L B now w = (clock w, w)"
  by (simp add: now_def)

lemma run_new_uuid [run_simps]:
  "run L B new_uuid w = (uuid_simple L (uuids w), w\<lparr>uuids := Suc (uuids w)\<rparr>)"
  by (simp add: new_uuid_def)

text \<open>No program moves the clock back or changes what the process knows of processes.\<close>

lemma run_frame:
  "clock (snd (run L B p w)) = clock w \<and> this_process (snd (run L B p w)) = this_process w \<and>
   live_pids (snd (run L B p w)) = live_pids w \<and>
   active_owners (snd (run L B p w)) = active_owners w"
  by (induction p arbitrary: w) (auto simp: Let_def split: prod.splits)

end
