(* ===== verification/Contract.thy ===== *)
theory Contract
  imports Store
begin

text \<open>
  The promises of the blob contract (\<open>BlobBackend\<close>, \<open>queue/contract/backend.rs\<close>) as a locale:
  what a read answers after a write, that a create and a swap are decided atomically by what the
  blob holds, that a version token names the content it was read with. The client lemmas execute
  each call of a program against any backend that keeps them. \<open>all_calls\<close> bounds the calls a
  program can ever make; \<open>conditional_only\<close> is the discipline of the job lifecycle: a job document
  is written by a create-if-absent or by a swap at a version, never blindly.
\<close>

section \<open>Every call a program can make\<close>

datatype call =
    Overwrite string body
  | Create string body
  | Swap string string body
  | Remove string
  | Annotate string
  | Observe

primrec all_calls :: "(call \<Rightarrow> bool) \<Rightarrow> 'a prog \<Rightarrow> bool" where
  "all_calls P (Ret a) = True"
| "all_calls P (UploadText p t k) = (P (Overwrite p t) \<and> (\<forall>r. all_calls P (k r)))"
| "all_calls P (DownloadText p k) = (P Observe \<and> (\<forall>r. all_calls P (k r)))"
| "all_calls P (UploadTextIfAbsent p t k) = (P (Create p t) \<and> (\<forall>r. all_calls P (k r)))"
| "all_calls P (DownloadTextVersioned p k) = (P Observe \<and> (\<forall>r. all_calls P (k r)))"
| "all_calls P (CompareAndSwapText p v t k) = (P (Swap p v t) \<and> (\<forall>r. all_calls P (k r)))"
| "all_calls P (DeleteBlob p k) = (P (Remove p) \<and> (\<forall>r. all_calls P (k r)))"
| "all_calls P (ExistsBlob p k) = (P Observe \<and> (\<forall>r. all_calls P (k r)))"
| "all_calls P (ListPaths p l k) = (P Observe \<and> (\<forall>r. all_calls P (k r)))"
| "all_calls P (ListPage p a l k) = (P Observe \<and> (\<forall>r. all_calls P (k r)))"
| "all_calls P (SetMetadata p kv k) = (P (Annotate p) \<and> (\<forall>r. all_calls P (k r)))"
| "all_calls P (ListBlobsWithMeta p k) = (P Observe \<and> (\<forall>r. all_calls P (k r)))"
| "all_calls P (UpdatedAt p k) = (P Observe \<and> (\<forall>r. all_calls P (k r)))"
| "all_calls P (Now k) = (\<forall>r. all_calls P (k r))"
| "all_calls P (NewUuid k) = (\<forall>r. all_calls P (k r))"
| "all_calls P (CurrentProcess k) = (\<forall>r. all_calls P (k r))"
| "all_calls P (PidAlive p k) = (\<forall>r. all_calls P (k r))"
| "all_calls P (OwnerRunning i k) = (\<forall>r. all_calls P (k r))"

lemma all_calls_bindp [intro]:
  "all_calls P p \<Longrightarrow> (\<And>a. all_calls P (f a)) \<Longrightarrow> all_calls P (bindp p f)"
  by (induction p) auto

lemma all_calls_bindE [intro]:
  "all_calls P p \<Longrightarrow> (\<And>a. all_calls P (f a)) \<Longrightarrow> all_calls P (bindE p f)"
  by (auto simp: bindE_def intro!: all_calls_bindp split: sum.splits)

lemma all_calls_with_error [intro]: "all_calls P p \<Longrightarrow> all_calls P (with_error g p)"
  by (auto simp: with_error_def)

lemma all_calls_mono:
  "all_calls P p \<Longrightarrow> (\<And>c. P c \<Longrightarrow> Q c) \<Longrightarrow> all_calls Q p"
  by (induction p) auto

lemma all_calls_facade [simp]:
  "all_calls P (upload_text p t) = P (Overwrite p t)"
  "all_calls P (download_text p) = P Observe"
  "all_calls P (create_text_if_absent p t) = P (Create p t)"
  "all_calls P (read_text_versioned p) = P Observe"
  "all_calls P (compare_and_swap_text p v t) = (v = [] \<or> P (Swap p v t))"
  "all_calls P (delete_blob p) = P (Remove p)"
  "all_calls P (exists_blob p) = P Observe"
  "all_calls P (list_paths p l) = P Observe"
  "all_calls P (list_page p a n) = P Observe"
  "all_calls P (set_metadata p kv) = P (Annotate p)"
  "all_calls P (list_blobs_with_meta p) = P Observe"
  "all_calls P (list_blobs_sized p) = P Observe"
  "all_calls P (updated_at p) = P Observe"
  "all_calls P now" "all_calls P new_uuid"
  by (simp_all add: facade_defs list_blobs_sized_def)

text \<open>No blind write and no delete of a path in \<open>guarded\<close>.\<close>

fun conditional_only :: "(string \<Rightarrow> bool) \<Rightarrow> call \<Rightarrow> bool" where
  "conditional_only guarded (Overwrite p t) = (\<not> guarded p)"
| "conditional_only guarded (Remove p) = (\<not> guarded p)"
| "conditional_only guarded (Swap p v t) = (v \<noteq> [])"
| "conditional_only guarded _ = True"

section \<open>The contract\<close>

locale blob_store =
  fixes B :: "'s backend"
    and view :: "'s \<Rightarrow> string \<Rightarrow> body option"
    and put :: "'s \<Rightarrow> string \<Rightarrow> body \<Rightarrow> 's"
    and remove :: "'s \<Rightarrow> string \<Rightarrow> 's"
    and annotate :: "'s \<Rightarrow> string \<Rightarrow> (string \<times> string) list \<Rightarrow> 's"
    and token :: "body \<Rightarrow> string"
    and refusal :: "string \<Rightarrow> string"
    and good :: "string \<Rightarrow> bool"
    and ready :: "'s \<Rightarrow> bool"
  assumes download_law: "ready s \<Longrightarrow> good p \<Longrightarrow> be_download_text B s p = Inr (view s p)"
    and versioned_law: "ready s \<Longrightarrow> good p \<Longrightarrow>
      be_download_text_versioned B s p =
        Inr (map_option (\<lambda>t. \<lparr>content = t, version = token t\<rparr>) (view s p))"
    and exists_law: "ready s \<Longrightarrow> good p \<Longrightarrow> be_exists B s p = Inr (view s p \<noteq> None)"
    and upload_law: "ready s \<Longrightarrow> good p \<Longrightarrow> be_upload_text B s p t = (Inr (), put s p t)"
    and create_law: "ready s \<Longrightarrow> good p \<Longrightarrow>
      be_upload_text_if_absent B s p t =
        (if view s p = None then (Inr True, put s p t) else (Inr False, s))"
    and swap_law: "ready s \<Longrightarrow> good p \<Longrightarrow>
      be_compare_and_swap_text B s p v t =
        (case view s p of
           None \<Rightarrow> (Inl (NotFound p), s)
         | Some c \<Rightarrow> if token c = v then (Inr (token t), put s p t)
                    else (Inl (StorageConflict (refusal p)), s))"
    and delete_law: "ready s \<Longrightarrow> good p \<Longrightarrow> be_delete B s p = (Inr (), remove s p)"
    and metadata_law: "ready s \<Longrightarrow> good p \<Longrightarrow> be_set_metadata B s p kv = (Inr (), annotate s p kv)"
    and view_put: "good p \<Longrightarrow> good q \<Longrightarrow> view (put s p t) q = (if q = p then Some t else view s q)"
    and view_remove: "good p \<Longrightarrow> good q \<Longrightarrow> view (remove s p) q = (if q = p then None else view s q)"
    and view_annotate: "view (annotate s p kv) q = view s q"
    and ready_put: "ready s \<Longrightarrow> good p \<Longrightarrow> ready (put s p t)"
    and ready_remove: "ready s \<Longrightarrow> good p \<Longrightarrow> ready (remove s p)"
    and ready_annotate: "ready s \<Longrightarrow> ready (annotate s p kv)"
begin

lemmas store_simps = view_put view_remove view_annotate ready_put ready_remove ready_annotate

lemma run_calls:
  assumes "ready (disk w)" and "good p"
  shows "run L B (download_text p) w = (Inr (view (disk w) p), w)"
    and "run L B (read_text_versioned p) w =
      (Inr (map_option (\<lambda>t. \<lparr>content = t, version = token t\<rparr>) (view (disk w) p)), w)"
    and "run L B (exists_blob p) w = (Inr (view (disk w) p \<noteq> None), w)"
    and "run L B (upload_text p t) w = (Inr (), w\<lparr>disk := put (disk w) p t\<rparr>)"
    and "run L B (create_text_if_absent p t) w =
      (if view (disk w) p = None then (Inr True, w\<lparr>disk := put (disk w) p t\<rparr>) else (Inr False, w))"
    and "run L B (delete_blob p) w = (Inr (), w\<lparr>disk := remove (disk w) p\<rparr>)"
    and "run L B (set_metadata p kv) w = (Inr (), w\<lparr>disk := annotate (disk w) p kv\<rparr>)"
  using assms
  by (simp_all add: facade_defs download_law versioned_law exists_law upload_law create_law
      delete_law metadata_law)

lemma run_swap:
  assumes "ready (disk w)" and "good p" and "v \<noteq> []"
  shows "run L B (compare_and_swap_text p v t) w =
    (case view (disk w) p of
       None \<Rightarrow> (Inl (NotFound p), w)
     | Some c \<Rightarrow> if token c = v then (Inr (token t), w\<lparr>disk := put (disk w) p t\<rparr>)
                else (Inl (StorageConflict (refusal p)), w))"
  using assms by (simp add: facade_defs swap_law split: option.splits)

lemma trace_calls:
  "trace L B (download_text p) w = [w]"
  "trace L B (read_text_versioned p) w = [w]"
  "trace L B (exists_blob p) w = [w]"
  "trace L B (upload_text p t) w = [w]"
  "trace L B (create_text_if_absent p t) w = [w]"
  "trace L B (delete_blob p) w = [w]"
  "trace L B (set_metadata p kv) w = [w]"
  "v \<noteq> [] \<Longrightarrow> trace L B (compare_and_swap_text p v t) w = [w]"
  by (simp_all add: facade_defs split: prod.splits)

text \<open>A swap that was answered with a version replaced exactly the content that version names.\<close>

lemma swap_applies:
  assumes "ready (disk w)" and "good p" and "v \<noteq> []"
    and "run L B (compare_and_swap_text p v t) w = (Inr v', w')"
  shows "\<exists>c. view (disk w) p = Some c \<and> token c = v \<and> v' = token t \<and>
    w' = w\<lparr>disk := put (disk w) p t\<rparr>"
  using assms by (auto simp: run_swap split: option.splits if_splits)

end

text \<open>
  What a listing promises: it names blobs that are there, each by a path the store serves, and for a
  prefix that ends at a directory boundary it names all of them.
\<close>

locale listed_store = blob_store B view put remove annotate token refusal good ready
  for B :: "'s backend" and view put remove annotate token refusal good ready +
  fixes boundary :: "string \<Rightarrow> bool"
  assumes list_law: "ready s \<Longrightarrow>
      \<exists>ps. be_list_paths B s P Every = Inr ps \<and>
        (\<forall>p \<in> set ps. good p \<and> starts_with p P \<and> view s p \<noteq> None) \<and>
        (boundary P \<longrightarrow> (\<forall>p. good p \<longrightarrow> starts_with p P \<longrightarrow> view s p \<noteq> None \<longrightarrow> p \<in> set ps))"
    and meta_law: "ready s \<Longrightarrow>
      \<exists>bs. be_list_blobs_with_meta B s P = Inr bs \<and>
        (\<forall>b \<in> set bs. good (bi_name b) \<and> starts_with (bi_name b) P \<and> view s (bi_name b) \<noteq> None) \<and>
        (boundary P \<longrightarrow> (\<forall>p. good p \<longrightarrow> starts_with p P \<longrightarrow> view s p \<noteq> None \<longrightarrow> p \<in> bi_name ` set bs))"
begin

lemma run_list_paths:
  assumes "ready (disk w)"
  obtains ps where "run L B (list_paths P Every) w = (Inr ps, w)"
    and "\<And>p. p \<in> set ps \<Longrightarrow> good p \<and> starts_with p P \<and> view (disk w) p \<noteq> None"
    and "\<And>p. boundary P \<Longrightarrow> good p \<Longrightarrow> starts_with p P \<Longrightarrow> view (disk w) p \<noteq> None \<Longrightarrow> p \<in> set ps"
  using list_law [OF assms, of P] by (auto simp: facade_defs)

lemma run_list_blobs:
  assumes "ready (disk w)"
  obtains bs where "run L B (list_blobs_with_meta P) w = (Inr bs, w)"
    and "\<And>b. b \<in> set bs \<Longrightarrow>
      good (bi_name b) \<and> starts_with (bi_name b) P \<and> view (disk w) (bi_name b) \<noteq> None"
    and "\<And>p. boundary P \<Longrightarrow> good p \<Longrightarrow> starts_with p P \<Longrightarrow> view (disk w) p \<noteq> None \<Longrightarrow> p \<in> bi_name ` set bs"
  using meta_law [OF assms, of P] by (auto simp: facade_defs)

end

end
