(* ===== verification/Identity.thy ===== *)
theory Identity
  imports Contract
begin

text \<open>
  What names a job and what a job decides for itself: the methods of the record
  (\<open>models/job/methods.rs\<close>, \<open>models/activation.rs\<close>), the canonical digest of a JSON value
  (\<open>queue/submit/mod.rs\<close>) and the identities derived from it (\<open>queue/submit/request/\<close>), with the
  immutable projection every readback compares.
\<close>

section \<open>Methods of the record\<close>

definition hourly_cap_usd :: "job \<Rightarrow> f64 option" where
  "hourly_cap_usd j =
     (let cap = max_cost_per_hour_usd j
      in if f64_is_normal cap \<and> \<not> f64_negative cap then Some cap else None)"

definition loss_kind :: "string \<Rightarrow> string" where
  "loss_kind text' =
     (case split_once (CHR ''('') text' of Some (head, _) \<Rightarrow> trim head | None \<Rightarrow> trim text')"

definition restart_refusal :: "job \<Rightarrow> string \<Rightarrow> string option" where
  "restart_refusal j reason =
     (if submitter_restarts j
      then Some (reason @ ''; its submitter starts every new launch itself'')
      else (case error j of
              None \<Rightarrow> None
            | Some previous \<Rightarrow>
                if loss_kind previous = loss_kind reason
                then Some (reason @ '', after the same loss had already put it back once ('' @
                       previous @ '')'')
                else None))"

lemma restart_refused_exactly:
  "restart_refusal j reason = None \<longleftrightarrow>
     \<not> submitter_restarts j \<and>
     (error j = None \<or> (\<exists>previous. error j = Some previous \<and> loss_kind previous \<noteq> loss_kind reason))"
  by (auto simp: restart_refusal_def split: option.splits)

definition removed_activation_package :: string where
  "removed_activation_package = ''wisent.scripts.activations''"

definition removed_activation_command_reason :: "string \<Rightarrow> string option" where
  "removed_activation_command_reason command' =
     (if contains_str command' removed_activation_package
      then Some ''refusing a wisent.scripts.activations job'' else None)"

definition finalize_new :: "lib \<Rightarrow> job \<Rightarrow> job prog" where
  "finalize_new L j =
     (if created_at j = [] then bindp now (\<lambda>t. Ret (j\<lparr>created_at := to_rfc3339 L t\<rparr>)) else Ret j)"

text \<open>The record every field of which is its declared default.\<close>

definition job_default :: job where
  "job_default = job_of_object []"

definition job_new :: "lib \<Rightarrow> string \<Rightarrow> string \<Rightarrow> job prog" where
  "job_new L id' command' = finalize_new L (job_default\<lparr>job_id := id', command := command'\<rparr>)"

definition to_json :: "job \<Rightarrow> body" where
  "to_json j = Json (job_to_value j)"

definition from_json :: "lib \<Rightarrow> body \<Rightarrow> job storage_prog" where
  "from_json L text' =
     (case text' of
        Json v \<Rightarrow> (case job_from_value v of
                    None \<Rightarrow> fail JsonError
                  | Some j \<Rightarrow> bindp (finalize_new L j) ok)
      | _ \<Rightarrow> fail JsonError)"

section \<open>Digests\<close>

text \<open>
  \<open>json_dumps_sorted_compact\<close> at the level of values: the entries of every object collected into a
  map ordered by key.
\<close>

definition btree_collect :: "json_object \<Rightarrow> json_object" where
  "btree_collect o' = foldl (\<lambda>m (k, v). btree_insert k v m) [] o'"

fun sorted_value :: "json \<Rightarrow> json"
  and sorted_values :: "json list \<Rightarrow> json list"
  and sorted_entries :: "json_object \<Rightarrow> json_object" where
  "sorted_value (JObj o') = JObj (btree_collect (sorted_entries o'))"
| "sorted_value (JArr xs) = JArr (sorted_values xs)"
| "sorted_value v = v"
| "sorted_values [] = []"
| "sorted_values (x # xs) = sorted_value x # sorted_values xs"
| "sorted_entries [] = []"
| "sorted_entries (kv # o') = (fst kv, sorted_value (snd kv)) # sorted_entries o'"

definition digest_value :: "lib \<Rightarrow> json \<Rightarrow> string" where
  "digest_value L v = sha256_hex L (Json (sorted_value v))"

section \<open>Names of runs and jobs\<close>

text \<open>The characters of a text, each by its first byte: continuation bytes of UTF-8 are skipped.\<close>

definition text_chars :: "string \<Rightarrow> string" where
  "text_chars s = filter (\<lambda>c. let n = (of_char c :: nat) in n < 128 \<or> 192 \<le> n) s"

definition trim_dashes :: "string \<Rightarrow> string" where
  "trim_dashes s =
     rev (dropWhile (\<lambda>c. c = CHR ''-'') (rev (dropWhile (\<lambda>c. c = CHR ''-'') s)))"

definition stable_run_id :: "lib \<Rightarrow> string \<Rightarrow> string \<Rightarrow> string" where
  "stable_run_id L scope token =
     (let digest = digest_value L (JObj [(''scope'', JStr scope), (''token'', JStr token)]);
          label = trim_dashes (take 32 (map (\<lambda>c.
            if is_ascii_alphanumeric c \<or> c = CHR ''-'' \<or> c = CHR ''_'' then c else CHR ''-'')
            (text_chars scope)));
          label = (if label = [] then ''scope'' else label)
      in ''run-'' @ label @ ''-'' @ take 24 digest)"

definition run_id_ok :: "string \<Rightarrow> bool" where
  "run_id_ok run_id' \<longleftrightarrow>
     run_id' \<noteq> [] \<and> run_id' \<noteq> ''.'' \<and> run_id' \<noteq> ''..'' \<and>
     list_all (\<lambda>c. is_ascii_alphanumeric c \<or> c = CHR ''-'' \<or> c = CHR ''_'' \<or> c = CHR ''.'') run_id'"

definition job_id_head :: string where
  "job_id_head = ''job-''"

definition job_id_hex_len :: nat where
  "job_id_hex_len = 24"

definition is_canonical_job_id :: "string \<Rightarrow> bool" where
  "is_canonical_job_id id' \<longleftrightarrow>
     (case strip_prefix id' job_id_head of
        None \<Rightarrow> False
      | Some suffix \<Rightarrow> length suffix = job_id_hex_len \<and> list_all is_lower_hex suffix)"

definition job_id_prefix :: "string \<Rightarrow> string option" where
  "job_id_prefix text' =
     (let hex = (case strip_prefix text' job_id_head of Some hex \<Rightarrow> hex | None \<Rightarrow> text')
      in if hex \<noteq> [] \<and> list_all is_lower_hex hex \<and> length hex \<le> job_id_hex_len
         then Some (job_id_head @ hex) else None)"

definition submission_job_key :: "lib \<Rightarrow> string \<Rightarrow> nat \<Rightarrow> string \<Rightarrow> string" where
  "submission_job_key L request_digest index command' =
     digest_value L (JObj [(''request_digest'', JStr request_digest),
       (''command_index'', JInt (int index)), (''command'', JStr command')])"

definition job_id_from_key :: "string \<Rightarrow> string" where
  "job_id_from_key key = job_id_head @ take job_id_hex_len key"

section \<open>The immutable projection\<close>

definition mutable_fields :: "string list" where
  "mutable_fields =
     [''state'', ''provider'', ''pin_to_provider'', ''started_at'', ''completed_at'',
      ''lease_expires_at'', ''failed_at'', ''instance_ref'', ''worker_allocation'', ''gpu_uuid'',
      ''restarts'', ''last_restart'', ''error'', ''preempt_count'', ''priority'',
      ''dispatch_attempts'', ''last_dispatch_attempt'', ''assigned_to'', ''provider'',
      ''pin_to_provider'', ''runtime_seconds_estimate'', ''gpu_mem_gb'', ''peak_vram_gb'',
      ''peak_vram_per_gpu'', ''yield_count'', ''artifact_paths'', ''not_before'']"

definition immutable_job_projection :: "job \<Rightarrow> json" where
  "immutable_job_projection j = JObj (obj_remove_all mutable_fields (job_object j))"

abbreviation same_identity :: "job \<Rightarrow> job \<Rightarrow> bool" where
  "same_identity a b \<equiv> value_eq (immutable_job_projection a) (immutable_job_projection b)"

section \<open>Lemmas\<close>

lemma run_finalize_new [run_simps]:
  "created_at j \<noteq> [] \<Longrightarrow> finalize_new L j = Ret j"
  by (simp add: finalize_new_def)

lemma from_json_to_json [doc_simps]:
  "wf_job j \<Longrightarrow> created_at j \<noteq> [] \<Longrightarrow> from_json L (to_json j) = ok j"
  by (simp add: from_json_def to_json_def doc_simps run_simps)

lemma all_calls_from_json [simp]: "all_calls P (from_json L t)"
  by (auto simp: from_json_def finalize_new_def intro!: all_calls_bindp split: body.splits option.splits)

lemma all_calls_job_new [simp]: "all_calls P (job_new L a b)"
  by (auto simp: job_new_def finalize_new_def)

lemma obj_remove_all_present_fields:
  "obj_remove_all ks (present_fields fs) = present_fields (filter (\<lambda>(k, _). k \<notin> set ks) fs)"
  by (induction fs) (auto simp: obj_remove_all_def present_fields_simps split: option.splits)

lemma immutable_fields:
  "immutable_job_projection j =
     JObj (present_fields (filter (\<lambda>(k, _). k \<notin> set mutable_fields) (job_fields j)))"
  by (simp add: immutable_job_projection_def job_object_def obj_remove_all_present_fields)

lemma wf_entries_iff: "wf_entries es \<longleftrightarrow> (\<forall>kv \<in> set es. wf_json (snd kv))"
  by (induction es) auto

lemma set_present_fields: "set (present_fields fs) = {(k, v). (k, Some v) \<in> set fs}"
  by (induction fs) (auto simp: present_fields_simps split: option.splits)

lemma distinct_present_fields:
  "distinct (map fst fs) \<Longrightarrow> distinct (map fst (present_fields fs))"
  by (induction fs) (force simp: present_fields_simps set_present_fields split: option.splits)+

lemma wf_present_fields:
  assumes "distinct (map fst fs)" and "\<And>k v. (k, Some v) \<in> set fs \<Longrightarrow> wf_json v"
  shows "wf_json (JObj (present_fields fs))"
  using assms by (auto simp: distinct_present_fields wf_entries_iff set_present_fields)

lemma wf_worker_resource_value [simp]: "wf_json (worker_resource_to_value r)"
  by (cases r) simp_all

lemma wf_json_parts [simp]:
  "wf_json (opt_text x)" "wf_json (f64_value b)" "list_all wf_json (map JStr xs)"
  "wf_json (worker_allocation_to_value wa)"
  by (simp_all add: opt_text_def f64_value_def list_all_iff worker_allocation_to_value_def
      split: option.splits)

lemma wf_secrets_value:
  "sorted_wrt (<) (map fst m) \<Longrightarrow> wf_json (secrets_to_value m)"
  by (auto simp: secrets_to_value_def wf_entries_iff secret_ref_to_value_def comp_def split_def
      strict_sorted_iff)

lemma wf_job_fields:
  assumes "wf_job j"
  shows "list_all (\<lambda>(k, x). pred_option wf_json x) (job_fields j)"
  using wf_jobD(6) [OF assms] assms
  by (simp add: job_fields_def flag_field_def text_field_def secrets_field_def wf_secrets_value
      wf_job_def option.pred_map comp_def option.pred_True)

lemma wf_job_to_value:
  assumes "wf_job j"
  shows "wf_json (job_to_value j)"
  unfolding job_to_value_def job_object_def
  using wf_job_fields [OF assms] distinct_job_fields
  by (intro wf_present_fields) (auto simp: list_all_iff)

lemma same_identity_refl [simp]:
  assumes "wf_job j"
  shows "same_identity j j"
proof (rule value_eq_refl, unfold immutable_fields, rule wf_present_fields)
  show "distinct (map fst (filter (\<lambda>(k, _). k \<notin> set mutable_fields) (job_fields j)))"
    using distinct_job_fields by (rule distinct_map_filter)
  show "\<And>k v. (k, Some v) \<in> set (filter (\<lambda>(k, _). k \<notin> set mutable_fields) (job_fields j)) \<Longrightarrow>
    wf_json v"
    using wf_job_fields [OF assms] by (auto simp: list_all_iff)
qed

text \<open>
  Which fields stay is decided by their names alone, so once for every record: the names and the
  values of the fields are kept apart, and a change of a mutable field does not reach the values
  that stay.
\<close>

fun select :: "bool list \<Rightarrow> 'a list \<Rightarrow> 'a list" where
  "select (b # bs) (x # xs) = (if b then x # select bs xs else select bs xs)"
| "select _ _ = []"

definition job_values :: "job \<Rightarrow> json option list" where
  "job_values j = [
     Some (JStr (job_id j)), Some (JStr (command j)), Some (JInt (gpu_mem_gb j)),
     Some (JStr (gpu_type j)), Some (JStr (machine_type j)), Some (JStr (provider j)),
     Some (JStr (batch_id j)), Some (JStr (state j)), Some (JStr (created_at j)),
     Some (opt_text (started_at j)), Some (opt_text (completed_at j)),
     Some (opt_text (failed_at j)), Some (opt_text (instance_ref j)),
     map_option worker_allocation_to_value (worker_allocation j),
     map_option JStr (gpu_uuid j), map_option JStr (lease_expires_at j),
     Some (JInt (restarts j)), flag_field (submitter_restarts j),
     Some (opt_text (last_restart j)), Some (JStr (image j)), Some (JStr (image_project j)),
     Some (JInt (boot_disk_gb j)), Some (JStr (startup_script_uri j)),
     Some (opt_text (error j)), Some (JBool (preemptible j)),
     Some (JBool (pin_to_provider j)), Some (f64_value (max_cost_per_hour_usd j)),
     Some (JInt (preempt_count j)), Some (JInt (max_preempts_before_ondemand j)),
     Some (JInt (priority j)), Some (JInt (dispatch_attempts j)),
     Some (opt_text (last_dispatch_attempt j)), Some (JStr (submitted_by j)),
     Some (JStr (submitted_from j)), Some (JStr (submitted_via j)), Some (JStr (run_id j)),
     Some (JStr (submitter_app j)), text_field (submission_request_digest j),
     map_option (\<lambda>n. JInt (int n)) (submission_command_index j), Some (JStr (repo j)),
     text_field (repo_ref j), Some (JStr (repo_workdir j)), Some (JStr (repo_extras j)),
     Some (JStr (verify_command j)), Some (JStr (assigned_to j)), Some (JStr (pinned_host j)),
     Some (f64_value (runtime_seconds_estimate j)), Some (JStr (pre_command j)),
     Some (JArr (map JStr (apt_packages j))), Some (JStr (output_uri j)),
     Some (JBool (exclusive j)), flag_field (terminates_agent j),
     Some (JInt (peak_vram_gb j)), Some (JBool (peak_vram_per_gpu j)),
     Some (JStr (schedule_id j)), Some (JStr (re_submission_of j)),
     Some (JBool (yieldable j)), Some (JStr (yield_command j)), Some (JInt (yield_count j)),
     Some (JInt (max_yields_before_protected j)), Some (JStr (executor j)),
     Some (JStr (platform_os j)), Some (JStr (architecture j)), Some (JInt (cpu_cores j)),
     Some (JInt (memory_gb j)), Some (JInt (disk_gb j)), Some (JStr (region j)),
     Some (JInt (box_ttl_seconds j)), Some (JStr (prompt j)), Some (JStr (prompt_provider j)),
     Some (JStr (prompt_model j)), Some (JStr (prompt_reasoning_effort j)),
     secrets_field (secret_env j), Some (JObj (input_artifacts j)),
     Some (JObj (resolved_input_artifacts j)), Some (JArr (map JStr (artifact_paths j))),
     map_option JStr (deadline_at j), flag_field (deferrable j),
     map_option JStr (not_before j), map_option f64_value (income_usd_per_hour j),
     map_option JStr (income_source j)]"

definition kept_mask :: "bool list" where
  "kept_mask = [
     True, True, False, True, True, False, True, False, True, False, False, False, False,
     False, False, False, False, True, False, True, True, True, True, False, True, False,
     True, False, True, False, False, False, True, True, True, True, True, True, True, True,
     True, True, True, True, False, True, False, True, True, True, True, True, False, False,
     True, True, True, True, False, True, True, True, True, True, True, True, True, True,
     True, True, True, True, True, True, True, False, True, True, False, True, True]"

lemma filter_by_name: "filter (\<lambda>(k, _). P k) fs = select (map P (map fst fs)) fs"
  by (induction fs) auto

lemma select_zip: "select bs (zip xs ys) = zip (select bs xs) (select bs ys)" if "length xs = length ys"
  using that
proof (induction bs xs arbitrary: ys rule: select.induct)
  case (1 b bs x xs)
  then show ?case by (cases ys) auto
qed auto

lemma kept_mask: "map (\<lambda>k. k \<notin> set mutable_fields) job_keys = kept_mask"
  by code_simp

lemma length_job_values: "length job_keys = length (job_values j)"
  by (simp add: job_keys_def job_values_def)

lemma job_fields_zip: "job_fields j = zip job_keys (job_values j)"
  by (simp only: job_fields_def job_keys_def job_values_def zip_Cons_Cons zip_Nil)

lemma immutable_selected:
  "immutable_job_projection j =
     JObj (present_fields (zip (select kept_mask job_keys) (select kept_mask (job_values j))))"
  by (simp only: immutable_fields filter_by_name job_fields_keys kept_mask)
     (simp only: job_fields_zip select_zip length_job_values)

lemmas select_values = kept_mask_def job_values_def

text \<open>Two records that differ in mutable fields only have one identity.\<close>

lemma immutable_job_projection_updates [simp]:
  "immutable_job_projection (j\<lparr>state := a\<rparr>) = immutable_job_projection j"
  "immutable_job_projection (j\<lparr>started_at := x\<rparr>) = immutable_job_projection j"
  "immutable_job_projection (j\<lparr>completed_at := x\<rparr>) = immutable_job_projection j"
  "immutable_job_projection (j\<lparr>failed_at := x\<rparr>) = immutable_job_projection j"
  "immutable_job_projection (j\<lparr>lease_expires_at := x\<rparr>) = immutable_job_projection j"
  "immutable_job_projection (j\<lparr>instance_ref := x\<rparr>) = immutable_job_projection j"
  "immutable_job_projection (j\<lparr>worker_allocation := wa\<rparr>) = immutable_job_projection j"
  "immutable_job_projection (j\<lparr>gpu_uuid := x\<rparr>) = immutable_job_projection j"
  "immutable_job_projection (j\<lparr>restarts := i\<rparr>) = immutable_job_projection j"
  "immutable_job_projection (j\<lparr>last_restart := x\<rparr>) = immutable_job_projection j"
  "immutable_job_projection (j\<lparr>error := x\<rparr>) = immutable_job_projection j"
  "immutable_job_projection (j\<lparr>preempt_count := i\<rparr>) = immutable_job_projection j"
  "immutable_job_projection (j\<lparr>priority := i\<rparr>) = immutable_job_projection j"
  "immutable_job_projection (j\<lparr>dispatch_attempts := i\<rparr>) = immutable_job_projection j"
  "immutable_job_projection (j\<lparr>last_dispatch_attempt := x\<rparr>) = immutable_job_projection j"
  "immutable_job_projection (j\<lparr>assigned_to := a\<rparr>) = immutable_job_projection j"
  "immutable_job_projection (j\<lparr>provider := a\<rparr>) = immutable_job_projection j"
  "immutable_job_projection (j\<lparr>pin_to_provider := b\<rparr>) = immutable_job_projection j"
  "immutable_job_projection (j\<lparr>runtime_seconds_estimate := f\<rparr>) = immutable_job_projection j"
  "immutable_job_projection (j\<lparr>gpu_mem_gb := i\<rparr>) = immutable_job_projection j"
  "immutable_job_projection (j\<lparr>peak_vram_gb := i\<rparr>) = immutable_job_projection j"
  "immutable_job_projection (j\<lparr>peak_vram_per_gpu := b\<rparr>) = immutable_job_projection j"
  "immutable_job_projection (j\<lparr>yield_count := i\<rparr>) = immutable_job_projection j"
  "immutable_job_projection (j\<lparr>artifact_paths := ss\<rparr>) = immutable_job_projection j"
  "immutable_job_projection (j\<lparr>not_before := x\<rparr>) = immutable_job_projection j"
  by (simp_all add: immutable_selected select_values)


end
