(* ===== verification/Records.thy ===== *)
theory Records
  imports Identity
begin

text \<open>
  \<open>src/stado-rs/src/queue/storage/records/\<close>: the durable documents of the lifecycle. A transition
  fences its source by a sentinel state, promises a destination document (the current record merged
  with what the requested move may carry), and is itself a document with its own JSON form. With
  them the single-document reads and the metadata of a job (\<open>storage/queries/mod.rs\<close>).
\<close>

section \<open>Sentinel states\<close>

definition transition_fence_prefix :: string where
  "transition_fence_prefix = ''transitioning:''"

definition transition_cleaned_prefix :: string where
  "transition_cleaned_prefix = ''transition-cleaned:''"

definition transition_fence_state :: "string \<Rightarrow> string" where
  "transition_fence_state transition_id = transition_fence_prefix @ transition_id"

definition transition_cleaned_state :: "string \<Rightarrow> string" where
  "transition_cleaned_state transition_id = transition_cleaned_prefix @ transition_id"

definition cleaned_transition_id :: "string \<Rightarrow> string option" where
  "cleaned_transition_id state' =
     (case strip_prefix state' transition_cleaned_prefix of
        None \<Rightarrow> None
      | Some transition_id \<Rightarrow>
          if length transition_id = 64 \<and> list_all is_lower_hex transition_id
          then Some transition_id else None)"

definition is_transition_sentinel_state :: "string \<Rightarrow> bool" where
  "is_transition_sentinel_state state' \<longleftrightarrow>
     starts_with state' transition_fence_prefix \<or> starts_with state' transition_cleaned_prefix"

definition prefix_state :: "string \<Rightarrow> string" where
  "prefix_state prefix' = (if prefix' = ''queue'' then ''queued'' else prefix')"

section \<open>The transition document\<close>

datatype transition_state =
    Prepared
  | TCompleted
  | Aborted
  | Retired
  | Unrecognized string

definition retired_word :: string where
  "retired_word = ''retired:destination-verified-source-retired''"

fun transition_word :: "transition_state \<Rightarrow> string" where
  "transition_word Prepared = ''prepared''"
| "transition_word TCompleted = ''completed''"
| "transition_word Aborted = ''aborted''"
| "transition_word Retired = retired_word"
| "transition_word (Unrecognized word) = word"

definition transition_state_from :: "string \<Rightarrow> transition_state" where
  "transition_state_from word =
     (if word = ''prepared'' then Prepared
      else if word = ''completed'' then TCompleted
      else if word = ''aborted'' then Aborted
      else if word = retired_word then Retired
      else Unrecognized word)"

record job_transition =
  jt_schema :: string
  jt_transition_id :: string
  jt_owner :: string
  jt_job_id :: string
  jt_from_prefix :: string
  jt_to_prefix :: string
  jt_source_version :: string
  jt_source_digest :: string
  jt_destination_version :: "string option"
  jt_state :: transition_state
  jt_created_at :: string
  jt_destination_job :: job

definition transition_schema :: string where
  "transition_schema = ''stado.job-transition.v1''"

definition transition_keys :: "string list" where
  "transition_keys = [''schema'', ''transition_id'', ''owner'', ''job_id'', ''from_prefix'',
     ''to_prefix'', ''source_version'', ''source_digest'', ''destination_version'', ''state'',
     ''created_at'', ''destination_job'']"

definition transition_to_value :: "job_transition \<Rightarrow> json" where
  "transition_to_value t =
     JObj (zip transition_keys
       [JStr (jt_schema t), JStr (jt_transition_id t), JStr (jt_owner t), JStr (jt_job_id t),
        JStr (jt_from_prefix t), JStr (jt_to_prefix t), JStr (jt_source_version t),
        JStr (jt_source_digest t), opt_text (jt_destination_version t),
        JStr (transition_word (jt_state t)), JStr (jt_created_at t),
        job_to_value (jt_destination_job t)])"

text \<open>
  \<open>deny_unknown_fields\<close>; every field is required but the optional version, which an absent key or a
  \<open>null\<close> leaves out.
\<close>

definition transition_from_value :: "json \<Rightarrow> job_transition option" where
  "transition_from_value v =
     (case v of
        JObj o' \<Rightarrow>
          if list_all (\<lambda>kv. fst kv \<in> set transition_keys) o' then
            (case (get_str v ''schema'', get_str v ''transition_id'', get_str v ''owner'',
                   get_str v ''job_id'', get_str v ''from_prefix'', get_str v ''to_prefix'') of
               (Some schema, Some transition_id, Some owner, Some id', Some from', Some to') \<Rightarrow>
                 (case (get_str v ''source_version'', get_str v ''source_digest'',
                        optional_field v ''destination_version'' as_str, get_str v ''state'',
                        get_str v ''created_at'',
                        Option.bind (get_key v ''destination_job'') job_from_value) of
                    (Some source_version, Some source_digest, Some destination_version, Some word,
                     Some created, Some destination) \<Rightarrow>
                      Some \<lparr>jt_schema = schema, jt_transition_id = transition_id,
                        jt_owner = owner, jt_job_id = id', jt_from_prefix = from',
                        jt_to_prefix = to', jt_source_version = source_version,
                        jt_source_digest = source_digest,
                        jt_destination_version = destination_version,
                        jt_state = transition_state_from word, jt_created_at = created,
                        jt_destination_job = destination\<rparr>
                  | _ \<Rightarrow> None)
             | _ \<Rightarrow> None)
          else None
      | _ \<Rightarrow> None)"

definition transition_to_body :: "job_transition \<Rightarrow> body" where
  "transition_to_body t = Json (transition_to_value t)"

definition transition_from_body :: "body \<Rightarrow> storage_error + job_transition" where
  "transition_from_body text' =
     (case text' of Json v \<Rightarrow> ok_or JsonError (transition_from_value v) | _ \<Rightarrow> Inl JsonError)"

definition transition_path :: "lib \<Rightarrow> string \<Rightarrow> string" where
  "transition_path L id' = ''job-transitions/'' @ sha256_hex L (Raw id') @ ''.json''"

definition transition_is_retired :: "string \<Rightarrow> bool" where
  "transition_is_retired state' \<longleftrightarrow> state' = retired_word"

datatype workdir_state = Live | Terminal | Unknown

section \<open>The destination of a move\<close>

fun push_missing :: "string list \<Rightarrow> string list \<Rightarrow> string list" where
  "push_missing paths [] = paths"
| "push_missing paths (a # as) =
     push_missing (if a \<in> set paths then paths else paths @ [a]) as"

definition merge_transition_destination ::
  "job \<Rightarrow> job \<Rightarrow> string \<Rightarrow> string \<Rightarrow> storage_error + job" where
  "merge_transition_destination current requested from_prefix to_prefix =
     (if \<not> same_identity current requested
      then Inl (StorageConflict (job_id current @ '' immutable submission identity changed''))
      else case prefix_parse to_prefix of
        None \<Rightarrow> Inl (StorageConflict (job_id current @ '' cannot move''))
      | Some to' \<Rightarrow>
          let destination = current\<lparr>state := prefix_state to_prefix, lease_expires_at := None\<rparr>;
              destination =
                (case to' of
                   Running \<Rightarrow> destination\<lparr>started_at := started_at requested,
                     instance_ref := instance_ref requested,
                     lease_expires_at := lease_expires_at requested\<rparr>
                 | Queue \<Rightarrow>
                     if prefix_parse from_prefix = Some Running
                     then destination\<lparr>started_at := started_at requested,
                       instance_ref := instance_ref requested,
                       restarts := max (restarts destination) (restarts requested),
                       last_restart := last_restart requested,
                       error := error requested,
                       preempt_count := max (preempt_count destination) (preempt_count requested),
                       yield_count := max (yield_count destination) (yield_count requested),
                       assigned_to := assigned_to requested\<rparr>
                     else destination
                 | Failed \<Rightarrow> destination\<lparr>failed_at := failed_at requested,
                     instance_ref := instance_ref requested, error := error requested\<rparr>
                 | _ \<Rightarrow> destination\<lparr>completed_at := completed_at requested,
                     instance_ref := instance_ref requested, error := error requested\<rparr>)
          in Inr (if prefix_terminal to'
                  then destination\<lparr>
                    peak_vram_gb := max (peak_vram_gb destination) (peak_vram_gb requested),
                    peak_vram_per_gpu := peak_vram_per_gpu destination \<or> peak_vram_per_gpu requested,
                    artifact_paths :=
                      push_missing (artifact_paths destination) (artifact_paths requested)\<rparr>
                  else destination))"

section \<open>Snapshots a retention pass reads back\<close>

definition validate_transition_snapshot ::
  "lib \<Rightarrow> string \<Rightarrow> body \<Rightarrow> storage_error + string \<times> bool" where
  "validate_transition_snapshot L path content' =
     bind_result (transition_from_body content') (\<lambda>transition.
       if jt_schema transition \<noteq> transition_schema \<or>
          path \<noteq> transition_path L (jt_job_id transition)
       then Inl (Other ''invalid durable transition snapshot'')
       else Inr (jt_job_id transition, jt_state transition = Retired))"

definition validate_cancellation_snapshot ::
  "lib \<Rightarrow> string \<Rightarrow> body \<Rightarrow> storage_error + unit" where
  "validate_cancellation_snapshot L id' content' =
     (case content' of
        Json request \<Rightarrow>
          if get_str request ''job_id'' \<noteq> Some id'
          then Inl (Other ''cancellation marker does not belong'')
          else (case get_str request ''requested_at'' of
                  None \<Rightarrow> Inl (Other ''cancellation marker has no requested_at'')
                | Some requested_at \<Rightarrow>
                    (case parse_rfc3339 L requested_at of
                       None \<Rightarrow> Inl (Other ''cancellation marker has invalid requested_at'')
                     | Some _ \<Rightarrow> Inr ()))
      | _ \<Rightarrow> Inl JsonError)"

section \<open>One document\<close>

definition job_path :: "string \<Rightarrow> string \<Rightarrow> string" where
  "job_path prefix' id' = prefix' @ ''/'' @ id' @ ''.json''"

definition bool_word :: "bool \<Rightarrow> string" where
  "bool_word b = (if b then ''true'' else ''false'')"

text \<open>A \<open>BTreeMap\<close>: the keys in order.\<close>

definition job_metadata :: "job \<Rightarrow> (string \<times> string) list" where
  "job_metadata j =
     [(''gpu_mem_gb'', int_digits (gpu_mem_gb j)), (''gpu_type'', gpu_type j),
      (''pin_to_provider'', bool_word (pin_to_provider j)),
      (''priority'', int_digits (priority j)), (''provider'', provider j)]"

definition refresh_job_metadata :: "string \<Rightarrow> job \<Rightarrow> unit storage_prog" where
  "refresh_job_metadata prefix' j = set_metadata (job_path prefix' (job_id j)) (job_metadata j)"

definition read_job :: "lib \<Rightarrow> string \<Rightarrow> string \<Rightarrow> job option storage_prog" where
  "read_job L prefix' id' =
     bindE (download_text (job_path prefix' id')) (\<lambda>found.
       case found of
         None \<Rightarrow> ok None
       | Some data \<Rightarrow> bindE (from_json L data) (\<lambda>j.
           ok (if is_transition_sentinel_state (state j) then None else Some j)))"

section \<open>Lemmas\<close>

lemma transition_state_word [simp]: "transition_state_from (transition_word s) = s"
  if "s \<notin> Unrecognized ` {''prepared'', ''completed'', ''aborted'', retired_word}"
  using that by (cases s) (auto simp: transition_state_from_def retired_word_def)

lemma transition_word_from: "transition_word (transition_state_from word) = word"
  by (simp add: transition_state_from_def)

lemma optional_field_opt_text:
  "get_key v k = Some (opt_text x) \<Longrightarrow> optional_field v k as_str = Some x"
  by (cases x) (auto simp: optional_field_def opt_text_def)

lemma distinct_transition_keys: "distinct transition_keys"
  unfolding transition_keys_def by code_simp

lemma transition_gets:
  "get_key (transition_to_value t) ''schema'' = Some (JStr (jt_schema t))"
  "get_key (transition_to_value t) ''transition_id'' = Some (JStr (jt_transition_id t))"
  "get_key (transition_to_value t) ''owner'' = Some (JStr (jt_owner t))"
  "get_key (transition_to_value t) ''job_id'' = Some (JStr (jt_job_id t))"
  "get_key (transition_to_value t) ''from_prefix'' = Some (JStr (jt_from_prefix t))"
  "get_key (transition_to_value t) ''to_prefix'' = Some (JStr (jt_to_prefix t))"
  "get_key (transition_to_value t) ''source_version'' = Some (JStr (jt_source_version t))"
  "get_key (transition_to_value t) ''source_digest'' = Some (JStr (jt_source_digest t))"
  "get_key (transition_to_value t) ''destination_version'' =
     Some (opt_text (jt_destination_version t))"
  "get_key (transition_to_value t) ''state'' = Some (JStr (transition_word (jt_state t)))"
  "get_key (transition_to_value t) ''created_at'' = Some (JStr (jt_created_at t))"
  "get_key (transition_to_value t) ''destination_job'' =
     Some (job_to_value (jt_destination_job t))"
  by (simp_all add: transition_to_value_def transition_keys_def)

lemma transition_known_keys:
  "\<exists>o'. transition_to_value t = JObj o' \<and> list_all (\<lambda>kv. fst kv \<in> set transition_keys) o'"
  by (auto simp: transition_to_value_def list_all_iff dest: set_zip_leftD)

text \<open>A state the state machine writes, or a word it does not know.\<close>

definition stored_state :: "transition_state \<Rightarrow> bool" where
  "stored_state s \<longleftrightarrow> transition_state_from (transition_word s) = s"

lemma stored_states [simp]:
  "stored_state Prepared" "stored_state TCompleted" "stored_state Aborted" "stored_state Retired"
  by (simp_all add: stored_state_def transition_state_from_def retired_word_def)

lemma transition_roundtrip [doc_simps]:
  assumes "wf_job (jt_destination_job t)" and "stored_state (jt_state t)"
  shows "transition_from_body (transition_to_body t) = Inr t"
proof -
  obtain o' where v: "transition_to_value t = JObj o'"
    and keys: "list_all (\<lambda>kv. fst kv \<in> set transition_keys) o'"
    using transition_known_keys by blast
  show ?thesis
    using transition_gets [of t] keys assms
    unfolding transition_from_body_def transition_to_body_def transition_from_value_def v
    by (simp add: get_str_def optional_field_opt_text stored_state_def doc_simps)
qed

lemma sentinel_states [simp]:
  "is_transition_sentinel_state (transition_fence_state i)"
  "is_transition_sentinel_state (transition_cleaned_state i)"
  by (simp_all add: is_transition_sentinel_state_def transition_fence_state_def
      transition_cleaned_state_def)

lemma sentinel_states_differ [simp]:
  "transition_fence_state i \<noteq> transition_cleaned_state k"
  "transition_cleaned_state k \<noteq> transition_fence_state i"
  "transition_fence_state i = transition_fence_state k \<longleftrightarrow> i = k"
  "transition_cleaned_state i = transition_cleaned_state k \<longleftrightarrow> i = k"
  "\<not> starts_with (transition_fence_state i) transition_cleaned_prefix"
  "starts_with (transition_cleaned_state i) transition_cleaned_prefix"
  by (simp_all add: transition_fence_state_def transition_cleaned_state_def
      transition_fence_prefix_def transition_cleaned_prefix_def)

lemma prefix_parse_Some_iff: "prefix_parse name = Some p \<longleftrightarrow> name = prefix_as_str p"
  by (cases p) (auto simp: prefix_parse_def prefix_words)

lemma prefix_parse_as_str [simp]: "prefix_parse (prefix_as_str p) = Some p"
  by (simp add: prefix_parse_Some_iff)

lemma prefix_as_str_inject [simp]: "prefix_as_str p = prefix_as_str q \<longleftrightarrow> p = q"
  by (cases p; cases q; simp add: prefix_words)

lemma prefix_state_not_sentinel [simp]:
  "\<not> is_transition_sentinel_state (prefix_state (prefix_as_str p))"
  by (cases p) (simp_all add: is_transition_sentinel_state_def prefix_state_def prefix_words
      transition_fence_prefix_def transition_cleaned_prefix_def)

lemma prefix_state_not_fence [simp]:
  "prefix_state (prefix_as_str p) \<noteq> transition_fence_state i"
  "prefix_state (prefix_as_str p) \<noteq> transition_cleaned_state i"
  "\<not> starts_with (prefix_state (prefix_as_str p)) transition_cleaned_prefix"
  using prefix_state_not_sentinel [of p] sentinel_states
  by (metis, metis) (use prefix_state_not_sentinel in \<open>auto simp: is_transition_sentinel_state_def\<close>)

lemma cleaned_transition_id_state:
  "length i = 64 \<Longrightarrow> list_all is_lower_hex i \<Longrightarrow>
   cleaned_transition_id (transition_cleaned_state i) = Some i"
  by (simp add: cleaned_transition_id_def transition_cleaned_state_def)

lemma cleaned_transition_id_Some:
  "cleaned_transition_id s = Some i \<Longrightarrow> s = transition_cleaned_state i \<and> length i = 64"
  by (auto simp: cleaned_transition_id_def transition_cleaned_state_def strip_prefix_Some_iff
      split: option.splits if_splits)

text \<open>The promised destination keeps the identity and is well-formed.\<close>

lemma merge_identity:
  "merge_transition_destination current requested f t = Inr d \<Longrightarrow>
   immutable_job_projection d = immutable_job_projection current"
  by (auto simp: merge_transition_destination_def Let_def split: if_splits option.splits prefix.splits)

lemma wf_job_updates [simp]:
  "wf_job (j\<lparr>state := a\<rparr>) = wf_job j"
  "wf_job (j\<lparr>started_at := x\<rparr>) = wf_job j"
  "wf_job (j\<lparr>completed_at := x\<rparr>) = wf_job j"
  "wf_job (j\<lparr>failed_at := x\<rparr>) = wf_job j"
  "wf_job (j\<lparr>lease_expires_at := x\<rparr>) = wf_job j"
  "wf_job (j\<lparr>instance_ref := x\<rparr>) = wf_job j"
  "wf_job (j\<lparr>gpu_uuid := x\<rparr>) = wf_job j"
  "wf_job (j\<lparr>last_restart := x\<rparr>) = wf_job j"
  "wf_job (j\<lparr>error := x\<rparr>) = wf_job j"
  "wf_job (j\<lparr>assigned_to := a\<rparr>) = wf_job j"
  "wf_job (j\<lparr>provider := a\<rparr>) = wf_job j"
  "wf_job (j\<lparr>pin_to_provider := b\<rparr>) = wf_job j"
  "wf_job (j\<lparr>peak_vram_per_gpu := b\<rparr>) = wf_job j"
  "wf_job (j\<lparr>artifact_paths := ss\<rparr>) = wf_job j"
  "wf_job (j\<lparr>not_before := x\<rparr>) = wf_job j"
  "wf_job (j\<lparr>last_dispatch_attempt := x\<rparr>) = wf_job j"
  by (simp_all add: wf_job_def)

lemma wf_job_int_updates [simp]:
  "wf_job j \<Longrightarrow> i64_range i \<Longrightarrow> wf_job (j\<lparr>restarts := i\<rparr>)"
  "wf_job j \<Longrightarrow> i64_range i \<Longrightarrow> wf_job (j\<lparr>preempt_count := i\<rparr>)"
  "wf_job j \<Longrightarrow> i64_range i \<Longrightarrow> wf_job (j\<lparr>yield_count := i\<rparr>)"
  "wf_job j \<Longrightarrow> i64_range i \<Longrightarrow> wf_job (j\<lparr>peak_vram_gb := i\<rparr>)"
  "wf_job j \<Longrightarrow> i64_range i \<Longrightarrow> wf_job (j\<lparr>priority := i\<rparr>)"
  "wf_job j \<Longrightarrow> i64_range i \<Longrightarrow> wf_job (j\<lparr>gpu_mem_gb := i\<rparr>)"
  "wf_job j \<Longrightarrow> i64_range i \<Longrightarrow> wf_job (j\<lparr>dispatch_attempts := i\<rparr>)"
  by (simp_all add: wf_job_def)

lemma wf_job_int_fields [simp]:
  "wf_job j \<Longrightarrow> i64_range (restarts j)" "wf_job j \<Longrightarrow> i64_range (preempt_count j)"
  "wf_job j \<Longrightarrow> i64_range (yield_count j)" "wf_job j \<Longrightarrow> i64_range (peak_vram_gb j)"
  "wf_job j \<Longrightarrow> i64_range (priority j)"
  by (simp_all add: wf_job_def)

lemma i64_range_max [simp]: "i64_range a \<Longrightarrow> i64_range b \<Longrightarrow> i64_range (max a b)"
  by (simp add: max_def)

lemma merge_wf:
  "merge_transition_destination current requested f t = Inr d \<Longrightarrow>
   wf_job current \<Longrightarrow> wf_job requested \<Longrightarrow> wf_job d"
  by (auto simp: merge_transition_destination_def Let_def split: if_splits option.splits prefix.splits)

lemma merge_fields:
  "merge_transition_destination current requested f t = Inr d \<Longrightarrow>
   state d = prefix_state t \<and> job_id d = job_id current \<and> created_at d = created_at current \<and>
   priority d = priority current \<and> (t \<noteq> ''running'' \<longrightarrow> lease_expires_at d = None)"
  by (auto simp: merge_transition_destination_def Let_def prefix_parse_def
      split: if_splits option.splits prefix.splits)

lemma merge_lease:
  "merge_transition_destination current requested f t = Inr d \<Longrightarrow>
   lease_expires_at d = (if prefix_parse t = Some Running then lease_expires_at requested else None)"
  by (auto simp: merge_transition_destination_def Let_def split: if_splits option.splits prefix.splits)

lemma set_push_missing: "set (push_missing xs ys) = set xs \<union> set ys"
  by (induction xs ys rule: push_missing.induct) auto

lemma merge_history:
  "merge_transition_destination current requested f t = Inr d \<Longrightarrow>
   restarts current \<le> restarts d \<and> preempt_count current \<le> preempt_count d \<and>
   yield_count current \<le> yield_count d \<and> peak_vram_gb current \<le> peak_vram_gb d \<and>
   set (artifact_paths d) = set (artifact_paths current) \<union>
     (if t \<in> set terminal_prefixes then set (artifact_paths requested) else {})"
  by (auto simp: merge_transition_destination_def Let_def set_push_missing prefix_parse_def
      terminal_prefixes_def split: if_splits option.splits prefix.splits)

lemma merge_frame:
  "merge_transition_destination current requested f t = Inr d \<Longrightarrow>
   re_submission_of d = re_submission_of current \<and> run_id d = run_id current \<and>
   submission_command_index d = submission_command_index current \<and>
   submission_request_digest d = submission_request_digest current \<and>
   gpu_mem_gb d = gpu_mem_gb current \<and> command d = command current"
  by (auto simp: merge_transition_destination_def Let_def split: if_splits option.splits prefix.splits)

lemma merge_defined:
  "same_identity current requested \<Longrightarrow>
   \<exists>d. merge_transition_destination current requested f (prefix_as_str p) = Inr d"
  by (auto simp: merge_transition_destination_def Let_def)

lemma merge_same:
  "wf_job j \<Longrightarrow> \<exists>d. merge_transition_destination j j f (prefix_as_str p) = Inr d"
  by (auto simp: merge_transition_destination_def Let_def)

end
