(* ===== verification/Options.thy ===== *)
theory Options
  imports Records
begin

text \<open>
  \<open>src/stado-rs/src/queue/submit/options.rs\<close> and the vocabulary of a submission
  (\<open>submit/mod.rs\<close>, \<open>submit/placement.rs\<close>, \<open>submit/request/\<close>): every durable option with its JSON
  form, the hardware a command was resolved to, the request digests and the job a command is
  planned as. An option the declaration requires refuses a document without it, an unknown key
  refuses the document, and the two retired keys are read and never written.
\<close>

section \<open>Errors of a submission\<close>

datatype submit_error =
    Validation string
  | Charge string
  | Storage storage_error
  | SubmitIo string

section \<open>The resolved hardware\<close>

record resolved_hardware_projection =
  rh_gpu_mem_gb :: int
  rh_gpu_type :: string
  rh_machine_type :: string

definition hardware_keys :: "string list" where
  "hardware_keys = [''gpu_mem_gb'', ''gpu_type'', ''machine_type'']"

definition hardware_to_value :: "resolved_hardware_projection \<Rightarrow> json" where
  "hardware_to_value h =
     JObj [(''gpu_mem_gb'', JInt (rh_gpu_mem_gb h)), (''gpu_type'', JStr (rh_gpu_type h)),
       (''machine_type'', JStr (rh_machine_type h))]"

definition hardware_from_value :: "json \<Rightarrow> resolved_hardware_projection option" where
  "hardware_from_value v =
     (case v of
        JObj m \<Rightarrow>
          if list_all (\<lambda>kv. fst kv \<in> set hardware_keys) m then
            (case (obj_get m ''gpu_mem_gb'', obj_get m ''gpu_type'', obj_get m ''machine_type'') of
               (Some (JInt mem), Some (JStr gpu), Some (JStr machine)) \<Rightarrow>
                 if i64_range mem
                 then Some \<lparr>rh_gpu_mem_gb = mem, rh_gpu_type = gpu, rh_machine_type = machine\<rparr>
                 else None
             | _ \<Rightarrow> None)
          else None
      | _ \<Rightarrow> None)"

definition hardware_value :: "resolved_hardware_projection option \<Rightarrow> json" where
  "hardware_value x = (case x of None \<Rightarrow> JNull | Some h \<Rightarrow> hardware_to_value h)"

definition hardware_list_from_value :: "json \<Rightarrow> resolved_hardware_projection list option" where
  "hardware_list_from_value v =
     (case v of
        JArr xs \<Rightarrow> if list_all (\<lambda>x. hardware_from_value x \<noteq> None) xs
                   then Some (List.map_filter hardware_from_value xs) else None
      | _ \<Rightarrow> None)"

section \<open>The options\<close>

record submit_options =
  so_provider :: string
  so_batch_id :: string
  so_bucket :: string
  so_preemptible :: bool
  so_max_cost_per_hour_usd :: f64
  so_submitter_restarts :: bool
  so_retired_max_restarts :: "unit option"
  so_pin_to_provider :: bool
  so_priority :: int
  so_deadline_at :: "string option"
  so_deferrable :: bool
  so_income_usd_per_hour :: "f64 option"
  so_income_source :: "string option"
  so_repo :: string
  so_repo_ref :: string
  so_repo_workdir :: string
  so_repo_extras :: string
  so_gpu_type :: string
  so_vram_gb :: int
  so_machine_type :: string
  so_resolved_hardware :: "resolved_hardware_projection option"
  so_platform_os :: string
  so_architecture :: string
  so_cpu_cores :: int
  so_memory_gb :: int
  so_pre_command :: string
  so_apt_packages :: "string list"
  so_output_uri :: string
  so_verify_command :: string
  so_exclusive :: bool
  so_terminates_agent :: bool
  so_run_id :: string
  so_schedule_id :: string
  so_re_submission_of :: string
  so_yieldable :: bool
  so_yield_command :: string
  so_max_yields_before_protected :: "int option"
  so_boot_disk_gb :: "int option"
  so_runtime_seconds_estimate :: "f64 option"
  so_retired_yield_grace_seconds :: "nat option"
  so_pinned_host :: string
  so_secret_env :: "(string \<times> job_secret_ref) list"
  so_input_artifacts :: json_object
  so_resolved_input_artifacts :: json_object

definition submit_options_default :: submit_options where
  "submit_options_default = \<lparr>
     so_provider = '''', so_batch_id = '''', so_bucket = '''',
     so_preemptible = False, so_max_cost_per_hour_usd = 0, so_submitter_restarts = False,
     so_retired_max_restarts = None, so_pin_to_provider = False, so_priority = 0,
     so_deadline_at = None, so_deferrable = False, so_income_usd_per_hour = None,
     so_income_source = None, so_repo = '''', so_repo_ref = '''',
     so_repo_workdir = '''', so_repo_extras = '''', so_gpu_type = '''',
     so_vram_gb = 0, so_machine_type = '''', so_resolved_hardware = None,
     so_platform_os = '''', so_architecture = '''', so_cpu_cores = 0,
     so_memory_gb = 0, so_pre_command = '''', so_apt_packages = [],
     so_output_uri = '''', so_verify_command = '''', so_exclusive = False,
     so_terminates_agent = False, so_run_id = '''', so_schedule_id = '''',
     so_re_submission_of = '''', so_yieldable = False, so_yield_command = '''',
     so_max_yields_before_protected = None, so_boot_disk_gb = None, so_runtime_seconds_estimate = None,
     so_retired_yield_grace_seconds = None, so_pinned_host = '''', so_secret_env = [],
     so_input_artifacts = [], so_resolved_input_artifacts = []\<rparr>"

definition options_fields :: "submit_options \<Rightarrow> (string \<times> json option) list" where
  "options_fields o' = [
     (''provider'', Some (JStr (so_provider o'))),
     (''batch_id'', Some (JStr (so_batch_id o'))),
     (''bucket'', Some (JStr (so_bucket o'))),
     (''preemptible'', Some (JBool (so_preemptible o'))),
     (''max_cost_per_hour_usd'', Some (f64_value (so_max_cost_per_hour_usd o'))),
     (''submitter_restarts'', flag_field (so_submitter_restarts o')),
     (''pin_to_provider'', Some (JBool (so_pin_to_provider o'))),
     (''priority'', Some (JInt (so_priority o'))),
     (''deadline_at'', Some (opt_text (so_deadline_at o'))),
     (''deferrable'', flag_field (so_deferrable o')),
     (''income_usd_per_hour'', map_option f64_value (so_income_usd_per_hour o')),
     (''income_source'', map_option JStr (so_income_source o')),
     (''repo'', Some (JStr (so_repo o'))),
     (''repo_ref'', Some (JStr (so_repo_ref o'))),
     (''repo_workdir'', Some (JStr (so_repo_workdir o'))),
     (''repo_extras'', Some (JStr (so_repo_extras o'))),
     (''gpu_type'', Some (JStr (so_gpu_type o'))),
     (''vram_gb'', Some (JInt (so_vram_gb o'))),
     (''machine_type'', Some (JStr (so_machine_type o'))),
     (''resolved_hardware'', Some (hardware_value (so_resolved_hardware o'))),
     (''platform_os'', Some (JStr (so_platform_os o'))),
     (''architecture'', Some (JStr (so_architecture o'))),
     (''cpu_cores'', Some (JInt (so_cpu_cores o'))),
     (''memory_gb'', Some (JInt (so_memory_gb o'))),
     (''pre_command'', Some (JStr (so_pre_command o'))),
     (''apt_packages'', Some (JArr (map JStr (so_apt_packages o')))),
     (''output_uri'', Some (JStr (so_output_uri o'))),
     (''verify_command'', Some (JStr (so_verify_command o'))),
     (''exclusive'', Some (JBool (so_exclusive o'))),
     (''terminates_agent'', Some (JBool (so_terminates_agent o'))),
     (''run_id'', Some (JStr (so_run_id o'))),
     (''schedule_id'', Some (JStr (so_schedule_id o'))),
     (''re_submission_of'', Some (JStr (so_re_submission_of o'))),
     (''yieldable'', Some (JBool (so_yieldable o'))),
     (''yield_command'', Some (JStr (so_yield_command o'))),
     (''max_yields_before_protected'', map_option JInt (so_max_yields_before_protected o')),
     (''boot_disk_gb'', map_option JInt (so_boot_disk_gb o')),
     (''runtime_seconds_estimate'', map_option f64_value (so_runtime_seconds_estimate o')),
     (''pinned_host'', Some (JStr (so_pinned_host o'))),
     (''secret_env'', Some (secrets_to_value (so_secret_env o'))),
     (''input_artifacts'', Some (JObj (so_input_artifacts o'))),
     (''resolved_input_artifacts'', Some (JObj (so_resolved_input_artifacts o')))]"

definition options_to_value :: "submit_options \<Rightarrow> json" where
  "options_to_value o' = JObj (present_fields (options_fields o'))"

definition optint_or :: "json_object \<Rightarrow> string \<Rightarrow> int option" where
  "optint_or m k = Option.bind (obj_get m k) as_i64"

definition hardware_or :: "json_object \<Rightarrow> string \<Rightarrow> resolved_hardware_projection option" where
  "hardware_or m k = Option.bind (obj_get m k) hardware_from_value"

definition ignored_or :: "json_object \<Rightarrow> string \<Rightarrow> unit option" where
  "ignored_or m k = (case obj_get m k of None \<Rightarrow> None | Some JNull \<Rightarrow> None | Some _ \<Rightarrow> Some ())"

definition optint_ok :: "json_object \<Rightarrow> string \<Rightarrow> bool" where
  "optint_ok = field_ok (\<lambda>v. v = JNull \<or> as_i64 v \<noteq> None)"

definition hardware_ok :: "json_object \<Rightarrow> string \<Rightarrow> bool" where
  "hardware_ok = field_ok (\<lambda>v. v = JNull \<or> hardware_from_value v \<noteq> None)"

definition options_known :: "string list" where
  "options_known = [''provider'', ''batch_id'', ''bucket'', ''preemptible'', ''max_cost_per_hour_usd'',
        ''submitter_restarts'', ''max_restarts'', ''pin_to_provider'', ''priority'',
        ''deadline_at'', ''deferrable'', ''income_usd_per_hour'', ''income_source'', ''repo'',
        ''repo_ref'', ''repo_workdir'', ''repo_extras'', ''gpu_type'', ''vram_gb'',
        ''machine_type'', ''resolved_hardware'', ''platform_os'', ''architecture'', ''cpu_cores'',
        ''memory_gb'', ''pre_command'', ''apt_packages'', ''output_uri'', ''verify_command'',
        ''exclusive'', ''terminates_agent'', ''run_id'', ''schedule_id'', ''re_submission_of'',
        ''yieldable'', ''yield_command'', ''max_yields_before_protected'', ''boot_disk_gb'',
        ''runtime_seconds_estimate'', ''yield_grace_seconds'', ''pinned_host'', ''secret_env'',
        ''input_artifacts'', ''resolved_input_artifacts'']"

definition options_required :: "string list" where
  "options_required = [''provider'', ''batch_id'', ''bucket'', ''preemptible'', ''max_cost_per_hour_usd'',
        ''pin_to_provider'', ''priority'', ''repo'', ''repo_ref'', ''repo_workdir'',
        ''repo_extras'', ''gpu_type'', ''vram_gb'', ''machine_type'', ''platform_os'',
        ''architecture'', ''pre_command'', ''apt_packages'', ''output_uri'', ''verify_command'',
        ''exclusive'', ''run_id'', ''schedule_id'', ''re_submission_of'', ''yieldable'',
        ''yield_command'', ''pinned_host'', ''secret_env'', ''input_artifacts'',
        ''resolved_input_artifacts'']"

definition options_object_ok :: "json_object \<Rightarrow> bool" where
  "options_object_ok m \<longleftrightarrow>
     list_all (\<lambda>kv. fst kv \<in> set options_known) m \<and>
     list_all (\<lambda>k. obj_get m k \<noteq> None) options_required \<and>
     list_all (str_ok m)
       [''provider'', ''batch_id'', ''bucket'', ''repo'', ''repo_ref'', ''repo_workdir'',
        ''repo_extras'', ''gpu_type'', ''machine_type'', ''platform_os'', ''architecture'',
        ''pre_command'', ''output_uri'', ''verify_command'', ''run_id'', ''schedule_id'',
        ''re_submission_of'', ''yield_command'', ''pinned_host''] \<and>
     list_all (i64_ok m)
       [''priority'', ''vram_gb'', ''cpu_cores'', ''memory_gb''] \<and>
     list_all (optstr_ok m)
       [''deadline_at'', ''income_source''] \<and>
     list_all (bool_ok m)
       [''preemptible'', ''submitter_restarts'', ''pin_to_provider'', ''deferrable'',
        ''exclusive'', ''terminates_agent'', ''yieldable''] \<and>
     list_all (f64_ok m)
       [''max_cost_per_hour_usd''] \<and>
     list_all (strs_ok m)
       [''apt_packages''] \<and>
     list_all (optint_ok m)
       [''max_yields_before_protected'', ''boot_disk_gb''] \<and>
     list_all (optnat_ok m)
       [''yield_grace_seconds''] \<and>
     list_all (optf64_ok m)
       [''income_usd_per_hour'', ''runtime_seconds_estimate''] \<and>
     list_all (object_ok m)
       [''input_artifacts'', ''resolved_input_artifacts''] \<and>
     list_all (secrets_ok m)
       [''secret_env''] \<and>
     list_all (hardware_ok m)
       [''resolved_hardware'']"

definition options_of_object :: "json_object \<Rightarrow> submit_options" where
  "options_of_object m = \<lparr>
     so_provider = str_or m ''provider'' '''',
     so_batch_id = str_or m ''batch_id'' '''',
     so_bucket = str_or m ''bucket'' '''',
     so_preemptible = bool_or m ''preemptible'',
     so_max_cost_per_hour_usd = f64_or m ''max_cost_per_hour_usd'',
     so_submitter_restarts = bool_or m ''submitter_restarts'',
     so_retired_max_restarts = ignored_or m ''max_restarts'',
     so_pin_to_provider = bool_or m ''pin_to_provider'',
     so_priority = int_or m ''priority'',
     so_deadline_at = optstr_or m ''deadline_at'',
     so_deferrable = bool_or m ''deferrable'',
     so_income_usd_per_hour = optf64_or m ''income_usd_per_hour'',
     so_income_source = optstr_or m ''income_source'',
     so_repo = str_or m ''repo'' '''',
     so_repo_ref = str_or m ''repo_ref'' '''',
     so_repo_workdir = str_or m ''repo_workdir'' '''',
     so_repo_extras = str_or m ''repo_extras'' '''',
     so_gpu_type = str_or m ''gpu_type'' '''',
     so_vram_gb = int_or m ''vram_gb'',
     so_machine_type = str_or m ''machine_type'' '''',
     so_resolved_hardware = hardware_or m ''resolved_hardware'',
     so_platform_os = str_or m ''platform_os'' '''',
     so_architecture = str_or m ''architecture'' '''',
     so_cpu_cores = int_or m ''cpu_cores'',
     so_memory_gb = int_or m ''memory_gb'',
     so_pre_command = str_or m ''pre_command'' '''',
     so_apt_packages = strs_or m ''apt_packages'',
     so_output_uri = str_or m ''output_uri'' '''',
     so_verify_command = str_or m ''verify_command'' '''',
     so_exclusive = bool_or m ''exclusive'',
     so_terminates_agent = bool_or m ''terminates_agent'',
     so_run_id = str_or m ''run_id'' '''',
     so_schedule_id = str_or m ''schedule_id'' '''',
     so_re_submission_of = str_or m ''re_submission_of'' '''',
     so_yieldable = bool_or m ''yieldable'',
     so_yield_command = str_or m ''yield_command'' '''',
     so_max_yields_before_protected = optint_or m ''max_yields_before_protected'',
     so_boot_disk_gb = optint_or m ''boot_disk_gb'',
     so_runtime_seconds_estimate = optf64_or m ''runtime_seconds_estimate'',
     so_retired_yield_grace_seconds = optnat_or m ''yield_grace_seconds'',
     so_pinned_host = str_or m ''pinned_host'' '''',
     so_secret_env = secrets_or m ''secret_env'',
     so_input_artifacts = object_or m ''input_artifacts'',
     so_resolved_input_artifacts = object_or m ''resolved_input_artifacts''\<rparr>"

definition options_from_value :: "json \<Rightarrow> submit_options option" where
  "options_from_value v =
     (case v of
        JObj m \<Rightarrow> if options_object_ok m then Some (options_of_object m) else None
      | _ \<Rightarrow> None)"

text \<open>What a Rust value of the type satisfies and what its JSON form carries.\<close>

definition wf_options :: "submit_options \<Rightarrow> bool" where
  "wf_options o' \<longleftrightarrow>
     i64_range (so_priority o') \<and> i64_range (so_vram_gb o') \<and> i64_range 
     (so_cpu_cores o') \<and> i64_range (so_memory_gb o') \<and>
     f64_is_finite (so_max_cost_per_hour_usd o') \<and>
     pred_option f64_is_finite (so_income_usd_per_hour o') \<and>
     pred_option f64_is_finite (so_runtime_seconds_estimate o') \<and>
     pred_option i64_range (so_max_yields_before_protected o') \<and>
     pred_option i64_range (so_boot_disk_gb o') \<and>
     pred_option (\<lambda>h. i64_range (rh_gpu_mem_gb h)) (so_resolved_hardware o') \<and>
     so_retired_max_restarts o' = None \<and> so_retired_yield_grace_seconds o' = None \<and>
     sorted_wrt (<) (map fst (so_secret_env o')) \<and>
     wf_json (JObj (so_input_artifacts o')) \<and> wf_json (JObj (so_resolved_input_artifacts o'))"

section \<open>Digests of the request\<close>

definition submission_source_digest :: "lib \<Rightarrow> submit_options \<Rightarrow> string" where
  "submission_source_digest L o' =
     digest_value L (JObj [(''repo'', JStr (so_repo o')), (''repo_ref'', JStr (so_repo_ref o')),
       (''repo_workdir'', JStr (so_repo_workdir o')), (''repo_extras'', JStr (so_repo_extras o')),
       (''pre_command'', JStr (so_pre_command o')),
       (''apt_packages'', JArr (map JStr (so_apt_packages o')))])"

definition submission_input_digest :: "lib \<Rightarrow> string list \<Rightarrow> submit_options \<Rightarrow> string" where
  "submission_input_digest L commands o' =
     digest_value L (JObj [(''commands'', JArr (map JStr commands)),
       (''secret_env'', secrets_to_value (so_secret_env o')),
       (''input_artifacts'', JObj (so_input_artifacts o')),
       (''resolved_input_artifacts'', JObj (so_resolved_input_artifacts o'))])"

definition validate_run_id :: "string \<Rightarrow> submit_error + unit" where
  "validate_run_id run_id' =
     (if run_id_ok run_id' then Inr ()
      else Inl (Validation ''run id must be ASCII letters, digits, dot, underscore or dash''))"

text \<open>\<open>configured\<close> is the configured bucket, used when the options name none.\<close>

definition submission_request ::
  "string \<Rightarrow> string list \<Rightarrow> submit_options \<Rightarrow> resolved_hardware_projection list \<Rightarrow> json" where
  "submission_request configured commands o' resolved_hardware =
     JObj [(''schema'', JStr ''stado.submission-request.v3''),
       (''commands'', JArr (map JStr commands)),
       (''effective_bucket'', JStr (if so_bucket o' = [] then configured else so_bucket o')),
       (''options'', options_to_value o'),
       (''resolved_hardware'', JArr (map hardware_to_value resolved_hardware))]"

definition validate_recovered_job :: "job \<Rightarrow> job \<Rightarrow> nat \<Rightarrow> submit_error + unit" where
  "validate_recovered_job j planned index =
     (let same_request = (job_id j = job_id planned \<and>
            submission_request_digest j = submission_request_digest planned \<and>
            submission_command_index j = Some index);
          ended = (state j \<in> set terminal_prefixes)
      in if \<not> same_request \<or> (\<not> ended \<and> \<not> same_identity j planned)
         then Inl (Validation ''stable job key belongs to different submission content'')
         else Inr ())"

text \<open>\<open>object_uri_ok\<close> stands for \<open>ObjectRef::parse\<close> of another component.\<close>

definition validate_submission ::
  "(string \<Rightarrow> bool) \<Rightarrow> string \<Rightarrow> submit_options \<Rightarrow> submit_error + unit" where
  "validate_submission object_uri_ok command' o' =
     (let repo' = trim (so_repo o'); ref = trim (so_repo_ref o') in
      if trim command' = [] then Inl (Validation ''command cannot be empty'')
      else if \<not> f64_is_finite (so_max_cost_per_hour_usd o') \<or>
              f64_lt_zero (so_max_cost_per_hour_usd o')
      then Inl (Validation ''max_cost_per_hour_usd must be finite and nonnegative'')
      else if so_priority o' < 0 then Inl (Validation ''priority must be nonnegative'')
      else if so_yieldable o' \<and> trim (so_yield_command o') = []
      then Inl (Validation ''yieldable=True requires a yield_command'')
      else if repo' = [] \<and> ref \<noteq> [] then Inl (Validation ''repo_ref is valid only when repo is set'')
      else if repo' \<noteq> [] \<and> (length ref \<noteq> 40 \<or> \<not> list_all is_lower_hex ref)
      then Inl (Validation ''repository workloads require repo_ref as a full lowercase 40-hex commit'')
      else case removed_activation_command_reason command' of
        Some reason \<Rightarrow> Inl (Validation reason)
      | None \<Rightarrow>
          if trim (so_output_uri o') \<noteq> [] \<and> \<not> object_uri_ok (so_output_uri o')
          then Inl (Validation ''output_uri must be a provider-neutral stado:// object URI'')
          else Inr ())"

section \<open>The planned job\<close>

record submission_provenance =
  sp_created_at :: string
  sp_submitted_by :: string
  sp_submitted_from :: string
  sp_submitter_app :: string

text \<open>\<open>Job::new\<close> stamps the clock, which the provenance then replaces.\<close>

definition build_planned_job ::
  "string \<Rightarrow> submit_options \<Rightarrow> string \<Rightarrow> resolved_hardware_projection \<Rightarrow> submission_provenance
   \<Rightarrow> job" where
  "build_planned_job command' o' id' hardware provenance =
     job_default\<lparr>
       job_id := id', command := command',
       created_at := sp_created_at provenance,
       gpu_mem_gb := rh_gpu_mem_gb hardware,
       gpu_type := rh_gpu_type hardware,
       machine_type := rh_machine_type hardware,
       platform_os := so_platform_os o',
       architecture := so_architecture o',
       cpu_cores := so_cpu_cores o',
       memory_gb := so_memory_gb o',
       provider := so_provider o',
       batch_id := so_batch_id o',
       preemptible := so_preemptible o',
       max_cost_per_hour_usd := so_max_cost_per_hour_usd o',
       submitter_restarts := so_submitter_restarts o',
       pin_to_provider := so_pin_to_provider o',
       priority := so_priority o',
       deadline_at := so_deadline_at o',
       deferrable := so_deferrable o',
       income_usd_per_hour := so_income_usd_per_hour o',
       income_source := so_income_source o',
       submitted_by := sp_submitted_by provenance,
       submitted_from := sp_submitted_from provenance,
       submitted_via := ''cli'',
       run_id := so_run_id o',
       submitter_app := sp_submitter_app provenance,
       repo := so_repo o',
       repo_ref := so_repo_ref o',
       repo_workdir := so_repo_workdir o',
       repo_extras := so_repo_extras o',
       pre_command := so_pre_command o',
       apt_packages := so_apt_packages o',
       output_uri := so_output_uri o',
       verify_command := so_verify_command o',
       exclusive := so_exclusive o',
       terminates_agent := so_terminates_agent o',
       schedule_id := so_schedule_id o',
       re_submission_of := so_re_submission_of o',
       yieldable := so_yieldable o',
       yield_command := so_yield_command o',
       max_yields_before_protected :=
         (case so_max_yields_before_protected o' of None \<Rightarrow> 0 | Some n \<Rightarrow> n),
       boot_disk_gb := (case so_boot_disk_gb o' of None \<Rightarrow> 0 | Some n \<Rightarrow> n),
       runtime_seconds_estimate :=
         (case so_runtime_seconds_estimate o' of None \<Rightarrow> 0 | Some x \<Rightarrow> x),
       pinned_host := so_pinned_host o',
       secret_env := so_secret_env o',
       input_artifacts := so_input_artifacts o',
       resolved_input_artifacts := so_resolved_input_artifacts o'\<rparr>"

section \<open>Reading options back\<close>

definition options_written :: "string list" where
  "options_written = [''provider'', ''batch_id'', ''bucket'', ''preemptible'', ''max_cost_per_hour_usd'',
        ''submitter_restarts'', ''pin_to_provider'', ''priority'', ''deadline_at'', ''deferrable'',
        ''income_usd_per_hour'', ''income_source'', ''repo'', ''repo_ref'', ''repo_workdir'',
        ''repo_extras'', ''gpu_type'', ''vram_gb'', ''machine_type'', ''resolved_hardware'',
        ''platform_os'', ''architecture'', ''cpu_cores'', ''memory_gb'', ''pre_command'',
        ''apt_packages'', ''output_uri'', ''verify_command'', ''exclusive'', ''terminates_agent'',
        ''run_id'', ''schedule_id'', ''re_submission_of'', ''yieldable'', ''yield_command'',
        ''max_yields_before_protected'', ''boot_disk_gb'', ''runtime_seconds_estimate'',
        ''pinned_host'', ''secret_env'', ''input_artifacts'', ''resolved_input_artifacts'']"

lemma options_fields_keys: "map fst (options_fields o') = options_written"
  by (simp add: options_fields_def options_written_def)

lemma distinct_options_written: "distinct options_written"
  unfolding options_written_def by code_simp

lemma options_written_known: "set options_written \<subseteq> set options_known"
  unfolding options_written_def options_known_def by code_simp

lemma options_object_fields:
  "list_all (\<lambda>(k, x). obj_get (present_fields (options_fields o')) k = x) (options_fields o')"
  by (rule obj_get_all_fields) (simp add: options_fields_keys distinct_options_written)

text \<open>One equation per field that is written, and the two keys that never are.\<close>

lemmas options_object_get = options_object_fields
  [unfolded options_fields_def list.pred_inject prod.case simp_thms(21),
   folded options_fields_def]

lemma options_retired_keys:
  "obj_get (present_fields (options_fields o')) ''max_restarts'' = None"
  "obj_get (present_fields (options_fields o')) ''yield_grace_seconds'' = None"
  by (rule present_fields_absent, simp add: options_fields_keys [symmetric, of o'] image_set
      del: set_map list.set_map, simp add: options_fields_keys options_written_def)+

lemma hardware_roundtrip [simp]:
  "i64_range (rh_gpu_mem_gb h) \<Longrightarrow> hardware_from_value (hardware_to_value h) = Some h"
  by (simp add: hardware_from_value_def hardware_to_value_def hardware_keys_def)

lemma hardware_value_not_null [simp]: "hardware_to_value h \<noteq> JNull"
  by (simp add: hardware_to_value_def)

lemma hardware_from_null [simp]: "hardware_from_value JNull = None"
  by (simp add: hardware_from_value_def)

lemma hardware_value_reads:
  "pred_option (\<lambda>h. i64_range (rh_gpu_mem_gb h)) x \<Longrightarrow> hardware_from_value (hardware_value x) = x"
  "hardware_value x = JNull \<longleftrightarrow> x = None"
  by (cases x; simp add: hardware_value_def)+

lemma optint_reads:
  "pred_option i64_range x \<Longrightarrow> Option.bind (map_option JInt x) as_i64 = x"
  "pred_option i64_range x \<Longrightarrow>
   pred_option (\<lambda>v. v = JNull \<or> as_i64 v \<noteq> None) (map_option JInt x)"
  by (cases x; simp add: as_i64_def)+

lemma wf_optionsD:
  assumes "wf_options o'"
  shows "f64_is_finite (so_max_cost_per_hour_usd o')"
    "pred_option f64_is_finite (so_income_usd_per_hour o')"
    "pred_option f64_is_finite (so_runtime_seconds_estimate o')"
    "pred_option i64_range (so_max_yields_before_protected o')"
    "pred_option i64_range (so_boot_disk_gb o')"
    "pred_option (\<lambda>h. i64_range (rh_gpu_mem_gb h)) (so_resolved_hardware o')"
    "so_retired_max_restarts o' = None" "so_retired_yield_grace_seconds o' = None"
    "sorted_wrt (<) (map fst (so_secret_env o'))"
    "i64_range (so_priority o')" "i64_range (so_vram_gb o')" "i64_range (so_cpu_cores o')"
    "i64_range (so_memory_gb o')"
  using assms by (simp_all add: wf_options_def)

lemma options_of_object_written:
  assumes "wf_options o'"
  shows "options_of_object (present_fields (options_fields o')) = o'"
  by (intro submit_options.equality)
     (simp_all add: options_of_object_def options_object_get options_retired_keys field_reads
       optional_binds optint_or_def hardware_or_def ignored_or_def wf_optionsD [OF assms]
       f64_from_value_f64_value secrets_roundtrip hardware_value_reads optint_reads)

lemma options_required_written:
  "list_all (\<lambda>k. obj_get (present_fields (options_fields o')) k \<noteq> None) options_required"
  by (simp add: options_required_def options_object_get)

lemma options_object_ok_written:
  assumes "wf_options o'"
  shows "options_object_ok (present_fields (options_fields o'))"
proof -
  have "list_all (\<lambda>kv. fst kv \<in> set options_known) (present_fields (options_fields o'))"
  proof -
    have "fst ` set (options_fields o') = set options_written"
      using options_fields_keys [of o'] by (metis list.set_map)
    then show ?thesis
      using options_written_known by (force simp: list_all_iff set_present_fields)
  qed
  then show ?thesis
    by (simp add: options_object_ok_def options_required_written field_checks options_object_get
        options_retired_keys optint_ok_def hardware_ok_def optional_checks optint_reads
        hardware_value_reads secrets_roundtrip wf_optionsD [OF assms] f64_from_value_f64_value
        del: not_None_eq)
qed

lemma options_roundtrip [doc_simps]:
  "wf_options o' \<Longrightarrow> options_from_value (options_to_value o') = Some o'"
  by (simp add: options_from_value_def options_to_value_def options_object_ok_written
      options_of_object_written)

lemma hardware_list_roundtrip [doc_simps]:
  "list_all (\<lambda>h. i64_range (rh_gpu_mem_gb h)) hs \<Longrightarrow>
   hardware_list_from_value (JArr (map hardware_to_value hs)) = Some hs"
  by (induction hs)
     (auto simp: hardware_list_from_value_def List.map_filter_def list_all_iff split: if_splits)

end
