(* ===== verification/Markers.thy ===== *)
theory Markers
  imports Records
begin

text \<open>
  \<open>src/stado-rs/src/queue/listing/\<close>, the ordered index: a queued job has a marker whose name sorts
  into scheduling order (\<open>keys.rs\<close>), written and removed beside the job document (\<open>markers.rs\<close>),
  and the reads over a lifecycle prefix (\<open>jobs.rs\<close>).
\<close>

section \<open>Names\<close>

definition marker_prefix :: string where
  "marker_prefix = ''queue_priority/''"

definition i64_max :: int where
  "i64_max = 2 ^ 63 - 1"

definition priority_key :: "job \<Rightarrow> string" where
  "priority_key j = hex_digits 16 (nat \<bar>priority j - i64_max\<bar>) @ ''-'' @ created_at j"

definition priority_fits :: "int \<Rightarrow> bool" where
  "priority_fits p \<longleftrightarrow> \<not> p < 0"

definition marker_path :: "job \<Rightarrow> string" where
  "marker_path j = marker_prefix @ priority_key j @ ''-'' @ job_id j @ ''.json''"

definition is_marker :: "string \<Rightarrow> bool" where
  "is_marker path =
     (let name = last (split_on (CHR ''/'') path)
      in \<not> starts_with name ''.'' \<and> ends_with name ''.json'')"

section \<open>Writes and removals\<close>

definition write_marker :: "job \<Rightarrow> unit storage_prog" where
  "write_marker j =
     upload_text (marker_path j)
       (Json (JObj [(''job_id'', JStr (job_id j)), (''priority'', JInt (priority j))]))"

definition delete_marker_for :: "job \<Rightarrow> unit storage_prog" where
  "delete_marker_for j = delete_blob (marker_path j)"

fun delete_each :: "(string \<Rightarrow> bool) \<Rightarrow> string list \<Rightarrow> unit storage_prog" where
  "delete_each P [] = ok ()"
| "delete_each P (path # paths) =
     bindE (if P path then delete_blob path else ok ()) (\<lambda>_. delete_each P paths)"

definition delete_markers_scanning :: "string \<Rightarrow> string option \<Rightarrow> unit storage_prog" where
  "delete_markers_scanning id' keep =
     bindE (list_paths marker_prefix Every)
       (delete_each (\<lambda>path.
          is_marker path \<and> ends_with path (''-'' @ id' @ ''.json'') \<and> Some path \<noteq> keep))"

section \<open>Reads over a prefix\<close>

text \<open>
  The chunks of parallel reads are one sequence of reads in listing order: \<open>workers\<close> reads are in
  flight at once, and the results are taken in order. A window of \<open>Oldest n\<close> asks for all paths in
  age order (\<open>NonZeroUsize::MAX\<close>) and stops at \<open>n\<close> live jobs.
\<close>

fun download_chunk :: "string list \<Rightarrow> body option list storage_prog" where
  "download_chunk [] = ok []"
| "download_chunk (path # paths) =
     bindp (download_text path) (\<lambda>r.
       bindp (download_chunk paths) (\<lambda>rs.
         Ret (case r of Inl e \<Rightarrow> Inl e | Inr t \<Rightarrow> bind_result rs (\<lambda>ts. Inr (t # ts)))))"

definition chunks :: "nat \<Rightarrow> 'a list \<Rightarrow> 'a list list" where
  "chunks n xs = map (\<lambda>i. take n (drop (i * n) xs)) [0..<(length xs + n - 1) div n]"

text \<open>\<open>Inl\<close>: the window is full and the walk returns; \<open>Inr\<close>: it goes on.\<close>

fun take_live :: "lib \<Rightarrow> listing \<Rightarrow> job list \<Rightarrow> body option list \<Rightarrow> (job list + job list) storage_prog" where
  "take_live L listing' jobs [] = ok (Inr jobs)"
| "take_live L listing' jobs (None # texts) = take_live L listing' jobs texts"
| "take_live L listing' jobs (Some data # texts) =
     bindE (from_json L data) (\<lambda>j.
       if is_transition_sentinel_state (state j) then take_live L listing' jobs texts
       else let jobs' = jobs @ [j]
            in case listing' of
                 Oldest count \<Rightarrow> if count \<le> length jobs' then ok (Inl jobs')
                                else take_live L listing' jobs' texts
               | Every \<Rightarrow> take_live L listing' jobs' texts)"

fun fetch_chunks ::
  "lib \<Rightarrow> listing \<Rightarrow> job list \<Rightarrow> string list list \<Rightarrow> job list storage_prog" where
  "fetch_chunks L listing' jobs [] = ok jobs"
| "fetch_chunks L listing' jobs (paths # rest) =
     bindE (download_chunk paths) (\<lambda>texts.
     bindE (take_live L listing' jobs texts) (\<lambda>r.
       case r of Inl full \<Rightarrow> ok full | Inr jobs' \<Rightarrow> fetch_chunks L listing' jobs' rest))"

definition usize_max :: nat where
  "usize_max = 2 ^ 64 - 1"

definition list_jobs :: "lib \<Rightarrow> nat \<Rightarrow> string \<Rightarrow> listing \<Rightarrow> job list storage_prog" where
  "list_jobs L workers prefix' listing' =
     (let ordered = (case listing' of Oldest _ \<Rightarrow> Oldest usize_max | Every \<Rightarrow> Every);
          directory = prefix' @ ''/''
      in bindE (list_paths directory ordered) (\<lambda>all.
           let paths = filter (\<lambda>p. starts_with p directory \<and> ends_with p ''.json'') all
           in fetch_chunks L listing' [] (chunks workers paths)))"

definition list_job_ids :: "string \<Rightarrow> string list storage_prog" where
  "list_job_ids prefix' =
     (let directory = prefix' @ ''/''
      in bindE (list_paths directory Every) (\<lambda>paths.
           ok (List.map_filter (\<lambda>path.
             Option.bind (strip_prefix path directory) (\<lambda>rest.
             Option.bind (strip_suffix rest ''.json'') (\<lambda>name.
               if name \<noteq> [] \<and> CHR ''/'' \<notin> set name then Some name else None))) paths)))"

section \<open>The order of the index\<close>

lemma digit_char_less: "a < b \<Longrightarrow> b < 16 \<Longrightarrow> digit_char a < digit_char b"
  by (auto simp: digit_char_def less_char_def)

lemma list_less_append_left: "xs < ys \<Longrightarrow> length xs = length ys \<Longrightarrow> xs @ as < ys @ (bs :: 'a :: linorder list)"
proof (induction xs arbitrary: ys)
  case (Cons x xs)
  then show ?case by (cases ys) auto
qed simp

lemma list_less_append_right [simp]: "xs @ as < xs @ bs \<longleftrightarrow> as < (bs :: 'a :: linorder list)"
  by (induction xs) auto

lemma hex_digits_less: "m < n \<Longrightarrow> n < 16 ^ w \<Longrightarrow> hex_digits w m < hex_digits w n"
proof (induction w arbitrary: m n)
  case (Suc w)
  have bound: "n div 16 < 16 ^ w"
    using Suc.prems(2) by (simp add: less_mult_imp_div_less mult.commute)
  show ?case
  proof (cases "m div 16 = n div 16")
    case True
    then have "m mod 16 < n mod 16"
      using Suc.prems(1) by (metis div_mult_mod_eq nat_add_left_cancel_less)
    then show ?thesis using True digit_char_less by simp
  next
    case False
    then have "m div 16 < n div 16"
      using Suc.prems(1) by (metis div_le_mono le_neq_implies_less less_or_eq_imp_le)
    then have "hex_digits w (m div 16) < hex_digits w (n div 16)"
      using Suc.IH bound by simp
    then show ?thesis by (simp add: list_less_append_left)
  qed
qed simp

lemma priority_distance:
  assumes "i64_range p" "i64_range q" "p > q"
  shows "nat \<bar>p - i64_max\<bar> < nat \<bar>q - i64_max\<bar>" "nat \<bar>q - i64_max\<bar> < 16 ^ 16"
  using assms by (auto simp: i64_range_def i64_max_def)

lemma marker_path_priority_less:
  assumes "i64_range (priority a)" "i64_range (priority b)" "priority a > priority b"
  shows "marker_path a < marker_path b"
proof -
  have "hex_digits 16 (nat \<bar>priority a - i64_max\<bar>) < hex_digits 16 (nat \<bar>priority b - i64_max\<bar>)"
    using priority_distance [OF assms] by (intro hex_digits_less)
  then show ?thesis
    by (simp add: marker_path_def priority_key_def list_less_append_left)
qed

lemma marker_path_age_less:
  assumes "priority a = priority b" "created_at a < created_at b"
    and "length (created_at a) = length (created_at b)"
  shows "marker_path a < marker_path b"
  using assms by (simp add: marker_path_def priority_key_def list_less_append_left)

lemma all_calls_delete_each:
  "P Observe \<Longrightarrow> (\<And>p. Q p \<Longrightarrow> P (Remove p)) \<Longrightarrow> all_calls P (delete_each Q ps)"
  by (induction ps) auto

end
