(* ===== verification/Manifest.thy ===== *)
theory Manifest
  imports Options Markers
begin

text \<open>
  \<open>src/stado-rs/src/queue/submit/manifest/\<close> and \<open>src/stado-rs/src/queue/runs/\<close>: the run manifest
  \<open>runs/<run id>.json\<close>, the authority above the jobs of one submission. A stored manifest is proved
  to be exactly the plan its request derives, entry by entry and with its retained outcomes
  (\<open>validate.rs\<close>, \<open>validate/outcome.rs\<close>); a v2 manifest is upgraded in place (\<open>migrate.rs\<close>); the
  outcome of a settled job is pinned into the entry that names it (\<open>runs/terminal/\<close>) and read back
  from there once the job's own documents are gone (\<open>runs/manifest/read.rs\<close>).
\<close>

section \<open>Entry states\<close>

datatype entry_state = Planned | Claimed | Enqueuing | Accepted | EntryTerminal | Reaped

definition entry_ended :: "entry_state \<Rightarrow> bool" where
  "entry_ended s \<longleftrightarrow> s = EntryTerminal \<or> s = Reaped"

fun entry_word :: "entry_state \<Rightarrow> string" where
  "entry_word Planned = ''planned''"
| "entry_word Claimed = ''claimed''"
| "entry_word Enqueuing = ''enqueuing''"
| "entry_word Accepted = ''accepted''"
| "entry_word EntryTerminal = ''terminal''"
| "entry_word Reaped = ''reaped''"

definition entry_state_of_word :: "string \<Rightarrow> entry_state option" where
  "entry_state_of_word w =
     (if w = ''planned'' then Some Planned
      else if w = ''claimed'' then Some Claimed
      else if w = ''enqueuing'' then Some Enqueuing
      else if w = ''accepted'' then Some Accepted
      else if w = ''terminal'' then Some EntryTerminal
      else if w = ''reaped'' then Some Reaped
      else None)"

text \<open>A unit variant is a string, or an object whose one key names it with \<open>null\<close>.\<close>

definition entry_state_stored :: "json_object \<Rightarrow> submit_error + entry_state" where
  "entry_state_stored entry =
     (case obj_get entry ''state'' of
        None \<Rightarrow> Inl (Validation ''run checkpoint entry names no state'')
      | Some v \<Rightarrow>
          ok_or (Validation ''run checkpoint entry state is no state of a run entry'')
            (case v of JStr w \<Rightarrow> entry_state_of_word w
             | JObj [(w, JNull)] \<Rightarrow> entry_state_of_word w
             | _ \<Rightarrow> None))"

record manifest_entry =
  me_planned_job :: job
  me_state :: entry_state
  me_outcome_job :: "job option"

section \<open>A settled job against its entry\<close>

definition linkage_fields :: "string list" where
  "linkage_fields = [''run_id'', ''submission_request_digest'', ''submission_command_index'']"

definition terminal_job_projection :: "job \<Rightarrow> json" where
  "terminal_job_projection j =
     (case immutable_job_projection j of
        JObj o' \<Rightarrow> JObj (obj_remove_all linkage_fields o')
      | v \<Rightarrow> v)"

definition terminal_job_matches_entry :: "job \<Rightarrow> job \<Rightarrow> string \<Rightarrow> nat \<Rightarrow> bool" where
  "terminal_job_matches_entry j planned run_id' index \<longleftrightarrow>
     (let exact_linkage = (run_id j = run_id' \<and>
            submission_request_digest j = submission_request_digest planned \<and>
            submission_command_index j = Some index);
          legacy_unlinked = (run_id j = [] \<and> submission_request_digest j = [] \<and>
            submission_command_index j = None)
      in run_id planned = run_id' \<and> submission_command_index planned = Some index \<and>
         job_id j = job_id planned \<and> (exact_linkage \<or> legacy_unlinked) \<and>
         value_eq (terminal_job_projection j) (terminal_job_projection planned))"

definition recorded_instant :: "lib \<Rightarrow> string \<Rightarrow> submit_error + int" where
  "recorded_instant L value = ok_or (Validation ''not RFC 3339'') (parse_rfc3339 L value)"

definition outcome_fields :: "string list" where
  "outcome_fields = [''prefix'', ''recorded_at'', ''job'']"

text \<open>A failed job ends at its failure, every other terminal job at completion.\<close>

definition terminal_stamp :: "string \<Rightarrow> job \<Rightarrow> string option" where
  "terminal_stamp prefix' j =
     (if prefix' = ''failed''
      then (if completed_at j = None then failed_at j else None)
      else (if failed_at j = None then completed_at j else None))"

text \<open>The checks before the clock is read, and those after.\<close>

definition outcome_shape ::
  "lib \<Rightarrow> json \<Rightarrow> job option \<Rightarrow> submit_error + (string \<times> job \<times> int)" where
  "outcome_shape L entry outcome_job =
     (case Option.bind (get_key entry ''outcome'') as_object of
        None \<Rightarrow> Inl (Validation ''terminal entry has no outcome'')
      | Some outcome \<Rightarrow>
          if length outcome \<noteq> length outcome_fields \<or>
             \<not> list_all (\<lambda>k. obj_get outcome k \<noteq> None) outcome_fields
          then Inl (Validation ''terminal entry outcome has invalid fields'')
          else case Option.bind (obj_get outcome ''prefix'') as_str of
            None \<Rightarrow> Inl (Validation ''terminal outcome prefix is not text'')
          | Some prefix' \<Rightarrow>
              (case outcome_job of
                 None \<Rightarrow> Inl (Validation ''terminal entry has no retained job'')
               | Some terminal_job \<Rightarrow>
                   if prefix' \<notin> set terminal_prefixes \<or> state terminal_job \<noteq> prefix'
                   then Inl (Validation ''terminal entry prefix and retained job state disagree'')
                   else (case Option.bind (obj_get outcome ''recorded_at'') as_str of
                           None \<Rightarrow> Inl (Validation ''terminal outcome recorded_at is not text'')
                         | Some raw \<Rightarrow> bind_result (recorded_instant L raw)
                             (\<lambda>recorded_at. Inr (prefix', terminal_job, recorded_at)))))"

definition outcome_times ::
  "lib \<Rightarrow> int \<Rightarrow> int \<Rightarrow> string \<Rightarrow> nat \<Rightarrow> job \<Rightarrow> string \<times> job \<times> int \<Rightarrow> submit_error + unit" where
  "outcome_times L now' manifest_created_at run_id' index planned shape =
     (case shape of (prefix', terminal_job, recorded_at) \<Rightarrow>
        if recorded_at < manifest_created_at \<or> recorded_at > now'
        then Inl (Validation ''terminal outcome recorded_at is outside the run lifetime'')
        else case terminal_stamp prefix' terminal_job of
          None \<Rightarrow> Inl (Validation ''terminal retained job has contradictory terminal timestamps'')
        | Some stamp \<Rightarrow> bind_result (recorded_instant L stamp) (\<lambda>terminal_at.
            if terminal_at < manifest_created_at \<or> terminal_at > recorded_at
            then Inl (Validation ''terminal retained job timestamp is outside the outcome lifetime'')
            else if \<not> terminal_job_matches_entry terminal_job planned run_id' index
            then Inl (Validation ''stable job key belongs to different submission content'')
            else Inr ()))"

definition terminal_outcome ::
  "lib \<Rightarrow> json \<Rightarrow> job option \<Rightarrow> job \<Rightarrow> string \<Rightarrow> nat \<Rightarrow> int \<Rightarrow> (submit_error + unit) prog" where
  "terminal_outcome L entry outcome_job planned run_id' index manifest_created_at =
     bindE (Ret (outcome_shape L entry outcome_job)) (\<lambda>shape.
       bindp now (\<lambda>t. Ret (outcome_times L t manifest_created_at run_id' index planned shape)))"

section \<open>Validation of a stored manifest\<close>

definition lowercase_sha256_hex :: "lib \<Rightarrow> string \<Rightarrow> bool" where
  "lowercase_sha256_hex L value \<longleftrightarrow>
     length value = length (sha256_hex L (Raw [])) \<and> list_all is_lower_hex value"

definition obsolete_fields :: "string list" where
  "obsolete_fields = [''n_jobs'', ''job_ids'', ''commands'']"

definition commands_of_request :: "json \<Rightarrow> submit_error + string list" where
  "commands_of_request request =
     (case Option.bind (get_key request ''commands'') as_array of
        None \<Rightarrow> Inl (Validation ''submission request commands are missing'')
      | Some xs \<Rightarrow> ok_or (Validation ''submission command is not a string'')
          (strs_from_value (JArr xs)))"

text \<open>What every entry of one manifest is checked against.\<close>

record manifest_plan =
  mp_run_id :: string
  mp_request_digest :: string
  mp_commands :: "string list"
  mp_options :: submit_options
  mp_hardware :: "resolved_hardware_projection list"
  mp_provenance :: submission_provenance
  mp_created_at :: int
  mp_legacy_digest :: "string option"

definition required_manifest_string :: "json \<Rightarrow> string \<Rightarrow> submit_error + string" where
  "required_manifest_string manifest field' =
     ok_or (Validation ''run manifest is missing a field'') (get_str manifest field')"

definition manifest_header ::
  "lib \<Rightarrow> json \<Rightarrow> string \<Rightarrow> json \<Rightarrow> string \<Rightarrow> submit_error + (manifest_plan \<times> json list)" where
  "manifest_header L manifest run_id' request request_digest =
     (if get_str manifest ''schema'' \<noteq> Some ''stado.run-submission.v3'' \<or>
         get_str manifest ''run_id'' \<noteq> Some run_id' \<or>
         get_str manifest ''request_digest'' \<noteq> Some request_digest \<or>
         \<not> (case get_key manifest ''request'' of None \<Rightarrow> False | Some r \<Rightarrow> value_eq r request)
      then Inl (Validation ''run id already belongs to a different or legacy submission request'')
      else if get_str request ''schema'' \<noteq> Some ''stado.submission-request.v3''
      then Inl (Validation ''run id requires explicit request-plan migration'')
      else if list_ex (\<lambda>k. get_key manifest k \<noteq> None) obsolete_fields
      then Inl (Validation ''run id retained an obsolete parallel manifest field'')
      else
        bind_result (commands_of_request request) (\<lambda>commands.
        bind_result (ok_or (Validation ''submission request options are missing'')
          (get_key request ''options'')) (\<lambda>options_value.
        bind_result (ok_or (Validation ''invalid submission options'')
          (options_from_value options_value)) (\<lambda>options.
        bind_result (ok_or (Validation ''submission request hardware plan is missing'')
          (get_key request ''resolved_hardware'')) (\<lambda>hardware_value.
        bind_result (ok_or (Validation ''invalid submission hardware plan'')
          (hardware_list_from_value hardware_value)) (\<lambda>hardware.
        if length hardware \<noteq> length commands
        then Inl (Validation ''run id has an incomplete submission hardware plan'')
        else
          bind_result (required_manifest_string manifest ''created_at'') (\<lambda>created.
          bind_result (required_manifest_string manifest ''submitted_by'') (\<lambda>by'.
          bind_result (required_manifest_string manifest ''submitted_from'') (\<lambda>from'.
          bind_result (required_manifest_string manifest ''submitter_app'') (\<lambda>app.
          bind_result (ok_or (Validation ''run manifest has invalid created_at'')
            (parse_rfc3339 L created)) (\<lambda>created_instant.
          if get_str manifest ''source_digest'' \<noteq> Some (submission_source_digest L options) \<or>
             get_str manifest ''input_digest'' \<noteq> Some (submission_input_digest L commands options)
          then Inl (Validation ''run id has corrupt source or input digests'')
          else
            bind_result (ok_or (Validation ''run manifest entries are missing'')
              (Option.bind (get_key manifest ''entries'') as_array)) (\<lambda>entries.
            if length entries \<noteq> length commands
            then Inl (Validation ''run id has another number of entries than commands'')
            else
              let legacy = get_str manifest ''migrated_from_v2_request_digest'' in
              if (case legacy of None \<Rightarrow> False | Some d \<Rightarrow> \<not> lowercase_sha256_hex L d)
              then Inl (Validation ''run id has an invalid v2 identity digest'')
              else Inr (\<lparr>mp_run_id = run_id', mp_request_digest = request_digest,
                     mp_commands = commands, mp_options = options, mp_hardware = hardware,
                     mp_provenance = \<lparr>sp_created_at = created, sp_submitted_by = by',
                       sp_submitted_from = from', sp_submitter_app = app\<rparr>,
                     mp_created_at = created_instant, mp_legacy_digest = legacy\<rparr>, entries)))))))))))))"

text \<open>The identity digest: a run migrated from v2 keeps the identities that request gave it.\<close>

definition identity_digest :: "manifest_plan \<Rightarrow> string" where
  "identity_digest plan =
     (case mp_legacy_digest plan of Some legacy \<Rightarrow> legacy | None \<Rightarrow> mp_request_digest plan)"

definition planned_id :: "lib \<Rightarrow> manifest_plan \<Rightarrow> nat \<Rightarrow> string" where
  "planned_id L plan index =
     job_id_from_key (submission_job_key L (identity_digest plan) index (mp_commands plan ! index))"

definition expected_job :: "lib \<Rightarrow> manifest_plan \<Rightarrow> nat \<Rightarrow> job \<Rightarrow> job" where
  "expected_job L plan index stored =
     (let provenance = (if mp_legacy_digest plan = None then mp_provenance plan
            else (mp_provenance plan)\<lparr>sp_created_at := created_at stored\<rparr>)
      in (build_planned_job (mp_commands plan ! index) (mp_options plan) (planned_id L plan index)
           (mp_hardware plan ! index) provenance)
         \<lparr>submission_request_digest := identity_digest plan,
          submission_command_index := Some index\<rparr>)"

definition entry_plan ::
  "lib \<Rightarrow> manifest_plan \<Rightarrow> nat \<Rightarrow> json \<Rightarrow> submit_error + (job \<times> entry_state \<times> job option)" where
  "entry_plan L plan index entry =
     (let command' = mp_commands plan ! index;
          key = submission_job_key L (mp_request_digest plan) index command'
      in if Option.bind (get_key entry ''command_index'') as_u64 \<noteq> Some index \<or>
            get_str entry ''command'' \<noteq> Some command' \<or>
            get_str entry ''job_key'' \<noteq> Some key \<or>
            get_str entry ''job_id'' \<noteq> Some (planned_id L plan index)
         then Inl (Validation ''run id has a corrupt command-to-job mapping'')
         else
           bind_result (ok_or (Validation ''run entry has no planned job'')
             (get_key entry ''planned_job'')) (\<lambda>planned_value.
           bind_result (ok_or (Validation ''invalid planned job'')
             (job_from_value planned_value)) (\<lambda>j.
           if \<not> value_eq (job_to_value (expected_job L plan index j)) (job_to_value j)
           then Inl (Validation ''run id has a planned job not derivable from its request'')
           else
             bind_result (ok_or (Validation ''run entry state is missing'')
               (get_str entry ''state'')) (\<lambda>word.
             bind_result (ok_or (Validation ''run id has invalid entry state'')
               (entry_state_of_word word)) (\<lambda>st.
             case Option.bind (Option.bind (get_key entry ''outcome'') as_object)
                    (\<lambda>outcome. obj_get outcome ''job'') of
               None \<Rightarrow> Inr (j, st, None)
             | Some v \<Rightarrow> bind_result (ok_or (Validation ''invalid terminal outcome'')
                 (job_from_value v)) (\<lambda>outcome_job. Inr (j, st, Some outcome_job)))))))"

definition validate_entry ::
  "lib \<Rightarrow> manifest_plan \<Rightarrow> nat \<Rightarrow> json \<Rightarrow> (submit_error + manifest_entry) prog" where
  "validate_entry L plan index entry =
     bindE (Ret (entry_plan L plan index entry)) (\<lambda>(j, st, outcome_job).
       bindE (if entry_ended st
              then terminal_outcome L entry outcome_job j (mp_run_id plan) index (mp_created_at plan)
              else if outcome_job \<noteq> None
              then fail (Validation ''non-terminal entry unexpectedly carries an outcome'')
              else ok ())
         (\<lambda>_. ok \<lparr>me_planned_job = j, me_state = st, me_outcome_job = outcome_job\<rparr>))"

fun validate_entries ::
  "lib \<Rightarrow> manifest_plan \<Rightarrow> nat \<Rightarrow> json list \<Rightarrow> (submit_error + manifest_entry list) prog" where
  "validate_entries L plan index [] = ok []"
| "validate_entries L plan index (entry # entries) =
     bindE (validate_entry L plan index entry) (\<lambda>e.
     bindE (validate_entries L plan (Suc index) entries) (\<lambda>es. ok (e # es)))"

definition validate_run_manifest ::
  "lib \<Rightarrow> json \<Rightarrow> string \<Rightarrow> json \<Rightarrow> string \<Rightarrow> (submit_error + manifest_entry list) prog" where
  "validate_run_manifest L manifest run_id' request request_digest =
     bindE (Ret (manifest_header L manifest run_id' request request_digest))
       (\<lambda>(plan, entries). validate_entries L plan 0 entries)"

definition validate_stored_run_manifest ::
  "lib \<Rightarrow> json \<Rightarrow> string \<Rightarrow> (submit_error + unit) prog" where
  "validate_stored_run_manifest L manifest run_id' =
     (case get_key manifest ''request'' of
        None \<Rightarrow> fail (Validation ''run manifest request is missing'')
      | Some request \<Rightarrow>
          bindE (validate_run_manifest L manifest run_id' request (digest_value L request))
            (\<lambda>_. ok ()))"

end
