(* ===== verification/Local_File.thy ===== *)
theory Local_File
  imports Contract
begin

text \<open>
  \<open>src/stado-rs/src/queue/local_file/\<close>: the device-local backend. The filesystem is the list of
  its regular files, each with its text, in the order of their last change (so the position
  stands for the inode change time), named by the components of the absolute path; the metadata
  sidecars under \<open>.metadata/\<close> are kept beside them, parsed. A write is whole (tempfile, fsync,
  rename or link), so a file has the old text or the new one. Failures of the operating system
  are not modelled, with one exception: the write fence of an A/B storage handoff, which refuses
  every mutation. The version of a blob is the SHA-256 of its text.
\<close>

section \<open>Paths\<close>

text \<open>\<open>Path::components\<close> of a relative path: empty pieces and \<open>.\<close> are dropped.\<close>

definition path_components :: "string \<Rightarrow> string list" where
  "path_components p = filter (\<lambda>c. c \<noteq> [] \<and> c \<noteq> ''.'') (split_on (CHR ''/'') p)"

definition normalize :: "string list \<Rightarrow> string list \<Rightarrow> string list" where
  "normalize out components =
     foldl (\<lambda>out c. if c = ''..'' then butlast out else out @ [c]) out components"

text \<open>\<open>root.join(path)\<close>: an absolute path replaces the root.\<close>

definition local_path :: "string list \<Rightarrow> string \<Rightarrow> storage_error + string list" where
  "local_path root path =
     (let target = normalize (if starts_with path ''/'' then [] else root) (path_components path)
      in if take (length root) target = root then Inr target else Inl (PathEscape path))"

definition path_extension :: "string \<Rightarrow> string option" where
  "path_extension p =
     (case path_components p of
        [] \<Rightarrow> None
      | cs \<Rightarrow> (case split_once (CHR ''.'') (rev (last cs)) of
                None \<Rightarrow> None
              | Some (ext, stem) \<Rightarrow> if stem = [] \<or> last cs = ''..'' then None else Some (rev ext)))"

definition metadata_path :: "string \<Rightarrow> string list" where
  "metadata_path path =
     (if path_extension path = Some ''json'' then path_components path
      else path_components (path @ ''.json''))"

section \<open>The device\<close>

record local_disk =
  files :: "(string list \<times> body) list"
  sidecars :: "(string list \<times> (string \<times> string) list) list"
  exclusive_locks :: "string list list"
  admitted :: "string option"
  mtimes :: "string list \<Rightarrow> int"
  device_time :: int

definition read_file :: "local_disk \<Rightarrow> string list \<Rightarrow> body option" where
  "read_file d target = map_of (files d) target"

text \<open>Placing a file by rename makes it the last one changed, modified at the device's time.\<close>

definition publish_replacing :: "local_disk \<Rightarrow> string list \<Rightarrow> body \<Rightarrow> local_disk" where
  "publish_replacing d target data =
     d\<lparr>files := filter (\<lambda>(k, _). k \<noteq> target) (files d) @ [(target, data)],
       mtimes := (mtimes d)(target := device_time d)\<rparr>"

definition modified :: "local_disk \<Rightarrow> string list \<Rightarrow> int option" where
  "modified d target = (if read_file d target = None then None else Some (mtimes d target))"

definition remove_missing_ok :: "local_disk \<Rightarrow> string list \<Rightarrow> local_disk" where
  "remove_missing_ok d target = d\<lparr>files := filter (\<lambda>(k, _). k \<noteq> target) (files d)\<rparr>"

definition read_sidecar :: "local_disk \<Rightarrow> string list \<Rightarrow> (string \<times> string) list" where
  "read_sidecar d key = (case map_of (sidecars d) key of None \<Rightarrow> [] | Some kv \<Rightarrow> kv)"

section \<open>The write fence\<close>

definition write_fence_protocol :: string where
  "write_fence_protocol = ''stado.storage-root-write-fence.v1''"

text \<open>The innermost ancestor \<open>.stado/local-storage\<close> or \<open>.stado/local-backup\<close>, searched upwards.\<close>

fun fence_pair :: "nat \<Rightarrow> string list \<Rightarrow> nat option" where
  "fence_pair 0 root = None"
| "fence_pair (Suc i) root =
     (if (root ! i = ''local-storage'' \<or> root ! i = ''local-backup'') \<and>
         0 < i \<and> root ! (i - 1) = ''.stado''
      then Some i else fence_pair i root)"

definition write_fence_for_root :: "string list \<Rightarrow> (string list \<times> string list) option" where
  "write_fence_for_root root =
     (case fence_pair (length root) root of
        None \<Rightarrow> None
      | Some i \<Rightarrow>
          Some (take i root @ [''recovery'', ''storage-root-writes.lock''],
                take i root @ [''recovery'', ''storage-root-write-fence.json'']))"

definition read_intent :: "local_disk \<Rightarrow> string list \<Rightarrow> storage_error + json option" where
  "read_intent d intent =
     (case read_file d intent of
        None \<Rightarrow> Inr None
      | Some (Json v) \<Rightarrow>
          if get_str v ''schema'' \<noteq> Some write_fence_protocol \<or>
             (case get_str v ''transaction'' of None \<Rightarrow> True | Some t \<Rightarrow> t = [])
          then Inl (Other ''local storage write-fence intent is invalid'')
          else Inr (Some v)
      | Some _ \<Rightarrow> Inl JsonError)"

definition fence_refused :: storage_error where
  "fence_refused = IoError ''local storage writes are fenced''"

definition fence_mutation_guard ::
  "local_disk \<Rightarrow> string list \<Rightarrow> string list \<Rightarrow> storage_error + unit" where
  "fence_mutation_guard d lock intent =
     (if lock \<in> set (exclusive_locks d) then bind_result (read_intent d intent) (\<lambda>_. Inl fence_refused)
      else bind_result (read_intent d intent) (\<lambda>found.
        case found of
          None \<Rightarrow> Inr ()
        | Some v \<Rightarrow> if get_str v ''transaction'' \<noteq> admitted d then Inl fence_refused else Inr ()))"

definition mutation_guard :: "string list \<Rightarrow> local_disk \<Rightarrow> storage_error + unit" where
  "mutation_guard root d =
     (case write_fence_for_root root of
        None \<Rightarrow> Inr ()
      | Some (lock, intent) \<Rightarrow> fence_mutation_guard d lock intent)"

definition admit_fence_transaction :: "local_disk \<Rightarrow> string \<Rightarrow> (storage_error + unit) \<times> local_disk" where
  "admit_fence_transaction d transaction =
     (case admitted d of
        None \<Rightarrow> (Inr (), d\<lparr>admitted := Some transaction\<rparr>)
      | Some held \<Rightarrow>
          if held \<noteq> transaction
          then (Inl (Other ''this process already writes for another fence transaction''), d)
          else (Inr (), d))"

section \<open>The trait's operations\<close>

definition guarded_write ::
  "string list \<Rightarrow> local_disk \<Rightarrow> string \<Rightarrow> (string list \<Rightarrow> (storage_error + 'a) \<times> local_disk)
   \<Rightarrow> (storage_error + 'a) \<times> local_disk" where
  "guarded_write root d path f =
     (case mutation_guard root d of
        Inl e \<Rightarrow> (Inl e, d)
      | Inr _ \<Rightarrow> (case local_path root path of Inl e \<Rightarrow> (Inl e, d) | Inr target \<Rightarrow> f target))"

definition local_upload_text ::
  "string list \<Rightarrow> local_disk \<Rightarrow> string \<Rightarrow> body \<Rightarrow> (storage_error + unit) \<times> local_disk" where
  "local_upload_text root d path content' =
     (case local_path root path of
        Inl e \<Rightarrow> (Inl e, d)
      | Inr target \<Rightarrow>
          (case mutation_guard root d of
             Inl e \<Rightarrow> (Inl e, d)
           | Inr _ \<Rightarrow> (Inr (), publish_replacing d target content')))"

definition local_download_text ::
  "string list \<Rightarrow> local_disk \<Rightarrow> string \<Rightarrow> storage_error + body option" where
  "local_download_text root d path =
     bind_result (local_path root path) (\<lambda>target. Inr (read_file d target))"

definition local_create_if_absent ::
  "string list \<Rightarrow> local_disk \<Rightarrow> string \<Rightarrow> body \<Rightarrow> (storage_error + bool) \<times> local_disk" where
  "local_create_if_absent root d path data =
     guarded_write root d path (\<lambda>target.
       if read_file d target = None then (Inr True, publish_replacing d target data)
       else (Inr False, d))"

definition local_version :: "lib \<Rightarrow> body \<Rightarrow> string" where
  "local_version L data = sha256_hex L data"

definition local_swap_if_version ::
  "lib \<Rightarrow> string list \<Rightarrow> local_disk \<Rightarrow> string \<Rightarrow> string \<Rightarrow> body
   \<Rightarrow> (storage_error + string) \<times> local_disk" where
  "local_swap_if_version L root d path expected content' =
     guarded_write root d path (\<lambda>target.
       case read_file d target of
         None \<Rightarrow> (Inl (NotFound path), d)
       | Some current \<Rightarrow>
           if local_version L current \<noteq> expected
           then (Inl (StorageConflict (''local storage version changed for '' @ path)), d)
           else (Inr (local_version L content'), publish_replacing d target content'))"

definition local_read_versioned ::
  "lib \<Rightarrow> string list \<Rightarrow> local_disk \<Rightarrow> string \<Rightarrow> storage_error + versioned_text option" where
  "local_read_versioned L root d path =
     bind_result (local_path root path) (\<lambda>target.
       Inr (map_option (\<lambda>data. \<lparr>content = data, version = local_version L data\<rparr>)
         (read_file d target)))"

definition local_delete ::
  "string list \<Rightarrow> local_disk \<Rightarrow> string \<Rightarrow> (storage_error + unit) \<times> local_disk" where
  "local_delete root d path =
     guarded_write root d path (\<lambda>target.
       (Inr (), (remove_missing_ok d target)
          \<lparr>sidecars := filter (\<lambda>(k, _). k \<noteq> metadata_path path) (sidecars d)\<rparr>))"

definition local_exists :: "string list \<Rightarrow> local_disk \<Rightarrow> string \<Rightarrow> storage_error + bool" where
  "local_exists root d path =
     bind_result (local_path root path) (\<lambda>target. Inr (read_file d target \<noteq> None))"

text \<open>
  \<open>names_under\<close>: in the directory part of the prefix, the entries whose name starts with the last
  segment, and everything below each of those; internal areas are left out.
\<close>

definition rsplit_slash :: "string \<Rightarrow> string \<times> string" where
  "rsplit_slash p =
     (case split_once (CHR ''/'') (rev p) of
        None \<Rightarrow> ([], p)
      | Some (leaf, directory) \<Rightarrow> (rev directory, rev leaf))"

definition names_under :: "string list \<Rightarrow> local_disk \<Rightarrow> string \<Rightarrow> string list" where
  "names_under root d prefix =
     (let (directory, leaf) = rsplit_slash prefix;
          scan_root = root @ path_components directory
      in filter (\<lambda>name. starts_with name prefix) (remdups
           (map (\<lambda>(item, _). join_with ''/'' (drop (length root) item))
             (filter (\<lambda>(item, _).
                take (length scan_root) item = scan_root \<and> length scan_root < length item \<and>
                starts_with (item ! length scan_root) leaf \<and>
                take (Suc (length root)) item \<noteq> root @ [''.locks''] \<and>
                take (Suc (length root)) item \<noteq> root @ [''.metadata''])
              (files d)))))"

definition local_list_paths ::
  "string list \<Rightarrow> local_disk \<Rightarrow> string \<Rightarrow> listing \<Rightarrow> storage_error + string list" where
  "local_list_paths root d prefix listing' =
     (let paths = names_under root d prefix
      in case listing' of Oldest count \<Rightarrow> Inr (take count paths) | Every \<Rightarrow> Inr (sort paths))"

definition local_list_page ::
  "string list \<Rightarrow> local_disk \<Rightarrow> string \<Rightarrow> string \<Rightarrow> nat option \<Rightarrow> storage_error + string list" where
  "local_list_page root d prefix start_after limit =
     (let names = dropWhile (\<lambda>name. name \<le> start_after) (sort (names_under root d prefix))
      in Inr (case limit of None \<Rightarrow> names | Some n \<Rightarrow> take n names))"

definition local_set_metadata ::
  "string list \<Rightarrow> local_disk \<Rightarrow> string \<Rightarrow> (string \<times> string) list
   \<Rightarrow> (storage_error + unit) \<times> local_disk" where
  "local_set_metadata root d path kv =
     guarded_write root d path (\<lambda>target.
       if read_file d target = None then (Inr (), d)
       else
         let stated = filter (\<lambda>(_, value). value \<noteq> []) kv;
             current = foldl (\<lambda>m (k, v). btree_insert k v m) (read_sidecar d (metadata_path path)) stated
         in (Inr (), d\<lparr>sidecars := (metadata_path path, current) #
               filter (\<lambda>(k, _). k \<noteq> metadata_path path) (sidecars d)\<rparr>))"

definition local_updated_at :: "string list \<Rightarrow> local_disk \<Rightarrow> string \<Rightarrow> storage_error + int option" where
  "local_updated_at root d path = bind_result (local_path root path) (\<lambda>target. Inr (modified d target))"

definition local_list_blobs_with_meta ::
  "string list \<Rightarrow> local_disk \<Rightarrow> string \<Rightarrow> storage_error + blob_info list" where
  "local_list_blobs_with_meta root d prefix =
     collect_results (map (\<lambda>name.
       bind_result (local_path root name) (\<lambda>target.
         Inr \<lparr>bi_name = name, bi_updated = modified d target,
              bi_metadata = read_sidecar d (metadata_path name)\<rparr>))
       (sort (names_under root d prefix)))"

definition local_backend :: "lib \<Rightarrow> string list \<Rightarrow> local_disk backend" where
  "local_backend L root =
     \<lparr>be_upload_text = local_upload_text root,
      be_download_text = local_download_text root,
      be_upload_text_if_absent = local_create_if_absent root,
      be_download_text_versioned = local_read_versioned L root,
      be_compare_and_swap_text = local_swap_if_version L root,
      be_delete = local_delete root,
      be_exists = local_exists root,
      be_list_paths = local_list_paths root,
      be_list_page = local_list_page root,
      be_set_metadata = local_set_metadata root,
      be_list_blobs_with_meta = local_list_blobs_with_meta root,
      be_updated_at = local_updated_at root\<rparr>"

section \<open>The backend keeps the contract\<close>

text \<open>A blob path that names its file by its own components: no empty, \<open>.\<close> or \<open>..\<close> piece.\<close>

definition plain_path :: "string \<Rightarrow> bool" where
  "plain_path p \<longleftrightarrow> list_all (\<lambda>c. c \<noteq> [] \<and> c \<noteq> ''.'' \<and> c \<noteq> ''..'') (split_on (CHR ''/'') p)"

definition blob_target :: "string list \<Rightarrow> string \<Rightarrow> string list" where
  "blob_target root p = root @ split_on (CHR ''/'') p"

definition local_view :: "string list \<Rightarrow> local_disk \<Rightarrow> string \<Rightarrow> body option" where
  "local_view root d p = read_file d (blob_target root p)"

definition local_put :: "string list \<Rightarrow> local_disk \<Rightarrow> string \<Rightarrow> body \<Rightarrow> local_disk" where
  "local_put root d p t = publish_replacing d (blob_target root p) t"

definition local_remove :: "string list \<Rightarrow> local_disk \<Rightarrow> string \<Rightarrow> local_disk" where
  "local_remove root d p =
     (remove_missing_ok d (blob_target root p))
       \<lparr>sidecars := filter (\<lambda>(k, _). k \<noteq> metadata_path p) (sidecars d)\<rparr>"

definition local_annotate ::
  "string list \<Rightarrow> local_disk \<Rightarrow> string \<Rightarrow> (string \<times> string) list \<Rightarrow> local_disk" where
  "local_annotate root d p kv = snd (local_set_metadata root d p kv)"

text \<open>A name the filesystem can give an entry of a directory.\<close>

definition entry_name :: "string \<Rightarrow> bool" where
  "entry_name c \<longleftrightarrow> c \<noteq> [] \<and> c \<noteq> ''.'' \<and> c \<noteq> ''..'' \<and> CHR ''/'' \<notin> set c"

lemma plain_path_join: "plain_path (a @ CHR ''/'' # b) \<longleftrightarrow> plain_path a \<and> plain_path b"
  by (simp add: plain_path_def split_on_append)

lemma entry_name_plain: "entry_name c \<Longrightarrow> plain_path c"
  by (simp add: entry_name_def plain_path_def split_on_no_sep)

text \<open>The device is not fenced for this process, and every path on it is made of entry names.\<close>

definition local_ready :: "string list \<Rightarrow> local_disk \<Rightarrow> bool" where
  "local_ready root d \<longleftrightarrow>
     mutation_guard root d = Inr () \<and> list_all entry_name root \<and>
     list_all (\<lambda>(item, _). list_all entry_name item) (files d)"

lemma join_split_on: "join_with [d] (split_on d s) = s"
proof (induction s)
  case (Cons c s)
  obtain p ps where "split_on d s = p # ps"
    using split_on_nonempty [of d s] by (cases "split_on d s") auto
  with Cons.IH show ?case by (cases ps) auto
qed simp

lemma split_on_inject: "split_on d s = split_on d t \<longleftrightarrow> s = t"
  by (metis join_split_on)

lemma blob_target_inject [simp]: "blob_target root p = blob_target root q \<longleftrightarrow> p = q"
  by (simp add: blob_target_def split_on_inject)

lemma normalize_plain:
  "list_all (\<lambda>c. c \<noteq> ''..'') cs \<Longrightarrow> normalize out cs = out @ cs"
  by (induction cs arbitrary: out) (auto simp: normalize_def)

lemma plain_path_components: "plain_path p \<Longrightarrow> path_components p = split_on (CHR ''/'') p"
  by (auto simp: plain_path_def path_components_def list_all_iff filter_id_conv)

lemma plain_path_not_absolute: "plain_path p \<Longrightarrow> \<not> starts_with p ''/''"
  by (cases p) (auto simp: plain_path_def)

lemma local_path_plain: "plain_path p \<Longrightarrow> local_path root p = Inr (blob_target root p)"
  using normalize_plain [of "path_components p" root] plain_path_components [of p]
    plain_path_not_absolute [of p]
  by (auto simp: local_path_def blob_target_def plain_path_def list_all_iff)

lemma map_of_replace:
  "map_of (filter (\<lambda>(k, _). k \<noteq> target) fs @ [(target, t)]) q =
     (if q = target then Some t else map_of fs q)"
  by (induction fs) (auto simp: map_add_def)

lemma map_of_without:
  "map_of (filter (\<lambda>(k, _). k \<noteq> target) fs) q = (if q = target then None else map_of fs q)"
  by (induction fs) auto

lemma read_file_publish [simp]:
  "read_file (publish_replacing d target t) q = (if q = target then Some t else read_file d q)"
  by (simp add: read_file_def publish_replacing_def map_of_replace del: map_of_append)

lemma read_file_remove [simp]:
  "read_file (remove_missing_ok d target) q = (if q = target then None else read_file d q)"
  by (simp add: read_file_def remove_missing_ok_def map_of_without)

lemma read_file_sidecars [simp]: "read_file (d\<lparr>sidecars := m\<rparr>) q = read_file d q"
  by (simp add: read_file_def)

lemma fence_pair_bound:
  "fence_pair n root = Some i \<Longrightarrow> i < n \<and> (root ! i = ''local-storage'' \<or> root ! i = ''local-backup'')"
  by (induction n) (auto split: if_splits)

lemma fence_intent_outside:
  assumes "write_fence_for_root root = Some (lock, intent)"
  shows "intent \<noteq> blob_target root p"
proof -
  from assms obtain i where i: "fence_pair (length root) root = Some i"
    and intent: "intent = take i root @ [''recovery'', ''storage-root-write-fence.json'']"
    by (auto simp: write_fence_for_root_def split: option.splits)
  from fence_pair_bound [OF i] have bound: "i < length root"
    and name: "root ! i = ''local-storage'' \<or> root ! i = ''local-backup''" by auto
  have "intent ! i = ''recovery''" using bound by (simp add: intent nth_append)
  moreover have "blob_target root p ! i = root ! i"
    using bound by (simp add: blob_target_def nth_append)
  ultimately show ?thesis using name by auto
qed

lemma read_intent_write [simp]:
  "intent \<noteq> target \<Longrightarrow> read_intent (publish_replacing d target t) intent = read_intent d intent"
  "intent \<noteq> target \<Longrightarrow> read_intent (remove_missing_ok d target) intent = read_intent d intent"
  "read_intent (d\<lparr>sidecars := m\<rparr>) intent = read_intent d intent"
  by (simp_all add: read_intent_def)

lemma guard_fields [simp]:
  "exclusive_locks (publish_replacing d target t) = exclusive_locks d"
  "admitted (publish_replacing d target t) = admitted d"
  "exclusive_locks (remove_missing_ok d target) = exclusive_locks d"
  "admitted (remove_missing_ok d target) = admitted d"
  by (simp_all add: publish_replacing_def remove_missing_ok_def)

lemma mutation_guard_write [simp]:
  "mutation_guard root (publish_replacing d (blob_target root p) t) = mutation_guard root d"
  "mutation_guard root (remove_missing_ok d (blob_target root p)) = mutation_guard root d"
  "mutation_guard root (d\<lparr>sidecars := m\<rparr>) = mutation_guard root d"
  by (auto simp: mutation_guard_def fence_mutation_guard_def fence_intent_outside
      split: option.splits)

lemma split_on_pieces: "c \<in> set (split_on d s) \<Longrightarrow> d \<notin> set c"
  by (induction s arbitrary: c) (auto split: if_splits list.splits)

lemma split_join_names:
  "list_all entry_name cs \<Longrightarrow> cs \<noteq> [] \<Longrightarrow> split_on (CHR ''/'') (join_with ''/'' cs) = cs"
proof (induction "''/''" cs rule: join_with.induct)
  case (3 x y ys)
  then show ?case
    using split_on_append_sep [of "CHR ''/''" x "join_with ''/'' (y # ys)"] by (simp add: entry_name_def)
qed (auto simp: entry_name_def split_on_no_sep)

lemma plain_path_names: "plain_path p \<longleftrightarrow> list_all entry_name (split_on (CHR ''/'') p)"
  using split_on_pieces by (auto simp: plain_path_def entry_name_def list_all_iff)

lemma named_files [simp]:
  assumes "local_ready root d" "plain_path p"
  shows "list_all (\<lambda>(item, _). list_all entry_name item) (files (publish_replacing d (blob_target root p) t))"
    and "list_all (\<lambda>(item, _). list_all entry_name item) (files (remove_missing_ok d target))"
  using assms
  by (auto simp: local_ready_def publish_replacing_def remove_missing_ok_def list_all_iff blob_target_def
      plain_path_names)

lemmas local_ops = local_backend_def local_upload_text_def local_download_text_def
  local_create_if_absent_def local_read_versioned_def local_swap_if_version_def local_delete_def
  local_exists_def local_set_metadata_def guarded_write_def

interpretation lf: blob_store "local_backend L root" "local_view root" "local_put root"
  "local_remove root" "local_annotate root" "local_version L"
  "\<lambda>p. ''local storage version changed for '' @ p" plain_path "local_ready root"
  for L root
proof (unfold_locales, goal_cases)
  case (4 s p t)
  then show ?case by (simp add: local_ops local_ready_def local_path_plain local_put_def)
next
  case (9 p q s t)
  then show ?case by (simp add: local_view_def local_put_def)
next
  case (11 s p kv q)
  then show ?case
    by (simp add: local_view_def local_annotate_def local_set_metadata_def guarded_write_def Let_def
        split: sum.splits)
next
  case (14 s p kv)
  then show ?case
    by (simp add: local_ready_def local_annotate_def local_set_metadata_def guarded_write_def Let_def
        split: sum.splits)
qed (auto simp: local_ops local_ready_def local_path_plain local_view_def local_put_def
      local_remove_def local_annotate_def Let_def split: option.splits sum.splits)

section \<open>Listings\<close>

definition directory_prefix :: "string \<Rightarrow> bool" where
  "directory_prefix P \<longleftrightarrow>
     (let names = split_on (CHR ''/'') (butlast P)
      in P \<noteq> [] \<and> last P = CHR ''/'' \<and> list_all entry_name names \<and>
         hd names \<noteq> ''.locks'' \<and> hd names \<noteq> ''.metadata'')"

text \<open>The paths the device serves as blobs, and the prefixes whose listing it completes.\<close>

definition internal_path :: "string \<Rightarrow> bool" where
  "internal_path p \<longleftrightarrow> hd (split_on (CHR ''/'') p) \<in> {''.locks'', ''.metadata''}"

definition blob_name :: "string \<Rightarrow> bool" where
  "blob_name p \<longleftrightarrow> plain_path p \<and> \<not> internal_path p"

definition listable :: "string \<Rightarrow> bool" where
  "listable P \<longleftrightarrow> CHR ''/'' \<notin> set P \<or> plain_path (fst (rsplit_slash P))"

definition local_named :: "string list \<Rightarrow> local_disk \<Rightarrow> bool" where
  "local_named root d \<longleftrightarrow>
     list_all entry_name root \<and> list_all (\<lambda>(item, _). list_all entry_name item) (files d)"

lemma local_ready_named: "local_ready root d \<Longrightarrow> local_named root d"
  by (simp add: local_ready_def local_named_def)

lemma names_under_sound:
  assumes named: "local_named root d" and p: "p \<in> set (names_under root d P)"
  shows "blob_name p \<and> starts_with p P \<and> local_view root d p \<noteq> None"
proof -
  obtain D leaf where rs: "rsplit_slash P = (D, leaf)" by fastforce
  obtain item t where item: "(item, t) \<in> set (files d)" and name: "p = join_with ''/'' (drop (length root) item)"
    and pre: "starts_with p P"
    and scan: "take (length (root @ path_components D)) item = root @ path_components D"
      "length (root @ path_components D) < length item"
    and outer: "take (Suc (length root)) item \<noteq> root @ [''.locks'']"
      "take (Suc (length root)) item \<noteq> root @ [''.metadata'']"
    using p unfolding names_under_def rs Let_def case_prod_conv by force
  have root: "take (length root) item = root" "length root < length item"
  proof -
    have "take (length root) (take (length (root @ path_components D)) item) = root"
      unfolding scan(1) by simp
    then show "take (length root) item = root" by (simp add: min_def split: if_splits)
    show "length root < length item" using scan(2) by simp
  qed
  have names: "list_all entry_name (drop (length root) item)" "drop (length root) item \<noteq> []"
    using named item root(2) by (auto simp: local_named_def list_all_iff dest!: in_set_dropD)
  have split: "split_on (CHR ''/'') p = drop (length root) item"
    using split_join_names [OF names] by (simp add: name)
  have "blob_target root p = item"
    using root(1) append_take_drop_id [of "length root" item] by (simp add: blob_target_def split)
  moreover have "map_of (files d) item \<noteq> None"
    using item by (metis domIff dom_map_of_conv_image_fst fst_conv image_eqI)
  moreover have "take (Suc (length root)) item = root @ [hd (split_on (CHR ''/'') p)]"
    using root by (simp add: take_Suc_conv_app_nth split hd_drop_conv_nth)
  with outer have "\<not> internal_path p" by (simp add: internal_path_def)
  ultimately show ?thesis
    using names(1) pre by (simp add: blob_name_def plain_path_names split local_view_def read_file_def)
qed

lemma rsplit_slash_join:
  assumes "CHR ''/'' \<in> set P" and "rsplit_slash P = (D, leaf)"
  shows "P = D @ CHR ''/'' # leaf"
proof -
  from assms obtain a b where split: "split_once (CHR ''/'') (rev P) = Some (a, b)"
    using split_once_None_iff [of "CHR ''/''" "rev P"] by auto
  from split_once_Some [OF this] have "rev P = a @ CHR ''/'' # b" by simp
  then have "P = rev b @ CHR ''/'' # rev a" by (metis rev.simps(2) rev_append rev_rev_ident append.assoc append_Cons append_Nil)
  with assms(2) split show ?thesis by (simp add: rsplit_slash_def)
qed

lemma rsplit_slash_none: "CHR ''/'' \<notin> set P \<Longrightarrow> rsplit_slash P = ([], P)"
  using split_once_None_iff [of "CHR ''/''" "rev P"] by (simp add: rsplit_slash_def)

lemma rsplit_slash_leaf: "rsplit_slash P = (D, leaf) \<Longrightarrow> CHR ''/'' \<notin> set leaf"
  using split_once_None_iff [of "CHR ''/''" "rev P"] split_once_Some [of "CHR ''/''" "rev P"]
  by (auto simp: rsplit_slash_def split: option.splits)

lemma split_on_prepend:
  "d \<notin> set a \<Longrightarrow> split_on d (a @ b) = (a @ hd (split_on d b)) # tl (split_on d b)"
  by (induction a) auto

lemma names_under_named:
  assumes "path_components D = ns" "rsplit_slash P = (D, leaf)" "starts_with p P"
    and "split_on (CHR ''/'') p = ns @ (leaf @ x) # xs" "\<not> internal_path p"
    and "local_view root d p \<noteq> None"
  shows "p \<in> set (names_under root d P)"
proof -
  obtain t where item: "(blob_target root p, t) \<in> set (files d)"
    using assms(6) by (auto simp: local_view_def read_file_def dest: map_of_SomeD)
  have I: "blob_target root p = root @ ns @ (leaf @ x) # xs"
    by (simp add: blob_target_def assms(4))
  have name: "p = (\<lambda>(item, _). join_with ''/'' (drop (length root) item)) (root @ ns @ (leaf @ x) # xs, t)"
    unfolding I [symmetric] by (simp add: blob_target_def join_split_on)
  have "take (Suc (length root)) (root @ ns @ (leaf @ x) # xs) = root @ [hd (split_on (CHR ''/'') p)]"
    by (cases ns) (simp_all add: assms(4))
  then have "(root @ ns @ (leaf @ x) # xs, t) \<in> set (filter (\<lambda>(item, _).
      take (length (root @ ns)) item = root @ ns \<and> length (root @ ns) < length item \<and>
      starts_with (item ! length (root @ ns)) leaf \<and>
      take (Suc (length root)) item \<noteq> root @ [''.locks''] \<and>
      take (Suc (length root)) item \<noteq> root @ [''.metadata'']) (files d))"
    using item assms(5) by (simp add: I internal_path_def starts_with_def nth_append)
  then show ?thesis
    unfolding names_under_def assms(1,2) Let_def case_prod_conv set_filter set_map set_remdups
    using name assms(3) by blast
qed

lemma names_under_listable:
  assumes "listable P" "blob_name p" "starts_with p P" "local_view root d p \<noteq> None"
  shows "p \<in> set (names_under root d P)"
proof -
  obtain r where r: "p = P @ r" using assms(3) by (metis starts_with_def append_take_drop_id)
  obtain D leaf where rs: "rsplit_slash P = (D, leaf)" by fastforce
  let ?rest = "split_on (CHR ''/'') r"
  have inner: "\<not> internal_path p" using assms(2) by (simp add: blob_name_def)
  show ?thesis
  proof (cases "CHR ''/'' \<in> set P")
    case True
    then have P: "P = D @ CHR ''/'' # leaf" by (rule rsplit_slash_join [OF _ rs])
    have "plain_path D" using assms(1) True rs by (simp add: listable_def)
    then have "path_components D = split_on (CHR ''/'') D" by (rule plain_path_components)
    moreover have "split_on (CHR ''/'') p = split_on (CHR ''/'') D @ (leaf @ hd ?rest) # tl ?rest"
      using split_on_prepend [OF rsplit_slash_leaf [OF rs]] by (simp add: r P split_on_append)
    ultimately show ?thesis using names_under_named rs assms(3,4) inner by blast
  next
    case False
    then have "D = []" "leaf = P" using rs by (simp_all add: rsplit_slash_none)
    moreover have "split_on (CHR ''/'') p = [] @ (P @ hd ?rest) # tl ?rest"
      using split_on_prepend [OF False] by (simp add: r)
    moreover have "path_components [] = []" by (simp add: path_components_def)
    ultimately show ?thesis using names_under_named rs assms(3,4) inner by blast
  qed
qed

lemma blob_name_listable: "blob_name p \<Longrightarrow> listable p"
proof -
  assume p: "blob_name p"
  obtain D leaf where rs: "rsplit_slash p = (D, leaf)" by fastforce
  show ?thesis
  proof (cases "CHR ''/'' \<in> set p")
    case True
    have "plain_path D"
      using p plain_path_join [of D leaf] unfolding blob_name_def rsplit_slash_join [OF True rs] by simp
    then show ?thesis by (simp add: listable_def rs)
  qed (simp add: listable_def)
qed

text \<open>A directory lists all of its blobs, also those a plain path names beside the internal areas.\<close>

lemma names_under_complete:
  assumes "directory_prefix P" "plain_path p" "starts_with p P" "local_view root d p \<noteq> None"
  shows "p \<in> set (names_under root d P)"
proof -
  let ?D = "butlast P" and ?ns = "split_on (CHR ''/'') (butlast P)"
  from assms(1) have D: "list_all entry_name ?ns" "hd ?ns \<noteq> ''.locks''" "hd ?ns \<noteq> ''.metadata''" and "P \<noteq> []"
    and "last P = CHR ''/''"
    by (simp_all add: directory_prefix_def Let_def)
  then have P: "P = ?D @ ''/''" by (metis append_butlast_last_id)
  obtain r where r: "p = ?D @ CHR ''/'' # r"
    using assms(3) P by (metis append.assoc append_Cons append_Nil starts_with_def append_take_drop_id)
  have "rsplit_slash P = (?D, [])" by (subst P) (simp add: rsplit_slash_def)
  then have "listable P" using D(1) by (simp add: listable_def plain_path_names)
  moreover have "blob_name p"
    using assms(2) D(2,3) by (simp add: blob_name_def internal_path_def r split_on_append)
  ultimately show ?thesis using names_under_listable assms(3,4) by blast
qed

lemma collect_results_map: "collect_results (map (\<lambda>n. Inr (f n)) ns) = Inr (map f ns)"
  by (induction ns) (simp_all add: bind_result_def)

lemma local_listing:
  assumes "local_named root d"
  shows "local_list_blobs_with_meta root d P =
     Inr (map (\<lambda>name. \<lparr>bi_name = name, bi_updated = modified d (blob_target root name),
        bi_metadata = read_sidecar d (metadata_path name)\<rparr>) (sort (names_under root d P)))"
  unfolding local_list_blobs_with_meta_def collect_results_map [symmetric]
  by (intro arg_cong [where f = collect_results] map_cong)
     (use names_under_sound [OF assms] in \<open>auto simp: local_path_plain bind_result_def blob_name_def\<close>)

interpretation lp: listed_store "local_backend L root" "local_view root" "local_put root"
  "local_remove root" "local_annotate root" "local_version L"
  "\<lambda>p. ''local storage version changed for '' @ p" plain_path "local_ready root" directory_prefix
  for L root
proof (unfold_locales, goal_cases)
  case (1 s P)
  then show ?case
    using names_under_sound [OF local_ready_named [OF 1]] names_under_complete [of P]
    by (auto simp: local_backend_def local_list_paths_def blob_name_def)
next
  case (2 s P)
  then show ?case
    using names_under_sound [OF local_ready_named [OF 2]] names_under_complete [of P _ root s]
    by (auto simp: local_backend_def local_listing local_ready_named blob_name_def image_image)
qed

section \<open>What no program can do\<close>

text \<open>Whatever a program asks of a fenced device, or outside of the deployment root, is refused.\<close>

lemma fenced_run:
  "mutation_guard root (disk w) = Inl e \<Longrightarrow> disk (snd (run L (local_backend L root) prog w)) = disk w"
  by (induction prog arbitrary: w)
     (auto simp: local_ops Let_def bind_result_def split: prod.splits sum.splits)

lemma local_path_under: "local_path root p = Inr t \<Longrightarrow> take (length root) t = root"
  by (auto simp: local_path_def Let_def split: if_splits)

lemma run_outside_root:
  "take (length root) f \<noteq> root \<Longrightarrow>
   read_file (disk (snd (run L (local_backend L root) prog w))) f = read_file (disk w) f"
  by (induction prog arbitrary: w)
     (auto simp: local_ops Let_def bind_result_def local_path_under
       split: prod.splits sum.splits option.splits if_splits)

end
