(* ===== verification/Runs.thy ===== *)
theory Runs
  imports Manifest Local_File
begin

text \<open>
  The run manifest as a stored document: the in-place upgrade of a v2 manifest
  (\<open>submit/manifest/migrate.rs\<close>), the retention of a settled job's outcome in its entry
  (\<open>runs/terminal/record.rs\<close>), the reads of a run and of a retained job (\<open>runs/manifest/read.rs\<close>),
  the per-state counts of a run (\<open>runs/manifest/status.rs\<close>) and the derived run name
  (\<open>runs/name.rs\<close>). A loop that reads again after a lost swap takes a bound on its rounds.
\<close>

section \<open>The document\<close>

definition run_path :: "string \<Rightarrow> string" where
  "run_path run_id' = ''runs/'' @ run_id' @ ''.json''"

definition entry_object :: "json \<Rightarrow> nat \<Rightarrow> json_object option" where
  "entry_object manifest index =
     (case Option.bind (get_key manifest ''entries'') as_array of
        None \<Rightarrow> None
      | Some entries \<Rightarrow> if index < length entries then as_object (entries ! index) else None)"

definition set_entry :: "json \<Rightarrow> nat \<Rightarrow> json_object \<Rightarrow> json" where
  "set_entry manifest index entry =
     (case (manifest, Option.bind (get_key manifest ''entries'') as_array) of
        (JObj o', Some entries) \<Rightarrow>
          JObj (obj_insert ''entries'' (JArr (entries[index := JObj entry])) o')
      | _ \<Rightarrow> manifest)"

section \<open>Upgrade of a v2 manifest\<close>

definition v2_plan ::
  "lib \<Rightarrow> json \<Rightarrow> string \<Rightarrow> submit_error + (json \<times> string \<times> string list \<times> submit_options \<times> json list)"
where
  "v2_plan L manifest run_id' =
     (if get_str manifest ''run_id'' \<noteq> Some run_id'
      then Inl (Validation ''v2 run manifest does not match run id'')
      else
        bind_result (ok_or (Validation ''v2 run manifest has no request'')
          (get_key manifest ''request'')) (\<lambda>old_request.
        if get_str old_request ''schema'' \<noteq> Some ''stado.submission-request.v2''
        then Inl (Validation ''run id has an invalid v2 request schema'')
        else
          let old_digest = digest_value L old_request in
          if get_str manifest ''request_digest'' \<noteq> Some old_digest
          then Inl (Validation ''run id has a corrupt v2 request digest'')
          else
            bind_result (commands_of_request old_request) (\<lambda>commands.
            bind_result (ok_or (Validation ''v2 submission options are missing'')
              (get_key old_request ''options'')) (\<lambda>options_value.
            bind_result (ok_or (Validation ''invalid v2 submission options'')
              (options_from_value options_value)) (\<lambda>options.
            bind_result (ok_or (Validation ''v2 run entries are missing'')
              (Option.bind (get_key manifest ''entries'') as_array)) (\<lambda>entries.
            if length entries \<noteq> length commands
            then Inl (Validation ''run id has an incomplete v2 command plan'')
            else Inr (old_request, old_digest, commands, options, entries)))))))"

definition v2_entry_hardware ::
  "lib \<Rightarrow> string \<Rightarrow> string \<Rightarrow> nat \<Rightarrow> string \<Rightarrow> json \<Rightarrow> submit_error + resolved_hardware_projection" where
  "v2_entry_hardware L run_id' old_digest index command' entry =
     bind_result (ok_or (Validation ''v2 run entry has no planned job'')
       (get_key entry ''planned_job'')) (\<lambda>planned_value.
     bind_result (ok_or (Validation ''invalid v2 planned job'')
       (job_from_value planned_value)) (\<lambda>planned.
     let old_key = submission_job_key L old_digest index command';
         old_job_id = job_id_from_key old_key
     in if Option.bind (get_key entry ''command_index'') as_u64 \<noteq> Some index \<or>
           get_str entry ''command'' \<noteq> Some command' \<or>
           get_str entry ''job_key'' \<noteq> Some old_key \<or>
           get_str entry ''job_id'' \<noteq> Some old_job_id \<or>
           job_id planned \<noteq> old_job_id \<or> run_id planned \<noteq> run_id' \<or>
           submission_request_digest planned \<noteq> old_digest \<or>
           submission_command_index planned \<noteq> Some index
        then Inl (Validation ''run id has a corrupt v2 entry'')
        else Inr \<lparr>rh_gpu_mem_gb = gpu_mem_gb planned, rh_gpu_type = gpu_type planned,
               rh_machine_type = machine_type planned\<rparr>))"

definition enumerated :: "'a list \<Rightarrow> (nat \<times> 'a) list" where
  "enumerated xs = zip [0..<length xs] xs"

definition migrated_entry :: "lib \<Rightarrow> string \<Rightarrow> string list \<Rightarrow> nat \<Rightarrow> json \<Rightarrow> submit_error + json" where
  "migrated_entry L request_digest commands index entry =
     (case as_object entry of
        None \<Rightarrow> Inl (Validation ''v2 run entry is not an object'')
      | Some e \<Rightarrow> Inr (JObj (obj_insert ''job_key''
          (JStr (submission_job_key L request_digest index (commands ! index))) e)))"

definition migrated_manifest ::
  "lib \<Rightarrow> json \<Rightarrow> string \<Rightarrow> submit_error + (json \<times> json \<times> string)" where
  "migrated_manifest L manifest run_id' =
     bind_result (v2_plan L manifest run_id') (\<lambda>(old_request, old_digest, commands, options, entries).
     bind_result (collect_results (map (\<lambda>(index, entry).
       v2_entry_hardware L run_id' old_digest index (commands ! index) entry) (enumerated entries)))
       (\<lambda>resolved_hardware.
     bind_result (ok_or (Validation ''v2 request effective bucket is missing'')
       (get_str old_request ''effective_bucket'')) (\<lambda>effective_bucket.
     let request = JObj [(''schema'', JStr ''stado.submission-request.v3''),
           (''commands'', JArr (map JStr commands)),
           (''effective_bucket'', JStr effective_bucket),
           (''options'', options_to_value options),
           (''resolved_hardware'', JArr (map hardware_to_value resolved_hardware))];
         request_digest = digest_value L request
     in bind_result (ok_or (Validation ''v2 run manifest is not an object'') (as_object manifest))
          (\<lambda>object.
        let object = obj_insert ''schema'' (JStr ''stado.run-submission.v3'') object;
            object = obj_insert ''request'' request object;
            object = obj_insert ''request_digest'' (JStr request_digest) object;
            object = obj_insert ''migrated_from_v2_request_digest'' (JStr old_digest) object;
            object = obj_insert ''source_digest'' (JStr (submission_source_digest L options)) object;
            object = obj_insert ''input_digest''
              (JStr (submission_input_digest L commands options)) object;
            object = obj_remove_all obsolete_fields object
        in bind_result (collect_results (map (\<lambda>(index, entry).
             migrated_entry L request_digest commands index entry) (enumerated entries)))
             (\<lambda>migrated. Inr (JObj (obj_insert ''entries'' (JArr migrated) object),
                request, request_digest))))))"

fun migrate_loop :: "nat \<Rightarrow> lib \<Rightarrow> string \<Rightarrow> (submit_error + json) prog" where
  "migrate_loop 0 L run_id' = fail (Storage OutOfFuel)"
| "migrate_loop (Suc fuel) L run_id' =
     bindE (with_error Storage (read_text_versioned (run_path run_id'))) (\<lambda>found.
       case found of
         None \<Rightarrow> fail (Storage (NotFound (run_path run_id')))
       | Some versioned \<Rightarrow>
           (case content versioned of
              Json manifest \<Rightarrow>
                if get_str manifest ''schema'' \<noteq> Some ''stado.run-submission.v2'' then ok manifest
                else
                  bindE (Ret (migrated_manifest L manifest run_id'))
                    (\<lambda>(migrated, request, request_digest).
                  bindE (validate_run_manifest L migrated run_id' request request_digest) (\<lambda>_.
                  bindp (compare_and_swap_text (run_path run_id') (version versioned) (Json migrated))
                    (\<lambda>r. case r of
                       Inr _ \<Rightarrow> ok migrated
                     | Inl (StorageConflict _) \<Rightarrow> migrate_loop fuel L run_id'
                     | Inl (NotFound _) \<Rightarrow> migrate_loop fuel L run_id'
                     | Inl error' \<Rightarrow> fail (Storage error'))))
            | _ \<Rightarrow> fail (Validation ''invalid run manifest'')))"

definition migrate_v2_run_manifest :: "nat \<Rightarrow> lib \<Rightarrow> string \<Rightarrow> (submit_error + json) prog" where
  "migrate_v2_run_manifest fuel L run_id' =
     bindE (Ret (validate_run_id run_id')) (\<lambda>_. migrate_loop fuel L run_id')"

section \<open>Retention of an outcome\<close>

datatype missing_manifest = Allow | Refuse

definition submit_error_text :: "submit_error \<Rightarrow> storage_error" where
  "submit_error_text e =
     (case e of Validation text' \<Rightarrow> Other text' | Storage OutOfFuel \<Rightarrow> OutOfFuel
      | _ \<Rightarrow> Other ''submission error'')"

definition retained_job_index_path :: "string \<Rightarrow> string" where
  "retained_job_index_path id' = ''runs/jobs/'' @ id'"

definition index_retained_job :: "string \<Rightarrow> string \<Rightarrow> unit storage_prog" where
  "index_retained_job id' run_id' =
     bindE (create_text_if_absent (retained_job_index_path id') (Raw run_id')) (\<lambda>_. ok ())"

definition manifest_gone :: "missing_manifest \<Rightarrow> string \<Rightarrow> unit storage_prog" where
  "manifest_gone missing path =
     (case missing of Allow \<Rightarrow> ok () | Refuse \<Rightarrow> fail (NotFound path))"

definition outcome_value :: "lib \<Rightarrow> int \<Rightarrow> string \<Rightarrow> job \<Rightarrow> json" where
  "outcome_value L t prefix' j =
     JObj [(''prefix'', JStr prefix'), (''recorded_at'', JStr (to_rfc3339 L t)),
       (''job'', job_to_value j)]"

text \<open>An entry that already retains an outcome: the same prefix and the same job, or refused.\<close>

definition same_outcome :: "json \<Rightarrow> string \<Rightarrow> job \<Rightarrow> storage_error + bool" where
  "same_outcome existing prefix' j =
     (case get_key existing ''job'' of
        None \<Rightarrow> Inr False
      | Some v \<Rightarrow> (case job_from_value v of
          None \<Rightarrow> Inl JsonError
        | Some recorded \<Rightarrow> Inr (get_str existing ''prefix'' = Some prefix' \<and>
            value_eq (job_to_value recorded) (job_to_value j))))"

text \<open>\<open>Inl\<close>: nothing to write, index the job; \<open>Inr\<close>: the entry to retain the outcome in.\<close>

definition outcome_decision ::
  "json \<Rightarrow> string \<Rightarrow> nat \<Rightarrow> job \<Rightarrow> string \<Rightarrow> storage_error + (unit + json_object)" where
  "outcome_decision manifest run_id' index j prefix' =
     (if get_str manifest ''schema'' \<noteq> Some ''stado.run-submission.v3''
      then Inl (Other ''durable run manifest does not match terminal job'')
      else case entry_object manifest index of
        None \<Rightarrow> Inl (Other ''durable run manifest has no entry'')
      | Some entry \<Rightarrow>
          if Option.bind (obj_get entry ''job_id'') as_str \<noteq> Some (job_id j)
          then Inl (Other ''durable run manifest maps entry to a different job'')
          else
            bind_result (ok_or (Other ''durable run entry has no planned job'')
              (obj_get entry ''planned_job'')) (\<lambda>planned_value.
            bind_result (ok_or JsonError (job_from_value planned_value)) (\<lambda>planned.
            if \<not> terminal_job_matches_entry j planned run_id' index
            then Inl (Other ''terminal job does not match its immutable run projection'')
            else if Option.bind (obj_get entry ''state'') as_str = Some (entry_word Reaped)
            then Inr (Inl ())
            else (case obj_get entry ''outcome'' of
                    Some existing \<Rightarrow>
                      bind_result (same_outcome existing prefix' j) (\<lambda>same.
                        if same then Inr (Inl ())
                        else Inl (Other ''terminal outcome for job changed''))
                  | None \<Rightarrow> Inr (Inr entry)))))"

fun record_loop ::
  "nat \<Rightarrow> lib \<Rightarrow> string \<Rightarrow> nat \<Rightarrow> job \<Rightarrow> string \<Rightarrow> missing_manifest \<Rightarrow> unit storage_prog" where
  "record_loop 0 L run_id' index j prefix' missing = fail OutOfFuel"
| "record_loop (Suc fuel) L run_id' index j prefix' missing =
     bindE (read_text_versioned (run_path run_id')) (\<lambda>found.
       case found of
         None \<Rightarrow> manifest_gone missing (run_path run_id')
       | Some versioned \<Rightarrow>
           (case content versioned of
              Json manifest \<Rightarrow>
                bindE (with_error submit_error_text
                  (validate_stored_run_manifest L manifest run_id')) (\<lambda>_.
                bindE (Ret (outcome_decision manifest run_id' index j prefix')) (\<lambda>decision.
                  case decision of
                    Inl _ \<Rightarrow> index_retained_job (job_id j) run_id'
                  | Inr entry \<Rightarrow>
                      bindp now (\<lambda>t.
                        let entry = obj_insert ''state'' (JStr (entry_word EntryTerminal)) entry;
                            entry = obj_remove_all [''owner'', ''lease_expires_at''] entry;
                            entry = obj_insert ''outcome'' (outcome_value L t prefix' j) entry
                        in bindp (compare_and_swap_text (run_path run_id') (version versioned)
                             (Json (set_entry manifest index entry))) (\<lambda>r.
                             case r of
                               Inr _ \<Rightarrow> index_retained_job (job_id j) run_id'
                             | Inl (StorageConflict _) \<Rightarrow>
                                 record_loop fuel L run_id' index j prefix' missing
                             | Inl error' \<Rightarrow> fail error'))))
            | _ \<Rightarrow> fail JsonError))"

definition record_terminal_outcome_inner ::
  "nat \<Rightarrow> lib \<Rightarrow> string \<Rightarrow> nat \<Rightarrow> job \<Rightarrow> string \<Rightarrow> missing_manifest \<Rightarrow> unit storage_prog" where
  "record_terminal_outcome_inner fuel L run_id' index j prefix' missing =
     (if prefix' \<notin> set terminal_prefixes then fail (Other ''not a terminal job prefix'')
      else
        bindE (Ret (map_err submit_error_text (validate_run_id run_id'))) (\<lambda>_.
        bindp (migrate_v2_run_manifest fuel L run_id') (\<lambda>r.
          case r of
            Inl (Storage (NotFound missing_path)) \<Rightarrow> manifest_gone missing missing_path
          | Inl error' \<Rightarrow> fail (submit_error_text error')
          | Inr _ \<Rightarrow> record_loop fuel L run_id' index j prefix' missing)))"

definition record_terminal_outcome_for_entry ::
  "nat \<Rightarrow> lib \<Rightarrow> string \<Rightarrow> nat \<Rightarrow> job \<Rightarrow> string \<Rightarrow> unit storage_prog" where
  "record_terminal_outcome_for_entry fuel L run_id' index j prefix' =
     record_terminal_outcome_inner fuel L run_id' index j prefix' Allow"

definition record_terminal_outcome :: "nat \<Rightarrow> lib \<Rightarrow> job \<Rightarrow> string \<Rightarrow> unit storage_prog" where
  "record_terminal_outcome fuel L j prefix' =
     (if prefix' \<notin> set terminal_prefixes then fail (Other ''not a terminal job prefix'')
      else case submission_command_index j of
        None \<Rightarrow> ok ()
      | Some index \<Rightarrow>
          if run_id j = [] \<or> submission_request_digest j = [] then ok ()
          else record_terminal_outcome_inner fuel L (run_id j) index j prefix' Refuse)"

section \<open>Reads of a run\<close>

definition read_run :: "nat \<Rightarrow> lib \<Rightarrow> string \<Rightarrow> json_object option storage_prog" where
  "read_run fuel L run_id' =
     bindE (Ret (map_err submit_error_text (validate_run_id run_id'))) (\<lambda>_.
     bindE (read_text_versioned (run_path run_id')) (\<lambda>found.
       case found of
         None \<Rightarrow> ok None
       | Some versioned \<Rightarrow>
           (case content versioned of
              Json v \<Rightarrow>
                bindp (if get_str v ''schema'' = Some ''stado.run-submission.v2''
                       then migrate_v2_run_manifest fuel L run_id' else ok v) (\<lambda>r.
                  case r of
                    Inl (Storage (NotFound missing)) \<Rightarrow>
                      if missing = run_path run_id' then ok None
                      else fail (Other ''submission error'')
                  | Inl error' \<Rightarrow> fail (submit_error_text error')
                  | Inr (JObj m) \<Rightarrow> ok (Some m)
                  | Inr _ \<Rightarrow> fail (Other ''run manifest is not a JSON object''))
            | _ \<Rightarrow> fail JsonError)))"

definition list_runs :: "string list storage_prog" where
  "list_runs =
     bindE (list_blobs_with_meta ''runs/'') (\<lambda>blobs.
       ok (List.map_filter (\<lambda>blob.
         Option.bind (strip_prefix (bi_name blob) ''runs/'') (\<lambda>name.
           if CHR ''/'' \<in> set name then None else strip_suffix name ''.json'')) blobs))"

definition walked_path :: string where
  "walked_path = ''runs/retained-jobs-indexed''"

fun retained_entry_ids :: "bool \<Rightarrow> json list \<Rightarrow> storage_error + string list" where
  "retained_entry_ids current [] = Inr []"
| "retained_entry_ids current (entry # entries) =
     (if get_key entry ''outcome'' = None then retained_entry_ids current entries
      else case get_str entry ''job_id'' of
        Some id' \<Rightarrow> bind_result (retained_entry_ids current entries) (\<lambda>ids. Inr (id' # ids))
      | None \<Rightarrow> if current then Inl (Other ''run retains an outcome that names no job'')
                else retained_entry_ids current entries)"

definition retained_ids :: "json_object \<Rightarrow> storage_error + string list" where
  "retained_ids manifest =
     (let current = (Option.bind (obj_get manifest ''schema'') as_str = Some ''stado.run-submission.v3'')
      in case Option.bind (obj_get manifest ''entries'') as_array of
           None \<Rightarrow> if current then Inl (Other ''run lists no entries'') else Inr []
         | Some entries \<Rightarrow> retained_entry_ids current entries)"

definition retained_in :: "lib \<Rightarrow> json_object \<Rightarrow> string \<Rightarrow> job option storage_prog" where
  "retained_in L manifest id' =
     (case Option.bind (Option.bind (Option.bind (obj_get manifest ''entries'') as_array)
             (find (\<lambda>entry. get_str entry ''job_id'' = Some id')))
             (\<lambda>entry. get_key entry ''outcome'') of
        None \<Rightarrow> ok None
      | Some outcome \<Rightarrow>
          (case (get_str outcome ''prefix'', get_key outcome ''job'') of
             (Some prefix', Some retained) \<Rightarrow>
               bindp (from_json L (Json retained)) (\<lambda>r.
                 case r of
                   Inl _ \<Rightarrow> fail (Other ''run retains an unreadable outcome'')
                 | Inr j \<Rightarrow> ok (Some (j\<lparr>state := prefix'\<rparr>)))
           | _ \<Rightarrow> ok None))"

fun index_each :: "string \<Rightarrow> string list \<Rightarrow> unit storage_prog" where
  "index_each run_id' [] = ok ()"
| "index_each run_id' (id' # ids) =
     bindE (index_retained_job id' run_id') (\<lambda>_. index_each run_id' ids)"

fun walk_runs ::
  "nat \<Rightarrow> lib \<Rightarrow> string \<Rightarrow> job option \<Rightarrow> string list \<Rightarrow> job option storage_prog" where
  "walk_runs fuel L id' found [] = ok found"
| "walk_runs fuel L id' found (run_id' # runs) =
     bindE (read_run fuel L run_id') (\<lambda>read.
       case read of
         None \<Rightarrow> walk_runs fuel L id' found runs
       | Some manifest \<Rightarrow>
           bindE (Ret (retained_ids manifest)) (\<lambda>ids.
           bindE (index_each run_id' ids) (\<lambda>_.
           bindE (if found = None then retained_in L manifest id' else ok found) (\<lambda>found'.
             walk_runs fuel L id' found' runs))))"

definition body_text :: "body \<Rightarrow> string" where
  "body_text t = (case t of Raw s \<Rightarrow> s | _ \<Rightarrow> [])"

definition retained_job :: "nat \<Rightarrow> lib \<Rightarrow> string \<Rightarrow> job option storage_prog" where
  "retained_job fuel L id' =
     bindE (download_text (retained_job_index_path id')) (\<lambda>indexed.
       case indexed of
         Some text' \<Rightarrow>
           bindE (read_run fuel L (trim (body_text text'))) (\<lambda>read.
             case read of
               Some manifest \<Rightarrow> retained_in L manifest id'
             | None \<Rightarrow> ok None)
       | None \<Rightarrow>
           bindE (download_text walked_path) (\<lambda>walked.
             if walked \<noteq> None then ok None
             else
               bindE list_runs (\<lambda>runs.
               bindE (walk_runs fuel L id' None runs) (\<lambda>found.
               bindE (create_text_if_absent walked_path
                 (Raw (nat_digits (length runs) @ '' runs walked''))) (\<lambda>_. ok found)))))"

fun retained_each :: "nat \<Rightarrow> lib \<Rightarrow> blob_info list \<Rightarrow> job list storage_prog" where
  "retained_each fuel L [] = ok []"
| "retained_each fuel L (blob # blobs) =
     (case strip_prefix (bi_name blob) (retained_job_index_path []) of
        None \<Rightarrow> retained_each fuel L blobs
      | Some id' \<Rightarrow>
          bindE (retained_job fuel L id') (\<lambda>found.
          bindE (retained_each fuel L blobs) (\<lambda>jobs.
            ok (case found of None \<Rightarrow> jobs | Some j \<Rightarrow> j # jobs))))"

definition retained_jobs_with_prefix :: "nat \<Rightarrow> lib \<Rightarrow> string \<Rightarrow> job list storage_prog" where
  "retained_jobs_with_prefix fuel L prefix' =
     bindE (list_blobs_with_meta (retained_job_index_path prefix')) (retained_each fuel L)"

section \<open>Status of a run\<close>

definition probe_order :: "string list" where
  "probe_order = [''cancelled'', ''failed'', ''uploaded'', ''completed'', ''running'', ''queue'']"

fun first_holding :: "lib \<Rightarrow> string \<Rightarrow> string list \<Rightarrow> (string \<times> job) option storage_prog" where
  "first_holding L id' [] = ok None"
| "first_holding L id' (prefix' # prefixes) =
     bindE (read_job L prefix' id') (\<lambda>found.
       case found of
         Some j \<Rightarrow> ok (Some (prefix', j))
       | None \<Rightarrow> first_holding L id' prefixes)"

definition job_state :: "lib \<Rightarrow> string \<Rightarrow> string option storage_prog" where
  "job_state L id' =
     bindE (first_holding L id' probe_order) (\<lambda>found. ok (map_option fst found))"

record run_counts =
  rs_run_id :: string
  rs_submitter_app :: string
  rs_n_jobs :: nat
  rs_counts :: "string \<Rightarrow> nat"
  rs_missing :: nat
  rs_in_flight :: nat
  rs_all_terminal :: bool

fun count_entries ::
  "lib \<Rightarrow> (string \<Rightarrow> nat) \<Rightarrow> nat \<Rightarrow> json list \<Rightarrow> ((string \<Rightarrow> nat) \<times> nat) storage_prog" where
  "count_entries L counts missing [] = ok (counts, missing)"
| "count_entries L counts missing (entry # entries) =
     (case get_str entry ''job_id'' of
        None \<Rightarrow> fail (Other ''run manifest has an invalid entry'')
      | Some id' \<Rightarrow>
          (case Option.bind (Option.bind (Option.bind (get_key entry ''outcome'') as_object)
                  (\<lambda>outcome. obj_get outcome ''prefix'')) as_str of
             Some prefix' \<Rightarrow>
               if prefix' \<in> set terminal_prefixes
               then count_entries L (counts(prefix' := Suc (counts prefix'))) missing entries
               else fail (Other ''run manifest retained invalid outcome prefix'')
           | None \<Rightarrow>
               bindE (job_state L id') (\<lambda>found.
                 case found of
                   Some prefix' \<Rightarrow>
                     count_entries L (counts(prefix' := Suc (counts prefix'))) missing entries
                 | None \<Rightarrow> count_entries L counts (Suc missing) entries)))"

definition run_status :: "nat \<Rightarrow> lib \<Rightarrow> string \<Rightarrow> run_counts option storage_prog" where
  "run_status fuel L run_id' =
     bindE (read_run fuel L run_id') (\<lambda>read.
       case read of
         None \<Rightarrow> ok None
       | Some manifest \<Rightarrow>
           bindE (with_error submit_error_text
             (validate_stored_run_manifest L (JObj manifest) run_id')) (\<lambda>_.
           case Option.bind (obj_get manifest ''entries'') as_array of
             None \<Rightarrow> fail (Other ''run manifest has no durable entries'')
           | Some entries \<Rightarrow>
               bindE (count_entries L (\<lambda>_. 0) 0 entries) (\<lambda>(counts, missing).
                 let terminal = sum_list (map counts terminal_prefixes);
                     in_flight = counts ''queue'' + counts ''running''
                 in ok (Some \<lparr>rs_run_id = run_id',
                      rs_submitter_app =
                        (case Option.bind (obj_get manifest ''submitter_app'') as_str of
                           None \<Rightarrow> [] | Some s \<Rightarrow> s),
                      rs_n_jobs = length entries, rs_counts = counts, rs_missing = missing,
                      rs_in_flight = in_flight,
                      rs_all_terminal = (in_flight = 0 \<and> missing = 0 \<and> 0 < terminal)\<rparr>))))"

section \<open>The derived run name\<close>

definition program_name :: "string \<Rightarrow> string option" where
  "program_name command' =
     (let first = takeWhile (\<lambda>c. \<not> is_space c) (trim_start command')
      in if first = [] then None
         else case path_components first of
           [] \<Rightarrow> None
         | cs \<Rightarrow> if last cs = ''..'' then None else Some (last cs))"

definition derive_run_name :: "string list \<Rightarrow> string" where
  "derive_run_name commands =
     (let programs = push_missing [] (List.map_filter program_name commands);
          jobs = nat_digits (length commands) @ ''jobs''
      in if programs = [] then jobs else join_with ''+'' programs @ '':'' @ jobs)"

end
