(* ===== verification/Transitions.thy ===== *)
theory Transitions
  imports Runs
begin

text \<open>
  \<open>src/stado-rs/src/queue/storage/lifecycle/transitions/\<close>: the durable protocol by which a job
  moves between lifecycle prefixes. A move installs one record (\<open>prepare.rs\<close>), and whoever recovers
  that record finishes it (\<open>recover.rs\<close>): the source is fenced at the version the record pins, the
  promised destination is installed, the record is completed, the outcome of a terminal move is
  retained, the source is marked cleaned and the record is retired (\<open>retire.rs\<close>). With it the
  tombstone of a re-submission (\<open>queue/tombstone.rs\<close>) and the verdict a disk janitor reads
  (\<open>workdir.rs\<close>). Every loop that reads again after a lost swap takes a bound on its rounds; a round
  nobody interferes with is enough, which the lemmas of the next theory show.
\<close>

section \<open>The record\<close>

definition read_job_transition :: "lib \<Rightarrow> string \<Rightarrow> (job_transition \<times> string) option storage_prog" where
  "read_job_transition L id' =
     bindE (read_text_versioned (transition_path L id')) (\<lambda>found.
       case found of
         None \<Rightarrow> ok None
       | Some versioned \<Rightarrow>
           bindE (Ret (transition_from_body (content versioned))) (\<lambda>transition.
             if jt_schema transition \<noteq> transition_schema \<or> jt_job_id transition \<noteq> id'
             then fail (Other ''invalid durable transition record'')
             else ok (Some (transition, version versioned))))"

fun set_transition_state ::
  "nat \<Rightarrow> lib \<Rightarrow> job_transition \<Rightarrow> transition_state \<Rightarrow> bool storage_prog" where
  "set_transition_state 0 L expected st = fail OutOfFuel"
| "set_transition_state (Suc fuel) L expected st =
     bindE (read_job_transition L (jt_job_id expected)) (\<lambda>found.
       case found of
         None \<Rightarrow> fail (Other ''durable transition disappeared'')
       | Some (transition, version') \<Rightarrow>
           if jt_transition_id transition \<noteq> jt_transition_id expected \<or>
              jt_owner transition \<noteq> jt_owner expected
           then ok False
           else if jt_state transition = st then ok True
           else
             bindp (compare_and_swap_text (transition_path L (jt_job_id expected)) version'
               (transition_to_body (transition\<lparr>jt_state := st\<rparr>))) (\<lambda>r.
               case r of
                 Inr _ \<Rightarrow> ok True
               | Inl (StorageConflict _) \<Rightarrow> set_transition_state fuel L expected st
               | Inl error' \<Rightarrow> fail error'))"

fun retire_transition_record :: "nat \<Rightarrow> lib \<Rightarrow> job_transition \<Rightarrow> unit storage_prog" where
  "retire_transition_record 0 L completed = fail OutOfFuel"
| "retire_transition_record (Suc fuel) L completed =
     bindE (read_job_transition L (jt_job_id completed)) (\<lambda>found.
       case found of
         None \<Rightarrow> ok ()
       | Some (current, version') \<Rightarrow>
           if jt_transition_id current \<noteq> jt_transition_id completed \<or>
              jt_owner current \<noteq> jt_owner completed \<or> jt_state current = Retired
           then ok ()
           else if jt_state current \<noteq> TCompleted
           then fail (StorageConflict ''durable transition changed before retirement'')
           else
             bindp (compare_and_swap_text (transition_path L (jt_job_id completed)) version'
               (transition_to_body (current\<lparr>jt_state := Retired\<rparr>))) (\<lambda>r.
               case r of
                 Inr _ \<Rightarrow> ok ()
               | Inl (StorageConflict _) \<Rightarrow> retire_transition_record fuel L completed
               | Inl (NotFound _) \<Rightarrow> retire_transition_record fuel L completed
               | Inl error' \<Rightarrow> fail error'))"

fun retire_transition_source :: "nat \<Rightarrow> lib \<Rightarrow> job_transition \<Rightarrow> unit storage_prog" where
  "retire_transition_source 0 L transition = fail OutOfFuel"
| "retire_transition_source (Suc fuel) L transition =
     (let source_path = job_path (jt_from_prefix transition) (jt_job_id transition);
          fence_state = transition_fence_state (jt_transition_id transition);
          cleaned_state = transition_cleaned_state (jt_transition_id transition)
      in bindE (read_text_versioned source_path) (\<lambda>found.
           case found of
             None \<Rightarrow> ok ()
           | Some versioned \<Rightarrow>
               bindE (from_json L (content versioned)) (\<lambda>source.
                 if state source = cleaned_state then ok ()
                 else if state source \<noteq> fence_state then ok ()
                 else
                   bindE (if jt_from_prefix transition = ''queue'' then delete_marker_for source
                          else ok ()) (\<lambda>_.
                   bindp (compare_and_swap_text source_path (version versioned)
                     (to_json (source\<lparr>state := cleaned_state\<rparr>))) (\<lambda>r.
                     case r of
                       Inr _ \<Rightarrow> ok ()
                     | Inl (StorageConflict _) \<Rightarrow> retire_transition_source fuel L transition
                     | Inl (NotFound _) \<Rightarrow> retire_transition_source fuel L transition
                     | Inl error' \<Rightarrow> fail error')))))"

section \<open>The tombstone of a re-submission\<close>

definition tombstone_prefix :: "string \<Rightarrow> string option" where
  "tombstone_prefix to_prefix =
     (case prefix_parse to_prefix of
        Some Completed \<Rightarrow> Some ''fixed''
      | Some Uploaded \<Rightarrow> Some ''fixed''
      | Some Failed \<Rightarrow> Some ''failed_again''
      | _ \<Rightarrow> None)"

definition first_non_empty :: "string option \<Rightarrow> string option \<Rightarrow> string" where
  "first_non_empty a b =
     (case a of Some s \<Rightarrow> if s \<noteq> [] then s else (case b of Some t \<Rightarrow> t | None \<Rightarrow> [])
      | None \<Rightarrow> (case b of Some t \<Rightarrow> t | None \<Rightarrow> []))"

definition tombstone_path :: "string \<Rightarrow> string \<Rightarrow> string" where
  "tombstone_path marker_prefix' orig = marker_prefix' @ ''/'' @ orig @ ''.json''"

definition tombstone_body :: "job \<Rightarrow> string \<Rightarrow> body" where
  "tombstone_body j to_prefix =
     Json (JObj [(''orig_jid'', JStr (re_submission_of j)), (''new_jid'', JStr (job_id j)),
       (''new_state'', JStr to_prefix), (''batch_id'', JStr (batch_id j)),
       (''ts'', JStr (first_non_empty (completed_at j) (failed_at j)))])"

definition on_transition :: "job \<Rightarrow> string \<Rightarrow> unit prog" where
  "on_transition j to_prefix =
     (if re_submission_of j = [] then Ret ()
      else case tombstone_prefix to_prefix of
        None \<Rightarrow> Ret ()
      | Some marker_prefix' \<Rightarrow>
          bindp (upload_text (tombstone_path marker_prefix' (re_submission_of j))
            (tombstone_body j to_prefix)) (\<lambda>_. Ret ()))"

section \<open>Finishing a completed move\<close>

text \<open>A job document that is exactly what the record promised for its destination.\<close>

definition promised :: "job_transition \<Rightarrow> job \<Rightarrow> bool" where
  "promised t destination \<longleftrightarrow>
     same_identity destination (jt_destination_job t) \<and>
     state destination = prefix_state (jt_to_prefix t)"

text \<open>The source is marked cleaned, the tombstone written, and this generation of the record retired.\<close>

definition retire_move :: "nat \<Rightarrow> lib \<Rightarrow> job_transition \<Rightarrow> job \<Rightarrow> bool storage_prog" where
  "retire_move fuel L t destination =
     bindE (retire_transition_source fuel L t) (\<lambda>_.
     bindp (on_transition destination (jt_to_prefix t)) (\<lambda>_.
     bindE (retire_transition_record fuel L t) (\<lambda>_. ok True)))"

text \<open>
  A run manifest that is gone keeps no outcome, so the move is finished without it; one this build
  cannot read leaves the move for recovery.
\<close>

definition finish_completed_transition :: "nat \<Rightarrow> lib \<Rightarrow> job_transition \<Rightarrow> bool storage_prog" where
  "finish_completed_transition fuel L t =
     bindE (read_job L (jt_to_prefix t) (jt_job_id t)) (\<lambda>found.
       case found of
         None \<Rightarrow>
           bindE (first_holding L (jt_job_id t) all_prefixes) (\<lambda>holder.
             if holder \<noteq> None then bindE (retire_transition_record fuel L t) (\<lambda>_. ok False)
             else fail (StorageConflict ''completed transition has no destination''))
       | Some destination \<Rightarrow>
           if \<not> promised t destination
           then fail (StorageConflict ''destination does not match completed transition'')
           else
             bindE (read_text_versioned (job_path (jt_from_prefix t) (jt_job_id t))) (\<lambda>source_found.
             bindE (case source_found of
                      None \<Rightarrow> ok True
                    | Some versioned \<Rightarrow>
                        bindE (from_json L (content versioned)) (\<lambda>source.
                          ok (job_id source = jt_job_id t \<and>
                              state source = transition_cleaned_state (jt_transition_id t))))
               (\<lambda>source_retired.
             if source_retired then bindE (retire_transition_record fuel L t) (\<lambda>_. ok True)
             else
               bindp (if jt_to_prefix t \<in> set terminal_prefixes
                      then record_terminal_outcome fuel L destination (jt_to_prefix t)
                      else ok ()) (\<lambda>retained.
                 case retained of
                   Inr _ \<Rightarrow> retire_move fuel L t destination
                 | Inl (NotFound _) \<Rightarrow> retire_move fuel L t destination
                 | Inl (Other _) \<Rightarrow> ok False
                 | Inl error' \<Rightarrow> fail error'))))"

definition settle_unrecognized_transition :: "nat \<Rightarrow> lib \<Rightarrow> job_transition \<Rightarrow> bool storage_prog" where
  "settle_unrecognized_transition fuel L t =
     bindE (read_job L (jt_to_prefix t) (jt_job_id t)) (\<lambda>found.
       if (case found of None \<Rightarrow> False | Some destination \<Rightarrow> promised t destination)
       then bindE (set_transition_state fuel L t TCompleted) (\<lambda>moved.
         if \<not> moved then ok False else finish_completed_transition fuel L t)
       else
         bindE (read_text_versioned (job_path (jt_from_prefix t) (jt_job_id t))) (\<lambda>source_found.
         bindE (case source_found of
                  None \<Rightarrow> ok False
                | Some versioned \<Rightarrow>
                    bindE (from_json L (content versioned)) (\<lambda>source.
                      ok (state source \<noteq> transition_fence_state (jt_transition_id t))))
           (\<lambda>intact.
             if intact then bindE (set_transition_state fuel L t Aborted) (\<lambda>_. ok False)
             else fail (StorageConflict ''durable transition carries unknown state''))))"

section \<open>Recovery\<close>

fun install_destination :: "nat \<Rightarrow> lib \<Rightarrow> job_transition \<Rightarrow> job storage_prog" where
  "install_destination 0 L t = fail OutOfFuel"
| "install_destination (Suc fuel) L t =
     (let destination_path = job_path (jt_to_prefix t) (jt_job_id t);
          promise = jt_destination_job t;
          replace = (\<lambda>version'. bindp (compare_and_swap_text destination_path version' (to_json promise))
            (\<lambda>r. case r of
               Inr _ \<Rightarrow> ok promise
             | Inl (StorageConflict _) \<Rightarrow> install_destination fuel L t
             | Inl (NotFound _) \<Rightarrow> install_destination fuel L t
             | Inl error' \<Rightarrow> fail error'))
      in bindE (read_text_versioned destination_path) (\<lambda>found.
           case found of
             None \<Rightarrow>
               bindE (create_text_if_absent destination_path (to_json promise)) (\<lambda>created.
                 if created then ok promise else install_destination fuel L t)
           | Some existing_versioned \<Rightarrow>
               bindE (from_json L (content existing_versioned)) (\<lambda>existing.
                 if starts_with (state existing) transition_cleaned_prefix
                 then replace (version existing_versioned)
                 else if \<not> promised t existing
                 then fail (StorageConflict ''destination conflicts with transition'')
                 else if jt_destination_version t = Some (version existing_versioned) \<and>
                         to_json existing \<noteq> to_json promise
                 then replace (version existing_versioned)
                 else ok existing)))"

text \<open>After the source is fenced: install, index, complete, finish.\<close>

definition settle_prepared :: "nat \<Rightarrow> lib \<Rightarrow> job_transition \<Rightarrow> bool storage_prog" where
  "settle_prepared fuel L t =
     bindE (install_destination fuel L t) (\<lambda>destination.
     bindE (set_metadata (job_path (jt_to_prefix t) (jt_job_id t)) (job_metadata destination)) (\<lambda>_.
     bindE (if jt_to_prefix t = ''queue'' then write_marker destination else ok ()) (\<lambda>_.
     bindE (set_transition_state fuel L t TCompleted) (\<lambda>moved.
       if \<not> moved then ok False else finish_completed_transition fuel L t))))"

text \<open>The source of a prepared move is gone: the destination stands, or another move took the job.\<close>

definition settle_absent_source :: "nat \<Rightarrow> lib \<Rightarrow> job_transition \<Rightarrow> bool storage_prog" where
  "settle_absent_source fuel L t =
     bindE (read_job L (jt_to_prefix t) (jt_job_id t)) (\<lambda>found.
       case found of
         None \<Rightarrow>
           bindE (first_holding L (jt_job_id t) all_prefixes) (\<lambda>holder.
             if holder \<noteq> None then bindE (set_transition_state fuel L t Aborted) (\<lambda>_. ok False)
             else fail (StorageConflict ''transition lost both source and destination''))
       | Some destination \<Rightarrow>
           if \<not> promised t destination
           then fail (StorageConflict ''destination does not match transition'')
           else
             bindE (set_transition_state fuel L t TCompleted) (\<lambda>moved.
               if \<not> moved then ok False else finish_completed_transition fuel L t))"

definition recover_prepared :: "nat \<Rightarrow> lib \<Rightarrow> job_transition \<Rightarrow> bool storage_prog" where
  "recover_prepared fuel L t =
     (let source_path = job_path (jt_from_prefix t) (jt_job_id t);
          fence_state = transition_fence_state (jt_transition_id t)
      in bindE (read_text_versioned source_path) (\<lambda>found.
           case found of
             None \<Rightarrow> settle_absent_source fuel L t
           | Some versioned \<Rightarrow>
               if version versioned = jt_source_version t \<and>
                  sha256_hex L (content versioned) = jt_source_digest t
               then
                 bindE (from_json L (content versioned)) (\<lambda>source.
                 bindp (compare_and_swap_text source_path (version versioned)
                   (to_json (source\<lparr>state := fence_state\<rparr>))) (\<lambda>r.
                   case r of
                     Inr _ \<Rightarrow> settle_prepared fuel L t
                   | Inl (StorageConflict _) \<Rightarrow> ok False
                   | Inl (NotFound _) \<Rightarrow> ok False
                   | Inl error' \<Rightarrow> fail error'))
               else
                 bindE (from_json L (content versioned)) (\<lambda>source.
                   if state source \<noteq> fence_state
                   then bindE (set_transition_state fuel L t Aborted) (\<lambda>_. ok False)
                   else settle_prepared fuel L t)))"

text \<open>
  \<open>aborted\<close> is upgraded only when the destination stands as promised and the source is absent,
  fenced or already cleaned for this generation.
\<close>

definition recover_aborted :: "nat \<Rightarrow> lib \<Rightarrow> job_transition \<Rightarrow> bool storage_prog" where
  "recover_aborted fuel L t =
     bindE (read_job L (jt_to_prefix t) (jt_job_id t)) (\<lambda>found.
       case found of
         None \<Rightarrow> ok False
       | Some destination \<Rightarrow>
           if \<not> promised t destination then ok False
           else
             bindE (read_text_versioned (job_path (jt_from_prefix t) (jt_job_id t))) (\<lambda>source_found.
             bindE (case source_found of
                      None \<Rightarrow> ok True
                    | Some versioned \<Rightarrow>
                        bindE (from_json L (content versioned)) (\<lambda>source.
                          ok (state source = transition_fence_state (jt_transition_id t) \<or>
                              state source = transition_cleaned_state (jt_transition_id t))))
               (\<lambda>settled.
                 if \<not> settled then ok False
                 else
                   bindE (set_transition_state fuel L t TCompleted) (\<lambda>moved.
                     if \<not> moved then ok False else finish_completed_transition fuel L t))))"

definition recover_job_transition :: "nat \<Rightarrow> lib \<Rightarrow> string \<Rightarrow> bool storage_prog" where
  "recover_job_transition fuel L id' =
     bindE (read_job_transition L id') (\<lambda>found.
       case found of
         None \<Rightarrow> ok False
       | Some (t, _) \<Rightarrow>
           (case jt_state t of
              Retired \<Rightarrow> ok False
            | Aborted \<Rightarrow> recover_aborted fuel L t
            | TCompleted \<Rightarrow> finish_completed_transition fuel L t
            | Prepared \<Rightarrow> recover_prepared fuel L t
            | Unrecognized _ \<Rightarrow> settle_unrecognized_transition fuel L t))"

section \<open>Preparing a move\<close>

text \<open>What a transition already standing at the destination leaves the move to carry.\<close>

definition destination_basis ::
  "lib \<Rightarrow> job \<Rightarrow> job \<Rightarrow> string \<Rightarrow> versioned_text option \<Rightarrow> (job \<times> string option) storage_prog" where
  "destination_basis L current requested to_prefix found =
     (case found of
        None \<Rightarrow> ok (requested, None)
      | Some existing_versioned \<Rightarrow>
          bindE (from_json L (content existing_versioned)) (\<lambda>existing.
            if \<not> same_identity existing current
            then fail (StorageConflict ''destination belongs to different lifecycle data'')
            else if starts_with (state existing) transition_cleaned_prefix
            then ok (requested, Some (version existing_versioned))
            else if state existing = prefix_state to_prefix
            then ok (existing, Some (version existing_versioned))
            else fail (StorageConflict ''destination is not reusable for lifecycle transition'')))"

definition candidate_transition ::
  "lib \<Rightarrow> string \<Rightarrow> int \<Rightarrow> string \<Rightarrow> string \<Rightarrow> string \<Rightarrow> versioned_text \<Rightarrow> job \<Rightarrow> string option
   \<Rightarrow> job_transition" where
  "candidate_transition L owner t id' from_prefix to_prefix source destination destination_version =
     \<lparr>jt_schema = transition_schema,
      jt_transition_id = sha256_hex L (Joined [Raw id', Raw from_prefix, Raw to_prefix,
        Raw (version source), to_json destination]),
      jt_owner = owner, jt_job_id = id', jt_from_prefix = from_prefix, jt_to_prefix = to_prefix,
      jt_source_version = version source, jt_source_digest = sha256_hex L (content source),
      jt_destination_version = destination_version, jt_state = Prepared,
      jt_created_at = to_rfc3339 L t, jt_destination_job = destination\<rparr>"

text \<open>
  The answer of one attempt to install the record: installed, lost to another writer, or the record
  of another move that is still prepared (with its version).
\<close>

datatype install = Installed | Lost | Unsettled string

definition install_transition :: "lib \<Rightarrow> job_transition \<Rightarrow> install storage_prog" where
  "install_transition L candidate =
     (let path = transition_path L (jt_job_id candidate); text' = transition_to_body candidate
      in bindE (read_text_versioned path) (\<lambda>found.
           case found of
             None \<Rightarrow> bindE (create_text_if_absent path text') (\<lambda>created.
               ok (if created then Installed else Lost))
           | Some active \<Rightarrow>
               bindE (Ret (transition_from_body (content active))) (\<lambda>existing.
                 if jt_state existing = Prepared then ok (Unsettled (version active))
                 else
                   bindp (compare_and_swap_text path (version active) text') (\<lambda>r.
                     case r of
                       Inr _ \<Rightarrow> ok Installed
                     | Inl (StorageConflict _) \<Rightarrow> ok Lost
                     | Inl error' \<Rightarrow> fail error'))))"

text \<open>One pass of the loop up to the record: an answer, or the candidate to install.\<close>

definition prepare_candidate ::
  "nat \<Rightarrow> lib \<Rightarrow> job \<Rightarrow> string \<Rightarrow> string \<Rightarrow> string option \<Rightarrow> (bool + job_transition) storage_prog" where
  "prepare_candidate fuel L requested from_prefix to_prefix expected_version =
     bindE (recover_job_transition fuel L (job_id requested)) (\<lambda>_.
     bindE (read_text_versioned (job_path from_prefix (job_id requested))) (\<lambda>found.
       case found of
         None \<Rightarrow>
           bindE (read_job L to_prefix (job_id requested)) (\<lambda>standing.
             ok (Inl (case standing of
               None \<Rightarrow> False
             | Some existing \<Rightarrow> same_identity existing requested)))
       | Some source \<Rightarrow>
           if expected_version \<noteq> None \<and> expected_version \<noteq> Some (version source)
           then ok (Inl False)
           else
             bindE (from_json L (content source)) (\<lambda>current.
             if state current \<noteq> prefix_state from_prefix
             then bindE (recover_job_transition fuel L (job_id requested)) (\<lambda>_. ok (Inl False))
             else
               bindE (read_text_versioned (job_path to_prefix (job_id requested))) (\<lambda>standing.
               bindE (destination_basis L current requested to_prefix standing)
                 (\<lambda>(basis, destination_version).
               bindE (Ret (merge_transition_destination current basis from_prefix to_prefix))
                 (\<lambda>destination.
               bindp new_uuid (\<lambda>owner.
               bindp now (\<lambda>t.
                 ok (Inr (candidate_transition L owner t (job_id requested) from_prefix to_prefix
                   source destination destination_version))))))))))"

fun transition_loop ::
  "nat \<Rightarrow> lib \<Rightarrow> job \<Rightarrow> string \<Rightarrow> string \<Rightarrow> string option \<Rightarrow> string option \<Rightarrow> nat \<Rightarrow> bool storage_prog"
where
  "transition_loop rounds L requested from_prefix to_prefix expected_version unsettled 0 = fail OutOfFuel"
| "transition_loop rounds L requested from_prefix to_prefix expected_version unsettled (Suc fuel) =
     bindE (prepare_candidate rounds L requested from_prefix to_prefix expected_version) (\<lambda>prepared.
       case prepared of
         Inl answer \<Rightarrow> ok answer
       | Inr candidate \<Rightarrow>
           bindE (install_transition L candidate) (\<lambda>installed.
             case installed of
               Unsettled active \<Rightarrow>
                 if unsettled = Some active
                 then fail (StorageConflict ''durable transition stays prepared'')
                 else
                   bindE (recover_job_transition rounds L (job_id requested)) (\<lambda>_.
                     transition_loop rounds L requested from_prefix to_prefix expected_version
                       (Some active) fuel)
             | Lost \<Rightarrow>
                 transition_loop rounds L requested from_prefix to_prefix expected_version unsettled fuel
             | Installed \<Rightarrow>
                 bindE (recover_job_transition rounds L (job_id requested)) (\<lambda>moved.
                   if moved then ok True
                   else transition_loop rounds L requested from_prefix to_prefix expected_version
                     unsettled fuel)))"

definition transition_job_if_version ::
  "nat \<Rightarrow> lib \<Rightarrow> job \<Rightarrow> string \<Rightarrow> string \<Rightarrow> string option \<Rightarrow> bool storage_prog" where
  "transition_job_if_version fuel L requested from_prefix to_prefix expected_version =
     transition_loop fuel L requested from_prefix to_prefix expected_version None fuel"

section \<open>The verdict of a workdir\<close>

definition watched_prefixes :: "string list" where
  "watched_prefixes = [''queue'', ''running'']"

text \<open>\<open>Inl\<close>: the verdict is decided; \<open>Inr\<close>: the walk goes on.\<close>

definition own_document :: "lib \<Rightarrow> string \<Rightarrow> body \<Rightarrow> job option prog" where
  "own_document L id' text' =
     bindp (from_json L text') (\<lambda>r.
       Ret (case r of Inl _ \<Rightarrow> None | Inr j \<Rightarrow> if job_id j = id' then Some j else None))"

definition live_verdict :: "job_transition \<Rightarrow> string \<Rightarrow> job \<Rightarrow> workdir_state + unit" where
  "live_verdict t prefix' j =
     (if state j = prefix_state prefix' then Inl Live
      else if \<not> same_identity j (jt_destination_job t) then Inl Unknown
      else case cleaned_transition_id (state j) of
        None \<Rightarrow> Inl Unknown
      | Some cleaned_id \<Rightarrow>
          if prefix' = jt_from_prefix t \<and> cleaned_id \<noteq> jt_transition_id t then Inl Unknown
          else Inr ())"

fun watch_live ::
  "lib \<Rightarrow> job_transition \<Rightarrow> string list \<Rightarrow> (workdir_state + unit) storage_prog" where
  "watch_live L t [] = ok (Inr ())"
| "watch_live L t (prefix' # prefixes) =
     bindE (read_text_versioned (job_path prefix' (jt_job_id t))) (\<lambda>found.
       case found of
         None \<Rightarrow> watch_live L t prefixes
       | Some versioned \<Rightarrow>
           bindp (own_document L (jt_job_id t) (content versioned)) (\<lambda>own.
             case own of
               None \<Rightarrow> ok (Inl Unknown)
             | Some j \<Rightarrow> (case live_verdict t prefix' j of
                 Inl verdict \<Rightarrow> ok (Inl verdict)
               | Inr _ \<Rightarrow> watch_live L t prefixes)))"

definition terminal_verdict :: "job_transition \<Rightarrow> string \<Rightarrow> job \<Rightarrow> workdir_state + bool" where
  "terminal_verdict t prefix' j =
     (if starts_with (state j) transition_fence_prefix then Inl Unknown
      else if \<not> same_identity j (jt_destination_job t) then Inl Unknown
      else if prefix' = jt_to_prefix t \<and> state j = prefix_state prefix' then Inr True
      else case cleaned_transition_id (state j) of
        None \<Rightarrow> Inl Unknown
      | Some cleaned_id \<Rightarrow>
          if prefix' = jt_from_prefix t \<and> cleaned_id \<noteq> jt_transition_id t then Inl Unknown
          else Inr False)"

fun watch_terminal ::
  "lib \<Rightarrow> job_transition \<Rightarrow> bool \<Rightarrow> string list \<Rightarrow> workdir_state storage_prog" where
  "watch_terminal L t standing [] = ok (if standing then Terminal else Unknown)"
| "watch_terminal L t standing (prefix' # prefixes) =
     bindE (read_text_versioned (job_path prefix' (jt_job_id t))) (\<lambda>found.
       case found of
         None \<Rightarrow> watch_terminal L t standing prefixes
       | Some versioned \<Rightarrow>
           bindp (own_document L (jt_job_id t) (content versioned)) (\<lambda>own.
             case own of
               None \<Rightarrow> ok Unknown
             | Some j \<Rightarrow> (case terminal_verdict t prefix' j of
                 Inl verdict \<Rightarrow> ok verdict
               | Inr here \<Rightarrow> watch_terminal L t (standing \<or> here) prefixes)))"

definition workdir_job_state :: "lib \<Rightarrow> string \<Rightarrow> workdir_state storage_prog" where
  "workdir_job_state L id' =
     bindE (read_job_transition L id') (\<lambda>found.
       case found of
         None \<Rightarrow> ok Unknown
       | Some (t, _) \<Rightarrow>
           if jt_state t \<noteq> Retired \<or> jt_to_prefix t \<notin> set terminal_prefixes \<or>
              job_id (jt_destination_job t) \<noteq> id' \<or>
              state (jt_destination_job t) \<noteq> prefix_state (jt_to_prefix t)
           then ok Unknown
           else
             bindE (watch_live L t watched_prefixes) (\<lambda>verdict.
               case verdict of
                 Inl v \<Rightarrow> ok v
               | Inr _ \<Rightarrow> watch_terminal L t False terminal_prefixes))"

end
