(* ===== verification/Moves.thy ===== *)
theory Moves
  imports Transitions
begin

text \<open>
  The lifecycle moves of \<open>Transitions\<close> against a store that keeps the blob contract. \<open>job_store\<close> adds
  to that contract what a move relies on: its paths are ones the store serves, and a version token is
  never empty. The lemmas execute each part of the protocol and list the worlds it passes through;
  the device-local backend is an instance.
\<close>

section \<open>Paths of a move\<close>

lemma prefix_is_queue [simp]: "prefix_as_str p = ''queue'' \<longleftrightarrow> p = Queue"
  by (cases p) (simp_all add: prefix_words)

definition no_slash :: "string \<Rightarrow> bool" where
  "no_slash s \<longleftrightarrow> CHR ''/'' \<notin> set s"

lemma job_path_inject [simp]:
  "job_path (prefix_as_str p) a = job_path (prefix_as_str q) b \<longleftrightarrow> p = q \<and> a = b"
  by (cases p; cases q; simp add: job_path_def prefix_words)

lemma job_path_other [simp]:
  "job_path (prefix_as_str p) a \<noteq> transition_path L b"
  "transition_path L b \<noteq> job_path (prefix_as_str p) a"
  "job_path (prefix_as_str p) a \<noteq> marker_path j"
  "marker_path j \<noteq> job_path (prefix_as_str p) a"
  "marker_path j \<noteq> transition_path L b"
  "transition_path L b \<noteq> marker_path j"
  by (cases p; simp add: job_path_def transition_path_def marker_path_def marker_prefix_def
      prefix_words)+

lemma tombstone_path_other [simp]:
  assumes "tombstone_prefix q = Some m"
  shows "job_path (prefix_as_str p) a \<noteq> tombstone_path m orig"
    and "transition_path L b \<noteq> tombstone_path m orig"
    and "tombstone_path m orig \<noteq> job_path (prefix_as_str p) a"
    and "tombstone_path m orig \<noteq> transition_path L b"
    and "tombstone_path m orig \<noteq> marker_path j"
    and "marker_path j \<noteq> tombstone_path m orig"
  using assms
  by (cases p; auto simp: job_path_def transition_path_def tombstone_path_def tombstone_prefix_def
      marker_path_def marker_prefix_def prefix_words split: option.splits prefix.splits)+

section \<open>Documents of a move\<close>

declare set_transition_state.simps [simp del] retire_transition_record.simps [simp del]
  retire_transition_source.simps [simp del] install_destination.simps [simp del]

lemmas loop_bodies = set_transition_state.simps retire_transition_record.simps
  retire_transition_source.simps install_destination.simps

text \<open>A job record as the store carries it: it reads back as itself and its paths are plain.\<close>

definition sound_job :: "job \<Rightarrow> bool" where
  "sound_job j \<longleftrightarrow> wf_job j \<and> created_at j \<noteq> [] \<and> no_slash (created_at j) \<and>
     no_slash (job_id j) \<and> no_slash (re_submission_of j)"

definition unlinked :: "job \<Rightarrow> bool" where
  "unlinked j \<longleftrightarrow>
     submission_command_index j = None \<or> run_id j = [] \<or> submission_request_digest j = []"

definition sound_record :: "string \<Rightarrow> job_transition \<Rightarrow> bool" where
  "sound_record id' t \<longleftrightarrow>
     jt_schema t = transition_schema \<and> jt_job_id t = id' \<and> wf_job (jt_destination_job t) \<and>
     stored_state (jt_state t)"

lemma sound_jobD:
  "sound_job j \<Longrightarrow> wf_job j" "sound_job j \<Longrightarrow> created_at j \<noteq> []"
  by (simp_all add: sound_job_def)

lemma prefix_state_words [simp]:
  "prefix_state (prefix_as_str Queue) = ''queued''"
  "prefix_state (prefix_as_str Running) = ''running''"
  "prefix_state (prefix_as_str Cancelled) = ''cancelled''"
  by (simp_all add: prefix_state_def prefix_words)

lemma sound_job_updates [simp]:
  "sound_job (j\<lparr>state := a\<rparr>) = sound_job j"
  "sound_job (j\<lparr>lease_expires_at := x\<rparr>) = sound_job j"
  "sound_job (j\<lparr>completed_at := x\<rparr>) = sound_job j"
  "sound_job (j\<lparr>error := x\<rparr>) = sound_job j"
  by (simp_all add: sound_job_def)

lemma sound_job_reads [simp]: "sound_job j \<Longrightarrow> from_json L (to_json j) = ok j"
  by (simp add: sound_job_def doc_simps)

lemma marker_path_state [simp]: "marker_path (j\<lparr>state := a\<rparr>) = marker_path j"
  by (simp add: marker_path_def priority_key_def)

lemma record_outcome_unlinked:
  "unlinked d \<Longrightarrow> q \<in> set terminal_prefixes \<Longrightarrow> record_terminal_outcome fuel L d q = ok ()"
  by (auto simp: record_terminal_outcome_def unlinked_def split: option.splits)

lemma sound_record_reads:
  "sound_record id' t \<Longrightarrow> transition_from_body (transition_to_body t) = Inr t"
  by (simp add: sound_record_def doc_simps)

lemma sound_record_state [simp]:
  "sound_record id' t \<Longrightarrow> stored_state s \<Longrightarrow> sound_record id' (t\<lparr>jt_state := s\<rparr>)"
  by (simp add: sound_record_def)

text \<open>
  One move: its record as installed, the two prefixes, the source document it found and what stood
  at the destination before. Its stages: 1 the record is prepared; 2 the source is fenced; 3 the
  destination stands; 4 the record is completed; 5 the source is cleaned; 6 the record is retired.
\<close>

record move =
  mv_record :: job_transition
  mv_from :: prefix
  mv_to :: prefix
  mv_source :: job
  mv_before :: "body option"

definition stage_record :: "move \<Rightarrow> nat \<Rightarrow> job_transition" where
  "stage_record m n =
     (mv_record m)\<lparr>jt_state := (if n \<le> 3 then Prepared else if n \<le> 5 then TCompleted else Retired)\<rparr>"

definition stage_source :: "move \<Rightarrow> nat \<Rightarrow> job" where
  "stage_source m n =
     (let i = jt_transition_id (mv_record m) in
      if n \<le> 1 then mv_source m
      else if n \<le> 4 then (mv_source m)\<lparr>state := transition_fence_state i\<rparr>
      else (mv_source m)\<lparr>state := transition_cleaned_state i\<rparr>)"

definition stage_destination :: "move \<Rightarrow> nat \<Rightarrow> body option" where
  "stage_destination m n =
     (if n \<le> 2 then mv_before m else Some (to_json (jt_destination_job (mv_record m))))"

lemma stage_record_sel [simp]:
  "jt_transition_id (stage_record m n) = jt_transition_id (mv_record m)"
  "jt_owner (stage_record m n) = jt_owner (mv_record m)"
  "jt_job_id (stage_record m n) = jt_job_id (mv_record m)"
  "jt_state (stage_record m n) =
     (if n \<le> 3 then Prepared else if n \<le> 5 then TCompleted else Retired)"
  by (simp_all add: stage_record_def)

text \<open>Nothing stands at the destination, or the sentinel of an earlier move away from it.\<close>

definition vacant :: "string \<Rightarrow> body option \<Rightarrow> bool" where
  "vacant id' found \<longleftrightarrow>
     (case found of
        None \<Rightarrow> True
      | Some text' \<Rightarrow> \<exists>c. text' = to_json c \<and> sound_job c \<and> job_id c = id' \<and>
          starts_with (state c) transition_cleaned_prefix)"

definition sound_move :: "(body \<Rightarrow> string) \<Rightarrow> lib \<Rightarrow> move \<Rightarrow> bool" where
  "sound_move token L m \<longleftrightarrow>
     (let t = mv_record m; d = jt_destination_job t in
      jt_schema t = transition_schema \<and> jt_state t = Prepared \<and>
      jt_from_prefix t = prefix_as_str (mv_from m) \<and> jt_to_prefix t = prefix_as_str (mv_to m) \<and>
      mv_from m \<noteq> mv_to m \<and>
      sound_job (mv_source m) \<and> job_id (mv_source m) = jt_job_id t \<and>
      jt_source_version t = token (to_json (mv_source m)) \<and>
      jt_source_digest t = sha256_hex L (to_json (mv_source m)) \<and>
      sound_job d \<and> job_id d = jt_job_id t \<and> state d = prefix_state (prefix_as_str (mv_to m)) \<and>
      (prefix_terminal (mv_to m) \<longrightarrow> unlinked d) \<and> vacant (jt_job_id t) (mv_before m))"

text \<open>
  A job that can move: its live document stands under \<open>p\<close>, the destination is vacant or holds the
  sentinel this job left there, no move of it is under way, and the requested document has the same
  identity. A linked job of a terminal move also writes its run manifest, which is not part of this.
\<close>

definition idle_record :: "string \<Rightarrow> body option \<Rightarrow> bool" where
  "idle_record id' found \<longleftrightarrow>
     (case found of
        None \<Rightarrow> True
      | Some text' \<Rightarrow> \<exists>r. text' = transition_to_body r \<and> sound_record id' r \<and> jt_state r = Retired)"

definition movable ::
  "('s \<Rightarrow> string \<Rightarrow> body option) \<Rightarrow> lib \<Rightarrow> 's \<Rightarrow> job \<Rightarrow> job \<Rightarrow> prefix \<Rightarrow> prefix \<Rightarrow> bool" where
  "movable view L s cur requested p q \<longleftrightarrow>
     (let id' = job_id cur; at = view s (job_path (prefix_as_str q) id') in
      p \<noteq> q \<and> sound_job cur \<and> sound_job requested \<and> job_id requested = id' \<and>
      same_identity cur requested \<and> state cur = prefix_state (prefix_as_str p) \<and>
      view s (job_path (prefix_as_str p) id') = Some (to_json cur) \<and>
      vacant id' at \<and> (\<forall>c. sound_job c \<longrightarrow> at = Some (to_json c) \<longrightarrow> same_identity c cur) \<and>
      idle_record id' (view s (transition_path L id')) \<and>
      (prefix_terminal q \<longrightarrow> unlinked cur))"

text \<open>A path no move of this job writes.\<close>

definition bystander :: "lib \<Rightarrow> move \<Rightarrow> string \<Rightarrow> bool" where
  "bystander L m x \<longleftrightarrow>
     (let id' = jt_job_id (mv_record m) in
      x \<noteq> transition_path L id' \<and> x \<noteq> job_path (prefix_as_str (mv_from m)) id' \<and>
      x \<noteq> job_path (prefix_as_str (mv_to m)) id' \<and> (\<forall>j. x \<noteq> marker_path j) \<and>
      (\<forall>q mk orig. tombstone_prefix q = Some mk \<longrightarrow> x \<noteq> tombstone_path mk orig))"

lemma bystander_job [simp]:
  "bystander L m (job_path (prefix_as_str p) a) \<longleftrightarrow>
     \<not> (a = jt_job_id (mv_record m) \<and> (p = mv_from m \<or> p = mv_to m))"
  by (auto simp: bystander_def Let_def)

text \<open>The prefixes under which a job has a live document: one that is no sentinel of a move.\<close>

definition live_document :: "body option \<Rightarrow> bool" where
  "live_document found =
     (case found of
        Some (Json v) \<Rightarrow>
          (case job_from_value v of
             Some j \<Rightarrow> \<not> is_transition_sentinel_state (state j)
           | None \<Rightarrow> False)
      | _ \<Rightarrow> False)"

definition prefix_values :: "prefix list" where
  "prefix_values = [Queue, Running, Completed, Uploaded, Failed, Cancelled]"

definition homes :: "('s \<Rightarrow> string \<Rightarrow> body option) \<Rightarrow> 's \<Rightarrow> string \<Rightarrow> prefix list" where
  "homes view s id' =
     filter (\<lambda>p. live_document (view s (job_path (prefix_as_str p) id'))) prefix_values"

lemma live_document_to_json [simp]:
  "sound_job j \<Longrightarrow> live_document (Some (to_json j)) \<longleftrightarrow> \<not> is_transition_sentinel_state (state j)"
  by (simp add: live_document_def to_json_def sound_job_def doc_simps)

lemma live_document_None [simp]: "\<not> live_document None"
  by (simp add: live_document_def)

lemma vacant_not_live: "vacant id' found \<Longrightarrow> \<not> live_document found"
  by (auto simp: vacant_def is_transition_sentinel_state_def split: option.splits)

lemma filter_is_single:
  "distinct xs \<Longrightarrow> x \<in> set xs \<Longrightarrow> (\<And>y. y \<in> set xs \<Longrightarrow> P y \<longleftrightarrow> y = x) \<Longrightarrow> filter P xs = [x]"
proof (induction xs)
  case (Cons y xs)
  show ?case
  proof (cases "y = x")
    case True
    then have "filter P xs = []" using Cons.prems by (auto simp: filter_empty_conv)
    then show ?thesis using True Cons.prems by simp
  next
    case False
    then show ?thesis using Cons by auto
  qed
qed simp

lemma prefix_values_all [simp]: "p \<in> set prefix_values" "distinct prefix_values"
  by (cases p; simp add: prefix_values_def) (simp add: prefix_values_def)

lemma homes_single:
  "(\<And>y. live_document (view s (job_path (prefix_as_str y) id')) \<longleftrightarrow> y = x) \<Longrightarrow> homes view s id' = [x]"
  unfolding homes_def by (rule filter_is_single) simp_all

lemma homes_singleD:
  assumes "homes view s id' = [x]"
  shows "live_document (view s (job_path (prefix_as_str y) id')) \<longleftrightarrow> y = x"
proof -
  have "y \<in> set (homes view s id') \<longleftrightarrow> live_document (view s (job_path (prefix_as_str y) id'))"
    by (simp add: homes_def)
  then show ?thesis using assms by simp
qed

section \<open>Moves on a store\<close>

locale job_store = blob_store B view put remove annotate token refusal good ready
  for B :: "'s backend" and view put remove annotate token refusal good ready +
  fixes L :: lib
  assumes token_nonempty [simp]: "token t \<noteq> []"
    and good_job: "no_slash id' \<Longrightarrow> good (job_path (prefix_as_str p) id')"
    and good_record [simp]: "good (transition_path L id')"
    and good_marker: "no_slash (created_at j) \<Longrightarrow> no_slash (job_id j) \<Longrightarrow> good (marker_path j)"
    and good_tombstone: "tombstone_prefix q = Some m \<Longrightarrow> no_slash orig \<Longrightarrow> good (tombstone_path m orig)"
begin

lemmas store_steps = run_simps run_calls run_swap store_simps loop_bodies

lemma run_read_job_absent:
  assumes "ready (disk w)" "no_slash id'"
    and "view (disk w) (job_path (prefix_as_str p) id') = None"
  shows "run L B (read_job L (prefix_as_str p) id') w = (Inr None, w)"
  using assms by (simp add: read_job_def store_steps good_job)

lemma run_read_job:
  assumes "ready (disk w)" "no_slash id'" "sound_job j"
    and "view (disk w) (job_path (prefix_as_str p) id') = Some (to_json j)"
  shows "run L B (read_job L (prefix_as_str p) id') w =
    (Inr (if is_transition_sentinel_state (state j) then None else Some j), w)"
  using assms by (simp add: read_job_def store_steps good_job)

lemma run_read_transition_absent:
  assumes "ready (disk w)" "view (disk w) (transition_path L id') = None"
  shows "run L B (read_job_transition L id') w = (Inr None, w)"
  using assms by (simp add: read_job_transition_def store_steps)

lemma run_read_transition:
  assumes "ready (disk w)" "sound_record id' t"
    and "view (disk w) (transition_path L id') = Some (transition_to_body t)"
  shows "run L B (read_job_transition L id') w =
    (Inr (Some (t, token (transition_to_body t))), w)"
  using assms
  by (simp add: read_job_transition_def store_steps sound_record_reads)
     (simp add: sound_record_def)

lemma trace_read_transition: "trace L B (read_job_transition L id') w = [w]"
  by (auto simp: read_job_transition_def run_simps trace_calls split: prod.splits sum.splits
      option.splits)

lemma trace_from_json: "set (trace L B (from_json L text') w) \<subseteq> {w}"
  by (auto simp: from_json_def finalize_new_def now_def run_simps split: body.splits option.splits)

lemma trace_read_job: "set (trace L B (read_job L p id') w) \<subseteq> {w}"
  using trace_from_json [of _ w]
  by (auto simp: read_job_def run_simps download_text_def split: sum.splits option.splits prod.splits)

lemma run_set_transition_state:
  assumes "ready (disk w)" "sound_record id' t" "jt_state t \<noteq> s" "jt_job_id e = id'"
    and "jt_transition_id e = jt_transition_id t" "jt_owner e = jt_owner t"
    and "view (disk w) (transition_path L id') = Some (transition_to_body t)"
  shows "run L B (set_transition_state (Suc fuel) L e s) w =
    (Inr True, w\<lparr>disk := put (disk w) (transition_path L id') (transition_to_body (t\<lparr>jt_state := s\<rparr>))\<rparr>)"
    and "set (trace L B (set_transition_state (Suc fuel) L e s) w) \<subseteq> {w}"
  using assms
  by (simp_all add: run_read_transition [where t = t] trace_read_transition trace_calls store_steps)

lemma run_set_transition_state_noop:
  assumes "ready (disk w)" "sound_record id' t" "jt_state t = s" "jt_job_id e = id'"
    and "jt_transition_id e = jt_transition_id t" "jt_owner e = jt_owner t"
    and "view (disk w) (transition_path L id') = Some (transition_to_body t)"
  shows "run L B (set_transition_state (Suc fuel) L e s) w = (Inr True, w)"
  using assms by (simp add: run_read_transition [where t = t] store_steps)

lemma run_retire_transition_record:
  assumes "ready (disk w)" "sound_record id' t" "jt_state t = TCompleted" "jt_job_id e = id'"
    and "jt_transition_id e = jt_transition_id t" "jt_owner e = jt_owner t"
    and "view (disk w) (transition_path L id') = Some (transition_to_body t)"
  shows "run L B (retire_transition_record (Suc fuel) L e) w =
    (Inr (), w\<lparr>disk := put (disk w) (transition_path L id')
       (transition_to_body (t\<lparr>jt_state := Retired\<rparr>))\<rparr>)"
    and "set (trace L B (retire_transition_record (Suc fuel) L e) w) \<subseteq> {w}"
  using assms
  by (simp_all add: run_read_transition [where t = t] trace_read_transition trace_calls store_steps)

lemma run_retire_transition_source:
  assumes "ready (disk w)" "no_slash (jt_job_id t)" "sound_job src"
    and "jt_from_prefix t = prefix_as_str p" "job_id src = jt_job_id t"
    and "state src = transition_fence_state (jt_transition_id t)"
    and "view (disk w) (job_path (prefix_as_str p) (jt_job_id t)) = Some (to_json src)"
  defines "s1 \<equiv> if p = Queue then remove (disk w) (marker_path src) else disk w"
  shows "run L B (retire_transition_source (Suc fuel) L t) w =
      (Inr (), w\<lparr>disk := put s1 (job_path (prefix_as_str p) (jt_job_id t))
        (to_json (src\<lparr>state := transition_cleaned_state (jt_transition_id t)\<rparr>))\<rparr>)"
    and "set (trace L B (retire_transition_source (Suc fuel) L t) w) \<subseteq> {w, w\<lparr>disk := s1\<rparr>}"
proof -
  have marker: "good (marker_path src)"
    using assms(3) by (auto simp: sound_job_def intro: good_marker)
  show "run L B (retire_transition_source (Suc fuel) L t) w =
      (Inr (), w\<lparr>disk := put s1 (job_path (prefix_as_str p) (jt_job_id t))
        (to_json (src\<lparr>state := transition_cleaned_state (jt_transition_id t)\<rparr>))\<rparr>)"
    using assms marker
    by (cases "p = Queue") (simp_all add: store_steps good_job Let_def delete_marker_for_def)
  show "set (trace L B (retire_transition_source (Suc fuel) L t) w) \<subseteq> {w, w\<lparr>disk := s1\<rparr>}"
    using assms marker
    by (cases "p = Queue")
       (simp_all add: store_steps trace_calls good_job Let_def delete_marker_for_def)
qed

text \<open>The store after the tombstone of a finished move.\<close>

definition entombed :: "'s \<Rightarrow> job \<Rightarrow> string \<Rightarrow> 's" where
  "entombed s d q =
     (if re_submission_of d = [] then s
      else case tombstone_prefix q of
        None \<Rightarrow> s
      | Some m \<Rightarrow> put s (tombstone_path m (re_submission_of d)) (tombstone_body d q))"

lemma run_on_transition:
  assumes "ready (disk w)" "sound_job d"
  shows "run L B (on_transition d q) w = ((), w\<lparr>disk := entombed (disk w) d q\<rparr>)"
    and "set (trace L B (on_transition d q) w) \<subseteq> {w}"
  using assms good_tombstone
  by (auto simp: on_transition_def entombed_def store_steps trace_calls sound_job_def
      split: option.splits)

lemma entombed_view [simp]:
  assumes "sound_job d"
  shows "no_slash id' \<Longrightarrow>
      view (entombed s d q) (job_path (prefix_as_str p) id') = view s (job_path (prefix_as_str p) id')"
    and "view (entombed s d q) (transition_path L a) = view s (transition_path L a)"
    and "ready s \<Longrightarrow> ready (entombed s d q)"
  using assms good_tombstone
  by (auto simp: entombed_def store_simps good_job sound_job_def split: option.splits)

lemma entombed_bystander:
  assumes "sound_job d" "good x"
    and "\<forall>q mk. tombstone_prefix q = Some mk \<longrightarrow> (\<forall>orig. x \<noteq> tombstone_path mk orig)"
  shows "view (entombed s d q) x = view s x"
  using assms good_tombstone by (auto simp: entombed_def store_simps sound_job_def split: option.splits)

text \<open>
  The store at a stage of a move that began on \<open>s0\<close>: of the paths it serves, the move touches its
  record, its two documents, markers and tombstones, and no other.
\<close>

definition at_stage :: "'s \<Rightarrow> move \<Rightarrow> nat \<Rightarrow> 's \<Rightarrow> bool" where
  "at_stage s0 m n s \<longleftrightarrow>
     (let id' = jt_job_id (mv_record m) in
      ready s \<and>
      view s (transition_path L id') = Some (transition_to_body (stage_record m n)) \<and>
      view s (job_path (prefix_as_str (mv_from m)) id') = Some (to_json (stage_source m n)) \<and>
      view s (job_path (prefix_as_str (mv_to m)) id') = stage_destination m n \<and>
      (\<forall>x. good x \<longrightarrow> bystander L m x \<longrightarrow> view s x = view s0 x))"

definition advances :: "'s \<Rightarrow> move \<Rightarrow> nat \<Rightarrow> bool storage_prog \<Rightarrow> 's world \<Rightarrow> bool" where
  "advances s0 m n prog w \<longleftrightarrow>
     (\<exists>w'. run L B prog w = (Inr True, w') \<and> at_stage s0 m 6 (disk w') \<and>
        (\<forall>v \<in> set (trace L B prog w). \<exists>k. n \<le> k \<and> k \<le> 6 \<and> at_stage s0 m k (disk v)))"

lemma advances_bindp:
  assumes run: "run L B p w = (a, w1)"
    and trace: "\<forall>v \<in> set (trace L B p w). at_stage s0 m n (disk v)"
    and rest: "advances s0 m k (f a) w1" and le: "n \<le> k" "n \<le> 6"
  shows "advances s0 m n (bindp p f) w"
proof -
  from rest obtain w' where w': "run L B (f a) w1 = (Inr True, w')" "at_stage s0 m 6 (disk w')"
    and later: "\<forall>v \<in> set (trace L B (f a) w1). \<exists>i. k \<le> i \<and> i \<le> 6 \<and> at_stage s0 m i (disk v)"
    unfolding advances_def by blast
  have "\<exists>i. n \<le> i \<and> i \<le> 6 \<and> at_stage s0 m i (disk v)"
    if "v \<in> set (trace L B (bindp p f) w)" for v
  proof -
    from that run consider "v \<in> set (trace L B p w)" | "v \<in> set (trace L B (f a) w1)"
      by (auto simp: trace_bindp)
    then show ?thesis using trace later le by cases (blast, meson le_trans)
  qed
  then show ?thesis using w' run by (simp add: advances_def run_bindp)
qed

lemma advances_bindE:
  assumes "run L B p w = (Inr a, w1)"
    and "\<forall>v \<in> set (trace L B p w). at_stage s0 m n (disk v)"
    and "advances s0 m k (f a) w1" and "n \<le> k" "n \<le> 6"
  shows "advances s0 m n (bindE p f) w"
  unfolding bindE_def by (rule advances_bindp [OF assms(1,2) _ assms(4,5)]) (simp add: assms(3))

lemma advances_done: "at_stage s0 m 6 (disk w) \<Longrightarrow> advances s0 m n (ok True) w"
  by (simp add: advances_def)

lemma sound_moveD:
  assumes "sound_move token L m"
  shows "no_slash (jt_job_id (mv_record m))" "mv_from m \<noteq> mv_to m"
    and "good (job_path (prefix_as_str p) (jt_job_id (mv_record m)))"
    and "good (marker_path (jt_destination_job (mv_record m)))"
    and "good (marker_path (mv_source m))"
    and "sound_record (jt_job_id (mv_record m)) (stage_record m n)"
    and "sound_job (stage_source m n)" "job_id (stage_source m n) = jt_job_id (mv_record m)"
    and "sound_job (jt_destination_job (mv_record m))"
  using assms
  by (auto simp: sound_move_def Let_def sound_job_def sound_record_def stage_record_def
      stage_source_def intro: good_job good_marker)

lemmas move_simps = sound_moveD(1-5) store_simps bystander_def

lemma stage_fence:
  assumes "sound_move token L m" "at_stage s0 m n s" "n = 1 \<or> n = 2 \<or> n = 3"
  shows "at_stage s0 m (max 2 n) (put s (job_path (prefix_as_str (mv_from m)) (jt_job_id (mv_record m)))
    (to_json ((stage_source m n)\<lparr>state := transition_fence_state (jt_transition_id (mv_record m))\<rparr>)))"
  using assms sound_moveD(2) [OF assms(1)] sound_moveD(2) [OF assms(1), symmetric]
  by (auto simp: at_stage_def Let_def move_simps good_job stage_record_def stage_source_def
      stage_destination_def)

lemma stage_place:
  assumes "sound_move token L m" "at_stage s0 m 2 s"
  shows "at_stage s0 m 3 (put s (job_path (prefix_as_str (mv_to m)) (jt_job_id (mv_record m)))
    (to_json (jt_destination_job (mv_record m))))"
  using assms sound_moveD(2) [OF assms(1)] sound_moveD(2) [OF assms(1), symmetric]
  by (auto simp: at_stage_def Let_def move_simps good_job stage_record_def stage_source_def
      stage_destination_def)

lemma stage_side_effects:
  assumes "sound_move token L m" "at_stage s0 m n s"
  shows "at_stage s0 m n (annotate s q kv)"
    and "at_stage s0 m n (put s (marker_path (jt_destination_job (mv_record m))) text')"
    and "at_stage s0 m n (remove s (marker_path (mv_source m)))"
    and "at_stage s0 m n (entombed s (jt_destination_job (mv_record m)) q)"
  using assms sound_moveD(9) [OF assms(1)]
  by (auto simp: at_stage_def Let_def move_simps good_job entombed_bystander)

lemma stage_complete:
  assumes "sound_move token L m" "at_stage s0 m 3 s"
  shows "at_stage s0 m 4 (put s (transition_path L (jt_job_id (mv_record m)))
    (transition_to_body ((stage_record m 3)\<lparr>jt_state := TCompleted\<rparr>)))"
  using assms sound_moveD(2) [OF assms(1)] sound_moveD(2) [OF assms(1), symmetric]
  by (auto simp: at_stage_def Let_def move_simps good_job stage_record_def stage_source_def
      stage_destination_def)

lemma stage_clean:
  assumes "sound_move token L m" "at_stage s0 m 4 s"
  shows "at_stage s0 m 5 (put s (job_path (prefix_as_str (mv_from m)) (jt_job_id (mv_record m)))
    (to_json ((stage_source m 4)\<lparr>state := transition_cleaned_state (jt_transition_id (mv_record m))\<rparr>)))"
  using assms sound_moveD(2) [OF assms(1)] sound_moveD(2) [OF assms(1), symmetric]
  by (auto simp: at_stage_def Let_def move_simps good_job stage_record_def stage_source_def
      stage_destination_def)

lemma stage_retire:
  assumes "sound_move token L m" "at_stage s0 m 5 s"
  shows "at_stage s0 m 6 (put s (transition_path L (jt_job_id (mv_record m)))
    (transition_to_body ((stage_record m 5)\<lparr>jt_state := Retired\<rparr>)))"
  using assms sound_moveD(2) [OF assms(1)] sound_moveD(2) [OF assms(1), symmetric]
  by (auto simp: at_stage_def Let_def move_simps good_job stage_record_def stage_source_def
      stage_destination_def)

lemma at_stageD:
  assumes "at_stage s0 m n s"
  shows "ready s"
    and "view s (transition_path L (jt_job_id (mv_record m))) =
      Some (transition_to_body (stage_record m n))"
    and "view s (job_path (prefix_as_str (mv_from m)) (jt_job_id (mv_record m))) =
      Some (to_json (stage_source m n))"
    and "view s (job_path (prefix_as_str (mv_to m)) (jt_job_id (mv_record m))) = stage_destination m n"
  using assms by (simp_all add: at_stage_def Let_def)

text \<open>The record a program holds is a generation of the stored one.\<close>

definition generation :: "move \<Rightarrow> job_transition \<Rightarrow> bool" where
  "generation m t \<longleftrightarrow> (\<exists>st. t = (mv_record m)\<lparr>jt_state := st\<rparr>)"

lemma generationD:
  assumes "generation m t"
  shows "jt_job_id t = jt_job_id (mv_record m)" "jt_transition_id t = jt_transition_id (mv_record m)"
    and "jt_owner t = jt_owner (mv_record m)" "jt_from_prefix t = jt_from_prefix (mv_record m)"
    and "jt_to_prefix t = jt_to_prefix (mv_record m)"
    and "jt_destination_job t = jt_destination_job (mv_record m)"
    and "jt_destination_version t = jt_destination_version (mv_record m)"
    and "jt_source_version t = jt_source_version (mv_record m)"
    and "jt_source_digest t = jt_source_digest (mv_record m)"
  using assms by (auto simp: generation_def)

lemma advances_retire_record:
  assumes m: "sound_move token L m" and at: "at_stage s0 m 5 (disk w)" and gen: "generation m t"
  shows "advances s0 m 5 (bindE (retire_transition_record (Suc fuel) L t) (\<lambda>_. ok True)) w"
proof -
  have facts: "ready (disk w)" "sound_record (jt_job_id (mv_record m)) (stage_record m 5)"
    "jt_state (stage_record m 5) = TCompleted" "jt_job_id t = jt_job_id (mv_record m)"
    "jt_transition_id t = jt_transition_id (stage_record m 5)" "jt_owner t = jt_owner (stage_record m 5)"
    using at_stageD [OF at] sound_moveD [OF m] generationD [OF gen] by simp_all
  note steps = run_retire_transition_record [OF facts at_stageD(2) [OF at], of fuel]
  show ?thesis
    by (rule advances_bindE [OF steps(1), where k = 6])
       (use steps(2) at stage_retire [OF m at] in \<open>auto simp: advances_done\<close>)
qed

lemma advances_retire_move:
  assumes m: "sound_move token L m" and at: "at_stage s0 m 4 (disk w)" and gen: "generation m t"
  shows "advances s0 m 4 (retire_move (Suc fuel) L t (jt_destination_job (mv_record m))) w"
proof -
  let ?src = "stage_source m 4"
  let ?s1 = "if mv_from m = Queue then remove (disk w) (marker_path ?src) else disk w"
  have facts: "ready (disk w)" "no_slash (jt_job_id t)" "sound_job ?src"
    "jt_from_prefix t = prefix_as_str (mv_from m)" "job_id ?src = jt_job_id t"
    "state ?src = transition_fence_state (jt_transition_id t)"
    "view (disk w) (job_path (prefix_as_str (mv_from m)) (jt_job_id t)) = Some (to_json ?src)"
    using at_stageD [OF at] sound_moveD [OF m] generationD [OF gen] m
    by (simp_all add: stage_source_def Let_def sound_move_def)
  note source = run_retire_transition_source [OF facts, of fuel]
  have "marker_path ?src = marker_path (mv_source m)" by (simp add: stage_source_def Let_def)
  then have at1: "at_stage s0 m 4 ?s1"
    using stage_side_effects(3) [OF m at] at by simp
  define w2 where "w2 = w\<lparr>disk := put ?s1 (job_path (prefix_as_str (mv_from m)) (jt_job_id t))
    (to_json (?src\<lparr>state := transition_cleaned_state (jt_transition_id t)\<rparr>))\<rparr>"
  have at2: "at_stage s0 m 5 (disk w2)"
    using stage_clean [OF m at1] generationD [OF gen] by (simp add: w2_def)
  let ?d = "jt_destination_job (mv_record m)" and ?q = "jt_to_prefix t"
  note tomb = run_on_transition [OF at_stageD(1) [OF at2] sound_moveD(9) [OF m], of ?q]
  have finish: "advances s0 m 5 (bindE (retire_transition_record (Suc fuel) L t) (\<lambda>_. ok True))
      (w2\<lparr>disk := entombed (disk w2) ?d ?q\<rparr>)"
    by (rule advances_retire_record [OF m _ gen]) (simp add: stage_side_effects(4) [OF m at2])
  have "advances s0 m 5 (bindp (on_transition ?d ?q) (\<lambda>_.
      bindE (retire_transition_record (Suc fuel) L t) (\<lambda>_. ok True))) w2"
    by (rule advances_bindp [OF tomb(1) _ finish]) (use tomb(2) at2 in auto)
  then show ?thesis
    unfolding retire_move_def
    by (intro advances_bindE [OF source(1) [folded w2_def], where k = 5])
       (use source(2) at at1 in \<open>auto split: if_splits\<close>)
qed

text \<open>A read does not move the store, so it is skipped.\<close>

lemma advances_read:
  assumes "run L B p w = (Inr a, w)" "set (trace L B p w) \<subseteq> {w}" "at_stage s0 m n (disk w)" "n \<le> 6"
  shows "advances s0 m n (bindE p f) w = advances s0 m n (f a) w"
proof
  assume "advances s0 m n (f a) w"
  then show "advances s0 m n (bindE p f) w"
    by (rule advances_bindE [rotated 2]) (use assms in auto)
qed (use assms in \<open>auto simp: advances_def run_simps\<close>)

lemma promised_self:
  assumes "sound_move token L m" "generation m t"
  shows "promised t (jt_destination_job (mv_record m))"
  using assms sound_moveD(9) [OF assms(1)] generationD [OF assms(2)]
  by (simp add: promised_def sound_move_def Let_def sound_job_def)

lemma destination_live:
  assumes "sound_move token L m"
  shows "\<not> is_transition_sentinel_state (state (jt_destination_job (mv_record m)))"
    and "\<not> starts_with (state (jt_destination_job (mv_record m))) transition_cleaned_prefix"
  using assms by (simp_all add: sound_move_def Let_def)

lemma retention_settled:
  assumes "sound_move token L m"
  shows "(if prefix_as_str (mv_to m) \<in> set terminal_prefixes
     then record_terminal_outcome fuel L (jt_destination_job (mv_record m)) (prefix_as_str (mv_to m))
     else ok ()) = ok ()"
proof (cases "prefix_as_str (mv_to m) \<in> set terminal_prefixes")
  case True
  then have "prefix_terminal (mv_to m)"
    by (cases "mv_to m") (simp_all add: terminal_prefixes_def prefix_words)
  with assms have "unlinked (jt_destination_job (mv_record m))"
    by (simp add: sound_move_def Let_def)
  then show ?thesis using True record_outcome_unlinked by simp
qed simp

lemma read_destination:
  assumes m: "sound_move token L m" and at: "at_stage s0 m n (disk w)" and n: "3 \<le> n"
  shows "run L B (read_job L (prefix_as_str (mv_to m)) (jt_job_id (mv_record m))) w =
    (Inr (Some (jt_destination_job (mv_record m))), w)"
  using run_read_job [OF at_stageD(1) [OF at] sound_moveD(1,9) [OF m], of "mv_to m"]
    at_stageD(4) [OF at] n destination_live [OF m]
  by (simp add: stage_destination_def)

lemma read_source:
  assumes m: "sound_move token L m" and at: "at_stage s0 m n (disk w)"
  shows "run L B (read_text_versioned (job_path (prefix_as_str (mv_from m)) (jt_job_id (mv_record m)))) w =
    (Inr (Some \<lparr>content = to_json (stage_source m n), version = token (to_json (stage_source m n))\<rparr>), w)"
  using run_calls(2) [OF at_stageD(1) [OF at] sound_moveD(3) [OF m]] at_stageD(3) [OF at] by simp

lemma trace_read_versioned: "set (trace L B (read_text_versioned q) w) \<subseteq> {w}"
  by (simp add: trace_calls)

lemma advances_finish:
  assumes m: "sound_move token L m" and at: "at_stage s0 m n (disk w)" and n: "n = 4 \<or> n = 5"
    and gen: "generation m t"
  shows "advances s0 m n (finish_completed_transition (Suc fuel) L t) w"
proof -
  have fields: "jt_from_prefix t = prefix_as_str (mv_from m)" "jt_to_prefix t = prefix_as_str (mv_to m)"
    "jt_job_id t = jt_job_id (mv_record m)"
    using m generationD [OF gen] by (simp_all add: sound_move_def Let_def)
  have retired: "state (stage_source m n) = transition_cleaned_state (jt_transition_id t) \<longleftrightarrow> n = 5"
    using n generationD [OF gen] by (auto simp: stage_source_def Let_def)
  have le: "n \<le> 6" "3 \<le> n" using n by auto
  note reads = advances_read [OF read_destination [OF m at le(2)] trace_read_job at le(1)]
    advances_read [OF read_source [OF m at] trace_read_versioned at le(1)]
  show ?thesis
    unfolding finish_completed_transition_def fields reads option.case
    using n advances_retire_record [OF m _ gen] advances_retire_move [OF m _ gen] at
    by (auto simp: promised_self [OF m gen] reads sound_moveD [OF m] retired retention_settled [OF m])
qed

lemma advances_step:
  assumes "run L B p w = (Inr a, w1)" "set (trace L B p w) \<subseteq> {w}" "at_stage s0 m n (disk w)"
    and "n \<le> k" "n \<le> 6" "advances s0 m k (f a) w1"
  shows "advances s0 m n (bindE p f) w"
  by (rule advances_bindE [where k = k and a = a and ?w1.0 = w1]) (use assms in auto)

lemma run_install_placed:
  assumes m: "sound_move token L m" and at: "at_stage s0 m 3 (disk w)" and gen: "generation m t"
  shows "run L B (install_destination (Suc fuel) L t) w = (Inr (jt_destination_job (mv_record m)), w)"
    and "set (trace L B (install_destination (Suc fuel) L t) w) \<subseteq> {w}"
  using m at_stageD [OF at] generationD [OF gen] promised_self [OF m gen] destination_live [OF m]
    sound_moveD [OF m]
  by (simp_all add: store_steps trace_calls stage_destination_def sound_move_def Let_def)

lemma run_install_vacant:
  assumes m: "sound_move token L m" and at: "at_stage s0 m 2 (disk w)" and gen: "generation m t"
  defines "w' \<equiv> w\<lparr>disk := put (disk w) (job_path (prefix_as_str (mv_to m)) (jt_job_id (mv_record m)))
    (to_json (jt_destination_job (mv_record m)))\<rparr>"
  shows "run L B (install_destination (Suc fuel) L t) w = (Inr (jt_destination_job (mv_record m)), w')"
    and "set (trace L B (install_destination (Suc fuel) L t) w) \<subseteq> {w}"
proof -
  have to: "jt_to_prefix t = prefix_as_str (mv_to m)"
    using m generationD [OF gen] by (simp add: sound_move_def Let_def)
  have vacant: "vacant (jt_job_id (mv_record m)) (mv_before m)"
    using m by (simp add: sound_move_def Let_def)
  have facts: "ready (disk w)" "good (job_path (prefix_as_str (mv_to m)) (jt_job_id (mv_record m)))"
    "view (disk w) (job_path (prefix_as_str (mv_to m)) (jt_job_id (mv_record m))) = mv_before m"
    using at_stageD [OF at] sound_moveD [OF m] by (simp_all add: stage_destination_def)
  show "run L B (install_destination (Suc fuel) L t) w = (Inr (jt_destination_job (mv_record m)), w')"
    and "set (trace L B (install_destination (Suc fuel) L t) w) \<subseteq> {w}"
    using facts vacant generationD [OF gen] to
    by (cases "mv_before m";
        force simp: store_steps trace_calls vacant_def w'_def Let_def)+
qed

lemma advances_settle_placed:
  assumes m: "sound_move token L m" and at: "at_stage s0 m 3 (disk w)" and gen: "generation m t"
  shows "advances s0 m 3 (bindE (set_metadata (job_path (jt_to_prefix t) (jt_job_id t))
      (job_metadata (jt_destination_job (mv_record m)))) (\<lambda>_.
    bindE (if jt_to_prefix t = ''queue'' then write_marker (jt_destination_job (mv_record m)) else ok ()) (\<lambda>_.
    bindE (set_transition_state (Suc fuel) L t TCompleted) (\<lambda>moved.
      if \<not> moved then ok False else finish_completed_transition (Suc fuel) L t)))) w"
proof -
  let ?d = "jt_destination_job (mv_record m)" and ?id = "jt_job_id (mv_record m)"
  let ?dp = "job_path (prefix_as_str (mv_to m)) ?id"
  have to: "jt_to_prefix t = prefix_as_str (mv_to m)" "jt_job_id t = ?id"
    using m generationD [OF gen] by (simp_all add: sound_move_def Let_def)
  define w1 where "w1 = w\<lparr>disk := annotate (disk w) ?dp (job_metadata ?d)\<rparr>"
  have at1: "at_stage s0 m 3 (disk w1)"
    using stage_side_effects(1) [OF m at] by (simp add: w1_def)
  have run1: "run L B (set_metadata ?dp (job_metadata ?d)) w = (Inr (), w1)"
    using run_calls(7) [OF at_stageD(1) [OF at] sound_moveD(3) [OF m]] by (simp add: w1_def)
  let ?mark = "if prefix_as_str (mv_to m) = ''queue'' then write_marker ?d else ok ()"
  obtain w2 where run2: "run L B ?mark w1 = (Inr (), w2)" and at2: "at_stage s0 m 3 (disk w2)"
    and trace2: "set (trace L B ?mark w1) \<subseteq> {w1}"
    using stage_side_effects(2) [OF m at1] at1 at_stageD(1) [OF at1] sound_moveD(4) [OF m]
    by (cases "mv_to m = Queue") (simp_all add: write_marker_def run_calls trace_calls)
  have facts: "ready (disk w2)" "sound_record ?id (stage_record m 3)"
    "jt_state (stage_record m 3) \<noteq> TCompleted" "jt_job_id t = ?id"
    "jt_transition_id t = jt_transition_id (stage_record m 3)" "jt_owner t = jt_owner (stage_record m 3)"
    using at_stageD [OF at2] sound_moveD [OF m] generationD [OF gen] by simp_all
  note complete = run_set_transition_state [OF facts at_stageD(2) [OF at2], of fuel]
  have finish: "advances s0 m 4 (if \<not> True then ok False else finish_completed_transition (Suc fuel) L t)
      (w2\<lparr>disk := put (disk w2) (transition_path L ?id)
        (transition_to_body ((stage_record m 3)\<lparr>jt_state := TCompleted\<rparr>))\<rparr>)"
    using stage_complete [OF m at2] by (simp add: advances_finish [OF m _ _ gen])
  have "advances s0 m 3 (bindE (set_transition_state (Suc fuel) L t TCompleted) (\<lambda>moved.
      if \<not> moved then ok False else finish_completed_transition (Suc fuel) L t)) w2"
    by (rule advances_step [OF complete at2, where k = 4]) (use finish in simp_all)
  then have "advances s0 m 3 (bindE ?mark (\<lambda>_. bindE (set_transition_state (Suc fuel) L t TCompleted)
      (\<lambda>moved. if \<not> moved then ok False else finish_completed_transition (Suc fuel) L t))) w1"
    by (intro advances_step [OF run2 trace2 at1]) simp_all
  then show ?thesis
    unfolding to by (intro advances_step [OF run1 _ at]) (simp_all add: trace_calls)
qed

lemma advances_settle_prepared:
  assumes m: "sound_move token L m" and at: "at_stage s0 m n (disk w)" and n: "n = 2 \<or> n = 3"
    and gen: "generation m t"
  shows "advances s0 m n (settle_prepared (Suc fuel) L t) w"
  using n
proof
  assume "n = 2"
  with at have at2: "at_stage s0 m 2 (disk w)" by simp
  note install = run_install_vacant [OF m at2 gen, of fuel]
  show ?thesis
    unfolding settle_prepared_def \<open>n = 2\<close>
    by (rule advances_step [OF install at2, where k = 3], simp, simp)
       (rule advances_settle_placed [OF m _ gen], simp add: stage_place [OF m at2])
next
  assume "n = 3"
  with at have at3: "at_stage s0 m 3 (disk w)" by simp
  note install = run_install_placed [OF m at3 gen, of fuel]
  show ?thesis
    unfolding settle_prepared_def \<open>n = 3\<close>
    by (rule advances_step [OF install at3, where k = 3], simp, simp)
       (rule advances_settle_placed [OF m at3 gen])
qed

lemma generation_stage [simp]: "generation m (stage_record m n)"
  by (auto simp: generation_def stage_record_def)

lemma advances_recover_prepared:
  assumes m: "sound_move token L m" and at: "at_stage s0 m n (disk w)" and n: "n = 1 \<or> n = 2 \<or> n = 3"
    and gen: "generation m t"
  shows "advances s0 m n (recover_prepared (Suc fuel) L t) w"
proof -
  let ?src = "stage_source m n" and ?sp = "job_path (prefix_as_str (mv_from m)) (jt_job_id (mv_record m))"
  let ?fenced = "?src\<lparr>state := transition_fence_state (jt_transition_id (mv_record m))\<rparr>"
  have fields: "jt_from_prefix t = prefix_as_str (mv_from m)" "jt_job_id t = jt_job_id (mv_record m)"
    using m generationD [OF gen] by (simp_all add: sound_move_def Let_def)
  have le: "n \<le> 6" using n by auto
  note read = advances_read [OF read_source [OF m at] trace_read_versioned at le]
  have pinned: "token (to_json ?src) = jt_source_version t \<and> sha256_hex L (to_json ?src) = jt_source_digest t"
    if "n = 1" using that m generationD [OF gen] by (simp add: stage_source_def Let_def sound_move_def)
  have fence_state: "state ?src = transition_fence_state (jt_transition_id (mv_record m))" if "n \<noteq> 1"
    using that n by (auto simp: stage_source_def Let_def)
  have swap: "run L B (compare_and_swap_text ?sp (token (to_json ?src)) (to_json ?fenced)) w =
      (Inr (token (to_json ?fenced)), w\<lparr>disk := put (disk w) ?sp (to_json ?fenced)\<rparr>)"
    using at_stageD [OF at] sound_moveD [OF m] by (simp add: run_swap)
  have settled: "advances s0 m (max 2 n) (settle_prepared (Suc fuel) L t)
      (w\<lparr>disk := put (disk w) ?sp (to_json ?fenced)\<rparr>)"
    by (rule advances_settle_prepared [OF m _ _ gen]) (use stage_fence [OF m at n] n in auto)
  have traced: "\<forall>v \<in> set (trace L B (compare_and_swap_text ?sp (token (to_json ?src)) (to_json ?fenced)) w).
      at_stage s0 m n (disk v)"
    using at by (simp add: trace_calls)
  note fence = advances_bindp [OF swap traced, where k = "max 2 n"]
  show ?thesis
  proof (cases "token (to_json ?src) = jt_source_version t \<and> sha256_hex L (to_json ?src) = jt_source_digest t")
    case True
    then have "jt_source_version t = token (to_json ?src)" "jt_source_digest t = sha256_hex L (to_json ?src)"
      by simp_all
    then show ?thesis
      using settled le
      by (auto simp: recover_prepared_def Let_def fields generationD(2) [OF gen] read
          sound_moveD [OF m] intro!: fence)
  next
    case False
    with pinned have "n \<noteq> 1" by blast
    then show ?thesis
      using False fence_state advances_settle_prepared [OF m at _ gen] n
      by (auto simp: recover_prepared_def Let_def fields generationD [OF gen] read sound_moveD [OF m])
  qed
qed

text \<open>Whoever recovers the record of a move, at whatever stage it was left, finishes it.\<close>

lemma read_record:
  assumes "sound_move token L m" "at_stage s0 m n (disk w)"
  shows "run L B (read_job_transition L (jt_job_id (mv_record m))) w =
    (Inr (Some (stage_record m n, token (transition_to_body (stage_record m n)))), w)"
  using assms sound_moveD [OF assms(1)] at_stageD [OF assms(2)] by (intro run_read_transition) auto

lemma advances_recover:
  assumes m: "sound_move token L m" and at: "at_stage s0 m n (disk w)" and n: "1 \<le> n" "n \<le> 5"
  shows "advances s0 m n (recover_job_transition (Suc fuel) L (jt_job_id (mv_record m))) w"
proof -
  have le: "n \<le> 6" using n by simp
  note read = advances_read [OF read_record [OF m at] _ at le, simplified trace_read_transition]
  consider "n = 1 \<or> n = 2 \<or> n = 3" | "n = 4 \<or> n = 5" using n by linarith
  then show ?thesis
  proof cases
    case 1
    then show ?thesis
      using advances_recover_prepared [OF m at 1, of "stage_record m n"]
      by (auto simp: recover_job_transition_def read)
  next
    case 2
    then show ?thesis
      using advances_finish [OF m at 2, of "stage_record m n"]
      by (auto simp: recover_job_transition_def read)
  qed
qed

lemma recover_retired:
  assumes m: "sound_move token L m" and at: "at_stage s0 m 6 (disk w)"
  shows "run L B (recover_job_transition fuel L (jt_job_id (mv_record m))) w = (Inr False, w)"
  using read_record [OF m at] by (simp add: recover_job_transition_def run_simps)

theorem recover_finishes:
  assumes m: "sound_move token L m" and at: "at_stage s0 m n (disk w)" and n: "1 \<le> n" "n \<le> 6"
  shows "\<exists>w'. run L B (recover_job_transition (Suc fuel) L (jt_job_id (mv_record m))) w =
      (Inr (n \<noteq> 6), w') \<and> at_stage s0 m 6 (disk w')"
proof (cases "n = 6")
  case True
  then show ?thesis using recover_retired [OF m] at by auto
next
  case False
  then show ?thesis using advances_recover [OF m at] n unfolding advances_def by auto
qed

lemma recover_idle:
  assumes "ready (disk w)" "idle_record id' (view (disk w) (transition_path L id'))"
  shows "run L B (recover_job_transition fuel L id') w = (Inr False, w)"
    and "trace L B (recover_job_transition fuel L id') w = [w]"
proof -
  show "run L B (recover_job_transition fuel L id') w = (Inr False, w)"
    using assms
    by (cases "view (disk w) (transition_path L id')")
       (auto simp: idle_record_def recover_job_transition_def run_simps run_read_transition
         run_read_transition_absent)
  show "trace L B (recover_job_transition fuel L id') w = [w]"
    using assms
    by (cases "view (disk w) (transition_path L id')")
       (auto simp: idle_record_def recover_job_transition_def run_simps run_read_transition
         run_read_transition_absent trace_read_transition)
qed

lemma movableD:
  assumes "movable view L s cur requested p q"
  shows "p \<noteq> q" "sound_job cur" "sound_job requested" "job_id requested = job_id cur"
    and "same_identity cur requested" "state cur = prefix_state (prefix_as_str p)"
    and "view s (job_path (prefix_as_str p) (job_id cur)) = Some (to_json cur)"
    and "vacant (job_id cur) (view s (job_path (prefix_as_str q) (job_id cur)))"
    and "idle_record (job_id cur) (view s (transition_path L (job_id cur)))"
    and "prefix_terminal q \<Longrightarrow> unlinked cur" "no_slash (job_id cur)"
  using assms by (auto simp: movable_def Let_def sound_job_def)

lemma run_destination_basis:
  assumes mv: "movable view L (disk w) cur requested p q"
  shows "\<exists>dv. destination_basis L cur requested (prefix_as_str q)
     (map_option (\<lambda>text'. \<lparr>content = text', version = token text'\<rparr>)
       (view (disk w) (job_path (prefix_as_str q) (job_id cur)))) = ok (requested, dv)"
  using movableD [OF mv] mv
  by (auto simp: destination_basis_def vacant_def movable_def Let_def split: option.splits)

text \<open>The record a move installs, from the owner it drew and the instant it read.\<close>

definition planned_move :: "'s world \<Rightarrow> job \<Rightarrow> prefix \<Rightarrow> prefix \<Rightarrow> job \<Rightarrow> string option \<Rightarrow> move" where
  "planned_move w cur p q d dv =
     \<lparr>mv_record = candidate_transition L (uuid_simple L (uuids w)) (clock w) (job_id cur)
        (prefix_as_str p) (prefix_as_str q)
        \<lparr>content = to_json cur, version = token (to_json cur)\<rparr> d dv,
      mv_from = p, mv_to = q, mv_source = cur,
      mv_before = view (disk w) (job_path (prefix_as_str q) (job_id cur))\<rparr>"

lemma planned_move_sel [simp]:
  "mv_from (planned_move w cur p q d dv) = p" "mv_to (planned_move w cur p q d dv) = q"
  "mv_source (planned_move w cur p q d dv) = cur"
  "jt_job_id (mv_record (planned_move w cur p q d dv)) = job_id cur"
  "jt_destination_job (mv_record (planned_move w cur p q d dv)) = d"
  "jt_state (mv_record (planned_move w cur p q d dv)) = Prepared"
  by (simp_all add: planned_move_def candidate_transition_def)

lemma planned_move_sound:
  assumes mv: "movable view L (disk w) cur requested p q"
    and d: "merge_transition_destination cur requested (prefix_as_str p) (prefix_as_str q) = Inr d"
  shows "sound_move token L (planned_move w cur p q d dv)"
proof -
  have "wf_job d"
    using merge_wf [OF d] movableD(2,3) [OF mv] by (simp add: sound_job_def)
  then have "sound_job d"
    using movableD(2) [OF mv] merge_fields [OF d] merge_frame [OF d] by (simp add: sound_job_def)
  moreover have "prefix_terminal q \<longrightarrow> unlinked d"
    using movableD(10) [OF mv] merge_frame [OF d] by (simp add: unlinked_def)
  ultimately show ?thesis
    using movableD [OF mv] merge_fields [OF d]
    by (simp add: sound_move_def Let_def planned_move_def candidate_transition_def)
qed

lemma run_prepare_candidate:
  assumes rdy: "ready (disk w)" and mv: "movable view L (disk w) cur requested p q"
    and v: "ev = None \<or> ev = Some (token (to_json cur))"
  shows "\<exists>d dv. merge_transition_destination cur requested (prefix_as_str p) (prefix_as_str q) = Inr d \<and>
    run L B (prepare_candidate fuel L requested (prefix_as_str p) (prefix_as_str q) ev) w =
      (Inr (Inr (mv_record (planned_move w cur p q d dv))), w\<lparr>uuids := Suc (uuids w)\<rparr>) \<and>
    (\<forall>u \<in> set (trace L B (prepare_candidate fuel L requested (prefix_as_str p) (prefix_as_str q) ev) w).
       disk u = disk w)"
proof -
  obtain d where d: "merge_transition_destination cur requested (prefix_as_str p) (prefix_as_str q) = Inr d"
    using merge_defined [OF movableD(5) [OF mv]] by blast
  obtain dv where basis: "destination_basis L cur requested (prefix_as_str q)
     (map_option (\<lambda>text'. \<lparr>content = text', version = token text'\<rparr>)
       (view (disk w) (job_path (prefix_as_str q) (job_id cur)))) = ok (requested, dv)"
    using run_destination_basis [OF mv] by blast
  note facts = movableD [OF mv] rdy good_job [OF movableD(11) [OF mv]]
  note sims = prepare_candidate_def run_simps run_calls trace_calls recover_idle [OF rdy movableD(9) [OF mv]]
    basis d now_def new_uuid_def planned_move_def
  have "run L B (prepare_candidate fuel L requested (prefix_as_str p) (prefix_as_str q) ev) w =
      (Inr (Inr (mv_record (planned_move w cur p q d dv))), w\<lparr>uuids := Suc (uuids w)\<rparr>)"
    using facts v by (auto simp: sims)
  moreover have "\<forall>u \<in> set (trace L B (prepare_candidate fuel L requested (prefix_as_str p)
      (prefix_as_str q) ev) w). disk u = disk w"
    using facts v by (auto simp: sims)
  ultimately show ?thesis using d by blast
qed

lemma run_install_transition:
  assumes rdy: "ready (disk w)" and idle: "idle_record (jt_job_id c) (view (disk w) (transition_path L (jt_job_id c)))"
  shows "run L B (install_transition L c) w =
      (Inr Installed, w\<lparr>disk := put (disk w) (transition_path L (jt_job_id c)) (transition_to_body c)\<rparr>)"
    and "set (trace L B (install_transition L c) w) \<subseteq> {w}"
proof -
  let ?p = "transition_path L (jt_job_id c)"
  have "run L B (install_transition L c) w =
      (Inr Installed, w\<lparr>disk := put (disk w) ?p (transition_to_body c)\<rparr>) \<and>
    set (trace L B (install_transition L c) w) \<subseteq> {w}"
  proof (cases "view (disk w) ?p")
    case None
    then show ?thesis
      using rdy by (simp add: install_transition_def Let_def run_simps run_calls trace_calls)
  next
    case (Some text')
    with idle obtain r where r: "text' = transition_to_body r" "sound_record (jt_job_id c) r"
      "jt_state r = Retired"
      by (auto simp: idle_record_def)
    then show ?thesis
      using rdy Some
      by (simp add: install_transition_def Let_def run_simps run_calls run_swap trace_calls
          sound_record_reads)
  qed
  then show "run L B (install_transition L c) w =
      (Inr Installed, w\<lparr>disk := put (disk w) ?p (transition_to_body c)\<rparr>)"
    and "set (trace L B (install_transition L c) w) \<subseteq> {w}" by blast+
qed

lemma planned_stage:
  assumes rdy: "ready (disk w)" and mv: "movable view L (disk w) cur requested p q"
  shows "at_stage (disk w) (planned_move w cur p q d dv) 1
    (put (disk w) (transition_path L (job_id cur)) (transition_to_body (mv_record (planned_move w cur p q d dv))))"
proof -
  let ?m = "planned_move w cur p q d dv"
  have "stage_record ?m 1 = mv_record ?m"
    by (simp add: stage_record_def planned_move_def candidate_transition_def)
  then show ?thesis
    using rdy movableD [OF mv]
    by (auto simp: at_stage_def Let_def store_simps good_job stage_source_def stage_destination_def
        bystander_def)
       (simp_all add: planned_move_def)
qed

theorem move_completes:
  assumes rdy: "ready (disk w)" and mv: "movable view L (disk w) cur requested p q"
    and v: "ev = None \<or> ev = Some (token (to_json cur))"
  shows "\<exists>d dv w'. merge_transition_destination cur requested (prefix_as_str p) (prefix_as_str q) = Inr d \<and>
    sound_move token L (planned_move w cur p q d dv) \<and>
    run L B (transition_job_if_version (Suc fuel) L requested (prefix_as_str p) (prefix_as_str q) ev) w =
      (Inr True, w') \<and>
    at_stage (disk w) (planned_move w cur p q d dv) 6 (disk w') \<and>
    (\<forall>u \<in> set (trace L B (transition_job_if_version (Suc fuel) L requested (prefix_as_str p)
        (prefix_as_str q) ev) w).
      disk u = disk w \<or>
      (\<exists>k. 1 \<le> k \<and> k \<le> 6 \<and> at_stage (disk w) (planned_move w cur p q d dv) k (disk u)))"
proof -
  obtain d dv where d: "merge_transition_destination cur requested (prefix_as_str p) (prefix_as_str q) = Inr d"
    and prep: "run L B (prepare_candidate (Suc fuel) L requested (prefix_as_str p) (prefix_as_str q) ev) w =
      (Inr (Inr (mv_record (planned_move w cur p q d dv))), w\<lparr>uuids := Suc (uuids w)\<rparr>)"
    and prept: "\<forall>u \<in> set (trace L B (prepare_candidate (Suc fuel) L requested (prefix_as_str p)
      (prefix_as_str q) ev) w). disk u = disk w"
    using run_prepare_candidate [OF rdy mv v] by blast
  let ?m = "planned_move w cur p q d dv"
  have m: "sound_move token L ?m" by (rule planned_move_sound [OF mv d])
  define w1 where "w1 = w\<lparr>uuids := Suc (uuids w)\<rparr>"
  define w2 where "w2 = w1\<lparr>disk := put (disk w1) (transition_path L (job_id cur))
    (transition_to_body (mv_record ?m))\<rparr>"
  note install = run_install_transition [of w1 "mv_record ?m", simplified planned_move_sel]
  have inst: "run L B (install_transition L (mv_record ?m)) w1 = (Inr Installed, w2)"
    "set (trace L B (install_transition L (mv_record ?m)) w1) \<subseteq> {w1}"
    using install rdy movableD(9) [OF mv] by (simp_all add: w1_def w2_def)
  have "at_stage (disk w) ?m 1 (disk w2)"
    using planned_stage [OF rdy mv] by (simp add: w1_def w2_def)
  then have "advances (disk w) ?m 1 (recover_job_transition (Suc fuel) L (job_id cur)) w2"
    using advances_recover [OF m, of "disk w" 1 w2 fuel] by simp
  then obtain w' where rec: "run L B (recover_job_transition (Suc fuel) L (job_id cur)) w2 = (Inr True, w')"
    and at6: "at_stage (disk w) ?m 6 (disk w')"
    and rect: "\<forall>u \<in> set (trace L B (recover_job_transition (Suc fuel) L (job_id cur)) w2).
      \<exists>k. 1 \<le> k \<and> k \<le> 6 \<and> at_stage (disk w) ?m k (disk u)"
    unfolding advances_def by blast
  have ids: "job_id requested = job_id cur" using movableD(4) [OF mv] .
  note prep' = prep [folded w1_def]
  have run: "run L B (transition_job_if_version (Suc fuel) L requested (prefix_as_str p) (prefix_as_str q) ev) w =
      (Inr True, w')"
    by (simp add: transition_job_if_version_def run_simps prep' inst rec ids)
  have "set (trace L B (transition_job_if_version (Suc fuel) L requested (prefix_as_str p)
        (prefix_as_str q) ev) w) \<subseteq>
      set (trace L B (prepare_candidate (Suc fuel) L requested (prefix_as_str p) (prefix_as_str q) ev) w) \<union>
      {w1} \<union> set (trace L B (recover_job_transition (Suc fuel) L (job_id cur)) w2)"
    using inst(2) by (auto simp: transition_job_if_version_def run_simps prep' inst(1) rec ids)
  then have "\<forall>u \<in> set (trace L B (transition_job_if_version (Suc fuel) L requested (prefix_as_str p)
        (prefix_as_str q) ev) w).
      disk u = disk w \<or> (\<exists>k. 1 \<le> k \<and> k \<le> 6 \<and> at_stage (disk w) ?m k (disk u))"
    using prept rect by (auto simp: w1_def)
  then show ?thesis using d m run at6 by blast
qed

text \<open>A move pinned to a version the source no longer has changes nothing.\<close>

theorem move_stale:
  assumes rdy: "ready (disk w)" and id': "no_slash (job_id requested)"
    and idle: "idle_record (job_id requested) (view (disk w) (transition_path L (job_id requested)))"
    and src: "view (disk w) (job_path (prefix_as_str p) (job_id requested)) = Some text'"
    and stale: "token text' \<noteq> v"
  shows "run L B (transition_job_if_version (Suc fuel) L requested (prefix_as_str p) q (Some v)) w =
    (Inr False, w)"
  using assms
  by (simp add: transition_job_if_version_def prepare_candidate_def run_simps run_calls good_job
      recover_idle)

text \<open>A finished move leaves the job live under its destination alone.\<close>

lemma stage_six_home:
  assumes m: "sound_move token L m" and at: "at_stage s0 m 6 s"
    and home: "homes view s0 (jt_job_id (mv_record m)) = [mv_from m]"
  shows "homes view s (jt_job_id (mv_record m)) = [mv_to m]"
proof (rule homes_single)
  fix y
  let ?id = "jt_job_id (mv_record m)"
  have other: "view s (job_path (prefix_as_str y) ?id) = view s0 (job_path (prefix_as_str y) ?id)"
    if "y \<noteq> mv_from m" "y \<noteq> mv_to m"
    using at that sound_moveD(3) [OF m] by (simp add: at_stage_def Let_def)
  have src: "\<not> live_document (view s (job_path (prefix_as_str (mv_from m)) ?id))"
    using at_stageD(3) [OF at] sound_moveD(7) [OF m, of 6] by (simp add: stage_source_def Let_def)
  have dst: "live_document (view s (job_path (prefix_as_str (mv_to m)) ?id))"
    using at_stageD(4) [OF at] sound_moveD(9) [OF m] destination_live(1) [OF m]
    by (simp add: stage_destination_def)
  show "live_document (view s (job_path (prefix_as_str y) ?id)) \<longleftrightarrow> y = mv_to m"
    using other src dst homes_singleD [OF home, of y] by (cases "y = mv_from m"; cases "y = mv_to m") auto
qed

theorem crash_recovery:
  assumes rdy: "ready (disk w)" and mv: "movable view L (disk w) cur requested p q"
    and v: "ev = None \<or> ev = Some (token (to_json cur))"
    and home: "homes view (disk w) (job_id cur) = [p]"
    and crash: "u \<in> set (crash_worlds L B (transition_job_if_version (Suc fuel) L requested
      (prefix_as_str p) (prefix_as_str q) ev) w)"
    and restart: "disk x = disk u"
  shows "\<exists>b x'. run L B (recover_job_transition (Suc fuel') L (job_id cur)) x = (Inr b, x') \<and>
    (homes view (disk x') (job_id cur) = [p] \<or> homes view (disk x') (job_id cur) = [q])"
proof -
  obtain d dv w' where m: "sound_move token L (planned_move w cur p q d dv)"
    and run: "run L B (transition_job_if_version (Suc fuel) L requested (prefix_as_str p)
      (prefix_as_str q) ev) w = (Inr True, w')"
    and at6: "at_stage (disk w) (planned_move w cur p q d dv) 6 (disk w')"
    and trace: "\<forall>u \<in> set (trace L B (transition_job_if_version (Suc fuel) L requested (prefix_as_str p)
        (prefix_as_str q) ev) w).
      disk u = disk w \<or>
      (\<exists>k. 1 \<le> k \<and> k \<le> 6 \<and> at_stage (disk w) (planned_move w cur p q d dv) k (disk u))"
    using move_completes [OF rdy mv v] by blast
  let ?m = "planned_move w cur p q d dv"
  have "disk u = disk w \<or> (\<exists>k. 1 \<le> k \<and> k \<le> 6 \<and> at_stage (disk w) ?m k (disk u))"
  proof (cases "u = w'")
    case True
    then show ?thesis
      using at6 by (intro disjI2 exI [of _ 6]) simp
  next
    case False
    then show ?thesis
      using crash run trace by (simp add: crash_worlds_def)
  qed
  then consider "disk u = disk w" | k where "1 \<le> k" "k \<le> 6" "at_stage (disk w) ?m k (disk u)"
    by blast
  then show ?thesis
  proof cases
    case 1
    then show ?thesis
      using recover_idle(1) [of x "job_id cur" "Suc fuel'"] rdy movableD(9) [OF mv] home restart by auto
  next
    case 2
    then show ?thesis
      using recover_finishes [OF m, of "disk w" k x fuel'] stage_six_home [OF m] home restart by auto
  qed
qed

text \<open>What a finished move leaves: the destination alone is live, and nothing holds up the next move.\<close>

definition moved :: "'s \<Rightarrow> job \<Rightarrow> job \<Rightarrow> prefix \<Rightarrow> prefix \<Rightarrow> 's \<Rightarrow> bool" where
  "moved s cur d p q s' \<longleftrightarrow>
     ready s' \<and> sound_job d \<and>
     view s' (job_path (prefix_as_str q) (job_id cur)) = Some (to_json d) \<and>
     idle_record (job_id cur) (view s' (transition_path L (job_id cur))) \<and>
     (\<exists>c. sound_job c \<and> view s' (job_path (prefix_as_str p) (job_id cur)) = Some (to_json c) \<and>
        same_identity c cur \<and> starts_with (state c) transition_cleaned_prefix) \<and>
     (\<exists>m. jt_job_id (mv_record m) = job_id cur \<and> mv_from m = p \<and> mv_to m = q \<and>
        (\<forall>x. good x \<longrightarrow> bystander L m x \<longrightarrow> view s' x = view s x))"

lemma moved_stage_six:
  assumes m: "sound_move token L m" and at: "at_stage s0 m 6 s"
  shows "moved s0 (mv_source m) (jt_destination_job (mv_record m)) (mv_from m) (mv_to m) s"
proof -
  have id': "job_id (mv_source m) = jt_job_id (mv_record m)"
    using m by (simp add: sound_move_def Let_def)
  have c: "sound_job (stage_source m 6)" "same_identity (stage_source m 6) (mv_source m)"
    "starts_with (state (stage_source m 6)) transition_cleaned_prefix"
    using sound_moveD(7) [OF m, of 6]
    by (simp_all add: stage_source_def Let_def transition_cleaned_state_def starts_with_def
        same_identity_refl sound_jobD)
  have r: "idle_record (jt_job_id (mv_record m)) (Some (transition_to_body (stage_record m 6)))"
    using sound_moveD(6) [OF m, of 6] by (auto simp: idle_record_def intro!: exI [of _ "stage_record m 6"])
  show ?thesis
    unfolding moved_def id'
    using at_stageD [OF at] sound_moveD(9) [OF m] c r at
    by (auto simp: stage_destination_def at_stage_def Let_def)
qed

theorem move_home:
  assumes rdy: "ready (disk w)" and mv: "movable view L (disk w) cur requested p q"
    and v: "ev = None \<or> ev = Some (token (to_json cur))"
  obtains d w' where "merge_transition_destination cur requested (prefix_as_str p) (prefix_as_str q) = Inr d"
    and "run L B (transition_job_if_version (Suc fuel) L requested (prefix_as_str p) (prefix_as_str q) ev) w =
      (Inr True, w')"
    and "moved (disk w) cur d p q (disk w')"
    and "homes view (disk w) (job_id cur) = [p] \<Longrightarrow> homes view (disk w') (job_id cur) = [q]"
proof -
  obtain d dv w' where d: "merge_transition_destination cur requested (prefix_as_str p) (prefix_as_str q) = Inr d"
    and m: "sound_move token L (planned_move w cur p q d dv)"
    and run: "run L B (transition_job_if_version (Suc fuel) L requested (prefix_as_str p)
      (prefix_as_str q) ev) w = (Inr True, w')"
    and at6: "at_stage (disk w) (planned_move w cur p q d dv) 6 (disk w')"
    using move_completes [OF rdy mv v] by blast
  show thesis
  proof (rule that [OF d run])
    show "moved (disk w) cur d p q (disk w')"
      using moved_stage_six [OF m at6] by simp
    show "homes view (disk w') (job_id cur) = [q]" if "homes view (disk w) (job_id cur) = [p]"
      using stage_six_home [OF m at6] that by simp
  qed
qed

lemma movedD:
  assumes "moved s cur d p q s'"
  shows "ready s'" "sound_job d"
    and "view s' (job_path (prefix_as_str q) (job_id cur)) = Some (to_json d)"
    and "idle_record (job_id cur) (view s' (transition_path L (job_id cur)))"
    and "\<exists>c. sound_job c \<and> view s' (job_path (prefix_as_str p) (job_id cur)) = Some (to_json c) \<and>
      same_identity c cur \<and> starts_with (state c) transition_cleaned_prefix"
    and "good x \<Longrightarrow> (\<And>m. jt_job_id (mv_record m) = job_id cur \<Longrightarrow> mv_from m = p \<Longrightarrow> mv_to m = q \<Longrightarrow>
      bystander L m x) \<Longrightarrow> view s' x = view s x"
  using assms by (auto simp: moved_def)

end

section \<open>The device-local store carries moves\<close>

lemma plain_two:
  assumes "no_slash a" "no_slash b" "a \<noteq> []" "b \<noteq> []" "a \<noteq> ''.''" "b \<noteq> ''.''" "a \<noteq> ''..''" "b \<noteq> ''..''"
  shows "plain_path (a @ ''/'' @ b)"
  using assms split_on_append_sep [of "CHR ''/''" a b] split_on_no_sep [of "CHR ''/''" b]
  by (simp add: plain_path_def no_slash_def)

lemma no_slash_append [simp]: "no_slash (a @ b) \<longleftrightarrow> no_slash a \<and> no_slash b"
  by (auto simp: no_slash_def)

lemma no_slash_Cons [simp]: "no_slash (c # s) \<longleftrightarrow> c \<noteq> CHR ''/'' \<and> no_slash s" "no_slash []"
  by (auto simp: no_slash_def)

lemma json_name [simp]: "a @ ''.json'' \<noteq> ''.''" "a @ ''.json'' \<noteq> ''..''"
  by (auto dest!: arg_cong [where f = length])

lemma no_slash_digits [simp]: "no_slash (sha256_hex L t)" "no_slash (hex_digits n i)"
  by (simp_all add: no_slash_def lower_hex_plain lower_hex_digits)

lemma no_slash_literals [simp]:
  "no_slash ''.json''" "no_slash ''-''" "no_slash ''job-transitions''" "no_slash ''queue_priority''"
  by (simp_all add: no_slash_def)

lemma no_slash_prefix [simp]: "no_slash (prefix_as_str p)"
  by (cases p) (simp_all add: no_slash_def prefix_words)

lemma prefix_word_plain [simp]:
  "prefix_as_str p \<noteq> []" "prefix_as_str p \<noteq> ''.''" "prefix_as_str p \<noteq> ''..''"
  by (cases p; simp add: prefix_words)+

lemma plain_move_paths:
  "no_slash id' \<Longrightarrow> plain_path (job_path (prefix_as_str p) id')"
  "plain_path (transition_path L id')"
  "no_slash (created_at j) \<Longrightarrow> no_slash (job_id j) \<Longrightarrow> plain_path (marker_path j)"
  "tombstone_prefix q = Some m \<Longrightarrow> no_slash orig \<Longrightarrow> plain_path (tombstone_path m orig)"
proof -
  show "plain_path (job_path (prefix_as_str p) id')" if "no_slash id'"
    using that unfolding job_path_def
    by (intro plain_two) simp_all
  show "plain_path (transition_path L id')"
    using plain_two [of "''job-transitions''" "sha256_hex L (Raw id') @ ''.json''"]
    by (simp add: transition_path_def)
  show "plain_path (marker_path j)" if "no_slash (created_at j)" "no_slash (job_id j)"
    using that plain_two [of "''queue_priority''" "priority_key j @ ''-'' @ job_id j @ ''.json''"]
      json_name [of "priority_key j @ ''-'' @ job_id j"]
    by (simp add: marker_path_def marker_prefix_def priority_key_def)
  show "plain_path (tombstone_path m orig)" if "tombstone_prefix q = Some m" "no_slash orig"
    using that unfolding tombstone_path_def
    by (intro plain_two)
       (auto simp: tombstone_prefix_def no_slash_def split: option.splits prefix.splits)
qed

interpretation jobs: job_store "local_backend L root" "local_view root" "local_put root"
  "local_remove root" "local_annotate root" "local_version L"
  "\<lambda>p. ''local storage version changed for '' @ p" plain_path "local_ready root" L
  for L root
  by unfold_locales (simp_all add: plain_move_paths local_version_def)

end
