(* ===== verification/Lifecycle.thy ===== *)
theory Lifecycle
  imports Moves "HOL-Library.Option_ord"
begin

text \<open>
  \<open>src/stado-rs/src/queue/storage/lifecycle/\<close>: what callers do to a job. First admission
  (\<open>admission.rs\<close>), the claim of a queued job and the renewal of a running lease (\<open>claims.rs\<close>), the
  rewrites of a queued document and the two moves (\<open>mutations.rs\<close>), and the sweep that deletes the
  sentinels of settled jobs (\<open>settled.rs\<close>). A promise is a length of time, added to the clock.
\<close>

section \<open>Admission\<close>

definition create_queued_job_if_absent :: "nat \<Rightarrow> lib \<Rightarrow> job \<Rightarrow> bool storage_prog" where
  "create_queued_job_if_absent fuel L j =
     bindE (recover_job_transition fuel L (job_id j)) (\<lambda>_.
     bindE (first_holding L (job_id j) probe_order) (\<lambda>holder.
     bindE (exists_blob (transition_path L (job_id j))) (\<lambda>admitted.
       if admitted then fail (StorageConflict ''durable prior admission exists'')
       else if holder \<noteq> None then ok False
       else
         bindE (write_marker j) (\<lambda>_.
         bindE (create_text_if_absent (job_path ''queue'' (job_id j)) (to_json j)) (\<lambda>created.
           if created
           then bindE (set_metadata (job_path ''queue'' (job_id j)) (job_metadata j)) (\<lambda>_. ok created)
           else
             bindE (exists_blob (job_path ''queue'' (job_id j))) (\<lambda>standing.
             bindE (if standing then ok () else delete_marker_for j) (\<lambda>_. ok created)))))))"

definition ended_state :: "lib \<Rightarrow> string \<Rightarrow> string option storage_prog" where
  "ended_state L id' =
     bindE (download_text (transition_path L id')) (\<lambda>found.
       case found of
         None \<Rightarrow> ok None
       | Some text' \<Rightarrow>
           bindE (Ret (transition_from_body text')) (\<lambda>t.
             ok (if jt_to_prefix t \<in> set terminal_prefixes then Some (jt_to_prefix t) else None)))"

definition ended_by_transition :: "lib \<Rightarrow> job \<Rightarrow> job option storage_prog" where
  "ended_by_transition L planned =
     bindE (ended_state L (job_id planned)) (\<lambda>found.
       ok (map_option (\<lambda>st. planned\<lparr>state := st\<rparr>) found))"

definition repair_queued_admission_metadata :: "lib \<Rightarrow> job \<Rightarrow> unit storage_prog" where
  "repair_queued_admission_metadata L planned =
     (let path = job_path ''queue'' (job_id planned) in
      bindE (read_text_versioned path) (\<lambda>found.
        case found of
          None \<Rightarrow> ok ()
        | Some versioned \<Rightarrow>
            bindE (from_json L (content versioned)) (\<lambda>current.
              if state current \<noteq> ''queued'' then ok ()
              else if \<not> same_identity current planned
              then fail (StorageConflict ''does not match validated durable admission'')
              else
                bindp (set_metadata path (job_metadata current)) (\<lambda>r.
                  case r of
                    Inl (NotFound _) \<Rightarrow> ok ()
                  | Inl error' \<Rightarrow> fail error'
                  | Inr _ \<Rightarrow>
                      bindE (write_marker current) (\<lambda>_.
                      bindE (exists_blob path) (\<lambda>standing.
                        if standing then ok () else delete_marker_for current))))))"

section \<open>Claims and leases\<close>

definition cancellation_path :: "string \<Rightarrow> string" where
  "cancellation_path id' = ''cancellations/'' @ id' @ ''.json''"

text \<open>The cancellation request of one job: \<open>None\<close> when there is none.\<close>

definition cancellation_request :: "lib \<Rightarrow> string \<Rightarrow> string option storage_prog" where
  "cancellation_request L id' =
     bindE (download_text (cancellation_path id')) (\<lambda>found.
       case found of
         None \<Rightarrow> ok None
       | Some (Json request) \<Rightarrow>
           if get_str request ''job_id'' \<noteq> Some id'
           then fail (Other ''does not name its own job id'')
           else (case get_str request ''requested_at'' of
                   None \<Rightarrow> fail (Other ''has no requested_at'')
                 | Some requested_at \<Rightarrow>
                     if parse_rfc3339 L requested_at = None
                     then fail (Other ''has invalid requested_at'')
                     else ok (Some requested_at))
       | Some _ \<Rightarrow> fail JsonError)"

definition settle_queued_cancellation :: "nat \<Rightarrow> lib \<Rightarrow> string \<Rightarrow> bool storage_prog" where
  "settle_queued_cancellation fuel L id' =
     bindE (recover_job_transition fuel L id') (\<lambda>_.
     bindE (read_text_versioned (job_path ''queue'' id')) (\<lambda>found.
       case found of
         None \<Rightarrow> ok False
       | Some versioned \<Rightarrow>
           bindE (from_json L (content versioned)) (\<lambda>j.
             if job_id j \<noteq> id' \<or> state j \<noteq> ''queued'' then ok False
             else
               bindE (cancellation_request L id') (\<lambda>request.
                 case request of
                   None \<Rightarrow> ok False
                 | Some requested_at \<Rightarrow>
                     transition_job_if_version fuel L
                       (j\<lparr>state := ''cancelled'', completed_at := Some requested_at,
                         error := Some ''cancelled''\<rparr>)
                       ''queue'' ''cancelled'' (Some (version versioned))))))"

fun settle_each :: "nat \<Rightarrow> lib \<Rightarrow> nat \<Rightarrow> string list \<Rightarrow> nat storage_prog" where
  "settle_each fuel L settled [] = ok settled"
| "settle_each fuel L settled (id' # ids) =
     bindE (settle_queued_cancellation fuel L id') (\<lambda>moved.
       settle_each fuel L (if moved then Suc settled else settled) ids)"

definition settle_queued_cancellations :: "nat \<Rightarrow> lib \<Rightarrow> nat storage_prog" where
  "settle_queued_cancellations fuel L =
     bindE (list_job_ids ''queue'') (settle_each fuel L 0)"

text \<open>A cancellation asked for or settled: the marker, or the cancelled document.\<close>

definition cancellation_exists :: "string \<Rightarrow> bool storage_prog" where
  "cancellation_exists id' =
     bindE (exists_blob (cancellation_path id')) (\<lambda>asked.
       if asked then ok True else exists_blob (job_path ''cancelled'' id'))"

definition held_back :: "lib \<Rightarrow> job \<Rightarrow> int \<Rightarrow> bool" where
  "held_back L j t =
     (case Option.bind (not_before j) (parse_rfc3339 L) of None \<Rightarrow> False | Some at \<Rightarrow> t < at)"

definition claim_queued_job :: "nat \<Rightarrow> lib \<Rightarrow> job \<Rightarrow> int \<Rightarrow> bool storage_prog" where
  "claim_queued_job fuel L j promise =
     bindE (recover_job_transition fuel L (job_id j)) (\<lambda>_.
     bindE (read_text_versioned (job_path ''queue'' (job_id j))) (\<lambda>found.
       case found of
         None \<Rightarrow> ok False
       | Some versioned \<Rightarrow>
           bindE (from_json L (content versioned)) (\<lambda>current.
             if state current \<noteq> ''queued'' \<or> assigned_to current \<noteq> assigned_to j \<or>
                provider current \<noteq> provider j \<or> pin_to_provider current \<noteq> pin_to_provider j \<or>
                \<not> same_identity current j
             then ok False
             else
               bindp now (\<lambda>t.
               if held_back L current t then ok False
               else
                 bindE (cancellation_exists (job_id j)) (\<lambda>cancelled.
                 if cancelled then ok False
                 else
                   bindp now (\<lambda>t.
                   bindE (transition_job_if_version fuel L
                     (j\<lparr>lease_expires_at := Some (to_rfc3339 L (t + promise))\<rparr>)
                     ''queue'' ''running'' (Some (version versioned))) (\<lambda>moved.
                   if \<not> moved then ok False
                   else
                     bindE (cancellation_exists (job_id j)) (\<lambda>cancelled.
                       ok (\<not> cancelled)))))))))"

fun renew_loop :: "nat \<Rightarrow> lib \<Rightarrow> string \<Rightarrow> int \<Rightarrow> bool storage_prog" where
  "renew_loop 0 L id' promise = fail OutOfFuel"
| "renew_loop (Suc fuel) L id' promise =
     (let path = job_path ''running'' id' in
      bindE (read_text_versioned path) (\<lambda>found.
        case found of
          None \<Rightarrow> ok False
        | Some versioned \<Rightarrow>
            bindE (from_json L (content versioned)) (\<lambda>j.
              if state j \<noteq> ''running'' then ok False
              else
                bindp now (\<lambda>t.
                bindp (compare_and_swap_text path (version versioned)
                  (to_json (j\<lparr>lease_expires_at := Some (to_rfc3339 L (t + promise))\<rparr>))) (\<lambda>r.
                  case r of
                    Inr _ \<Rightarrow> ok True
                  | Inl (StorageConflict _) \<Rightarrow> renew_loop fuel L id' promise
                  | Inl (NotFound _) \<Rightarrow> ok False
                  | Inl error' \<Rightarrow> fail error')))))"

definition renew_running_lease :: "nat \<Rightarrow> lib \<Rightarrow> string \<Rightarrow> int \<Rightarrow> bool storage_prog" where
  "renew_running_lease fuel L id' promise = renew_loop fuel L id' promise"

section \<open>Rewrites of a queued document\<close>

text \<open>After the swap: the document may have left the queue meanwhile, then there is no answer.\<close>

definition rewritten :: "job \<Rightarrow> string \<Rightarrow> job option storage_prog" where
  "rewritten j path =
     bindE (exists_blob path) (\<lambda>standing.
       if \<not> standing then ok None
       else
         bindp (set_metadata path (job_metadata j)) (\<lambda>r.
           case r of
             Inl (NotFound _) \<Rightarrow> ok None
           | Inl error' \<Rightarrow> fail error'
           | Inr _ \<Rightarrow> bindE (exists_blob path) (\<lambda>standing. ok (if standing then Some j else None))))"

fun rewrite_loop :: "nat \<Rightarrow> lib \<Rightarrow> string \<Rightarrow> (job \<Rightarrow> job) \<Rightarrow> job option storage_prog" where
  "rewrite_loop 0 L id' mutate = fail OutOfFuel"
| "rewrite_loop (Suc fuel) L id' mutate =
     (let path = job_path ''queue'' id' in
      bindE (read_text_versioned path) (\<lambda>found.
        case found of
          None \<Rightarrow> ok None
        | Some versioned \<Rightarrow>
            bindE (from_json L (content versioned)) (\<lambda>j.
              if state j \<noteq> ''queued'' then ok None
              else
                bindp (compare_and_swap_text path (version versioned) (to_json (mutate j))) (\<lambda>r.
                  case r of
                    Inr _ \<Rightarrow> rewritten (mutate j) path
                  | Inl (StorageConflict _) \<Rightarrow> rewrite_loop fuel L id' mutate
                  | Inl error' \<Rightarrow> fail error'))))"

definition rewrite_queued_job :: "nat \<Rightarrow> lib \<Rightarrow> string \<Rightarrow> (job \<Rightarrow> job) \<Rightarrow> job option storage_prog" where
  "rewrite_queued_job fuel L id' mutate =
     bindE (recover_job_transition fuel L id') (\<lambda>_. rewrite_loop fuel L id' mutate)"

definition update_queued_priority :: "nat \<Rightarrow> lib \<Rightarrow> string \<Rightarrow> int \<Rightarrow> job option storage_prog" where
  "update_queued_priority fuel L id' new_priority =
     (if \<not> priority_fits new_priority then fail (Other ''job priority must be nonnegative'')
      else
        bindE (rewrite_queued_job fuel L id' (\<lambda>j. j\<lparr>priority := new_priority\<rparr>)) (\<lambda>updated.
          case updated of
            Some j \<Rightarrow>
              bindE (write_marker j) (\<lambda>_.
              bindE (delete_markers_scanning id' (Some (marker_path j))) (\<lambda>_.
              bindE (exists_blob (job_path ''queue'' id')) (\<lambda>standing.
                if \<not> standing then bindE (delete_marker_for j) (\<lambda>_. ok None) else ok updated)))
          | None \<Rightarrow> bindE (delete_markers_scanning id' None) (\<lambda>_. ok updated)))"

definition update_queued_gpu_mem :: "nat \<Rightarrow> lib \<Rightarrow> string \<Rightarrow> int \<Rightarrow> job option storage_prog" where
  "update_queued_gpu_mem fuel L id' mem =
     rewrite_queued_job fuel L id' (\<lambda>j. j\<lparr>gpu_mem_gb := mem\<rparr>)"

definition update_queued_placement ::
  "nat \<Rightarrow> lib \<Rightarrow> string \<Rightarrow> string \<Rightarrow> string option \<Rightarrow> string option \<Rightarrow> job option storage_prog" where
  "update_queued_placement fuel L id' provider' assigned not_before' =
     rewrite_queued_job fuel L id' (\<lambda>j. j\<lparr>provider := provider', pin_to_provider := True,
       assigned_to := (case assigned of Some target \<Rightarrow> target | None \<Rightarrow> []),
       not_before := not_before'\<rparr>)"

definition update_queued_assignment :: "nat \<Rightarrow> lib \<Rightarrow> string \<Rightarrow> string \<Rightarrow> job option storage_prog" where
  "update_queued_assignment fuel L id' assigned =
     rewrite_queued_job fuel L id' (\<lambda>j. j\<lparr>assigned_to := assigned\<rparr>)"

definition delete_job :: "lib \<Rightarrow> string \<Rightarrow> string \<Rightarrow> unit storage_prog" where
  "delete_job L prefix' id' =
     bindE (if prefix' = ''queue'' then read_job L prefix' id' else ok None) (\<lambda>indexed.
     bindE (delete_blob (job_path prefix' id')) (\<lambda>_.
       if prefix' = ''queue'' then
         (case indexed of
            Some j \<Rightarrow> delete_marker_for j
          | None \<Rightarrow> delete_markers_scanning id' None)
       else ok ()))"

section \<open>Moves\<close>

definition move_job :: "nat \<Rightarrow> lib \<Rightarrow> job \<Rightarrow> string \<Rightarrow> string \<Rightarrow> unit storage_prog" where
  "move_job fuel L j from_prefix to_prefix =
     bindE (transition_job_if_version fuel L j from_prefix to_prefix None) (\<lambda>moved.
       if moved then ok () else fail (StorageConflict ''changed before transition''))"

definition move_job_if_version ::
  "nat \<Rightarrow> lib \<Rightarrow> job \<Rightarrow> string \<Rightarrow> string \<Rightarrow> string \<Rightarrow> bool storage_prog" where
  "move_job_if_version fuel L j from_prefix to_prefix expected_version =
     transition_job_if_version fuel L j from_prefix to_prefix (Some expected_version)"

section \<open>The sweep of settled sentinels\<close>

record settled_sentinel_sweep =
  ss_inspected :: nat
  ss_retired :: nat
  ss_kept :: nat
  ss_unreadable :: "string list"

definition job_is_settled_terminal :: "lib \<Rightarrow> string \<Rightarrow> bool storage_prog" where
  "job_is_settled_terminal L id' =
     bindE (download_text (transition_path L id')) (\<lambda>found.
       case found of
         Some text' \<Rightarrow>
           bindE (Ret (transition_from_body text')) (\<lambda>t.
             ok (jt_state t = Retired \<and> jt_to_prefix t \<in> set terminal_prefixes))
       | None \<Rightarrow>
           bindE (first_holding L id' terminal_prefixes) (\<lambda>holder. ok (holder \<noteq> None)))"

fun sweep_each ::
  "lib \<Rightarrow> settled_sentinel_sweep \<Rightarrow> blob_info list \<Rightarrow> settled_sentinel_sweep storage_prog" where
  "sweep_each L sweep [] = ok sweep"
| "sweep_each L sweep (blob # blobs) =
     (let sweep = sweep\<lparr>ss_inspected := Suc (ss_inspected sweep)\<rparr> in
      bindE (download_text (bi_name blob)) (\<lambda>found.
        case found of
          None \<Rightarrow> sweep_each L sweep blobs
        | Some text' \<Rightarrow>
            bindp (from_json L text') (\<lambda>r.
              case r of
                Inl _ \<Rightarrow> sweep_each L (sweep\<lparr>ss_unreadable := ss_unreadable sweep @ [bi_name blob]\<rparr>) blobs
              | Inr j \<Rightarrow>
                  if cleaned_transition_id (state j) = None
                  then sweep_each L (sweep\<lparr>ss_kept := Suc (ss_kept sweep)\<rparr>) blobs
                  else
                    bindE (job_is_settled_terminal L (job_id j)) (\<lambda>settled.
                      if settled
                      then bindE (delete_blob (bi_name blob)) (\<lambda>_.
                        sweep_each L (sweep\<lparr>ss_retired := Suc (ss_retired sweep)\<rparr>) blobs)
                      else sweep_each L (sweep\<lparr>ss_kept := Suc (ss_kept sweep)\<rparr>) blobs))))"

definition retire_settled_sentinels :: "lib \<Rightarrow> string \<Rightarrow> settled_sentinel_sweep storage_prog" where
  "retire_settled_sentinels L prefix' =
     bindE (list_blobs_with_meta (prefix' @ ''/'')) (\<lambda>blobs.
       sweep_each L \<lparr>ss_inspected = 0, ss_retired = 0, ss_kept = 0, ss_unreadable = []\<rparr>
         (sort_key bi_updated (filter (\<lambda>blob.
           starts_with (bi_name blob) (prefix' @ ''/'') \<and> ends_with (bi_name blob) ''.json'') blobs)))"

declare renew_loop.simps [simp del] rewrite_loop.simps [simp del]

lemmas lifecycle_loops = renew_loop.simps rewrite_loop.simps

end
