(* ===== verification/Operations.thy ===== *)
theory Operations
  imports Lifecycle
begin

text \<open>
  The operations of \<open>Lifecycle\<close> against a store that keeps the blob and listing contracts: what each
  one leaves, what it refuses, and what a crash in the middle of it can expose. \<open>lifecycle_store\<close> joins
  the interface of a move (\<open>job_store\<close>) with that of a listing (\<open>listed_store\<close>); the device-local
  backend is an instance.
\<close>

lemma bystander_cancellation [simp]: "bystander L m (cancellation_path id')"
  by (cases "mv_from m"; cases "mv_to m")
     (auto simp: bystander_def Let_def cancellation_path_def job_path_def transition_path_def
       marker_path_def marker_prefix_def tombstone_path_def tombstone_prefix_def prefix_words
       split: option.splits prefix.splits)

lemma queue_words [simp]:
  "job_path ''queue'' = job_path (prefix_as_str Queue)"
  "job_path ''running'' = job_path (prefix_as_str Running)"
  "job_path ''cancelled'' = job_path (prefix_as_str Cancelled)"
  by (simp_all add: prefix_words)

lemma move_words:
  "transition_job_if_version fuel L j ''queue'' ''running'' v =
     transition_job_if_version fuel L j (prefix_as_str Queue) (prefix_as_str Running) v"
  "transition_job_if_version fuel L j ''queue'' ''cancelled'' v =
     transition_job_if_version fuel L j (prefix_as_str Queue) (prefix_as_str Cancelled) v"
  by (simp_all add: prefix_words)

text \<open>A cleaned sentinel is not a job in any lifecycle state.\<close>

lemma cleaned_not_live [simp]:
  "\<not> starts_with ''queued'' transition_cleaned_prefix"
  "\<not> starts_with ''running'' transition_cleaned_prefix"
  by (simp_all add: starts_with_def transition_cleaned_prefix_def)

text \<open>A job document is absent or sound under every prefix.\<close>

definition tidy :: "('s \<Rightarrow> string \<Rightarrow> body option) \<Rightarrow> 's \<Rightarrow> string \<Rightarrow> bool" where
  "tidy view s id' \<longleftrightarrow>
     (\<forall>p. case view s (job_path (prefix_as_str p) id') of
        None \<Rightarrow> True | Some text' \<Rightarrow> \<exists>c. sound_job c \<and> text' = to_json c)"

text \<open>The scan that drops the index entries of one job, except the one to keep.\<close>

definition stale_marker :: "string \<Rightarrow> string option \<Rightarrow> string \<Rightarrow> bool" where
  "stale_marker id' keep x \<longleftrightarrow>
     starts_with x marker_prefix \<and> is_marker x \<and> ends_with x (''-'' @ id' @ ''.json'') \<and> Some x \<noteq> keep"

text \<open>
  A document the sweep may delete: the cleaned sentinel of a job that ended, by its retired record
  or, when it has none, by the live document under a terminal prefix.
\<close>

definition ended :: "('s \<Rightarrow> string \<Rightarrow> body option) \<Rightarrow> lib \<Rightarrow> 's \<Rightarrow> string \<Rightarrow> bool" where
  "ended view L s id' \<longleftrightarrow>
     (case view s (transition_path L id') of
        Some text' \<Rightarrow> (\<exists>t. transition_from_body text' = Inr t \<and> jt_state t = Retired \<and>
          jt_to_prefix t \<in> set terminal_prefixes)
      | None \<Rightarrow> (\<exists>p. prefix_terminal p \<and> live_document (view s (job_path (prefix_as_str p) id'))))"

definition sweepable :: "('s \<Rightarrow> string \<Rightarrow> body option) \<Rightarrow> lib \<Rightarrow> 's \<Rightarrow> string \<Rightarrow> bool" where
  "sweepable view L s x \<longleftrightarrow>
     (\<exists>v j. view s x = Some (Json v) \<and> job_from_value v = Some j \<and>
        cleaned_transition_id (state j) \<noteq> None \<and> ended view L s (job_id j))"

lemma sweepable_not_live: "sweepable view L s x \<Longrightarrow> \<not> live_document (view s x)"
  by (auto simp: sweepable_def live_document_def is_transition_sentinel_state_def cleaned_transition_id_def
      strip_prefix_def split: if_splits)

lemma terminal_words: "terminal_prefixes = map prefix_as_str [Completed, Uploaded, Failed, Cancelled]"
  by (simp add: terminal_prefixes_def prefix_words)

locale lifecycle_store =
  job_store B view put remove annotate token refusal good ready L +
  listed_store B view put remove annotate token refusal good ready boundary
  for B :: "'s backend" and view put remove annotate token refusal good ready boundary L +
  assumes marker_boundary: "boundary marker_prefix"
    and good_cancellation: "no_slash id' \<Longrightarrow> good (cancellation_path id')"
begin

lemma run_cancellation_exists:
  assumes "ready (disk w)" "no_slash id'"
  shows "run L B (cancellation_exists id') w =
    (Inr (view (disk w) (cancellation_path id') \<noteq> None \<or>
       view (disk w) (job_path (prefix_as_str Cancelled) id') \<noteq> None), w)"
  using assms by (simp add: cancellation_exists_def run_simps run_calls good_cancellation good_job)

text \<open>
  A queued job whose document still agrees with what the worker saw is moved to \<open>running/\<close> with a
  lease of the promised length, and nobody else holds it.
\<close>

theorem claim_granted:
  assumes rdy: "ready (disk w)" and mv: "movable view L (disk w) cur j Queue Running"
    and same: "assigned_to cur = assigned_to j" "provider cur = provider j"
      "pin_to_provider cur = pin_to_provider j"
    and due: "\<not> held_back L cur (clock w)"
    and free: "view (disk w) (cancellation_path (job_id cur)) = None"
      "view (disk w) (job_path (prefix_as_str Cancelled) (job_id cur)) = None"
  obtains d w' where "run L B (claim_queued_job (Suc fuel) L j promise) w = (Inr True, w')"
    and "moved (disk w) cur d Queue Running (disk w')"
    and "state d = ''running''" "same_identity cur d"
    and "lease_expires_at d = Some (to_rfc3339 L (clock w + promise))"
    and "homes view (disk w) (job_id cur) = [Queue] \<Longrightarrow> homes view (disk w') (job_id cur) = [Running]"
proof -
  let ?j = "j\<lparr>lease_expires_at := Some (to_rfc3339 L (clock w + promise))\<rparr>"
  note facts = movableD [OF mv]
  have mv': "movable view L (disk w) cur ?j Queue Running"
    using mv by (simp add: movable_def Let_def)
  obtain d w' where d: "merge_transition_destination cur ?j (prefix_as_str Queue) (prefix_as_str Running) = Inr d"
    and run: "run L B (transition_job_if_version (Suc fuel) L ?j (prefix_as_str Queue)
      (prefix_as_str Running) (Some (token (to_json cur)))) w = (Inr True, w')"
    and moved: "moved (disk w) cur d Queue Running (disk w')"
    and home: "homes view (disk w) (job_id cur) = [Queue] \<Longrightarrow> homes view (disk w') (job_id cur) = [Running]"
    using move_home [OF rdy mv', of "Some (token (to_json cur))" fuel] by blast
  have free': "view (disk w') (cancellation_path (job_id cur)) = None"
    "view (disk w') (job_path (prefix_as_str Cancelled) (job_id cur)) = None"
    using movedD(6) [OF moved] free good_cancellation good_job facts(11) by simp_all
  have claim: "run L B (claim_queued_job (Suc fuel) L j promise) w = (Inr True, w')"
    using facts same due free free' run movedD(1) [OF moved] rdy
    by (simp add: claim_queued_job_def run_simps run_calls good_job recover_idle now_def
        run_cancellation_exists move_words)
  show thesis
    by (rule that [OF claim moved _ _ _ home])
       (use merge_fields [OF d] merge_lease [OF d] merge_identity [OF d] sound_jobD(1) [OF facts(2)]
         in \<open>simp_all add: prefix_parse_Some_iff\<close>)
qed

text \<open>A job no longer queued is not claimed, and nothing is written.\<close>

lemma claim_refused:
  assumes "ready (disk w)" "no_slash (job_id j)"
    and "idle_record (job_id j) (view (disk w) (transition_path L (job_id j)))"
    and "view (disk w) (job_path (prefix_as_str Queue) (job_id j)) = None \<or>
      (\<exists>c. sound_job c \<and> view (disk w) (job_path (prefix_as_str Queue) (job_id j)) = Some (to_json c) \<and>
        (state c \<noteq> ''queued'' \<or> assigned_to c \<noteq> assigned_to j \<or> provider c \<noteq> provider j \<or>
         pin_to_provider c \<noteq> pin_to_provider j \<or> \<not> same_identity c j \<or> held_back L c (clock w)))"
  shows "run L B (claim_queued_job fuel L j promise) w = (Inr False, w)"
  using assms by (auto simp: claim_queued_job_def run_simps run_calls good_job recover_idle now_def)

theorem claim_exclusive:
  assumes rdy: "ready (disk w)" and mv: "movable view L (disk w) cur j Queue Running"
    and same: "assigned_to cur = assigned_to j" "provider cur = provider j"
      "pin_to_provider cur = pin_to_provider j"
    and due: "\<not> held_back L cur (clock w)"
    and free: "view (disk w) (cancellation_path (job_id cur)) = None"
      "view (disk w) (job_path (prefix_as_str Cancelled) (job_id cur)) = None"
    and other: "job_id k = job_id cur"
  shows "\<exists>w'. run L B (claim_queued_job (Suc fuel) L j promise) w = (Inr True, w') \<and>
    (\<forall>x. disk x = disk w' \<longrightarrow> run L B (claim_queued_job fuel' L k promise') x = (Inr False, x))"
proof -
  obtain d w' where granted: "run L B (claim_queued_job (Suc fuel) L j promise) w = (Inr True, w')"
    and moved: "moved (disk w) cur d Queue Running (disk w')"
    using claim_granted [OF rdy mv same due free] by blast
  have "run L B (claim_queued_job fuel' L k promise') x = (Inr False, x)" if "disk x = disk w'" for x
    using movedD(1,4,5) [OF moved] movableD(11) [OF mv] that other
    by (intro claim_refused) auto
  then show ?thesis using granted by blast
qed

text \<open>A renewal rewrites the lease of a running job and nothing else of it.\<close>

lemma run_renew:
  assumes "ready (disk w)" "no_slash id'" "sound_job j" "state j = ''running''"
    and "view (disk w) (job_path (prefix_as_str Running) id') = Some (to_json j)"
  shows "run L B (renew_running_lease (Suc fuel) L id' promise) w =
    (Inr True, w\<lparr>disk := put (disk w) (job_path (prefix_as_str Running) id')
       (to_json (j\<lparr>lease_expires_at := Some (to_rfc3339 L (clock w + promise))\<rparr>))\<rparr>)"
  using assms
  by (simp add: renew_running_lease_def lifecycle_loops Let_def run_simps run_calls run_swap good_job now_def)

lemma renew_refused:
  assumes "ready (disk w)" "no_slash id'"
    and "view (disk w) (job_path (prefix_as_str Running) id') = None \<or>
      (\<exists>c. sound_job c \<and> state c \<noteq> ''running'' \<and>
        view (disk w) (job_path (prefix_as_str Running) id') = Some (to_json c))"
  shows "run L B (renew_running_lease (Suc fuel) L id' promise) w = (Inr False, w)"
  using assms
  by (auto simp: renew_running_lease_def lifecycle_loops Let_def run_simps run_calls good_job)

text \<open>
  A reaper that judged a lease expired from the document it read moves the job at that document's
  version. When the worker renewed in between, the move is refused and the renewed lease stands.
\<close>

theorem renewal_outdates:
  assumes rdy: "ready (disk w)" and id': "no_slash (job_id j)" and j: "sound_job j" "state j = ''running''"
    and doc: "view (disk w) (job_path (prefix_as_str Running) (job_id j)) = Some (to_json j)"
    and idle: "idle_record (job_id j) (view (disk w) (transition_path L (job_id j)))"
    and fresh: "token (to_json (j\<lparr>lease_expires_at := Some (to_rfc3339 L (clock w + promise))\<rparr>)) \<noteq>
      token (to_json j)"
    and r: "job_id requested = job_id j"
  shows "\<exists>w'. run L B (renew_running_lease (Suc fuel) L (job_id j) promise) w = (Inr True, w') \<and>
    (\<forall>x. disk x = disk w' \<longrightarrow>
      run L B (move_job_if_version (Suc fuel') L requested (prefix_as_str Running) to
        (token (to_json j))) x = (Inr False, x))"
proof -
  note renewed = run_renew [OF rdy id' j doc, of fuel promise]
  have "run L B (move_job_if_version (Suc fuel') L requested (prefix_as_str Running) to
      (token (to_json j))) x = (Inr False, x)"
    if "disk x = put (disk w) (job_path (prefix_as_str Running) (job_id j))
       (to_json (j\<lparr>lease_expires_at := Some (to_rfc3339 L (clock w + promise))\<rparr>))" for x
    unfolding move_job_if_version_def
    using rdy id' idle fresh r that by (intro move_stale) (auto simp: store_simps good_job)
  then show ?thesis using renewed by simp
qed

lemma run_read_job_tidy:
  assumes "ready (disk w)" "no_slash id'" "tidy view (disk w) id'"
  shows "\<exists>found. run L B (read_job L (prefix_as_str p) id') w = (Inr found, w) \<and>
    (found \<noteq> None \<longleftrightarrow> live_document (view (disk w) (job_path (prefix_as_str p) id')))"
  using assms spec [OF assms(3) [unfolded tidy_def], of p]
  by (cases "view (disk w) (job_path (prefix_as_str p) id')")
     (auto simp: run_read_job run_read_job_absent)

lemma run_first_holding:
  assumes "ready (disk w)" "no_slash id'" "tidy view (disk w) id'"
  shows "\<exists>found. run L B (first_holding L id' (map prefix_as_str ps)) w = (Inr found, w) \<and>
    (found \<noteq> None \<longleftrightarrow>
      (\<exists>p \<in> set ps. live_document (view (disk w) (job_path (prefix_as_str p) id'))))"
proof (induction ps)
  case (Cons p ps)
  obtain found where "run L B (read_job L (prefix_as_str p) id') w = (Inr found, w)"
    "found \<noteq> None \<longleftrightarrow> live_document (view (disk w) (job_path (prefix_as_str p) id'))"
    using run_read_job_tidy [OF assms] by blast
  then show ?case
    using Cons.IH by (cases found) (auto simp: run_simps)
qed simp

lemma probe_order_words: "probe_order = map prefix_as_str (rev prefix_values)"
  by (simp add: probe_order_def prefix_values_def prefix_words)

text \<open>
  First admission: the marker is written before the document, so that no crash leaves a queued job
  the index does not name; a second admission finds the job; one whose transition record stands was
  admitted before and is refused.
\<close>

lemma read_job_reads: "\<exists>r. run L B (read_job L p id') w = (r, w)"
proof -
  have "snd (run L B (read_job L p id') w) = w"
    by (auto simp: read_job_def run_simps download_text_def from_json_def finalize_new_def now_def
        split: sum.splits option.splits prod.splits body.splits)
  then show ?thesis by (metis prod.collapse)
qed

lemma first_holding_reads:
  shows "\<exists>r. run L B (first_holding L id' ps) w = (r, w)"
    and "set (trace L B (first_holding L id' ps) w) \<subseteq> {w}"
proof (induction ps)
  case (Cons p ps)
  obtain r where r: "run L B (read_job L p id') w = (r, w)"
    using read_job_reads by blast
  show "\<exists>r. run L B (first_holding L id' (p # ps)) w = (r, w)"
    using Cons(1) r by (auto simp: run_simps split: sum.splits option.splits)
  show "set (trace L B (first_holding L id' (p # ps)) w) \<subseteq> {w}"
    using Cons(2) r trace_read_job [of p id' w] by (auto simp: run_simps split: sum.splits option.splits)
qed simp_all

theorem admission_admits:
  assumes rdy: "ready (disk w)" and j: "sound_job j"
    and fresh: "view (disk w) (transition_path L (job_id j)) = None"
      "\<And>p. view (disk w) (job_path (prefix_as_str p) (job_id j)) = None"
  obtains w' where "run L B (create_queued_job_if_absent fuel L j) w = (Inr True, w')"
    and "ready (disk w')" "view (disk w') (job_path (prefix_as_str Queue) (job_id j)) = Some (to_json j)"
    and "view (disk w') (transition_path L (job_id j)) = None"
    and "\<forall>p. p \<noteq> Queue \<longrightarrow> view (disk w') (job_path (prefix_as_str p) (job_id j)) = None"
    and "\<forall>u \<in> set (crash_worlds L B (create_queued_job_if_absent fuel L j) w).
      view (disk u) (job_path (prefix_as_str Queue) (job_id j)) = None \<or>
      view (disk u) (marker_path j) \<noteq> None"
    and "view (disk w') (marker_path j) = Some (Json (JObj [(''job_id'', JStr (job_id j)), (''priority'', JInt (priority j))]))"
    and "\<forall>p. good p \<longrightarrow> p \<noteq> marker_path j \<longrightarrow> p \<noteq> job_path (prefix_as_str Queue) (job_id j) \<longrightarrow>
      view (disk w') p = view (disk w) p"
proof -
  have plain: "no_slash (job_id j)" "good (marker_path j)"
    using j good_marker by (auto simp: sound_job_def)
  have hold: "run L B (first_holding L (job_id j) probe_order) w = (Inr None, w)"
    using run_first_holding [of w "job_id j" "rev prefix_values"] rdy plain fresh
    by (auto simp: probe_order_words tidy_def simp del: not_None_eq)
  have idle: "idle_record (job_id j) (view (disk w) (transition_path L (job_id j)))"
    using fresh by (simp add: idle_record_def)
  note steps = create_queued_job_if_absent_def run_simps run_calls trace_calls store_simps
    recover_idle [OF rdy idle] hold write_marker_def good_job plain crash_worlds_def
  let ?q = "job_path (prefix_as_str Queue) (job_id j)"
  let ?m = "Json (JObj [(''job_id'', JStr (job_id j)), (''priority'', JInt (priority j))])"
  let ?w = "w\<lparr>disk := annotate (put (put (disk w) (marker_path j) ?m) ?q (to_json j)) ?q (job_metadata j)\<rparr>"
  show thesis
  proof (rule that [of ?w])
    show "run L B (create_queued_job_if_absent fuel L j) w = (Inr True, ?w)"
      using rdy fresh by (simp add: steps)
    show "\<forall>u \<in> set (crash_worlds L B (create_queued_job_if_absent fuel L j) w).
      view (disk u) ?q = None \<or> view (disk u) (marker_path j) \<noteq> None"
      using rdy fresh first_holding_reads(2) [of "job_id j" probe_order w] by (auto simp: steps)
  qed (use rdy fresh plain in \<open>simp_all add: store_simps good_job\<close>)
qed

lemma admission_found:
  assumes rdy: "ready (disk w)" and id': "no_slash (job_id j)" and tidy: "tidy view (disk w) (job_id j)"
    and fresh: "view (disk w) (transition_path L (job_id j)) = None"
    and held: "live_document (view (disk w) (job_path (prefix_as_str p) (job_id j)))"
  shows "run L B (create_queued_job_if_absent fuel L j) w = (Inr False, w)"
proof -
  obtain h where "run L B (first_holding L (job_id j) probe_order) w = (Inr (Some h), w)"
    using run_first_holding [OF rdy id' tidy, of "rev prefix_values"] held
    by (auto simp: probe_order_words)
  then show ?thesis
    using rdy fresh by (simp add: create_queued_job_if_absent_def run_simps run_calls recover_idle idle_record_def)
qed

lemma admission_refused:
  assumes rdy: "ready (disk w)" and id': "no_slash (job_id j)" and tidy: "tidy view (disk w) (job_id j)"
    and prior: "view (disk w) (transition_path L (job_id j)) \<noteq> None"
    and idle: "idle_record (job_id j) (view (disk w) (transition_path L (job_id j)))"
  shows "run L B (create_queued_job_if_absent fuel L j) w =
    (Inl (StorageConflict ''durable prior admission exists''), w)"
proof -
  obtain h where "run L B (first_holding L (job_id j) probe_order) w = (Inr h, w)"
    using run_first_holding [OF rdy id' tidy, of "rev prefix_values"] by (auto simp: probe_order_words)
  then show ?thesis
    using rdy prior by (simp add: create_queued_job_if_absent_def run_simps run_calls recover_idle [OF rdy idle])
qed

section \<open>Cancellation\<close>

text \<open>A job whose cancellation was asked for is not claimed, and nothing is written.\<close>

lemma claim_cancelled:
  assumes "ready (disk w)" "no_slash (job_id j)" "sound_job c"
    and "idle_record (job_id j) (view (disk w) (transition_path L (job_id j)))"
    and "view (disk w) (job_path (prefix_as_str Queue) (job_id j)) = Some (to_json c)"
    and "view (disk w) (cancellation_path (job_id j)) \<noteq> None \<or>
      view (disk w) (job_path (prefix_as_str Cancelled) (job_id j)) \<noteq> None"
  shows "run L B (claim_queued_job fuel L j promise) w = (Inr False, w)"
  using assms
  by (auto simp: claim_queued_job_def run_simps run_calls good_job recover_idle now_def
      run_cancellation_exists)

lemma run_cancellation_request:
  assumes "ready (disk w)" "no_slash id'"
    and "view (disk w) (cancellation_path id') = Some (Json request)"
    and "get_str request ''job_id'' = Some id'" "get_str request ''requested_at'' = Some at"
    and "parse_rfc3339 L at \<noteq> None"
  shows "run L B (cancellation_request L id') w = (Inr (Some at), w)"
  using assms by (simp add: cancellation_request_def run_simps run_calls good_cancellation)

theorem cancellation_settles:
  assumes rdy: "ready (disk w)" and mv: "movable view L (disk w) cur cur Queue Cancelled"
    and asked: "view (disk w) (cancellation_path (job_id cur)) = Some (Json request)"
      "get_str request ''job_id'' = Some (job_id cur)" "get_str request ''requested_at'' = Some at"
      "parse_rfc3339 L at \<noteq> None"
  obtains d w' where "run L B (settle_queued_cancellation (Suc fuel) L (job_id cur)) w = (Inr True, w')"
    and "moved (disk w) cur d Queue Cancelled (disk w')"
    and "state d = ''cancelled''" "completed_at d = Some at" "error d = Some ''cancelled''"
    and "homes view (disk w) (job_id cur) = [Queue] \<Longrightarrow> homes view (disk w') (job_id cur) = [Cancelled]"
proof -
  let ?j = "cur\<lparr>state := ''cancelled'', completed_at := Some at, error := Some ''cancelled''\<rparr>"
  note facts = movableD [OF mv]
  have mv': "movable view L (disk w) cur ?j Queue Cancelled"
    using mv by (simp add: movable_def Let_def)
  obtain d w' where d: "merge_transition_destination cur ?j (prefix_as_str Queue) (prefix_as_str Cancelled) = Inr d"
    and run: "run L B (transition_job_if_version (Suc fuel) L ?j (prefix_as_str Queue)
      (prefix_as_str Cancelled) (Some (token (to_json cur)))) w = (Inr True, w')"
    and moved: "moved (disk w) cur d Queue Cancelled (disk w')"
    and home: "homes view (disk w) (job_id cur) = [Queue] \<Longrightarrow> homes view (disk w') (job_id cur) = [Cancelled]"
    using move_home [OF rdy mv', of "Some (token (to_json cur))" fuel] by blast
  have settle: "run L B (settle_queued_cancellation (Suc fuel) L (job_id cur)) w = (Inr True, w')"
    using facts run rdy run_cancellation_request [OF rdy facts(11) asked]
    by (simp add: settle_queued_cancellation_def run_simps run_calls good_job recover_idle move_words)
  have "completed_at d = Some at" "error d = Some ''cancelled''" "state d = ''cancelled''"
    using d merge_fields [OF d]
    by (auto simp: merge_transition_destination_def Let_def split: if_splits)
  then show thesis using that [OF settle moved _ _ _ home] by blast
qed

section \<open>Rewrites of a queued document\<close>

lemma run_rewrite:
  assumes "ready (disk w)" "sound_job j" "state j = ''queued''" "job_id (f j) = job_id j"
    and "idle_record (job_id j) (view (disk w) (transition_path L (job_id j)))"
    and "view (disk w) (job_path (prefix_as_str Queue) (job_id j)) = Some (to_json j)"
  shows "run L B (rewrite_queued_job (Suc fuel) L (job_id j) f) w =
    (Inr (Some (f j)), w\<lparr>disk := annotate (put (disk w) (job_path (prefix_as_str Queue) (job_id j)) (to_json (f j)))
       (job_path (prefix_as_str Queue) (job_id j)) (job_metadata (f j))\<rparr>)"
    and "\<And>u. u \<in> set (trace L B (rewrite_queued_job (Suc fuel) L (job_id j) f) w) \<Longrightarrow>
      disk u = disk w \<or> disk u = put (disk w) (job_path (prefix_as_str Queue) (job_id j)) (to_json (f j)) \<or>
      disk u = annotate (put (disk w) (job_path (prefix_as_str Queue) (job_id j)) (to_json (f j)))
        (job_path (prefix_as_str Queue) (job_id j)) (job_metadata (f j))"
proof -
  have id': "good (job_path (prefix_as_str Queue) (job_id j))"
    using assms(2) good_job by (simp add: sound_job_def)
  note sims = rewrite_queued_job_def rewritten_def lifecycle_loops Let_def run_simps run_calls run_swap
    trace_calls store_simps id' recover_idle
  show "run L B (rewrite_queued_job (Suc fuel) L (job_id j) f) w =
    (Inr (Some (f j)), w\<lparr>disk := annotate (put (disk w) (job_path (prefix_as_str Queue) (job_id j)) (to_json (f j)))
       (job_path (prefix_as_str Queue) (job_id j)) (job_metadata (f j))\<rparr>)"
    using assms by (simp add: sims)
  show "disk u = disk w \<or> disk u = put (disk w) (job_path (prefix_as_str Queue) (job_id j)) (to_json (f j)) \<or>
      disk u = annotate (put (disk w) (job_path (prefix_as_str Queue) (job_id j)) (to_json (f j)))
        (job_path (prefix_as_str Queue) (job_id j)) (job_metadata (f j))"
    if "u \<in> set (trace L B (rewrite_queued_job (Suc fuel) L (job_id j) f) w)" for u
    using assms that by (auto simp: sims)
qed

lemma run_delete_each:
  assumes "ready (disk w)" "\<And>p. p \<in> set ps \<Longrightarrow> good p"
  shows "\<exists>w'. run L B (delete_each P ps) w = (Inr (), w') \<and> ready (disk w') \<and>
    (\<forall>x. good x \<longrightarrow> view (disk w') x = (if x \<in> set ps \<and> P x then None else view (disk w) x)) \<and>
    (\<forall>u \<in> set (trace L B (delete_each P ps) w). \<forall>x. good x \<longrightarrow> \<not> P x \<longrightarrow>
      view (disk u) x = view (disk w) x)"
  using assms
proof (induction ps arbitrary: w)
  case (Cons p ps)
  let ?w = "if P p then w\<lparr>disk := remove (disk w) p\<rparr> else w"
  have p: "good p" and rdy: "ready (disk ?w)"
    using Cons.prems by (auto simp: store_simps)
  obtain w' where "run L B (delete_each P ps) ?w = (Inr (), w')" "ready (disk w')"
    and v: "\<forall>x. good x \<longrightarrow> view (disk w') x = (if x \<in> set ps \<and> P x then None else view (disk ?w) x)"
    and t: "\<forall>u \<in> set (trace L B (delete_each P ps) ?w). \<forall>x. good x \<longrightarrow> \<not> P x \<longrightarrow>
      view (disk u) x = view (disk ?w) x"
    using Cons.IH [OF rdy] Cons.prems by (metis list.set_intros(2))
  moreover have "view (disk ?w) x = (if x = p \<and> P p then None else view (disk w) x)" if "good x" for x
    using p that by (simp add: store_simps)
  ultimately show ?case
    using Cons.prems(1) p by (auto simp: run_simps run_calls trace_calls split: if_splits)
qed simp

lemma run_clean_markers:
  assumes "ready (disk w)"
  obtains w' where "run L B (delete_markers_scanning id' keep) w = (Inr (), w')" "ready (disk w')"
    and "\<And>x. good x \<Longrightarrow> view (disk w') x = (if stale_marker id' keep x then None else view (disk w) x)"
    and "\<And>u x. u \<in> set (trace L B (delete_markers_scanning id' keep) w) \<Longrightarrow> good x \<Longrightarrow>
      \<not> stale_marker id' keep x \<Longrightarrow> view (disk u) x = view (disk w) x"
proof -
  let ?P = "\<lambda>path. is_marker path \<and> ends_with path (''-'' @ id' @ ''.json'') \<and> Some path \<noteq> keep"
  from list_law [OF assms, of marker_prefix] marker_boundary
  obtain ps where be: "be_list_paths B (disk w) marker_prefix Every = Inr ps"
    and pg: "\<forall>p \<in> set ps. good p \<and> starts_with p marker_prefix \<and> view (disk w) p \<noteq> None"
    and all: "\<forall>p. good p \<longrightarrow> starts_with p marker_prefix \<longrightarrow> view (disk w) p \<noteq> None \<longrightarrow> p \<in> set ps"
    by blast
  have ps: "run L B (list_paths marker_prefix Every) w = (Inr ps, w)"
    by (simp add: facade_defs be)
  obtain w' where del: "run L B (delete_each (\<lambda>x. starts_with x marker_prefix \<and> ?P x) ps) w = (Inr (), w')"
      "ready (disk w')"
    and v: "\<And>x. good x \<Longrightarrow> view (disk w') x =
      (if x \<in> set ps \<and> starts_with x marker_prefix \<and> ?P x then None else view (disk w) x)"
    and t: "\<And>u x. u \<in> set (trace L B (delete_each (\<lambda>x. starts_with x marker_prefix \<and> ?P x) ps) w) \<Longrightarrow>
      good x \<Longrightarrow> \<not> (starts_with x marker_prefix \<and> ?P x) \<Longrightarrow> view (disk u) x = view (disk w) x"
    using run_delete_each [OF assms, of ps "\<lambda>x. starts_with x marker_prefix \<and> ?P x"] pg by blast
  have same: "delete_each (\<lambda>x. starts_with x marker_prefix \<and> ?P x) ps = delete_each ?P ps"
    if "\<forall>p \<in> set ps. starts_with p marker_prefix" for ps
    using that by (induction ps) auto
  have each: "delete_each (\<lambda>x. starts_with x marker_prefix \<and> ?P x) ps = delete_each ?P ps"
    using same pg by blast
  have scan: "trace L B (list_paths marker_prefix Every) w = [w]"
    by (simp add: facade_defs)
  show thesis
  proof (rule that)
    show "run L B (delete_markers_scanning id' keep) w = (Inr (), w')"
      using del(1) [unfolded each] by (simp add: delete_markers_scanning_def run_simps ps)
    show "ready (disk w')" by (rule del(2))
    show "view (disk w') x = (if stale_marker id' keep x then None else view (disk w) x)" if "good x" for x
      using v [OF that] all that by (auto simp: stale_marker_def)
    show "view (disk u) x = view (disk w) x"
      if "u \<in> set (trace L B (delete_markers_scanning id' keep) w)" "good x" "\<not> stale_marker id' keep x" for u x
      using that t [unfolded each] by (auto simp: delete_markers_scanning_def run_simps ps scan stale_marker_def)
  qed
qed

text \<open>
  A priority change re-keys the index: the new entry is written before the superseded ones are
  cleaned, so that the job has an entry at every point, and only the new one at the end.
\<close>

theorem rekey_indexed:
  assumes rdy: "ready (disk w)" and j: "sound_job j" "state j = ''queued''"
    and idle: "idle_record (job_id j) (view (disk w) (transition_path L (job_id j)))"
    and doc: "view (disk w) (job_path (prefix_as_str Queue) (job_id j)) = Some (to_json j)"
    and entry: "view (disk w) (marker_path j) \<noteq> None" and n: "priority_fits n"
  obtains w' where "run L B (update_queued_priority (Suc fuel) L (job_id j) n) w =
      (Inr (Some (j\<lparr>priority := n\<rparr>)), w')"
    and "view (disk w') (job_path (prefix_as_str Queue) (job_id j)) = Some (to_json (j\<lparr>priority := n\<rparr>))"
    and "view (disk w') (marker_path (j\<lparr>priority := n\<rparr>)) \<noteq> None"
    and "\<And>x. good x \<Longrightarrow> stale_marker (job_id j) (Some (marker_path (j\<lparr>priority := n\<rparr>))) x \<Longrightarrow>
      view (disk w') x = None"
    and "\<And>u. u \<in> set (crash_worlds L B (update_queued_priority (Suc fuel) L (job_id j) n) w) \<Longrightarrow>
      view (disk u) (marker_path j) \<noteq> None \<or> view (disk u) (marker_path (j\<lparr>priority := n\<rparr>)) \<noteq> None"
proof -
  let ?k = "j\<lparr>priority := n\<rparr>" and ?q = "job_path (prefix_as_str Queue) (job_id j)"
  have good: "good ?q" "good (marker_path j)" "good (marker_path ?k)"
    using j(1) good_job good_marker by (auto simp: sound_job_def)
  define w1 where "w1 = w\<lparr>disk := annotate (put (disk w) ?q (to_json ?k)) ?q (job_metadata ?k)\<rparr>"
  define w2 where "w2 = w1\<lparr>disk := put (disk w1) (marker_path ?k)
    (Json (JObj [(''job_id'', JStr (job_id j)), (''priority'', JInt n)]))\<rparr>"
  have rdy1: "ready (disk w1)" "ready (disk w2)"
    using rdy good by (simp_all add: w1_def w2_def store_simps)
  obtain w3 where clean: "run L B (delete_markers_scanning (job_id j) (Some (marker_path ?k))) w2 = (Inr (), w3)"
    and rdy3: "ready (disk w3)"
    and v3: "\<And>x. good x \<Longrightarrow> view (disk w3) x =
      (if stale_marker (job_id j) (Some (marker_path ?k)) x then None else view (disk w2) x)"
    and t3: "\<And>u x. u \<in> set (trace L B (delete_markers_scanning (job_id j) (Some (marker_path ?k))) w2) \<Longrightarrow>
      good x \<Longrightarrow> \<not> stale_marker (job_id j) (Some (marker_path ?k)) x \<Longrightarrow> view (disk u) x = view (disk w2) x"
    using run_clean_markers [OF rdy1(2), of "job_id j" "Some (marker_path ?k)"] by metis
  have "\<not> stale_marker (job_id j) keep ?q" for keep
    by (simp add: stale_marker_def job_path_def prefix_words starts_with_def marker_prefix_def del: queue_words)
  then have q3: "view (disk w3) ?q = Some (to_json ?k)"
    using v3 [OF good(1)] good by (simp add: w1_def w2_def store_simps)
  have kept: "\<not> stale_marker (job_id j) (Some (marker_path ?k)) (marker_path ?k)"
    by (simp add: stale_marker_def)
  have m2: "view (disk w2) (marker_path ?k) \<noteq> None" using good by (simp add: w2_def store_simps)
  have m1: "view (disk w1) (marker_path j) \<noteq> None" using entry good by (simp add: w1_def store_simps)
  note rewrite = run_rewrite [where f = "\<lambda>j. j\<lparr>priority := n\<rparr>" and fuel = fuel, OF rdy j _ idle doc, simplified]
  have marker: "run L B (write_marker ?k) w1 = (Inr (), w2)" "trace L B (write_marker ?k) w1 = [w1]"
    using rdy1(1) good by (simp_all add: write_marker_def run_calls trace_calls w2_def)
  note sims = update_queued_priority_def run_simps rewrite(1) [folded w1_def] marker clean n run_calls
    trace_calls rdy3 good q3
  have run: "run L B (update_queued_priority (Suc fuel) L (job_id j) n) w = (Inr (Some ?k), w3)"
    by (simp add: sims)
  have crash: "view (disk u) (marker_path j) \<noteq> None \<or> view (disk u) (marker_path ?k) \<noteq> None"
    if "u \<in> set (crash_worlds L B (update_queued_priority (Suc fuel) L (job_id j) n) w)" for u
  proof -
    from that consider
      "u \<in> set (trace L B (rewrite_queued_job (Suc fuel) L (job_id j) (\<lambda>j. j\<lparr>priority := n\<rparr>)) w)"
      | "u = w1" | "u \<in> set (trace L B (delete_markers_scanning (job_id j) (Some (marker_path ?k))) w2)"
      | "u = w3"
      by (auto simp: crash_worlds_def run) (auto simp: sims)
    then show ?thesis
    proof cases
      case 1
      then show ?thesis using rewrite(2) [OF 1] entry good by (auto simp: store_simps)
    qed (use m1 m2 t3 v3 kept good in auto)
  qed
  show thesis
    by (rule that [OF run q3 _ _ crash]) (use v3 [OF good(3)] m2 kept v3 in auto)
qed

section \<open>The sentinel sweep\<close>

lemma run_from_json:
  "run L B (from_json L text') w =
    ((case text' of
        Json v \<Rightarrow> (case job_from_value v of
            None \<Rightarrow> Inl JsonError
          | Some j \<Rightarrow> Inr (if created_at j = [] then j\<lparr>created_at := to_rfc3339 L (clock w)\<rparr> else j))
      | _ \<Rightarrow> Inl JsonError), w)"
  by (auto simp: from_json_def finalize_new_def now_def run_simps split: body.splits option.splits)

lemma read_job_live:
  assumes "ready (disk w)" "no_slash id'"
    and "run L B (read_job L (prefix_as_str p) id') w = (Inr (Some j), w')"
  shows "live_document (view (disk w) (job_path (prefix_as_str p) id'))"
  using assms
  by (auto simp: read_job_def run_simps run_calls run_from_json good_job live_document_def
      split: option.splits body.splits if_splits)

lemma first_holding_live:
  assumes "ready (disk w)" "no_slash id'"
    and "run L B (first_holding L id' (map prefix_as_str ps)) w = (Inr (Some h), w')"
  shows "\<exists>p \<in> set ps. live_document (view (disk w) (job_path (prefix_as_str p) id'))"
  using assms(3)
proof (induction ps)
  case (Cons p ps)
  obtain r where "run L B (read_job L (prefix_as_str p) id') w = (r, w)"
    using read_job_reads by blast
  then show ?case
    using Cons read_job_live [OF assms(1,2)]
    by (auto simp: run_simps split: sum.splits option.splits)
qed simp

lemma run_settled:
  assumes "ready (disk w)" "no_slash id'"
  shows "\<exists>r. run L B (job_is_settled_terminal L id') w = (r, w) \<and> (r = Inr True \<longrightarrow> ended view L (disk w) id')"
proof (cases "view (disk w) (transition_path L id')")
  case None
  obtain r where r: "run L B (first_holding L id' terminal_prefixes) w = (r, w)"
    using first_holding_reads(1) by blast
  have "\<exists>p. prefix_terminal p \<and> live_document (view (disk w) (job_path (prefix_as_str p) id'))"
    if h: "r = Inr (Some h)" for h
  proof -
    obtain p where "p \<in> set [Completed, Uploaded, Failed, Cancelled]"
      "live_document (view (disk w) (job_path (prefix_as_str p) id'))"
      using first_holding_live [OF assms, of "[Completed, Uploaded, Failed, Cancelled]" h w]
        r [unfolded terminal_words] h by blast
    then show ?thesis by (intro exI [of _ p]) auto
  qed
  then show ?thesis
    using None assms r
    by (cases r) (auto simp: job_is_settled_terminal_def run_simps run_calls ended_def)
next
  case (Some text')
  then show ?thesis
    using assms
    by (cases "transition_from_body text'")
       (auto simp: job_is_settled_terminal_def run_simps run_calls ended_def)
qed

lemma sweepable_mono:
  assumes "sweepable view L s' x" and "good x"
    and "\<And>y. good y \<Longrightarrow> view s' y = view s y \<or> view s' y = None"
    and "\<And>i. view s' (transition_path L i) = view s (transition_path L i)"
    and "\<And>v j. view s x = Some (Json v) \<Longrightarrow> job_from_value v = Some j \<Longrightarrow> no_slash (job_id j)"
  shows "sweepable view L s x"
proof -
  from assms(1) obtain v j where v: "view s' x = Some (Json v)" "job_from_value v = Some j"
      "cleaned_transition_id (state j) \<noteq> None" and "ended view L s' (job_id j)"
    by (auto simp: sweepable_def)
  moreover have "view s x = Some (Json v)" using v(1) assms(2,3) by fastforce
  moreover have "ended view L s (job_id j)"
    using \<open>ended view L s' (job_id j)\<close> assms(4) assms(3) [OF good_job [OF assms(5)]]
      \<open>view s x = Some (Json v)\<close> v(2)
    by (auto simp: ended_def split: option.splits) (metis live_document_None)
  ultimately show ?thesis by (auto simp: sweepable_def)
qed

text \<open>One blob of the sweep: it goes on, stops with an error, or deletes a sweepable sentinel.\<close>

lemma sweep_step:
  assumes rdy: "ready (disk w)" and b: "good (bi_name b)"
    and plain: "\<forall>v j. view (disk w) (bi_name b) = Some (Json v) \<longrightarrow> job_from_value v = Some j \<longrightarrow>
      no_slash (job_id j)"
    and run: "run L B (sweep_each L sweep (b # blobs)) w = (r, w')"
  obtains (on) sweep' where "run L B (sweep_each L sweep' blobs) w = (r, w')"
    | (stopped) "w' = w"
    | (deleted) sweep' where "sweepable view L (disk w) (bi_name b)"
        "run L B (sweep_each L sweep' blobs) (w\<lparr>disk := remove (disk w) (bi_name b)\<rparr>) = (r, w')"
proof -
  let ?s = "sweep\<lparr>ss_inspected := Suc (ss_inspected sweep)\<rparr>"
  note sims = Let_def run_simps run_calls [OF rdy b] run_from_json
  show thesis
  proof (cases "\<exists>v j. view (disk w) (bi_name b) = Some (Json v) \<and> job_from_value v = Some j \<and>
      cleaned_transition_id (state j) \<noteq> None")
    case False
    then show thesis
      using run on by (auto simp: sims split: option.splits body.splits if_splits)
  next
    case True
    then obtain v j where v: "view (disk w) (bi_name b) = Some (Json v)" "job_from_value v = Some j"
      "cleaned_transition_id (state j) \<noteq> None" by blast
    obtain a where a: "run L B (job_is_settled_terminal L (job_id j)) w = (a, w)"
      "a = Inr True \<longrightarrow> ended view L (disk w) (job_id j)"
      using run_settled [OF rdy, of "job_id j"] plain v(1,2) by blast
    show thesis
    proof (cases a)
      case (Inl e)
      then show thesis using run v a stopped by (auto simp: sims split: if_splits)
    next
      case (Inr settled)
      then show thesis
        using run v a on deleted by (cases settled) (auto simp: sims sweepable_def split: if_splits)
    qed
  qed
qed

text \<open>
  On every outcome, a finished sweep or an error in the middle of it, a blob is as it was or it was
  a sweepable sentinel.
\<close>

theorem sweep_effect:
  assumes "ready (disk w)"
    and "\<forall>b \<in> set blobs. good (bi_name b) \<and> (\<forall>i. bi_name b \<noteq> transition_path L i)"
    and "\<forall>b \<in> set blobs. \<forall>v j. view (disk w) (bi_name b) = Some (Json v) \<longrightarrow>
      job_from_value v = Some j \<longrightarrow> no_slash (job_id j)"
    and "run L B (sweep_each L sweep blobs) w = (r, w')" and "good x"
  shows "view (disk w') x = view (disk w) x \<or>
    view (disk w') x = None \<and> x \<in> bi_name ` set blobs \<and> sweepable view L (disk w) x"
  using assms(1-4)
proof (induction blobs arbitrary: w sweep)
  case (Cons b blobs)
  have b: "good (bi_name b)" "\<forall>i. bi_name b \<noteq> transition_path L i"
    "\<forall>v j. view (disk w) (bi_name b) = Some (Json v) \<longrightarrow> job_from_value v = Some j \<longrightarrow> no_slash (job_id j)"
    and tail: "\<forall>b \<in> set blobs. good (bi_name b) \<and> (\<forall>i. bi_name b \<noteq> transition_path L i)"
    "\<forall>b \<in> set blobs. \<forall>v j. view (disk w) (bi_name b) = Some (Json v) \<longrightarrow>
      job_from_value v = Some j \<longrightarrow> no_slash (job_id j)"
    using Cons.prems(2,3) by auto
  from Cons.prems(1) b(1,3) Cons.prems(4) show ?case
  proof (cases rule: sweep_step)
    case (on sweep')
    then show ?thesis using Cons.IH [OF Cons.prems(1) tail on] by auto
  next
    case (deleted sweep')
    let ?w = "w\<lparr>disk := remove (disk w) (bi_name b)\<rparr>"
    have v: "view (disk ?w) y = (if y = bi_name b then None else view (disk w) y)" if "good y" for y
      using that b(1) by (simp add: store_simps)
    have tail': "\<forall>b \<in> set blobs. \<forall>v j. view (disk ?w) (bi_name b) = Some (Json v) \<longrightarrow>
      job_from_value v = Some j \<longrightarrow> no_slash (job_id j)"
      using tail v by auto
    have "ready (disk ?w)" using Cons.prems(1) b(1) by (simp add: store_simps)
    then have ih: "view (disk w') x = view (disk ?w) x \<or>
      view (disk w') x = None \<and> x \<in> bi_name ` set blobs \<and> sweepable view L (disk ?w) x"
      by (rule Cons.IH [OF _ tail(1) tail' deleted(2)])
    moreover have "sweepable view L (disk w) x" if "sweepable view L (disk ?w) x" "x \<in> bi_name ` set blobs"
    proof (rule sweepable_mono [OF that(1) assms(5)])
      show "no_slash (job_id j)" if "view (disk w) x = Some (Json v)" "job_from_value v = Some j" for v j
        using that \<open>x \<in> bi_name ` set blobs\<close> tail(2) by auto
    qed (use v b(2) [THEN spec, THEN not_sym] in auto)
    ultimately show ?thesis using v [OF assms(5)] deleted(1) by (auto split: if_splits)
  qed simp
qed simp

theorem sweep_spares:
  assumes rdy: "ready (disk w)" and d: "no_slash d" "d \<noteq> ''job-transitions''"
    and ids: "\<forall>y v j. starts_with y (d @ ''/'') \<longrightarrow> view (disk w) y = Some (Json v) \<longrightarrow>
      job_from_value v = Some j \<longrightarrow> no_slash (job_id j)"
    and run: "run L B (retire_settled_sentinels L d) w = (r, w')" and x: "good x"
  shows "view (disk w') x = view (disk w) x \<or> view (disk w') x = None \<and> sweepable view L (disk w) x"
proof -
  from meta_law [OF rdy, of "d @ ''/''"] obtain bs
    where be: "be_list_blobs_with_meta B (disk w) (d @ ''/'') = Inr bs"
      and bs: "\<forall>b \<in> set bs. good (bi_name b) \<and> starts_with (bi_name b) (d @ ''/'') \<and>
        view (disk w) (bi_name b) \<noteq> None"
    by blast
  have other: "y \<noteq> transition_path L i" if "starts_with y (d @ ''/'')" for y i
  proof
    assume "y = transition_path L i"
    then have "split_on (CHR ''/'') (d @ CHR ''/'' # drop (Suc (length d)) y) =
        split_on (CHR ''/'') (''job-transitions'' @ CHR ''/'' # sha256_hex L (Raw i) @ ''.json'')"
      using that unfolding transition_path_def starts_with_def
      by (metis append.assoc append_Cons append_Nil append_take_drop_id length_append_singleton)
    then show False
      using d split_on_append_sep [of "CHR ''/''" d] split_on_append_sep [of "CHR ''/''" "''job-transitions''"]
      by (simp add: no_slash_def)
  qed
  define blobs where "blobs = sort_key bi_updated (filter (\<lambda>blob.
    starts_with (bi_name blob) (d @ ''/'') \<and> ends_with (bi_name blob) ''.json'') bs)"
  have "run L B (list_blobs_with_meta (d @ ''/'')) w = (Inr bs, w)"
    by (simp add: facade_defs be)
  then have "run L B (sweep_each L \<lparr>ss_inspected = 0, ss_retired = 0, ss_kept = 0, ss_unreadable = []\<rparr> blobs) w =
      (r, w')"
    using run unfolding retire_settled_sentinels_def blobs_def by (simp add: run_bindE)
  moreover have "\<forall>b \<in> set blobs. b \<in> set bs" by (simp add: blobs_def)
  ultimately show ?thesis
    using sweep_effect [OF rdy _ _ _ x, of blobs _ r w'] bs other ids by blast
qed

end

interpretation lives: lifecycle_store "local_backend L root" "local_view root" "local_put root"
  "local_remove root" "local_annotate root" "local_version L"
  "\<lambda>p. ''local storage version changed for '' @ p" plain_path "local_ready root" directory_prefix L
  for L root
  by unfold_locales
     (auto simp: cancellation_path_def no_slash_def directory_prefix_def marker_prefix_def entry_name_def
       intro!: plain_two [of "''cancellations''", simplified])

end
