(* ===== verification/Reads.thy ===== *)
theory Reads
  imports Identity "HOL-Library.Monad_Syntax"
begin

text \<open>
  What a derived \<open>serde\<close> reader does with an object: a required key, a key with a default, an optional
  value, the typed values. Integers are read in the range of their type.
\<close>

section \<open>Reading a record\<close>

definition required :: "json_object \<Rightarrow> string \<Rightarrow> (json \<Rightarrow> 'a option) \<Rightarrow> 'a option" where
  "required o' k read = Option.bind (obj_get o' k) read"

definition defaulted :: "json_object \<Rightarrow> string \<Rightarrow> 'a \<Rightarrow> (json \<Rightarrow> 'a option) \<Rightarrow> 'a option" where
  "defaulted o' k d read = (case obj_get o' k of None \<Rightarrow> Some d | Some v \<Rightarrow> read v)"

text \<open>\<open>Option<T>\<close>: an absent key and a null are \<open>None\<close>.\<close>

definition nullable :: "(json \<Rightarrow> 'a option) \<Rightarrow> json \<Rightarrow> 'a option option" where
  "nullable read v = (if v = JNull then Some None else map_option Some (read v))"

definition as_bool :: "json \<Rightarrow> bool option" where
  "as_bool v = (case v of JBool b \<Rightarrow> Some b | _ \<Rightarrow> None)"

definition as_u32 :: "json \<Rightarrow> nat option" where
  "as_u32 v = (case v of JInt i \<Rightarrow> if 0 \<le> i \<and> i < 2 ^ 32 then Some (nat i) else None | _ \<Rightarrow> None)"

definition as_i32 :: "json \<Rightarrow> int option" where
  "as_i32 v = (case v of JInt i \<Rightarrow> if - (2 ^ 31) \<le> i \<and> i < 2 ^ 31 then Some i else None | _ \<Rightarrow> None)"

definition list_of :: "(json \<Rightarrow> 'a option) \<Rightarrow> json \<Rightarrow> 'a list option" where
  "list_of read v =
     (case v of JArr xs \<Rightarrow> if list_all (\<lambda>x. read x \<noteq> None) xs then Some (List.map_filter read xs) else None
      | _ \<Rightarrow> None)"

text \<open>\<open>BTreeMap<String, T>\<close>.\<close>

definition map_of_values :: "(json \<Rightarrow> 'a option) \<Rightarrow> json \<Rightarrow> (string \<times> 'a) list option" where
  "map_of_values read v =
     (case v of
        JObj m \<Rightarrow>
          if list_all (\<lambda>(_, x). read x \<noteq> None) m
          then Some (foldl (\<lambda>acc (k, x). btree_insert k (the (read x)) acc) [] m) else None
      | _ \<Rightarrow> None)"

text \<open>\<open>deny_unknown_fields\<close>\<close>

definition only_keys :: "string list \<Rightarrow> json \<Rightarrow> json_object option" where
  "only_keys keys v =
     (case v of JObj o' \<Rightarrow> if list_all (\<lambda>(k, _). k \<in> set keys) o' then Some o' else None | _ \<Rightarrow> None)"

definition as_f64 :: "json \<Rightarrow> f64 option" where
  "as_f64 v = (case v of JInt i \<Rightarrow> Some (f64_of_int i) | JFloat b \<Rightarrow> Some b | _ \<Rightarrow> None)"

text \<open>Casts with \<open>as\<close>: a float towards zero and to the nearest end of the range, not-a-number to 0;
  an unsigned integer by its bits.\<close>

definition clamp_i64 :: "int \<Rightarrow> int" where
  "clamp_i64 i = max (- (2 ^ 63)) (min i (2 ^ 63 - 1))"

definition f64_as_i64 :: "f64 \<Rightarrow> int" where
  "f64_as_i64 b =
     (let e = f64_exponent b; n = 2 ^ 52 + f64_mantissa b;
          magnitude = (if e < 1023 then 0 else if e < 1075 then n div 2 ^ (1075 - e) else n * 2 ^ (e - 1075))
      in if e = 2047 \<and> f64_mantissa b \<noteq> 0 then 0
         else clamp_i64 (if f64_negative b then - int magnitude else int magnitude))"

definition u64_as_i64 :: "nat \<Rightarrow> int" where
  "u64_as_i64 n = (if n < 2 ^ 63 then int n else int n - 2 ^ 64)"

text \<open>Division towards zero, as chrono counts whole units of a span.\<close>

definition whole :: "int \<Rightarrow> int \<Rightarrow> int" where
  "whole span unit' = (if 0 \<le> span then span div unit' else - (- span div unit'))"

text \<open>Counts that stay at the end of their type (\<open>primitives/tally\<close>).\<close>

definition tally :: "nat \<Rightarrow> nat" where
  "tally n = min (Suc n) (2 ^ 64 - 1)"

definition tally_i64 :: "int \<Rightarrow> int" where
  "tally_i64 i = clamp_i64 (i + 1)"

end
