(* ===== verification/Capacity.thy ===== *)
theory Capacity
  imports Operations Reads Local_File
begin

text \<open>
  \<open>src/stado-rs/src/queue/capacity/\<close>: what a worker has published of its resources and until when it
  counts, and the reservations of placed work with the promise each holder makes. What a publication
  measures is not modelled: \<open>publish_capacity\<close> reads the host.
\<close>

section \<open>Publications\<close>

definition capacity_prefix :: string where
  "capacity_prefix = ''capacity/''"

definition stamp :: "lib \<Rightarrow> json \<Rightarrow> string \<Rightarrow> int option" where
  "stamp L payload name = Option.bind (get_str payload name) (parse_rfc3339 L)"

definition next_publication_by :: "lib \<Rightarrow> json \<Rightarrow> int option \<Rightarrow> int option" where
  "next_publication_by L payload made =
     (case stamp L payload ''next_by'' of
        Some next \<Rightarrow> Some next
      | None \<Rightarrow> do {
          window \<leftarrow> Option.bind (get_key payload ''stale_after_seconds'') as_i64;
          at \<leftarrow> made;
          Some (at + nanoseconds window)
        })"

definition published_stamp :: "lib \<Rightarrow> json \<Rightarrow> int option \<Rightarrow> int option" where
  "published_stamp L payload object_time =
     (case stamp L payload ''published_at'' of Some published \<Rightarrow> Some published | None \<Rightarrow> object_time)"

definition publication_live :: "lib \<Rightarrow> json \<Rightarrow> int option \<Rightarrow> int \<Rightarrow> bool" where
  "publication_live L payload made t =
     (case next_publication_by L payload made of None \<Rightarrow> False | Some by \<Rightarrow> t \<le> by)"

text \<open>A period in nanoseconds, whole milliseconds of them.\<close>

definition publication_period :: "lib \<Rightarrow> json \<Rightarrow> nat option" where
  "publication_period L payload =
     (let published = published_stamp L payload None in
      case (published, next_publication_by L payload published) of
        (Some at, Some next) \<Rightarrow>
          let span = next - at
          in if 0 < span then Some (nat \<bar>whole span 1000000\<bar> * 1000000) else None
      | _ \<Rightarrow> None)"

record publication =
  pb_payload :: json
  pb_stamp :: "int option"

definition age_seconds :: "publication \<Rightarrow> int \<Rightarrow> int option" where
  "age_seconds p t = map_option (\<lambda>made. whole (t - made) 1000000000) (pb_stamp p)"

definition stale :: "lib \<Rightarrow> publication \<Rightarrow> int \<Rightarrow> bool" where
  "stale L p t \<longleftrightarrow> \<not> publication_live L (pb_payload p) (pb_stamp p) t"

definition next_by :: "lib \<Rightarrow> publication \<Rightarrow> int option" where
  "next_by L p = next_publication_by L (pb_payload p) (pb_stamp p)"

definition json_of :: "body \<Rightarrow> json storage_prog" where
  "json_of raw = (case raw of Json v \<Rightarrow> ok v | _ \<Rightarrow> fail JsonError)"

text \<open>Every publication, by consumer: its own name for itself, else the name of its object.\<close>

fun read_rows :: "lib \<Rightarrow> (string \<times> publication) list \<Rightarrow> blob_info list \<Rightarrow> (string \<times> publication) list storage_prog" where
  "read_rows L rows [] = ok rows"
| "read_rows L rows (blob # blobs) =
     (case Option.bind (strip_prefix (bi_name blob) capacity_prefix) (\<lambda>name. strip_suffix name ''.json'') of
        None \<Rightarrow> read_rows L rows blobs
      | Some stem \<Rightarrow>
          bindE (download_text (bi_name blob)) (\<lambda>found.
            case found of
              None \<Rightarrow> read_rows L rows blobs
            | Some raw \<Rightarrow>
                bindE (json_of raw) (\<lambda>payload.
                  let consumer_id = (case get_str payload ''consumer_id'' of Some c \<Rightarrow> c | None \<Rightarrow> stem)
                  in read_rows L (btree_insert consumer_id
                       \<lparr>pb_payload = payload, pb_stamp = published_stamp L payload (bi_updated blob)\<rparr> rows) blobs)))"

definition read_publications :: "lib \<Rightarrow> (string \<times> publication) list storage_prog" where
  "read_publications L = bindE (list_blobs_with_meta capacity_prefix) (read_rows L [])"

text \<open>The live ones; a cloud consumer whose promise has passed is collected.\<close>

fun read_live :: "lib \<Rightarrow> int \<Rightarrow> (string \<times> json) list \<Rightarrow> blob_info list \<Rightarrow> (string \<times> json) list storage_prog" where
  "read_live L t out [] = ok out"
| "read_live L t out (blob # blobs) =
     (if \<not> ends_with (bi_name blob) ''.json'' then read_live L t out blobs
      else
        bindE (download_text (bi_name blob)) (\<lambda>found.
          case found of
            None \<Rightarrow> read_live L t out blobs
          | Some raw \<Rightarrow>
              bindE (json_of raw) (\<lambda>payload.
                if publication_live L payload (published_stamp L payload (bi_updated blob)) t
                then read_live L t
                       (case get_str payload ''consumer_id'' of
                          Some c \<Rightarrow> btree_insert c payload out | None \<Rightarrow> out) blobs
                else
                  bindE (if get_str payload ''kind'' \<noteq> Some ''local'' then delete_blob (bi_name blob) else ok ())
                    (\<lambda>_. read_live L t out blobs))))"

definition read_consumer_capacity_at :: "lib \<Rightarrow> int \<Rightarrow> (string \<times> json) list storage_prog" where
  "read_consumer_capacity_at L t = bindE (list_blobs_with_meta capacity_prefix) (read_live L t [])"

definition read_consumer_capacity :: "lib \<Rightarrow> (string \<times> json) list storage_prog" where
  "read_consumer_capacity L = bindp now (read_consumer_capacity_at L)"

section \<open>Sums over publications\<close>

definition of_asked_kind :: "json \<Rightarrow> string list \<Rightarrow> bool" where
  "of_asked_kind payload kinds = (case get_str payload ''kind'' of None \<Rightarrow> False | Some kind \<Rightarrow> kind \<in> set kinds)"

definition asked :: "string list option \<Rightarrow> json \<Rightarrow> bool" where
  "asked kinds payload = (case kinds of None \<Rightarrow> True | Some ks \<Rightarrow> of_asked_kind payload ks)"

definition add_count :: "string \<times> json \<Rightarrow> (string \<times> int) list \<Rightarrow> (string \<times> int) list" where
  "add_count entry totals =
     (case as_i64 (snd entry) of
        None \<Rightarrow> totals
      | Some count \<Rightarrow>
          let total = (case map_of totals (fst entry) of Some n \<Rightarrow> n | None \<Rightarrow> 0)
          in btree_insert (fst entry) (clamp_i64 (total + count)) totals)"

definition total_available_accelerators ::
  "(string \<times> json) list \<Rightarrow> string list option \<Rightarrow> (string \<times> int) list" where
  "total_available_accelerators consumers kinds =
     foldl (\<lambda>totals (_, payload).
       if get_key payload ''accepting_jobs'' \<noteq> Some (JBool True) \<or> \<not> asked kinds payload then totals
       else (case Option.bind (get_key payload ''available_accelerators'') as_object of
               None \<Rightarrow> totals
             | Some available \<Rightarrow> foldl (\<lambda>totals entry. add_count entry totals) totals available))
       [] consumers"

definition as_count :: "json \<Rightarrow> int option" where
  "as_count v = (case as_i64 v of Some i \<Rightarrow> Some i | None \<Rightarrow> map_option f64_as_i64 (as_f64 v))"

definition consumers_by_claimable_vram ::
  "(string \<times> json) list \<Rightarrow> string list option \<Rightarrow> (string \<times> int) list" where
  "consumers_by_claimable_vram consumers kinds =
     sort_key (\<lambda>row. - snd row) (List.map_filter (\<lambda>(_, payload).
       if \<not> asked kinds payload then None
       else do {
         free \<leftarrow> Option.bind (get_key payload ''free_vram_gb'') as_count;
         cid \<leftarrow> get_str payload ''consumer_id'';
         Some (cid, free)
       }) consumers)"

section \<open>Reservations\<close>

definition reservation_prefix :: string where
  "reservation_prefix = ''state/reservations/''"

definition reservation_schema_version :: nat where
  "reservation_schema_version = 1"

record reservation =
  rv_schema_version :: nat
  rv_reservation_id :: string
  rv_consumer_id :: string
  rv_target :: string
  rv_kind :: string
  rv_product :: string
  rv_holder :: string
  rv_cpu_cores :: int
  rv_ram_gb :: f64
  rv_vram_gb :: int
  rv_acquired_at :: string
  rv_heartbeat_at :: string
  rv_ttl_seconds :: nat

definition reservation_to_value :: "reservation \<Rightarrow> json" where
  "reservation_to_value r = JObj
     [(''schema_version'', JInt (int (rv_schema_version r))), (''reservation_id'', JStr (rv_reservation_id r)),
      (''consumer_id'', JStr (rv_consumer_id r)), (''target'', JStr (rv_target r)), (''kind'', JStr (rv_kind r)),
      (''product'', JStr (rv_product r)), (''holder'', JStr (rv_holder r)), (''cpu_cores'', JInt (rv_cpu_cores r)),
      (''ram_gb'', f64_value (rv_ram_gb r)), (''vram_gb'', JInt (rv_vram_gb r)),
      (''acquired_at'', JStr (rv_acquired_at r)), (''heartbeat_at'', JStr (rv_heartbeat_at r)),
      (''ttl_seconds'', JInt (int (rv_ttl_seconds r)))]"

definition reservation_from_value :: "json \<Rightarrow> reservation option" where
  "reservation_from_value v = do {
     o' \<leftarrow> as_object v;
     schema \<leftarrow> required o' ''schema_version'' as_u64;
     rid \<leftarrow> required o' ''reservation_id'' as_str;
     consumer \<leftarrow> required o' ''consumer_id'' as_str;
     target \<leftarrow> required o' ''target'' as_str;
     kind \<leftarrow> required o' ''kind'' as_str;
     product' \<leftarrow> required o' ''product'' as_str;
     holder \<leftarrow> required o' ''holder'' as_str;
     cpu \<leftarrow> required o' ''cpu_cores'' as_i64;
     ram \<leftarrow> required o' ''ram_gb'' as_f64;
     vram \<leftarrow> required o' ''vram_gb'' as_i64;
     acquired \<leftarrow> required o' ''acquired_at'' as_str;
     heartbeat \<leftarrow> required o' ''heartbeat_at'' as_str;
     ttl \<leftarrow> required o' ''ttl_seconds'' as_u64;
     Some \<lparr>rv_schema_version = schema, rv_reservation_id = rid, rv_consumer_id = consumer, rv_target = target,
       rv_kind = kind, rv_product = product', rv_holder = holder, rv_cpu_cores = cpu, rv_ram_gb = ram,
       rv_vram_gb = vram, rv_acquired_at = acquired, rv_heartbeat_at = heartbeat, rv_ttl_seconds = ttl\<rparr>
   }"

text \<open>The row a capacity publication carries.\<close>

definition published :: "reservation \<Rightarrow> json" where
  "published r = JObj
     [(''reservation_id'', JStr (rv_reservation_id r)), (''kind'', JStr (rv_kind r)),
      (''product'', JStr (rv_product r)), (''holder'', JStr (rv_holder r)), (''cpu_cores'', JInt (rv_cpu_cores r)),
      (''ram_gb'', f64_value (rv_ram_gb r)), (''vram_gb'', JInt (rv_vram_gb r)),
      (''acquired_at'', JStr (rv_acquired_at r))]"

definition reservation_key :: "string \<Rightarrow> string \<Rightarrow> string" where
  "reservation_key consumer_id reservation_id =
     reservation_prefix @ consumer_id @ ''/'' @ reservation_id @ ''.json''"

definition rv_key :: "reservation \<Rightarrow> string" where
  "rv_key r = reservation_key (rv_consumer_id r) (rv_reservation_id r)"

definition expires_at :: "lib \<Rightarrow> reservation \<Rightarrow> int option" where
  "expires_at L r =
     map_option (\<lambda>beat. beat + nanoseconds (u64_as_i64 (rv_ttl_seconds r))) (parse_rfc3339 L (rv_heartbeat_at r))"

definition is_live :: "lib \<Rightarrow> reservation \<Rightarrow> int \<Rightarrow> bool" where
  "is_live L r t = (case expires_at L r of None \<Rightarrow> False | Some expiry \<Rightarrow> t < expiry)"

record reservation_request =
  rq_consumer_id :: string
  rq_target :: string
  rq_kind :: string
  rq_product :: string
  rq_holder :: string
  rq_cpu_cores :: int
  rq_ram_gb :: f64
  rq_vram_gb :: int
  rq_promise :: nat

text \<open>A promise is in nanoseconds.\<close>

definition seconds_covering :: "nat \<Rightarrow> nat" where
  "seconds_covering promise = promise div 1000000000 + (if 0 < promise mod 1000000000 then 1 else 0)"

definition uuid_hyphenated :: "string \<Rightarrow> string" where
  "uuid_hyphenated u =
     take 8 u @ ''-'' @ take 4 (drop 8 u) @ ''-'' @ take 4 (drop 12 u) @ ''-'' @ take 4 (drop 16 u) @ ''-'' @ drop 20 u"

definition new_reservation :: "lib \<Rightarrow> reservation_request \<Rightarrow> int \<Rightarrow> string \<Rightarrow> reservation" where
  "new_reservation L request t u =
     \<lparr>rv_schema_version = reservation_schema_version, rv_reservation_id = uuid_hyphenated u,
      rv_consumer_id = rq_consumer_id request, rv_target = rq_target request,
      rv_kind = rq_kind request, rv_product = rq_product request, rv_holder = rq_holder request,
      rv_cpu_cores = rq_cpu_cores request, rv_ram_gb = rq_ram_gb request,
      rv_vram_gb = rq_vram_gb request, rv_acquired_at = to_rfc3339 L t,
      rv_heartbeat_at = to_rfc3339 L t, rv_ttl_seconds = seconds_covering (rq_promise request)\<rparr>"

definition reserve :: "lib \<Rightarrow> reservation_request \<Rightarrow> reservation storage_prog" where
  "reserve L request =
     bindp now (\<lambda>t.
     bindp new_uuid (\<lambda>u.
       let r = new_reservation L request t u
       in bindE (create_text_if_absent (rv_key r) (Json (reservation_to_value r))) (\<lambda>created.
            if \<not> created then fail (StorageConflict ''the reservation already exists'') else ok r)))"

definition heartbeat :: "lib \<Rightarrow> reservation \<Rightarrow> nat \<Rightarrow> reservation storage_prog" where
  "heartbeat L r promise =
     bindp now (\<lambda>t.
       let r = r\<lparr>rv_heartbeat_at := to_rfc3339 L t, rv_ttl_seconds := seconds_covering promise\<rparr>
       in bindE (upload_text (rv_key r) (Json (reservation_to_value r))) (\<lambda>_. ok r))"

definition release_reservation :: "reservation \<Rightarrow> unit storage_prog" where
  "release_reservation r = delete_blob (rv_key r)"

definition consumer_period :: "lib \<Rightarrow> string \<Rightarrow> nat option storage_prog" where
  "consumer_period L consumer_id =
     bindE (with_error (\<lambda>_. Other ''could not be read'')
       (download_text (capacity_prefix @ consumer_id @ ''.json''))) (\<lambda>found.
       case found of
         None \<Rightarrow> ok None
       | Some raw \<Rightarrow>
           bindE (with_error (\<lambda>_. Other ''is not a capacity publication'') (json_of raw)) (\<lambda>payload.
             ok (publication_period L payload)))"

definition read_reservation :: "body \<Rightarrow> reservation storage_prog" where
  "read_reservation raw =
     (case raw of
        Json v \<Rightarrow> (case reservation_from_value v of None \<Rightarrow> fail JsonError | Some r \<Rightarrow> ok r)
      | _ \<Rightarrow> fail JsonError)"

fun read_grouped ::
  "(string \<times> reservation list) list \<Rightarrow> blob_info list \<Rightarrow> (string \<times> reservation list) list storage_prog" where
  "read_grouped rows [] = ok rows"
| "read_grouped rows (blob # blobs) =
     (if \<not> ends_with (bi_name blob) ''.json'' then read_grouped rows blobs
      else
        bindE (download_text (bi_name blob)) (\<lambda>found.
          case found of
            None \<Rightarrow> read_grouped rows blobs
          | Some raw \<Rightarrow>
              bindE (read_reservation raw) (\<lambda>r.
                let listed = (case map_of rows (rv_consumer_id r) of None \<Rightarrow> [] | Some rs \<Rightarrow> rs)
                in read_grouped (btree_insert (rv_consumer_id r) (listed @ [r]) rows) blobs)))"

definition read_all_reservations :: "(string \<times> reservation list) list storage_prog" where
  "read_all_reservations =
     bindE (list_blobs_with_meta reservation_prefix) (\<lambda>blobs.
     bindE (read_grouped [] blobs) (\<lambda>rows.
       ok (map (\<lambda>(c, rs). (c, sort_key rv_acquired_at rs)) rows)))"

record consumer_sweep =
  cs_live :: "reservation list"
  cs_retired :: nat

fun sweep_rows :: "lib \<Rightarrow> string \<Rightarrow> int \<Rightarrow> consumer_sweep \<Rightarrow> blob_info list \<Rightarrow> consumer_sweep storage_prog" where
  "sweep_rows L directory t sweep [] = ok sweep"
| "sweep_rows L directory t sweep (blob # blobs) =
     (if \<not> starts_with (bi_name blob) directory \<or> \<not> ends_with (bi_name blob) ''.json''
      then sweep_rows L directory t sweep blobs
      else
        bindE (download_text (bi_name blob)) (\<lambda>found.
          case found of
            None \<Rightarrow> sweep_rows L directory t sweep blobs
          | Some raw \<Rightarrow>
              bindE (read_reservation raw) (\<lambda>r.
                if is_live L r t
                then sweep_rows L directory t (sweep\<lparr>cs_live := cs_live sweep @ [r]\<rparr>) blobs
                else
                  bindE (delete_blob (bi_name blob)) (\<lambda>_.
                    sweep_rows L directory t (sweep\<lparr>cs_retired := tally (cs_retired sweep)\<rparr>) blobs))))"

definition sweep_for_consumer :: "lib \<Rightarrow> string \<Rightarrow> int \<Rightarrow> consumer_sweep storage_prog" where
  "sweep_for_consumer L consumer_id t =
     (let directory = reservation_prefix @ consumer_id @ ''/'' in
      bindE (list_blobs_with_meta directory) (\<lambda>blobs.
      bindE (sweep_rows L directory t \<lparr>cs_live = [], cs_retired = 0\<rparr> blobs) (\<lambda>sweep.
        ok (sweep\<lparr>cs_live := sort_key rv_acquired_at (cs_live sweep)\<rparr>))))"

definition live_for_consumer :: "lib \<Rightarrow> string \<Rightarrow> int \<Rightarrow> reservation list storage_prog" where
  "live_for_consumer L consumer_id t =
     bindE (sweep_for_consumer L consumer_id t) (\<lambda>sweep. ok (cs_live sweep))"

section \<open>A reservation's life\<close>

definition wf_reservation :: "reservation \<Rightarrow> bool" where
  "wf_reservation r \<longleftrightarrow> u64_range (rv_schema_version r) \<and> u64_range (rv_ttl_seconds r) \<and>
     i64_range (rv_cpu_cores r) \<and> i64_range (rv_vram_gb r) \<and> f64_is_finite (rv_ram_gb r)"

lemma reservation_roundtrip: "wf_reservation r \<Longrightarrow> reservation_from_value (reservation_to_value r) = Some r"
  by (simp add: wf_reservation_def reservation_from_value_def reservation_to_value_def required_def obj_get_def
      as_object_def as_str_def as_u64_def as_i64_def as_f64_def f64_value_def)

lemma read_reservation_row: "wf_reservation r \<Longrightarrow> read_reservation (Json (reservation_to_value r)) = ok r"
  by (simp add: read_reservation_def reservation_roundtrip)

text \<open>What is promised is kept, and outlived by less than a second.\<close>

lemma seconds_covering_bounds:
  "promise \<le> seconds_covering promise * 1000000000" "seconds_covering promise * 1000000000 < promise + 1000000000"
proof -
  define d where "d = promise div 1000000000"
  define m where "m = promise mod 1000000000"
  have "promise = 1000000000 * d + m"
    by (simp add: d_def m_def)
  moreover have "m < 1000000000"
    by (simp add: m_def)
  moreover have "seconds_covering promise = d + (if 0 < m then 1 else 0)"
    by (simp add: seconds_covering_def d_def m_def)
  ultimately show "promise \<le> seconds_covering promise * 1000000000"
    "seconds_covering promise * 1000000000 < promise + 1000000000"
    by simp_all
qed

lemma live_while_promised:
  assumes "parse_rfc3339 L (rv_heartbeat_at r) = Some beat" "rv_ttl_seconds r = seconds_covering promise"
    and "seconds_covering promise < 2 ^ 63"
  shows "t < beat + int promise \<Longrightarrow> is_live L r t"
    and "beat + int promise + 1000000000 \<le> t \<Longrightarrow> \<not> is_live L r t"
proof -
  have "int promise \<le> int (seconds_covering promise) * 1000000000"
    "int (seconds_covering promise) * 1000000000 < int promise + 1000000000"
    using seconds_covering_bounds [of promise] by linarith+
  moreover have "is_live L r t \<longleftrightarrow> t < beat + int (seconds_covering promise) * 1000000000" for t
    using assms by (simp add: is_live_def expires_at_def u64_as_i64_def nanoseconds_def)
  ultimately show "t < beat + int promise \<Longrightarrow> is_live L r t"
    "beat + int promise + 1000000000 \<le> t \<Longrightarrow> \<not> is_live L r t"
    by (simp_all del: of_nat_mult)
qed

section \<open>The sweep of one consumer's rows\<close>

definition reservation_row :: "('s \<Rightarrow> string \<Rightarrow> body option) \<Rightarrow> 's \<Rightarrow> string \<Rightarrow> reservation \<Rightarrow> bool" where
  "reservation_row view s x r \<longleftrightarrow> view s x = Some (Json (reservation_to_value r)) \<and> wf_reservation r"

definition dead_row :: "('s \<Rightarrow> string \<Rightarrow> body option) \<Rightarrow> lib \<Rightarrow> int \<Rightarrow> 's \<Rightarrow> string \<Rightarrow> bool" where
  "dead_row view L t s x \<longleftrightarrow> (\<exists>r. reservation_row view s x r \<and> \<not> is_live L r t)"

lemma reservation_row_unique: "reservation_row view s x r \<Longrightarrow> reservation_row view s x q \<Longrightarrow> q = r"
  unfolding reservation_row_def by (metis body.inject(1) option.inject reservation_roundtrip)

definition swept_name :: "string \<Rightarrow> string \<Rightarrow> bool" where
  "swept_name directory x \<longleftrightarrow> starts_with x directory \<and> ends_with x ''.json''"

definition rows_in_order :: "(string \<Rightarrow> bool) \<Rightarrow> ('s \<Rightarrow> string \<Rightarrow> body option) \<Rightarrow> string \<Rightarrow> 's \<Rightarrow> bool" where
  "rows_in_order good view directory s \<longleftrightarrow>
     (\<forall>x. good x \<longrightarrow> swept_name directory x \<longrightarrow> view s x \<noteq> None \<longrightarrow> (\<exists>r. reservation_row view s x r))"

context listed_store
begin

lemma run_sweep_rows:
  assumes "ready (disk w)" and "rows_in_order good view directory (disk w)"
    and "\<And>b. b \<in> set blobs \<Longrightarrow> good (bi_name b)"
  shows "\<exists>sw' w'. run L B (sweep_rows L directory t sw blobs) w = (Inr sw', w') \<and> ready (disk w') \<and>
    (\<forall>x. good x \<longrightarrow> view (disk w') x =
      (if x \<in> bi_name ` set blobs \<and> swept_name directory x \<and> dead_row view L t (disk w) x then None
       else view (disk w) x)) \<and>
    set (cs_live sw') = set (cs_live sw) \<union>
      {r. is_live L r t \<and> (\<exists>x \<in> bi_name ` set blobs. swept_name directory x \<and> reservation_row view (disk w) x r)}"
  using assms
proof (induction blobs arbitrary: w sw)
  case (Cons b blobs)
  let ?x = "bi_name b"
  have x: "good ?x" using Cons.prems(3) by simp
  note rest = Cons.IH [OF _ _ Cons.prems(3) [OF list.set_intros(2)]]
  consider (skip) "\<not> swept_name directory ?x \<or> view (disk w) ?x = None"
    | (row) r where "swept_name directory ?x" "reservation_row view (disk w) ?x r"
    using Cons.prems(2) x unfolding rows_in_order_def by blast
  then show ?case
  proof cases
    case skip
    then have same: "run L B (sweep_rows L directory t sw (b # blobs)) w = run L B (sweep_rows L directory t sw blobs) w"
      using Cons.prems(1) x by (auto simp: swept_name_def run_simps run_calls)
    have none: "\<not> (swept_name directory ?x \<and> reservation_row view (disk w) ?x r)" for r
      using skip by (auto simp: reservation_row_def)
    then show ?thesis
      using rest [OF Cons.prems(1,2), of sw] unfolding same dead_row_def by auto
  next
    case (row r)
    have raw: "view (disk w) ?x = Some (Json (reservation_to_value r))" and wf: "wf_reservation r"
      using row(2) by (simp_all add: reservation_row_def)
    show ?thesis
    proof (cases "is_live L r t")
      case True
      have step: "run L B (sweep_rows L directory t sw (b # blobs)) w =
          run L B (sweep_rows L directory t (sw\<lparr>cs_live := cs_live sw @ [r]\<rparr>) blobs) w"
        using Cons.prems(1) x row(1) raw wf True
        by (simp add: swept_name_def run_simps run_calls read_reservation_row)
      have alive: "\<not> dead_row view L t (disk w) ?x"
        using True row(2) reservation_row_unique unfolding dead_row_def by metis
      have only: "reservation_row view (disk w) ?x q \<longleftrightarrow> q = r" for q
        using row(2) reservation_row_unique by metis
      obtain sw' w' where out: "run L B (sweep_rows L directory t (sw\<lparr>cs_live := cs_live sw @ [r]\<rparr>) blobs) w = (Inr sw', w')"
          "ready (disk w')"
        and v: "\<And>y. good y \<Longrightarrow> view (disk w') y =
          (if y \<in> bi_name ` set blobs \<and> swept_name directory y \<and> dead_row view L t (disk w) y then None
           else view (disk w) y)"
        and l: "set (cs_live sw') = insert r (set (cs_live sw)) \<union> {q. is_live L q t \<and>
          (\<exists>y \<in> bi_name ` set blobs. swept_name directory y \<and> reservation_row view (disk w) y q)}"
        using rest [OF Cons.prems(1,2), of "sw\<lparr>cs_live := cs_live sw @ [r]\<rparr>"] by auto
      have "view (disk w') y = (if y \<in> bi_name ` set (b # blobs) \<and> swept_name directory y \<and>
          dead_row view L t (disk w) y then None else view (disk w) y)" if "good y" for y
        using v [OF that] alive by auto
      moreover have "set (cs_live sw') = set (cs_live sw) \<union> {q. is_live L q t \<and>
          (\<exists>y \<in> bi_name ` set (b # blobs). swept_name directory y \<and> reservation_row view (disk w) y q)}"
        unfolding l using row(1) True by (auto simp: only)
      ultimately show ?thesis
        unfolding step using out by blast
    next
      case False
      let ?w = "w\<lparr>disk := remove (disk w) ?x\<rparr>"
      have step: "run L B (sweep_rows L directory t sw (b # blobs)) w =
          run L B (sweep_rows L directory t (sw\<lparr>cs_retired := tally (cs_retired sw)\<rparr>) blobs) ?w"
        using Cons.prems(1) x row(1) raw wf False
        by (simp add: swept_name_def run_simps run_calls read_reservation_row)
      have rdy: "ready (disk ?w)"
        using Cons.prems(1) x by (simp add: store_simps)
      have rows: "reservation_row view (remove (disk w) ?x) y q \<longleftrightarrow> y \<noteq> ?x \<and> reservation_row view (disk w) y q" if "good y" for y q
        using x that by (auto simp: reservation_row_def store_simps)
      have ordered: "rows_in_order good view directory (disk ?w)"
        unfolding rows_in_order_def
      proof (intro allI impI)
        fix y assume y: "good y" "swept_name directory y" "view (disk ?w) y \<noteq> None"
        then have "y \<noteq> ?x" "view (disk w) y \<noteq> None"
          using x by (auto simp: store_simps split: if_splits)
        then obtain q where "reservation_row view (disk w) y q"
          using Cons.prems(2) y(1,2) unfolding rows_in_order_def by blast
        then show "\<exists>q. reservation_row view (disk ?w) y q"
          using rows [OF y(1)] \<open>y \<noteq> ?x\<close> by simp blast
      qed
      have later: "dead_row view L t (remove (disk w) ?x) y \<longleftrightarrow> y \<noteq> ?x \<and> dead_row view L t (disk w) y" if "good y" for y
        using rows [OF that] by (auto simp: dead_row_def)
      have dead: "dead_row view L t (disk w) ?x"
        using False row(2) by (auto simp: dead_row_def)
      have goods: "\<And>y. y \<in> bi_name ` set blobs \<Longrightarrow> good y"
        using Cons.prems(3) by auto
      obtain sw' w' where out: "run L B (sweep_rows L directory t (sw\<lparr>cs_retired := tally (cs_retired sw)\<rparr>) blobs) ?w =
          (Inr sw', w')" "ready (disk w')"
        and v: "\<And>y. good y \<Longrightarrow> view (disk w') y =
          (if y \<in> bi_name ` set blobs \<and> swept_name directory y \<and> dead_row view L t (disk ?w) y then None
           else view (disk ?w) y)"
        and l: "set (cs_live sw') = set (cs_live sw) \<union> {q. is_live L q t \<and>
          (\<exists>y \<in> bi_name ` set blobs. swept_name directory y \<and> reservation_row view (disk ?w) y q)}"
        using rest [OF rdy ordered, of "sw\<lparr>cs_retired := tally (cs_retired sw)\<rparr>"] by auto
      have "view (disk w') y = (if y \<in> bi_name ` set (b # blobs) \<and> swept_name directory y \<and>
          dead_row view L t (disk w) y then None else view (disk w) y)" if "good y" for y
        using v [OF that] dead row(1) x that by (auto simp: later [OF that] store_simps)
      moreover have "set (cs_live sw') = set (cs_live sw) \<union> {q. is_live L q t \<and>
          (\<exists>y \<in> bi_name ` set (b # blobs). swept_name directory y \<and> reservation_row view (disk w) y q)}"
        unfolding l using goods rows False reservation_row_unique [OF row(2)] by auto
      ultimately show ?thesis
        unfolding step using out by blast
    qed
  qed
qed simp

text \<open>The sweep answers the live reservations of the consumer and removes exactly the others.\<close>

lemma run_sweep:
  assumes rdy: "ready (disk w)" and bounds: "boundary directory"
    and dir: "directory = reservation_prefix @ consumer_id @ ''/''"
    and rows: "rows_in_order good view directory (disk w)"
  shows "\<exists>sw w'. run L B (sweep_for_consumer L consumer_id t) w = (Inr sw, w') \<and>
    set (cs_live sw) = {r. is_live L r t \<and> (\<exists>x. good x \<and> swept_name directory x \<and> reservation_row view (disk w) x r)} \<and>
    (\<forall>x. good x \<longrightarrow> view (disk w') x =
      (if swept_name directory x \<and> dead_row view L t (disk w) x then None else view (disk w) x))"
proof -
  obtain bs where bs: "run L B (list_blobs_with_meta directory) w = (Inr bs, w)"
    and sound: "\<And>b. b \<in> set bs \<Longrightarrow> good (bi_name b) \<and> starts_with (bi_name b) directory \<and> view (disk w) (bi_name b) \<noteq> None"
    and complete: "\<And>x. boundary directory \<Longrightarrow> good x \<Longrightarrow> starts_with x directory \<Longrightarrow> view (disk w) x \<noteq> None \<Longrightarrow>
      x \<in> bi_name ` set bs"
    using run_list_blobs [OF rdy, of L directory] by blast
  obtain sw w' where out: "run L B (sweep_rows L directory t \<lparr>cs_live = [], cs_retired = 0\<rparr> bs) w = (Inr sw, w')"
    and v: "\<And>x. good x \<Longrightarrow> view (disk w') x =
      (if x \<in> bi_name ` set bs \<and> swept_name directory x \<and> dead_row view L t (disk w) x then None
       else view (disk w) x)"
    and l: "set (cs_live sw) = {r. is_live L r t \<and>
      (\<exists>x \<in> bi_name ` set bs. swept_name directory x \<and> reservation_row view (disk w) x r)}"
    using run_sweep_rows [OF rdy rows, of bs L t "\<lparr>cs_live = [], cs_retired = 0\<rparr>"] sound by auto
  have listed: "x \<in> bi_name ` set bs \<longleftrightarrow> good x" if "swept_name directory x" "reservation_row view (disk w) x r" for x r
    using that sound complete [OF bounds] by (auto simp: swept_name_def reservation_row_def)
  have "run L B (sweep_for_consumer L consumer_id t) w =
      (Inr (sw\<lparr>cs_live := sort_key rv_acquired_at (cs_live sw)\<rparr>), w')"
    using bs out by (simp add: sweep_for_consumer_def run_simps flip: dir)
  moreover have "set (cs_live sw) = {r. is_live L r t \<and> (\<exists>x. good x \<and> swept_name directory x \<and> reservation_row view (disk w) x r)}"
    unfolding l using listed by blast
  moreover have "view (disk w') x = (if swept_name directory x \<and> dead_row view L t (disk w) x then None else view (disk w) x)"
    if "good x" for x
    using v [OF that] listed that by (auto simp: dead_row_def)
  ultimately show ?thesis
    by (intro exI [of _ "sw\<lparr>cs_live := sort_key rv_acquired_at (cs_live sw)\<rparr>"] exI [of _ w']) simp
qed

text \<open>A reservation stands in every sweep until its promise has passed, and a second later in none.\<close>

lemma run_reserve:
  assumes rdy: "ready (disk w)" and r: "r = new_reservation L q (clock w) (uuid_simple L (uuids w))"
    and path: "good (rv_key r)" and free: "view (disk w) (rv_key r) = None"
  shows "\<exists>w'. run L B (reserve L q) w = (Inr r, w') \<and> ready (disk w') \<and>
    (\<forall>x. good x \<longrightarrow> view (disk w') x = (if x = rv_key r then Some (Json (reservation_to_value r)) else view (disk w) x))"
  using rdy path free unfolding r
  by (auto simp: reserve_def Let_def now_def new_uuid_def run_simps run_calls store_simps)

lemma reserved_until:
  assumes rdy: "ready (disk w)" and r: "r = new_reservation L q (clock w) (uuid_simple L (uuids w))"
    and path: "good (rv_key r)" and free: "view (disk w) (rv_key r) = None" and wf: "wf_reservation r"
    and bounds: "boundary directory" and dir: "directory = reservation_prefix @ rq_consumer_id q @ ''/''"
    and rows: "rows_in_order good view directory (disk w)"
    and beat: "parse_rfc3339 L (to_rfc3339 L (clock w)) = Some beat" and range: "seconds_covering (rq_promise q) < 2 ^ 63"
  shows "\<exists>w'. run L B (reserve L q) w = (Inr r, w') \<and>
    (\<forall>t. \<exists>sw w2. run L B (sweep_for_consumer L (rq_consumer_id q) t) w' = (Inr sw, w2) \<and>
      (t < beat + int (rq_promise q) \<longrightarrow>
         r \<in> set (cs_live sw) \<and> view (disk w2) (rv_key r) = Some (Json (reservation_to_value r))) \<and>
      (beat + int (rq_promise q) + 1000000000 \<le> t \<longrightarrow>
         r \<notin> set (cs_live sw) \<and> view (disk w2) (rv_key r) = None))"
proof -
  obtain w' where w': "run L B (reserve L q) w = (Inr r, w')" "ready (disk w')"
    and v: "\<And>x. good x \<Longrightarrow> view (disk w') x = (if x = rv_key r then Some (Json (reservation_to_value r)) else view (disk w) x)"
    using run_reserve [OF rdy r path free] by blast
  have name: "swept_name directory (rv_key r)"
    by (simp add: swept_name_def rv_key_def reservation_key_def r new_reservation_def dir starts_with_iff ends_with_def)
  have row: "reservation_row view (disk w') (rv_key r) r"
    using v [OF path] wf by (simp add: reservation_row_def)
  have ordered: "rows_in_order good view directory (disk w')"
    using rows wf by (auto simp: rows_in_order_def reservation_row_def v)
  have fields: "parse_rfc3339 L (rv_heartbeat_at r) = Some beat" "rv_ttl_seconds r = seconds_covering (rq_promise q)"
    using beat by (simp_all add: r new_reservation_def)
  note live = live_while_promised [OF fields range]
  have "\<exists>sw w2. run L B (sweep_for_consumer L (rq_consumer_id q) t) w' = (Inr sw, w2) \<and>
      (r \<in> set (cs_live sw) \<longleftrightarrow> is_live L r t) \<and>
      view (disk w2) (rv_key r) = (if is_live L r t then Some (Json (reservation_to_value r)) else None)" for t
  proof -
    obtain sw w2 where out: "run L B (sweep_for_consumer L (rq_consumer_id q) t) w' = (Inr sw, w2)"
      and l: "set (cs_live sw) = {r. is_live L r t \<and> (\<exists>x. good x \<and> swept_name directory x \<and> reservation_row view (disk w') x r)}"
      and swept: "\<And>x. good x \<Longrightarrow> view (disk w2) x =
        (if swept_name directory x \<and> dead_row view L t (disk w') x then None else view (disk w') x)"
      using run_sweep [OF w'(2) bounds dir ordered, of L t] by blast
    have "dead_row view L t (disk w') (rv_key r) \<longleftrightarrow> \<not> is_live L r t"
      unfolding dead_row_def using row reservation_row_unique [OF row] by metis
    moreover have "r \<in> set (cs_live sw) \<longleftrightarrow> is_live L r t"
      unfolding l using path name row by blast
    ultimately show ?thesis
      using out swept [OF path] name v [OF path] by (intro exI [of _ sw] exI [of _ w2]) simp
  qed
  then have "\<exists>sw w2. run L B (sweep_for_consumer L (rq_consumer_id q) t) w' = (Inr sw, w2) \<and>
      (t < beat + int (rq_promise q) \<longrightarrow>
         r \<in> set (cs_live sw) \<and> view (disk w2) (rv_key r) = Some (Json (reservation_to_value r))) \<and>
      (beat + int (rq_promise q) + 1000000000 \<le> t \<longrightarrow>
         r \<notin> set (cs_live sw) \<and> view (disk w2) (rv_key r) = None)" for t
    using live [of t] by (metis (full_types))
  then show ?thesis using w'(1) by blast
qed

end

section \<open>On the device\<close>

lemma reservation_directory: "entry_name c \<Longrightarrow> directory_prefix (reservation_prefix @ c @ ''/'')"
proof -
  assume c: "entry_name c"
  have "split_on (CHR ''/'') (''state/reservations/'' @ c) = [''state'', ''reservations'', c]"
    using c split_on_append [of "CHR ''/''" "''state''" "''reservations/'' @ c"]
      split_on_append [of "CHR ''/''" "''reservations''" c] by (simp add: entry_name_def split_on_no_sep)
  then show ?thesis
    using c by (simp add: directory_prefix_def reservation_prefix_def butlast_append entry_name_def)
qed

lemma plain_reservation:
  assumes c: "entry_name (rq_consumer_id q)" and u: "no_slash u"
  shows "plain_path (rv_key (new_reservation L q t u))"
proof -
  have "set (take n (drop m u)) \<subseteq> set u" for n m
    by (meson set_drop_subset set_take_subset subset_trans)
  then have "no_slash (uuid_hyphenated u)"
    using u set_take_subset [of 8 u] set_drop_subset [of 20 u] by (auto simp: no_slash_def uuid_hyphenated_def)
  then have leaf: "entry_name (uuid_hyphenated u @ ''.json'')"
    by (auto simp: entry_name_def no_slash_def uuid_hyphenated_def)
  have "plain_path ''state'' \<and> plain_path ''reservations''"
    by (simp add: plain_path_def)
  then show ?thesis
    using entry_name_plain [OF c] entry_name_plain [OF leaf]
      plain_path_join [of "''state''" "''reservations/'' @ rq_consumer_id q @ ''/'' @ uuid_hyphenated u @ ''.json''"]
      plain_path_join [of "''reservations''" "rq_consumer_id q @ ''/'' @ uuid_hyphenated u @ ''.json''"]
      plain_path_join [of "rq_consumer_id q" "uuid_hyphenated u @ ''.json''"]
    by (simp add: rv_key_def reservation_key_def reservation_prefix_def new_reservation_def)
qed

end
