(* ===== verification/Release_Output.thy ===== *)
theory Release_Output
  imports Operations Reads
begin

text \<open>
  \<open>src/stado-rs/src/queue/reaper/release_output.rs\<close> with the records it reads
  (\<open>release_pipeline/records/\<close>, \<open>remote/object_store.rs\<close>): whether a release job whose worker is gone
  left a complete, self-consistent result, so that it is done and need not run again. Every record
  refuses a field it does not know.
\<close>

section \<open>The receipt of a build\<close>

datatype step_status = StepPassed | StepFailed

definition step_status_from_value :: "json \<Rightarrow> step_status option" where
  "step_status_from_value v =
     (case v of
        JStr w \<Rightarrow> if w = ''passed'' then Some StepPassed else if w = ''failed'' then Some StepFailed else None
      | JObj [(w, JNull)] \<Rightarrow>
          if w = ''passed'' then Some StepPassed else if w = ''failed'' then Some StepFailed else None
      | _ \<Rightarrow> None)"

record step_receipt =
  sr_name :: string
  sr_argv :: "string list"
  sr_status :: step_status
  sr_exit_code :: "int option"

definition step_receipt_from_value :: "json \<Rightarrow> step_receipt option" where
  "step_receipt_from_value v = do {
     o' \<leftarrow> only_keys [''name'', ''argv'', ''status'', ''exit_code''] v;
     name' \<leftarrow> required o' ''name'' as_str;
     argv \<leftarrow> required o' ''argv'' (list_of as_str);
     status \<leftarrow> required o' ''status'' step_status_from_value;
     code \<leftarrow> defaulted o' ''exit_code'' None (nullable as_i32);
     Some \<lparr>sr_name = name', sr_argv = argv, sr_status = status, sr_exit_code = code\<rparr>
   }"

record artifact_receipt =
  ar_sha256 :: string
  ar_bytes :: nat
  ar_path :: string

definition artifact_receipt_from_value :: "json \<Rightarrow> artifact_receipt option" where
  "artifact_receipt_from_value v = do {
     o' \<leftarrow> only_keys [''sha256'', ''bytes'', ''path''] v;
     digest \<leftarrow> required o' ''sha256'' as_str;
     bytes \<leftarrow> required o' ''bytes'' as_u64;
     path \<leftarrow> required o' ''path'' as_str;
     Some \<lparr>ar_sha256 = digest, ar_bytes = bytes, ar_path = path\<rparr>
   }"

record receipt_input =
  ri_uri :: string
  ri_sha256 :: string
  ri_mount :: string
  ri_extract :: bool

definition receipt_input_from_value :: "json \<Rightarrow> receipt_input option" where
  "receipt_input_from_value v = do {
     o' \<leftarrow> only_keys [''uri'', ''sha256'', ''mount'', ''extract''] v;
     uri \<leftarrow> required o' ''uri'' as_str;
     digest \<leftarrow> required o' ''sha256'' as_str;
     mount \<leftarrow> required o' ''mount'' as_str;
     extract \<leftarrow> defaulted o' ''extract'' True as_bool;
     Some \<lparr>ri_uri = uri, ri_sha256 = digest, ri_mount = mount, ri_extract = extract\<rparr>
   }"

record build_receipt =
  br_schema_version :: nat
  br_run_id :: string
  br_job_id :: string
  br_product :: string
  br_version :: string
  br_platform :: string
  br_builder :: string
  br_source_commit :: string
  br_source_sha256 :: string
  br_manifest_sha256 :: string
  br_inputs :: "(string \<times> receipt_input) list"
  br_secret_env :: "(string \<times> string) list"
  br_quality :: "step_receipt list"
  br_build :: step_receipt
  br_status :: step_status
  br_artifact :: "artifact_receipt option"
  br_completed_at :: string
  br_failure :: "string option"

definition build_receipt_from_value :: "json \<Rightarrow> build_receipt option" where
  "build_receipt_from_value v = do {
     o' \<leftarrow> only_keys [''schema_version'', ''run_id'', ''job_id'', ''product'', ''version'', ''platform'',
       ''builder'', ''source_commit'', ''source_sha256'', ''manifest_sha256'', ''inputs'', ''secret_env'',
       ''quality'', ''build'', ''status'', ''artifact'', ''completed_at'', ''failure''] v;
     schema \<leftarrow> required o' ''schema_version'' as_u32;
     run_id' \<leftarrow> required o' ''run_id'' as_str;
     job_id' \<leftarrow> required o' ''job_id'' as_str;
     product' \<leftarrow> required o' ''product'' as_str;
     version' \<leftarrow> required o' ''version'' as_str;
     platform \<leftarrow> required o' ''platform'' as_str;
     builder \<leftarrow> required o' ''builder'' as_str;
     commit \<leftarrow> required o' ''source_commit'' as_str;
     source \<leftarrow> required o' ''source_sha256'' as_str;
     manifest \<leftarrow> required o' ''manifest_sha256'' as_str;
     inputs \<leftarrow> defaulted o' ''inputs'' [] (map_of_values receipt_input_from_value);
     secrets \<leftarrow> defaulted o' ''secret_env'' [] (map_of_values as_str);
     quality \<leftarrow> required o' ''quality'' (list_of step_receipt_from_value);
     build \<leftarrow> required o' ''build'' step_receipt_from_value;
     status \<leftarrow> required o' ''status'' step_status_from_value;
     artifact \<leftarrow> defaulted o' ''artifact'' None (nullable artifact_receipt_from_value);
     completed \<leftarrow> required o' ''completed_at'' as_str;
     failure \<leftarrow> defaulted o' ''failure'' None (nullable as_str);
     Some \<lparr>br_schema_version = schema, br_run_id = run_id', br_job_id = job_id', br_product = product',
       br_version = version', br_platform = platform, br_builder = builder, br_source_commit = commit,
       br_source_sha256 = source, br_manifest_sha256 = manifest, br_inputs = inputs,
       br_secret_env = secrets, br_quality = quality, br_build = build, br_status = status,
       br_artifact = artifact, br_completed_at = completed, br_failure = failure\<rparr>
   }"

section \<open>The request of the worker\<close>

record worker_input =
  wi_uri :: string
  wi_sha256 :: string
  wi_archive_path :: string
  wi_mount :: string
  wi_extract :: bool

definition worker_input_from_value :: "json \<Rightarrow> worker_input option" where
  "worker_input_from_value v = do {
     o' \<leftarrow> only_keys [''uri'', ''sha256'', ''archive_path'', ''mount'', ''extract''] v;
     uri \<leftarrow> required o' ''uri'' as_str;
     digest \<leftarrow> required o' ''sha256'' as_str;
     archive \<leftarrow> required o' ''archive_path'' as_str;
     mount \<leftarrow> required o' ''mount'' as_str;
     extract \<leftarrow> defaulted o' ''extract'' True as_bool;
     Some \<lparr>wi_uri = uri, wi_sha256 = digest, wi_archive_path = archive, wi_mount = mount,
       wi_extract = extract\<rparr>
   }"

record worker_request =
  wr_schema_version :: nat
  wr_run_id :: string
  wr_product :: string
  wr_version :: string
  wr_platform :: string
  wr_builder :: string
  wr_source_commit :: string
  wr_source_sha256 :: string
  wr_manifest_sha256 :: string
  wr_source_archive :: string
  wr_manifest_path :: string
  wr_inputs :: "(string \<times> worker_input) list"
  wr_secret_env :: "(string \<times> string) list"

definition worker_request_from_value :: "json \<Rightarrow> worker_request option" where
  "worker_request_from_value v = do {
     o' \<leftarrow> only_keys [''schema_version'', ''run_id'', ''product'', ''version'', ''platform'', ''builder'',
       ''source_commit'', ''source_sha256'', ''manifest_sha256'', ''source_archive'', ''manifest_path'',
       ''inputs'', ''secret_env''] v;
     schema \<leftarrow> required o' ''schema_version'' as_u32;
     run_id' \<leftarrow> required o' ''run_id'' as_str;
     product' \<leftarrow> required o' ''product'' as_str;
     version' \<leftarrow> required o' ''version'' as_str;
     platform \<leftarrow> required o' ''platform'' as_str;
     builder \<leftarrow> required o' ''builder'' as_str;
     commit \<leftarrow> required o' ''source_commit'' as_str;
     source \<leftarrow> required o' ''source_sha256'' as_str;
     manifest \<leftarrow> required o' ''manifest_sha256'' as_str;
     archive \<leftarrow> required o' ''source_archive'' as_str;
     path \<leftarrow> required o' ''manifest_path'' as_str;
     inputs \<leftarrow> defaulted o' ''inputs'' [] (map_of_values worker_input_from_value);
     secrets \<leftarrow> defaulted o' ''secret_env'' [] (map_of_values as_str);
     Some \<lparr>wr_schema_version = schema, wr_run_id = run_id', wr_product = product', wr_version = version',
       wr_platform = platform, wr_builder = builder, wr_source_commit = commit, wr_source_sha256 = source,
       wr_manifest_sha256 = manifest, wr_source_archive = archive, wr_manifest_path = path,
       wr_inputs = inputs, wr_secret_env = secrets\<rparr>
   }"

section \<open>Object names\<close>

record object_ref =
  or_namespace :: string
  or_key :: string

definition trim_slashes :: "string \<Rightarrow> string" where
  "trim_slashes s = rev (dropWhile (\<lambda>c. c = CHR ''/'') (rev (dropWhile (\<lambda>c. c = CHR ''/'') s)))"

definition object_ref_new :: "string \<Rightarrow> string \<Rightarrow> storage_error + object_ref" where
  "object_ref_new namespace' key' =
     (let namespace = trim namespace'; key = trim_slashes key' in
      if namespace = ''public'' then Inl (Other ''the stado://public namespace is retired'')
      else if namespace = [] \<or>
        \<not> list_all (\<lambda>c. is_ascii_lower c \<or> is_ascii_digit c \<or> c = CHR ''-'') namespace
      then Inl (Other ''Stado object namespace must contain only lowercase letters, digits, and -'')
      else if key = [] \<or> list_ex (\<lambda>part. part = [] \<or> part = ''.'' \<or> part = ''..'') (split_on (CHR ''/'') key) \<or>
        char_of (0 :: nat) \<in> set key \<or> CHR 0x5C \<in> set key
      then Inl (PathEscape (namespace @ ''/'' @ key))
      else Inr \<lparr>or_namespace = namespace, or_key = key\<rparr>)"

definition object_ref_parse :: "string \<Rightarrow> storage_error + object_ref" where
  "object_ref_parse value' =
     (let value = trim value';
          value = (case strip_prefix value ''stado://'' of Some rest \<Rightarrow> rest | None \<Rightarrow> value)
      in case split_once (CHR ''/'') value of
           None \<Rightarrow> Inl (Other ''Stado object must be stado://<namespace>/<key> or <namespace>/<key>'')
         | Some (namespace, key) \<Rightarrow> object_ref_new namespace key)"

definition storage_path :: "object_ref \<Rightarrow> string" where
  "storage_path r = ''ecosystem/'' @ or_namespace r @ ''/'' @ or_key r"

section \<open>The evidence\<close>

text \<open>RFC 3339, else a naive instant with either separator, read as UTC.\<close>

definition parse_iso_lenient :: "lib \<Rightarrow> string \<Rightarrow> int option" where
  "parse_iso_lenient L s =
     (case parse_rfc3339 L s of
        Some t \<Rightarrow> Some t
      | None \<Rightarrow>
          (case parse_naive L ''%Y-%m-%dT%H:%M:%S%.f'' s of
             Some t \<Rightarrow> Some t
           | None \<Rightarrow> parse_naive L ''%Y-%m-%d %H:%M:%S%.f'' s))"

text \<open>The bytes of a blob are the bytes of its text.\<close>

definition read_bytes :: "string \<Rightarrow> body option storage_prog" where
  "read_bytes blob_path = download_text blob_path"

definition parsed :: "(json \<Rightarrow> 'a option) \<Rightarrow> body \<Rightarrow> 'a option" where
  "parsed read bytes = (case bytes of Json v \<Rightarrow> read v | _ \<Rightarrow> None)"

definition inputs_match :: "build_receipt \<Rightarrow> worker_request \<Rightarrow> bool" where
  "inputs_match receipt request \<longleftrightarrow>
     length (br_inputs receipt) = length (wr_inputs request) \<and>
     list_all (\<lambda>(name', input).
       case map_of (wr_inputs request) name' of
         None \<Rightarrow> False
       | Some expected \<Rightarrow>
           ri_uri input = wi_uri expected \<and> ri_sha256 input = wi_sha256 expected \<and>
           ri_mount input = wi_mount expected \<and> ri_extract input = wi_extract expected)
       (br_inputs receipt)"

definition step_passed :: "step_receipt \<Rightarrow> bool" where
  "step_passed s \<longleftrightarrow> sr_status s = StepPassed \<and> sr_exit_code s = Some 0"

definition schema_version :: nat where
  "schema_version = 1"

definition receipt_matches ::
  "build_receipt \<Rightarrow> worker_request \<Rightarrow> job \<Rightarrow> int \<Rightarrow> int \<Rightarrow> int \<Rightarrow> bool" where
  "receipt_matches receipt request j completed since t \<longleftrightarrow>
     br_schema_version receipt = schema_version \<and> wr_schema_version request = schema_version \<and>
     br_run_id receipt = wr_run_id request \<and> br_job_id receipt = job_id j \<and>
     br_product receipt = wr_product request \<and> br_version receipt = wr_version request \<and>
     br_platform receipt = wr_platform request \<and> br_builder receipt = wr_builder request \<and>
     br_source_commit receipt = wr_source_commit request \<and>
     br_source_sha256 receipt = wr_source_sha256 request \<and>
     br_manifest_sha256 receipt = wr_manifest_sha256 request \<and>
     br_secret_env receipt = wr_secret_env request \<and> inputs_match receipt request \<and>
     br_status receipt = StepPassed \<and> step_passed (br_build receipt) \<and> br_failure receipt = None \<and>
     list_all step_passed (br_quality receipt) \<and> since \<le> completed \<and> completed \<le> t"

text \<open>The request the job was submitted with: its object and the digest of its bytes.\<close>

definition request_input :: "job \<Rightarrow> (string \<times> string) option" where
  "request_input j = do {
     input \<leftarrow> Option.bind (obj_get (resolved_input_artifacts j) ''request'') as_object;
     path \<leftarrow> Option.bind (obj_get input ''relative_path'') as_str;
     if path \<noteq> ''release-request.json'' then None else do {
       uri \<leftarrow> Option.bind (obj_get input ''stado_uri'') as_str;
       digest \<leftarrow> Option.bind (obj_get input ''sha256'') as_str;
       Some (uri, digest)
     }
   }"

definition receipt_path :: "string \<Rightarrow> string" where
  "receipt_path id' = ''status/'' @ id' @ ''/output/receipt.json''"

definition archive_path :: "string \<Rightarrow> string" where
  "archive_path id' = ''status/'' @ id' @ ''/output/release.tar.gz''"

text \<open>The canonical archive has the length and the digest its receipt states.\<close>

definition archive_agrees :: "lib \<Rightarrow> artifact_receipt \<Rightarrow> body \<Rightarrow> bool" where
  "archive_agrees L artifact archive \<longleftrightarrow>
     byte_length L archive = ar_bytes artifact \<and> sha256_hex L archive = ar_sha256 artifact"

definition accept_archive :: "lib \<Rightarrow> job \<Rightarrow> build_receipt \<Rightarrow> string option storage_prog" where
  "accept_archive L j receipt =
     (case br_artifact receipt of
        None \<Rightarrow> ok None
      | Some artifact \<Rightarrow>
          if ar_path artifact \<noteq> ''release.tar.gz'' then ok None
          else
            bindE (read_bytes (archive_path (job_id j))) (\<lambda>found.
              ok (case found of
                    None \<Rightarrow> None
                  | Some archive \<Rightarrow>
                      if archive_agrees L artifact archive then Some (br_completed_at receipt) else None)))"

definition accept_receipt ::
  "lib \<Rightarrow> job \<Rightarrow> int \<Rightarrow> int \<Rightarrow> build_receipt \<Rightarrow> body \<Rightarrow> string option storage_prog" where
  "accept_receipt L j since t receipt request_bytes =
     (case parsed worker_request_from_value request_bytes of
        None \<Rightarrow> ok None
      | Some request \<Rightarrow>
          (case parse_iso_lenient L (br_completed_at receipt) of
             None \<Rightarrow> ok None
           | Some completed \<Rightarrow>
               if \<not> receipt_matches receipt request j completed since t then ok None
               else accept_archive L j receipt))"

text \<open>\<open>namespace\<close> is the configured storage namespace of the queue, empty when none is configured.\<close>

definition verified_release_completion ::
  "lib \<Rightarrow> string \<Rightarrow> job \<Rightarrow> int \<Rightarrow> int \<Rightarrow> string option storage_prog" where
  "verified_release_completion L namespace j since t =
     bindE (read_bytes (receipt_path (job_id j))) (\<lambda>found.
       case Option.bind found (parsed build_receipt_from_value) of
         None \<Rightarrow> ok None
       | Some receipt \<Rightarrow>
           (case request_input j of
              None \<Rightarrow> ok None
            | Some (uri, digest) \<Rightarrow>
                (case object_ref_parse uri of
                   Inl _ \<Rightarrow> ok None
                 | Inr object' \<Rightarrow>
                     if namespace \<noteq> [] \<and> or_namespace object' \<noteq> namespace then ok None
                     else
                       bindE (read_bytes (storage_path object')) (\<lambda>request_found.
                         case request_found of
                           None \<Rightarrow> ok None
                         | Some request_bytes \<Rightarrow>
                             if sha256_hex L request_bytes \<noteq> digest then ok None
                             else accept_receipt L j since t receipt request_bytes))))"

end
