(* ===== verification/Liveness.thy ===== *)
theory Liveness
  imports Release_Output
begin

text \<open>
  \<open>src/stado-rs/src/monitor/heartbeat_guard/\<close>: whether a running job is alive, judged by the promise
  its worker wrote into the job document and by what was written for the job after that promise (its
  pulse, a shard of its checkpoint). What cannot be read keeps the job.
\<close>

section \<open>The checkpoint prefix\<close>

definition checkpoint_flag :: string where
  "checkpoint_flag = ''--checkpoint-gcs-uri''"

text \<open>The leftmost match of the flag, blanks, and a word: that word.\<close>

fun checkpoint_uri :: "string \<Rightarrow> string option" where
  "checkpoint_uri [] = None"
| "checkpoint_uri (c # cs) =
     (let s = c # cs; rest = drop (length checkpoint_flag) s;
          uri = takeWhile (\<lambda>c. \<not> is_space c) (trim_start rest)
      in if starts_with s checkpoint_flag \<and> rest \<noteq> [] \<and> is_space (hd rest) \<and> uri \<noteq> [] then Some uri
         else checkpoint_uri cs)"

definition ckpt_prefix_from_command :: "string \<Rightarrow> string option" where
  "ckpt_prefix_from_command cmd =
     (if cmd = [] then None
      else Option.bind (checkpoint_uri cmd) (\<lambda>uri.
           Option.bind (strip_prefix (trim uri) ''gs://'') (\<lambda>rest.
           Option.bind (split_once (CHR ''/'') rest) (\<lambda>(_, prefix').
             if prefix' = [] then None else Some prefix'))))"

definition checkpoint_written_after :: "string \<Rightarrow> int \<Rightarrow> bool prog" where
  "checkpoint_written_after cmd since =
     (case ckpt_prefix_from_command cmd of
        None \<Rightarrow> Ret False
      | Some prefix' \<Rightarrow>
          bindp (list_blobs_sized prefix') (\<lambda>r.
            Ret (case r of
                   Inl _ \<Rightarrow> True
                 | Inr infos \<Rightarrow> list_ex (\<lambda>info. pred_option (\<lambda>u. since < u) (bi_updated info) \<and>
                     bi_updated info \<noteq> None) infos)))"

section \<open>The verdict\<close>

datatype job_liveness = Promised int | WrittenAfter int | Lapsed int | Unpromised

definition alive :: "job_liveness \<Rightarrow> bool" where
  "alive v \<longleftrightarrow> (case v of Lapsed _ \<Rightarrow> False | _ \<Rightarrow> True)"

definition heartbeat_path :: "string \<Rightarrow> string" where
  "heartbeat_path id' = ''status/'' @ id' @ ''/heartbeat''"

definition status_path :: "string \<Rightarrow> string" where
  "status_path id' = ''status/'' @ id' @ ''/status''"

text \<open>The promise: a recorded, non-empty, readable instant.\<close>

definition lease_promise :: "lib \<Rightarrow> job \<Rightarrow> int option" where
  "lease_promise L j =
     Option.bind (lease_expires_at j) (\<lambda>v. if v = [] then None else parse_iso_lenient L v)"

definition job_liveness_at :: "lib \<Rightarrow> job \<Rightarrow> int \<Rightarrow> job_liveness prog" where
  "job_liveness_at L j t =
     (case lease_promise L j of
        None \<Rightarrow> Ret Unpromised
      | Some expires \<Rightarrow>
          if t < expires then Ret (Promised expires)
          else
            bindp (updated_at (heartbeat_path (job_id j))) (\<lambda>pulse.
              if (case pulse of Inl _ \<Rightarrow> True | Inr None \<Rightarrow> False | Inr (Some u) \<Rightarrow> expires < u)
              then Ret (WrittenAfter expires)
              else
                bindp (checkpoint_written_after (command j) expires) (\<lambda>shard.
                  Ret (if shard then WrittenAfter expires else Lapsed expires))))"

text \<open>Whether any of the jobs is running and alive; a record that cannot be read is.\<close>

fun any_job_alive :: "lib \<Rightarrow> string list \<Rightarrow> int \<Rightarrow> bool prog" where
  "any_job_alive L [] t = Ret False"
| "any_job_alive L (id' # ids) t =
     (if id' = [] then any_job_alive L ids t
      else
        bindp (download_text (job_path ''running'' id')) (\<lambda>r.
          case r of
            Inl _ \<Rightarrow> Ret True
          | Inr None \<Rightarrow> any_job_alive L ids t
          | Inr (Some text') \<Rightarrow>
              if text' = Raw [] then any_job_alive L ids t
              else
                bindp (from_json L text') (\<lambda>read.
                  case read of
                    Inl _ \<Rightarrow> Ret True
                  | Inr j \<Rightarrow>
                      bindp (job_liveness_at L j t) (\<lambda>v.
                        if alive v then Ret True else any_job_alive L ids t))))"

section \<open>Lemmas\<close>

lemma all_calls_liveness [intro]:
  "P Observe \<Longrightarrow> all_calls P (checkpoint_written_after cmd since)"
  "P Observe \<Longrightarrow> all_calls P (job_liveness_at L j t)"
  by (auto simp: checkpoint_written_after_def job_liveness_at_def intro!: all_calls_bindp
      split: option.splits if_splits)

text \<open>A job whose promise has not passed is never seen as lapsed, nor is one without a promise.\<close>

lemma liveness_lapsed:
  assumes "run L B (job_liveness_at L j t) w = (Lapsed at', w')"
  shows "lease_promise L j = Some at' \<and> at' \<le> t \<and>
    (case fst (run L B (updated_at (heartbeat_path (job_id j))) w) of
       Inr None \<Rightarrow> True | Inr (Some u) \<Rightarrow> u \<le> at' | Inl _ \<Rightarrow> False)"
  using assms
  by (auto simp: job_liveness_at_def run_simps facade_defs split: option.splits if_splits sum.splits prod.splits)

lemma liveness_reads_only: "snd (run L B (job_liveness_at L j t) w) = w"
  by (auto simp: job_liveness_at_def checkpoint_written_after_def run_simps facade_defs list_blobs_sized_def
      split: option.splits prod.splits)

end
