(* ===== verification/Migrations.thy ===== *)
theory Migrations
  imports Operations
begin

text \<open>
  \<open>src/stado-rs/src/queue/migrations/\<close>: the repair of the priority index. Every sweep writes the
  marker a queued job is missing, drops the superseded ones of that job, and prunes the markers that
  name no queued job; the sentinel records that a sweep has covered the queue. A set of names is the
  list of the listing that gave it.
\<close>

section \<open>The sentinel\<close>

definition sentinel_path :: string where
  "sentinel_path = ''queue_priority/.migration.json''"

definition coverage :: string where
  "coverage = ''all-queued-integer-priority''"

definition read_sentinel :: "bool storage_prog" where
  "read_sentinel =
     bindE (download_text sentinel_path) (\<lambda>found.
       case found of
         None \<Rightarrow> ok False
       | Some (Json v) \<Rightarrow>
           if get_str v ''coverage'' \<noteq> Some coverage then ok False
           else (case get_key v ''done'' of
                   None \<Rightarrow> ok False
                 | Some JNull \<Rightarrow> ok False
                 | Some (JBool done') \<Rightarrow> ok done'
                 | Some _ \<Rightarrow> fail (Other ''the migration sentinel holds no boolean''))
       | Some raw \<Rightarrow> if raw = Raw [] then ok False else fail JsonError)"

definition has_swept :: "bool storage_prog" where
  "has_swept = read_sentinel"

definition write_sentinel :: "string \<Rightarrow> bool \<Rightarrow> unit storage_prog" where
  "write_sentinel cursor done' =
     upload_text sentinel_path (Json (JObj [(''cursor'', JStr cursor), (''done'', JBool done'),
       (''coverage'', JStr coverage)]))"

section \<open>The sweep\<close>

definition existing_marker_names :: "string list storage_prog" where
  "existing_marker_names =
     bindE (list_paths marker_prefix Every) (\<lambda>paths. ok (filter is_marker paths))"

definition id_suffix :: "string \<Rightarrow> string" where
  "id_suffix id' = ''-'' @ id' @ ''.json''"

definition prune_stale_markers :: "string list \<Rightarrow> string list \<Rightarrow> nat storage_prog" where
  "prune_stale_markers have queued_ids =
     (let stale = sort (filter (\<lambda>path. path \<noteq> sentinel_path \<and> is_marker path \<and>
            \<not> list_ex (\<lambda>id'. ends_with path (id_suffix id')) queued_ids) have)
      in bindE (delete_each (\<lambda>_. True) stale) (\<lambda>_. ok (length stale)))"

text \<open>One queued document: its marker is written when missing, its other markers are dropped.\<close>

definition repair_marker :: "string list \<Rightarrow> job \<Rightarrow> unit storage_prog" where
  "repair_marker have j =
     bindE (if marker_path j \<in> set have then ok () else write_marker j) (\<lambda>_.
       delete_each (\<lambda>path. path \<noteq> marker_path j \<and> ends_with path (id_suffix (job_id j))) have)"

fun repair_each :: "lib \<Rightarrow> string list \<Rightarrow> body option list \<Rightarrow> unit storage_prog" where
  "repair_each L have [] = ok ()"
| "repair_each L have (None # bodies) = repair_each L have bodies"
| "repair_each L have (Some text' # bodies) =
     (if text' = Raw [] then repair_each L have bodies
      else
        bindE (from_json L text') (\<lambda>j.
          if state j \<noteq> ''queued'' then repair_each L have bodies
          else bindE (repair_marker have j) (\<lambda>_. repair_each L have bodies)))"

definition path_job_id :: "string \<Rightarrow> string option" where
  "path_job_id path = strip_suffix (last (split_on (CHR ''/'') path)) ''.json''"

definition backfill_priority_markers :: "lib \<Rightarrow> bool storage_prog" where
  "backfill_priority_markers L =
     bindE existing_marker_names (\<lambda>have.
     bindE (list_paths ''queue/'' Every) (\<lambda>all.
       let paths = filter (\<lambda>p. ends_with p ''.json'') all; queued_ids = List.map_filter path_job_id paths
       in bindE (download_chunk paths) (\<lambda>bodies.
          bindE (repair_each L have bodies) (\<lambda>_.
          bindE (prune_stale_markers have queued_ids) (\<lambda>_.
          bindE (write_sentinel [] True) (\<lambda>_. ok True))))))"

section \<open>Canonical ids do not end one another\<close>

lemma canonical_suffix:
  assumes "is_canonical_job_id (job_id j)" "is_canonical_job_id id'" "ends_with (marker_path j) (id_suffix id')"
  shows "job_id j = id'"
proof -
  have len: "length (job_id j) = length id'"
    using assms(1,2)
    by (auto simp: is_canonical_job_id_def strip_prefix_Some_iff split: option.splits)
  obtain y where "marker_path j = y @ id_suffix id'"
    using assms(3) by (auto simp: ends_with_iff)
  then have "(marker_prefix @ priority_key j) @ id_suffix (job_id j) = y @ id_suffix id'"
    by (simp add: marker_path_def id_suffix_def)
  then have "id_suffix (job_id j) = id_suffix id'"
    by (rule append_eq_append_conv [THEN iffD1, THEN conjunct2, rotated]) (simp add: id_suffix_def len)
  then show ?thesis by (simp add: id_suffix_def)
qed

lemma marker_own_suffix: "ends_with (marker_path j) (id_suffix (job_id j))"
  by (auto simp: ends_with_iff marker_path_def id_suffix_def intro!: exI [of _ "marker_prefix @ priority_key j"])

lemma to_json_inject:
  assumes "to_json j = to_json k" "sound_job j" "sound_job k"
  shows "j = k"
proof -
  have "job_to_value j = job_to_value k"
    using assms(1) by (simp add: to_json_def)
  then show ?thesis
    using job_roundtrip [of j] job_roundtrip [of k] assms(2,3) by (metis option.inject sound_job_def)
qed

lemma to_json_not_raw [simp]: "to_json j \<noteq> Raw s"
  by (simp add: to_json_def)

text \<open>Every document of the queue is a sound job, and a queued one is named by its own canonical id.\<close>

definition queue_in_order :: "(string \<Rightarrow> bool) \<Rightarrow> ('s \<Rightarrow> string \<Rightarrow> body option) \<Rightarrow> 's \<Rightarrow> bool" where
  "queue_in_order good view s \<longleftrightarrow>
     (\<forall>p t. good p \<longrightarrow> starts_with p ''queue/'' \<longrightarrow> view s p = Some t \<longrightarrow> ends_with p ''.json'' \<longrightarrow>
       (\<exists>j. sound_job j \<and> t = to_json j \<and>
         (state j = ''queued'' \<longrightarrow>
           is_canonical_job_id (job_id j) \<and> p = job_path (prefix_as_str Queue) (job_id j))))"

definition queued_in :: "('s \<Rightarrow> string \<Rightarrow> body option) \<Rightarrow> 's \<Rightarrow> job \<Rightarrow> bool" where
  "queued_in view s j \<longleftrightarrow> sound_job j \<and> state j = ''queued'' \<and>
     view s (job_path (prefix_as_str Queue) (job_id j)) = Some (to_json j)"

lemma sentinel_not_marker: "\<not> is_marker sentinel_path"
  by (simp add: is_marker_def sentinel_path_def starts_with_def)

lemma marker_not_sentinel: "marker_path j \<noteq> sentinel_path"
proof
  assume "marker_path j = sentinel_path"
  then have "hex_digits 16 (nat \<bar>priority j - i64_max\<bar>) @ ''-'' @ created_at j @ ''-'' @ job_id j @ ''.json'' =
      ''.migration.json''"
    by (simp add: marker_path_def marker_prefix_def sentinel_path_def priority_key_def)
  then have "CHR ''.'' \<in> set (hex_digits 16 (nat \<bar>priority j - i64_max\<bar>))"
    using length_hex_digits [of 16 "nat \<bar>priority j - i64_max\<bar>"]
    by (cases "hex_digits 16 (nat \<bar>priority j - i64_max\<bar>)") auto
  then show False
    using lower_hex_digits [of 16 "nat \<bar>priority j - i64_max\<bar>"]
    by (auto simp: list_all_iff is_lower_hex_def is_ascii_digit_def Let_def)
qed

lemma path_job_id_queue: "no_slash id' \<Longrightarrow> path_job_id (job_path (prefix_as_str Queue) id') = Some id'"
  using split_on_append_sep [of "CHR ''/''" "''queue''" "id' @ ''.json''"]
    split_on_no_sep [of "CHR ''/''" "id' @ ''.json''"]
  by (simp add: path_job_id_def job_path_def prefix_words strip_suffix_Some_iff no_slash_def del: queue_words)

text \<open>The queued jobs among documents that were read.\<close>

definition queued_of :: "body option list \<Rightarrow> job set" where
  "queued_of bodies = {j. sound_job j \<and> state j = ''queued'' \<and> Some (to_json j) \<in> set bodies}"

section \<open>The sweep repairs the index\<close>

context lifecycle_store
begin

lemma run_download_chunk:
  assumes "ready (disk w)" "\<And>p. p \<in> set ps \<Longrightarrow> good p"
  shows "run L B (download_chunk ps) w = (Inr (map (view (disk w)) ps), w)"
  using assms by (induction ps) (auto simp: run_simps run_calls)

lemma run_repair_marker:
  assumes "ready (disk w)" "\<And>p. p \<in> set have \<Longrightarrow> good p" "good (marker_path j)"
    and "marker_path j \<in> set have \<Longrightarrow> view (disk w) (marker_path j) \<noteq> None"
  obtains w' where "run L B (repair_marker have j) w = (Inr (), w')" "ready (disk w')"
    and "\<And>x. good x \<Longrightarrow> view (disk w') x \<noteq> None \<longleftrightarrow> x = marker_path j \<or>
      view (disk w) x \<noteq> None \<and> \<not> (x \<in> set have \<and> ends_with x (id_suffix (job_id j)))"
    and "\<And>x. good x \<Longrightarrow> x \<notin> set have \<Longrightarrow> x \<noteq> marker_path j \<Longrightarrow> view (disk w') x = view (disk w) x"
proof -
  obtain w1 where w1: "run L B (if marker_path j \<in> set have then ok () else write_marker j) w = (Inr (), w1)"
      "ready (disk w1)" "view (disk w1) (marker_path j) \<noteq> None"
      "\<And>x. good x \<Longrightarrow> x \<noteq> marker_path j \<Longrightarrow> view (disk w1) x = view (disk w) x"
  proof (cases "marker_path j \<in> set have")
    case True
    then show thesis using that [of w] assms by simp
  next
    case False
    then show thesis
      using that [of "snd (run L B (write_marker j) w)"] assms
      by (simp add: write_marker_def run_calls store_simps)
  qed
  let ?P = "\<lambda>path. path \<noteq> marker_path j \<and> ends_with path (id_suffix (job_id j))"
  obtain w' where w': "run L B (delete_each ?P have) w1 = (Inr (), w')" "ready (disk w')"
      "\<And>x. good x \<Longrightarrow> view (disk w') x = (if x \<in> set have \<and> ?P x then None else view (disk w1) x)"
    using run_delete_each [OF w1(2) assms(2), of "have" ?P] by blast
  show thesis
  proof (rule that)
    show "run L B (repair_marker have j) w = (Inr (), w')"
      unfolding repair_marker_def run_bindE w1(1) by (simp add: w'(1))
    show "ready (disk w')" by (rule w'(2))
    show "view (disk w') x \<noteq> None \<longleftrightarrow> x = marker_path j \<or>
        view (disk w) x \<noteq> None \<and> \<not> (x \<in> set have \<and> ends_with x (id_suffix (job_id j)))" if "good x" for x
      using that w1(3,4) w'(3) by (cases "x = marker_path j") auto
    show "view (disk w') x = view (disk w) x" if "good x" "x \<notin> set have" "x \<noteq> marker_path j" for x
      using that w1(4) w'(3) by auto
  qed
qed

lemma run_repair_each:
  assumes "ready (disk w)" "\<And>p. p \<in> set have \<Longrightarrow> good p"
    and "\<And>t. Some t \<in> set bodies \<Longrightarrow> \<exists>j. sound_job j \<and> t = to_json j"
    and "\<And>j k. j \<in> queued_of bodies \<Longrightarrow> k \<in> queued_of bodies \<Longrightarrow>
      ends_with (marker_path j) (id_suffix (job_id k)) \<Longrightarrow> j = k"
    and "\<And>j. j \<in> queued_of bodies \<Longrightarrow> marker_path j \<in> set have \<Longrightarrow> view (disk w) (marker_path j) \<noteq> None"
  shows "\<exists>w'. run L B (repair_each L have bodies) w = (Inr (), w') \<and> ready (disk w') \<and>
    (\<forall>x. good x \<longrightarrow> (view (disk w') x \<noteq> None \<longleftrightarrow> x \<in> marker_path ` queued_of bodies \<or>
      view (disk w) x \<noteq> None \<and>
        \<not> (x \<in> set have \<and> (\<exists>k \<in> queued_of bodies. ends_with x (id_suffix (job_id k)))))) \<and>
    (\<forall>x. good x \<longrightarrow> x \<notin> set have \<longrightarrow> x \<notin> marker_path ` queued_of bodies \<longrightarrow>
      view (disk w') x = view (disk w) x)"
  using assms
proof (induction bodies arbitrary: w)
  case Nil
  then show ?case by (simp add: queued_of_def)
next
  case (Cons body bodies)
  have sub: "queued_of bodies \<subseteq> queued_of (body # bodies)"
    by (auto simp: queued_of_def)
  show ?case
  proof (cases "\<exists>j. body = Some (to_json j) \<and> sound_job j \<and> state j = ''queued''")
    case False
    then have same: "queued_of (body # bodies) = queued_of bodies"
      by (auto simp: queued_of_def)
    have "run L B (repair_each L have (body # bodies)) w = run L B (repair_each L have bodies) w"
    proof (cases body)
      case (Some t)
      then obtain j where "sound_job j" "t = to_json j" using Cons.prems(3) by auto
      then show ?thesis
        using False Some by (simp add: run_simps)
    qed simp
    then show ?thesis
      using Cons.IH [OF Cons.prems(1,2)] Cons.prems(3-5) same by simp
  next
    case True
    then obtain j where j: "body = Some (to_json j)" "sound_job j" "state j = ''queued''" by blast
    then have q: "queued_of (body # bodies) = insert j (queued_of bodies)"
      by (auto simp: queued_of_def dest!: arg_cong [where f = "\<lambda>t. run L B (from_json L t) w"])
    have good_j: "good (marker_path j)"
      using j(2) by (simp add: good_marker sound_job_def)
    obtain w1 where w1: "run L B (repair_marker have j) w = (Inr (), w1)" "ready (disk w1)"
      and v1: "\<And>x. good x \<Longrightarrow> view (disk w1) x \<noteq> None \<longleftrightarrow> x = marker_path j \<or>
        view (disk w) x \<noteq> None \<and> \<not> (x \<in> set have \<and> ends_with x (id_suffix (job_id j)))"
      and f1: "\<And>x. good x \<Longrightarrow> x \<notin> set have \<Longrightarrow> x \<noteq> marker_path j \<Longrightarrow> view (disk w1) x = view (disk w) x"
      using run_repair_marker [OF Cons.prems(1,2) good_j] Cons.prems(5) q by (metis insertI1)
    have kept: "view (disk w1) (marker_path k) \<noteq> None"
      if "k \<in> queued_of bodies" "marker_path k \<in> set have" for k
    proof -
      have "ends_with (marker_path k) (id_suffix (job_id j)) \<Longrightarrow> k = j"
        using Cons.prems(4) q that(1) by blast
      moreover have "good (marker_path k)"
        using that(1) by (auto simp: queued_of_def good_marker sound_job_def)
      ultimately show ?thesis
        using v1 Cons.prems(5) [of k] that q by auto
    qed
    have docs: "\<And>t. Some t \<in> set bodies \<Longrightarrow> \<exists>j. sound_job j \<and> t = to_json j"
      using Cons.prems(3) by simp
    have cross: "\<And>a b. a \<in> queued_of bodies \<Longrightarrow> b \<in> queued_of bodies \<Longrightarrow>
        ends_with (marker_path a) (id_suffix (job_id b)) \<Longrightarrow> a = b"
      using Cons.prems(4) q by blast
    obtain w' where w': "run L B (repair_each L have bodies) w1 = (Inr (), w')" "ready (disk w')"
      and v': "\<forall>x. good x \<longrightarrow> (view (disk w') x \<noteq> None \<longleftrightarrow> x \<in> marker_path ` queued_of bodies \<or>
        view (disk w1) x \<noteq> None \<and>
        \<not> (x \<in> set have \<and> (\<exists>k \<in> queued_of bodies. ends_with x (id_suffix (job_id k)))))"
      and f': "\<forall>x. good x \<longrightarrow> x \<notin> set have \<longrightarrow> x \<notin> marker_path ` queued_of bodies \<longrightarrow>
        view (disk w') x = view (disk w1) x"
      using Cons.IH [OF w1(2) Cons.prems(2) docs cross kept] by blast
    have step: "run L B (repair_each L have (body # bodies)) w = (Inr (), w')"
      using j w1(1) w'(1) by (simp add: run_simps)
    have own: "ends_with (marker_path j) (id_suffix (job_id k)) \<Longrightarrow> k \<in> queued_of bodies \<Longrightarrow> k = j" for k
      using Cons.prems(4) q by blast
    have "view (disk w') x \<noteq> None \<longleftrightarrow> x \<in> marker_path ` queued_of (body # bodies) \<or>
        view (disk w) x \<noteq> None \<and>
        \<not> (x \<in> set have \<and> (\<exists>k \<in> queued_of (body # bodies). ends_with x (id_suffix (job_id k))))"
      if "good x" for x
    proof (cases "x = marker_path j")
      case True
      then have "view (disk w') x \<noteq> None"
        using v' v1 [OF that] that own by blast
      then show ?thesis using True q by blast
    next
      case False
      then show ?thesis
        unfolding q using v' [rule_format, OF that] v1 [OF that] by auto
    qed
    moreover have "view (disk w') x = view (disk w) x"
      if "good x" "x \<notin> set have" "x \<notin> marker_path ` queued_of (body # bodies)" for x
      using f' f1 that q by auto
    ultimately show ?thesis using step w'(2) by blast
  qed
qed

text \<open>
  A sweep that nobody interferes with leaves the index exact: every queued job has its marker, no
  other marker of a queued job stands, no marker names a job the queue does not hold, and nothing
  outside of the index is touched.
\<close>

lemma run_backfill:
  assumes rdy: "ready (disk w)" and ordered: "queue_in_order good view (disk w)"
    and bounds: "boundary ''queue/''" and sentinel: "good sentinel_path"
  shows "\<exists>w'. run L B (backfill_priority_markers L) w = (Inr True, w') \<and> ready (disk w') \<and>
    (\<forall>j. queued_in view (disk w) j \<longrightarrow> view (disk w') (marker_path j) \<noteq> None) \<and>
    (\<forall>x j. good x \<longrightarrow> starts_with x marker_prefix \<longrightarrow> is_marker x \<longrightarrow> view (disk w') x \<noteq> None \<longrightarrow>
      queued_in view (disk w) j \<longrightarrow> ends_with x (id_suffix (job_id j)) \<longrightarrow> x = marker_path j) \<and>
    (\<forall>x. good x \<longrightarrow> starts_with x marker_prefix \<longrightarrow> is_marker x \<longrightarrow> view (disk w') x \<noteq> None \<longrightarrow>
      (\<exists>p id'. good p \<and> starts_with p ''queue/'' \<and> view (disk w) p \<noteq> None \<and> path_job_id p = Some id' \<and>
        ends_with x (id_suffix id'))) \<and>
    (\<forall>x. good x \<longrightarrow> \<not> starts_with x marker_prefix \<longrightarrow> view (disk w') x = view (disk w) x)"
proof -
  obtain all where all: "run L B (list_paths marker_prefix Every) w = (Inr all, w)"
    and allD: "\<And>p. p \<in> set all \<Longrightarrow> good p \<and> starts_with p marker_prefix \<and> view (disk w) p \<noteq> None"
    and allI: "\<And>p. boundary marker_prefix \<Longrightarrow> good p \<Longrightarrow> starts_with p marker_prefix \<Longrightarrow>
      view (disk w) p \<noteq> None \<Longrightarrow> p \<in> set all"
    by (rule run_list_paths [OF rdy, of L marker_prefix]) blast
  obtain docs where docs: "run L B (list_paths ''queue/'' Every) w = (Inr docs, w)"
    and docsD: "\<And>p. p \<in> set docs \<Longrightarrow> good p \<and> starts_with p ''queue/'' \<and> view (disk w) p \<noteq> None"
    and docsI: "\<And>p. boundary ''queue/'' \<Longrightarrow> good p \<Longrightarrow> starts_with p ''queue/'' \<Longrightarrow>
      view (disk w) p \<noteq> None \<Longrightarrow> p \<in> set docs"
    by (rule run_list_paths [OF rdy, of L "''queue/''"]) blast
  note allI = allI [OF marker_boundary] and docsI = docsI [OF bounds]
  define known where "known = filter is_marker all"
  define paths where "paths = filter (\<lambda>p. ends_with p ''.json'') docs"
  define bodies where "bodies = map (view (disk w)) paths"
  define ids where "ids = List.map_filter path_job_id paths"
  have scan: "run L B existing_marker_names w = (Inr known, w)"
    by (simp add: existing_marker_names_def run_simps all known_def)
  have chunk: "run L B (download_chunk paths) w = (Inr bodies, w)"
    unfolding bodies_def by (rule run_download_chunk [OF rdy]) (use docsD in \<open>auto simp: paths_def\<close>)
  have knownD: "good p" if "p \<in> set known" for p
    using that allD by (auto simp: known_def)
  have body_path: "\<exists>p. p \<in> set docs \<and> ends_with p ''.json'' \<and> view (disk w) p = Some t"
    if "Some t \<in> set bodies" for t
    using that by (auto simp: bodies_def paths_def dest!: sym [of "Some t"])
  have sound: "\<exists>j. sound_job j \<and> t = to_json j" if read: "Some t \<in> set bodies" for t
  proof -
    obtain p where p: "p \<in> set docs" "ends_with p ''.json''" "view (disk w) p = Some t"
      using body_path [OF read] by blast
    then show ?thesis
      using ordered docsD [OF p(1)] unfolding queue_in_order_def by blast
  qed
  have doc_path: "job_path (prefix_as_str Queue) (job_id j) \<in> set paths" if "queued_in view (disk w) j" for j
    using that docsI good_job [of "job_id j" Queue]
    by (auto simp: queued_in_def paths_def sound_job_def job_path_def starts_with_iff ends_with_iff prefix_words
        simp del: queue_words intro!: exI [of _ "''queue/'' @ job_id j"])
  have queued: "j \<in> queued_of bodies \<longleftrightarrow> queued_in view (disk w) j" for j
  proof
    assume j: "j \<in> queued_of bodies"
    then obtain p where p: "p \<in> set docs" "ends_with p ''.json''" "view (disk w) p = Some (to_json j)"
      using body_path [of "to_json j"] by (auto simp: queued_of_def)
    then obtain k where "sound_job k" "to_json j = to_json k"
      and k: "state k = ''queued'' \<longrightarrow> p = job_path (prefix_as_str Queue) (job_id k)"
      using ordered docsD [OF p(1)] unfolding queue_in_order_def by blast
    then have "j = k" using j by (auto simp: queued_of_def dest: to_json_inject)
    then show "queued_in view (disk w) j"
      using j p(3) k by (auto simp: queued_of_def queued_in_def)
  next
    assume "queued_in view (disk w) j"
    then show "j \<in> queued_of bodies"
      using doc_path by (force simp: queued_of_def queued_in_def bodies_def)
  qed
  have canonical: "is_canonical_job_id (job_id j)" if j: "queued_in view (disk w) j" for j
  proof -
    obtain k where "sound_job k" "to_json j = to_json k" "state k = ''queued'' \<longrightarrow> is_canonical_job_id (job_id k)"
      using j docsD doc_path [OF j]
        ordered [unfolded queue_in_order_def, rule_format, of "job_path (prefix_as_str Queue) (job_id j)" "to_json j"]
      unfolding queued_in_def paths_def by auto
    then show ?thesis using j to_json_inject [of j k] by (auto simp: queued_in_def)
  qed
  have own: "j = k" if "queued_in view (disk w) j" "queued_in view (disk w) k"
      "ends_with (marker_path j) (id_suffix (job_id k))" for j k
  proof -
    have "job_id j = job_id k"
      by (rule canonical_suffix [OF canonical canonical]) (use that in auto)
    then show ?thesis
      using that to_json_inject [of j k] by (auto simp: queued_in_def)
  qed
  have present: "view (disk w) (marker_path j) \<noteq> None" if "marker_path j \<in> set known" for j
    using that allD by (auto simp: known_def)
  obtain w1 where w1: "run L B (repair_each L known bodies) w = (Inr (), w1)" "ready (disk w1)"
    and v1: "\<And>x. good x \<Longrightarrow> view (disk w1) x \<noteq> None \<longleftrightarrow> x \<in> marker_path ` queued_of bodies \<or>
      view (disk w) x \<noteq> None \<and>
        \<not> (x \<in> set known \<and> (\<exists>k \<in> queued_of bodies. ends_with x (id_suffix (job_id k))))"
    and f1: "\<And>x. good x \<Longrightarrow> x \<notin> set known \<Longrightarrow> x \<notin> marker_path ` queued_of bodies \<Longrightarrow>
      view (disk w1) x = view (disk w) x"
    using run_repair_each [OF rdy knownD sound] own [folded queued] present by blast
  let ?live = "\<lambda>path. list_ex (\<lambda>id'. ends_with path (id_suffix id')) ids"
  define stale where "stale = sort (filter (\<lambda>path. path \<noteq> sentinel_path \<and> is_marker path \<and> \<not> ?live path) known)"
  have stale_good: "\<And>p. p \<in> set stale \<Longrightarrow> good p"
    using knownD by (auto simp: stale_def)
  obtain w2 where w2: "run L B (delete_each (\<lambda>_. True) stale) w1 = (Inr (), w2)" "ready (disk w2)"
    and v2: "\<And>x. good x \<Longrightarrow> view (disk w2) x = (if x \<in> set stale then None else view (disk w1) x)"
    using run_delete_each [OF w1(2) stale_good, of stale "\<lambda>_. True"] by auto
  define w3 where "w3 = snd (run L B (write_sentinel [] True) w2)"
  have w3: "run L B (write_sentinel [] True) w2 = (Inr (), w3)"
    using w2(2) sentinel by (simp add: w3_def write_sentinel_def run_calls)
  have v3: "view (disk w3) x = view (disk w2) x" if "good x" "x \<noteq> sentinel_path" for x
    using that w2(2) sentinel by (simp add: w3_def write_sentinel_def run_calls store_simps)
  have run: "run L B (backfill_priority_markers L) w = (Inr True, w3)"
    using scan docs chunk w1(1) w2(1) w3
    by (simp add: backfill_priority_markers_def prune_stale_markers_def run_simps Let_def
        flip: paths_def ids_def stale_def)
  have rdy3: "ready (disk w3)"
    using w2(2) sentinel by (simp add: w3_def write_sentinel_def run_calls store_simps)
  have no_sentinel: "x \<noteq> sentinel_path" if "is_marker x" for x
    using that sentinel_not_marker by blast
  have id_live: "job_id j \<in> set ids" if "queued_in view (disk w) j" for j
    using doc_path [OF that] path_job_id_queue [of "job_id j"] that
    by (force simp: ids_def List.map_filter_def queued_in_def sound_job_def)
  have marker_kept: "view (disk w3) (marker_path j) \<noteq> None" if j: "queued_in view (disk w) j" for j
  proof -
    have good_j: "good (marker_path j)"
      using j by (simp add: queued_in_def good_marker sound_job_def)
    have "marker_path j \<notin> set stale"
      using id_live [OF j] marker_own_suffix [of j] by (auto simp: stale_def list_ex_iff)
    moreover have "view (disk w1) (marker_path j) \<noteq> None"
      using v1 [OF good_j] queued j by blast
    ultimately show ?thesis
      using v2 [OF good_j] v3 [OF good_j] marker_not_sentinel by simp
  qed
  have left: "view (disk w1) x \<noteq> None \<and> x \<notin> set stale"
    if "good x" "is_marker x" "view (disk w3) x \<noteq> None" for x
    using that v2 v3 no_sentinel by (metis (full_types))
  have only_own: "x = marker_path j" if "good x" "starts_with x marker_prefix" "is_marker x" "view (disk w3) x \<noteq> None"
      "queued_in view (disk w) j" "ends_with x (id_suffix (job_id j))" for x j
  proof (rule ccontr)
    assume "x \<noteq> marker_path j"
    then have "x \<notin> marker_path ` queued_of bodies"
      using own queued that(5,6) by blast
    then have "view (disk w) x \<noteq> None" "x \<notin> set known"
      using left [OF that(1,3,4)] v1 [OF that(1)] queued that(5,6) by blast+
    then show False using allI [OF that(1,2)] that(3) by (simp add: known_def)
  qed
  have names_queued: "\<exists>p id'. good p \<and> starts_with p ''queue/'' \<and> view (disk w) p \<noteq> None \<and> path_job_id p = Some id' \<and>
      ends_with x (id_suffix id')"
    if x: "good x" "starts_with x marker_prefix" "is_marker x" "view (disk w3) x \<noteq> None" for x
  proof -
    have "?live x"
    proof (cases "x \<in> marker_path ` queued_of bodies")
      case True
      then show ?thesis
        using queued id_live marker_own_suffix by (auto simp: list_ex_iff)
    next
      case False
      then have "x \<in> set known"
        using left [OF x(1,3,4)] v1 [OF x(1)] allI [OF x(1,2)] x(3) by (simp add: known_def)
      then show ?thesis
        using left [OF x(1,3,4)] x(3) no_sentinel [OF x(3)] by (auto simp: stale_def)
    qed
    then obtain id' where "id' \<in> set ids" "ends_with x (id_suffix id')" by (auto simp: list_ex_iff)
    moreover from this(1) obtain p where "p \<in> set docs" "path_job_id p = Some id'"
      by (auto simp: ids_def paths_def List.map_filter_def)
    ultimately show ?thesis using docsD by blast
  qed
  have outside: "view (disk w3) x = view (disk w) x" if "good x" "\<not> starts_with x marker_prefix" for x
  proof -
    have "x \<notin> set known" "x \<notin> set stale" using that(2) allD by (auto simp: known_def stale_def)
    moreover have "x \<notin> marker_path ` queued_of bodies" "x \<noteq> sentinel_path"
      using that(2) by (auto simp: marker_path_def sentinel_path_def marker_prefix_def)
    ultimately show ?thesis using that v2 v3 f1 by simp
  qed
  show ?thesis
    using run rdy3 marker_kept only_own names_queued outside by blast
qed

end

end
