(* ===== verification/Reaper.thy ===== *)
theory Reaper
  imports Capacity Liveness Migrations Local_File
begin

text \<open>
  \<open>src/stado-rs/src/queue/reaper/\<close>: what becomes of a running job whose worker is gone. One job is
  judged by its own promise, then settled: finished from its evidence, failed when the same loss had
  already put it back once, else put back. A pass repairs the index, judges every running job,
  finishes requeued releases, frees the queued jobs that wait for a silent worker, and sweeps the
  sentinels. What is logged is not kept. A count stands in the summary also when a later call fails,
  so a step answers its result and the summary.
\<close>

section \<open>Summaries\<close>

record reaper_summary =
  rs_requeued :: nat
  rs_failed :: nat
  rs_release_completions :: nat
  rs_assignments_cleared :: nat
  rs_index_swept :: bool
  rs_sentinels_retired :: nat
  rs_unreadable :: nat
  rs_unpromised :: nat

definition summary_default :: reaper_summary where
  "summary_default = \<lparr>rs_requeued = 0, rs_failed = 0, rs_release_completions = 0,
     rs_assignments_cleared = 0, rs_index_swept = False, rs_sentinels_retired = 0, rs_unreadable = 0,
     rs_unpromised = 0\<rparr>"

type_synonym counted = "((storage_error + unit) \<times> reaper_summary) prog"

definition settled :: "reaper_summary \<Rightarrow> counted" where
  "settled s = Ret (Inr (), s)"

text \<open>The question mark operator of a function that counts.\<close>

definition bindC :: "'a storage_prog \<Rightarrow> reaper_summary \<Rightarrow> ('a \<Rightarrow> counted) \<Rightarrow> counted" where
  "bindC p s f = bindp p (\<lambda>r. case r of Inl e \<Rightarrow> Ret (Inl e, s) | Inr a \<Rightarrow> f a)"

definition then_count :: "counted \<Rightarrow> (reaper_summary \<Rightarrow> counted) \<Rightarrow> counted" where
  "then_count p f = bindp p (\<lambda>(r, s). case r of Inl e \<Rightarrow> Ret (Inl e, s) | Inr _ \<Rightarrow> f s)"

definition lease_expired_reason :: string where
  "lease_expired_reason = ''worker lease expired''"

definition worker_replaced_reason :: string where
  "worker_replaced_reason = ''its worker was replaced while it ran''"

section \<open>One running job\<close>

definition cleanup_status :: "string \<Rightarrow> unit storage_prog" where
  "cleanup_status id' = bindE (delete_blob (status_path id')) (\<lambda>_. delete_blob (heartbeat_path id'))"

definition finalize_if_self_terminating :: "nat \<Rightarrow> lib \<Rightarrow> job \<Rightarrow> bool storage_prog" where
  "finalize_if_self_terminating fuel L j =
     (if \<not> terminates_agent j then ok False
      else
        bindp now (\<lambda>t.
        bindE (move_job fuel L
          (j\<lparr>state := ''completed'', completed_at := Some (isoformat_utc L t), instance_ref := None\<rparr>)
          ''running'' ''completed'') (\<lambda>_.
        bindE (cleanup_status (job_id j)) (\<lambda>_. ok True))))"

definition finished_by :: "job \<Rightarrow> string \<Rightarrow> job" where
  "finished_by j completed =
     j\<lparr>state := ''completed'', completed_at := Some completed, failed_at := None, error := None\<rparr>"

definition failed_with :: "lib \<Rightarrow> job \<Rightarrow> int \<Rightarrow> string \<Rightarrow> job" where
  "failed_with L j t reason =
     j\<lparr>state := ''failed'', failed_at := Some (isoformat_utc L t), error := Some reason\<rparr>"

definition put_back :: "lib \<Rightarrow> job \<Rightarrow> int \<Rightarrow> string \<Rightarrow> job" where
  "put_back L j t reason =
     (let j = j\<lparr>restarts := tally_i64 (restarts j), state := ''queued'', instance_ref := None,
                started_at := None, last_restart := Some (isoformat_utc L t), error := Some reason\<rparr>
      in if pinned_host j = [] then j\<lparr>assigned_to := []\<rparr> else j)"

definition requeue ::
  "nat \<Rightarrow> lib \<Rightarrow> job \<Rightarrow> string \<Rightarrow> int \<Rightarrow> string \<Rightarrow> reaper_summary \<Rightarrow> counted" where
  "requeue fuel L j seen t reason s =
     bindC (move_job_if_version fuel L (put_back L j t reason) ''running'' ''queue'' seen) s (\<lambda>moved.
       if \<not> moved then settled s
       else
         let s = s\<lparr>rs_requeued := tally (rs_requeued s)\<rparr>
         in bindC (cleanup_status (job_id j)) s (\<lambda>_. settled s))"

definition started_instant :: "lib \<Rightarrow> job \<Rightarrow> int option" where
  "started_instant L j = Option.bind (started_at j) (\<lambda>v. if v = [] then None else parse_iso_lenient L v)"

definition evidence ::
  "lib \<Rightarrow> string \<Rightarrow> job \<Rightarrow> int \<Rightarrow> string option storage_prog" where
  "evidence L namespace j t =
     (case started_instant L j of
        Some started \<Rightarrow> verified_release_completion L namespace j started t
      | None \<Rightarrow> ok None)"

definition settle ::
  "nat \<Rightarrow> lib \<Rightarrow> string \<Rightarrow> job \<Rightarrow> string \<Rightarrow> int \<Rightarrow> string \<Rightarrow> reaper_summary \<Rightarrow> counted" where
  "settle fuel L namespace j seen t reason s =
     bindC (finalize_if_self_terminating fuel L j) s (\<lambda>finalized.
       if finalized then settled s
       else
         bindC (evidence L namespace j t) s (\<lambda>verified.
           case verified of
             Some completed \<Rightarrow>
               bindC (move_job_if_version fuel L (finished_by j completed) ''running'' ''completed'' seen) s
                 (\<lambda>moved. settled (if moved
                    then s\<lparr>rs_release_completions := tally (rs_release_completions s)\<rparr> else s))
           | None \<Rightarrow>
               (case restart_refusal j reason of
                  Some _ \<Rightarrow>
                    bindC (move_job_if_version fuel L (failed_with L j t reason) ''running'' ''failed'' seen) s
                      (\<lambda>moved. settled (if moved then s\<lparr>rs_failed := tally (rs_failed s)\<rparr> else s))
                | None \<Rightarrow> requeue fuel L j seen t reason s)))"

definition reap_one ::
  "nat \<Rightarrow> lib \<Rightarrow> string \<Rightarrow> string \<Rightarrow> int \<Rightarrow> reaper_summary \<Rightarrow> counted" where
  "reap_one fuel L namespace id' t s =
     bindC (recover_job_transition fuel L id') s (\<lambda>_.
     bindC (read_text_versioned (job_path ''running'' id')) s (\<lambda>found.
       case found of
         None \<Rightarrow> settled s
       | Some versioned \<Rightarrow>
           bindC (from_json L (content versioned)) s (\<lambda>j.
             if state j \<noteq> ''running''
             then bindC (recover_job_transition fuel L id') s (\<lambda>_. settled s)
             else
               bindp (job_liveness_at L j t) (\<lambda>verdict.
                 case verdict of
                   Lapsed _ \<Rightarrow> settle fuel L namespace j (version versioned) t lease_expired_reason s
                 | Unpromised \<Rightarrow> settled (s\<lparr>rs_unpromised := tally (rs_unpromised s)\<rparr>)
                 | _ \<Rightarrow> settled s))))"

definition reap_or_report ::
  "nat \<Rightarrow> lib \<Rightarrow> string \<Rightarrow> string \<Rightarrow> int \<Rightarrow> reaper_summary \<Rightarrow> reaper_summary prog" where
  "reap_or_report fuel L namespace id' t s =
     bindp (reap_one fuel L namespace id' t s) (\<lambda>(r, s).
       Ret (case r of Inl _ \<Rightarrow> s\<lparr>rs_unreadable := tally (rs_unreadable s)\<rparr> | Inr _ \<Rightarrow> s))"

fun reap_each ::
  "nat \<Rightarrow> lib \<Rightarrow> string \<Rightarrow> string list \<Rightarrow> int \<Rightarrow> reaper_summary \<Rightarrow> reaper_summary prog" where
  "reap_each fuel L namespace [] t s = Ret s"
| "reap_each fuel L namespace (id' # ids) t s =
     (if id' = [] then reap_each fuel L namespace ids t s
      else bindp (reap_or_report fuel L namespace id' t s) (reap_each fuel L namespace ids t))"

definition reap_named :: "nat \<Rightarrow> lib \<Rightarrow> string \<Rightarrow> string list \<Rightarrow> reaper_summary prog" where
  "reap_named fuel L namespace ids =
     bindp now (\<lambda>t. reap_each fuel L namespace ids t summary_default)"

section \<open>The worker that replaces another\<close>

text \<open>
  \<open>still_running\<close> answers the processes of this host that run a job, or why that cannot be said.
\<close>

fun release_each ::
  "nat \<Rightarrow> lib \<Rightarrow> string \<Rightarrow> string \<Rightarrow> (string \<Rightarrow> string + string list) \<Rightarrow> int \<Rightarrow> string list \<Rightarrow>
     reaper_summary \<Rightarrow> counted" where
  "release_each fuel L namespace instance' still_running t [] s = settled s"
| "release_each fuel L namespace instance' still_running t (id' # ids) s =
     (let next = release_each fuel L namespace instance' still_running t ids in
      bindC (recover_job_transition fuel L id') s (\<lambda>_.
      bindC (read_text_versioned (job_path ''running'' id')) s (\<lambda>found.
        case found of
          None \<Rightarrow> next s
        | Some versioned \<Rightarrow>
            bindC (from_json L (content versioned)) s (\<lambda>j.
              if state j \<noteq> ''running'' \<or> instance_ref j \<noteq> Some instance' then next s
              else
                (case still_running id' of
                   Inr [] \<Rightarrow>
                     then_count (settle fuel L namespace j (version versioned) t worker_replaced_reason s) next
                 | _ \<Rightarrow> next s)))))"

definition release_left_behind ::
  "nat \<Rightarrow> lib \<Rightarrow> string \<Rightarrow> string \<Rightarrow> (string \<Rightarrow> string + string list) \<Rightarrow> unit storage_prog" where
  "release_left_behind fuel L namespace instance' still_running =
     bindp now (\<lambda>t.
     bindE (list_job_ids ''running'') (\<lambda>ids.
     bindp (release_each fuel L namespace instance' still_running t ids summary_default) (\<lambda>(r, _). Ret r)))"

section \<open>The passes over the queue\<close>

text \<open>A requeued release that its first worker finished after all.\<close>

fun complete_each ::
  "nat \<Rightarrow> lib \<Rightarrow> string \<Rightarrow> int \<Rightarrow> string list \<Rightarrow> nat \<Rightarrow> nat storage_prog" where
  "complete_each fuel L namespace t [] completed = ok completed"
| "complete_each fuel L namespace t (id' # ids) completed =
     bindE (read_text_versioned (job_path ''queue'' id')) (\<lambda>found.
       case found of
         None \<Rightarrow> complete_each fuel L namespace t ids completed
       | Some versioned \<Rightarrow>
           bindE (from_json L (content versioned)) (\<lambda>j.
             if state j \<noteq> ''queued'' \<or> error j \<noteq> Some lease_expired_reason
             then complete_each fuel L namespace t ids completed
             else
               (case parse_iso_lenient L (created_at j) of
                  None \<Rightarrow> complete_each fuel L namespace t ids completed
                | Some created \<Rightarrow>
                    bindE (verified_release_completion L namespace j created t) (\<lambda>verified.
                      case verified of
                        None \<Rightarrow> complete_each fuel L namespace t ids completed
                      | Some at \<Rightarrow>
                          bindE (move_job_if_version fuel L (finished_by j at) ''queue'' ''completed''
                            (version versioned)) (\<lambda>moved.
                            complete_each fuel L namespace t ids (if moved then Suc completed else completed))))))"

definition complete_requeued_releases ::
  "nat \<Rightarrow> lib \<Rightarrow> string \<Rightarrow> int \<Rightarrow> reaper_summary \<Rightarrow> counted" where
  "complete_requeued_releases fuel L namespace t s =
     bindC (bindE (list_job_ids ''queue'') (\<lambda>ids. complete_each fuel L namespace t ids 0)) s (\<lambda>completed.
       settled (s\<lparr>rs_release_completions := rs_release_completions s + completed\<rparr>))"

text \<open>ASCII letters compare without case.\<close>

definition eq_ignore_ascii_case :: "string \<Rightarrow> string \<Rightarrow> bool" where
  "eq_ignore_ascii_case a b \<longleftrightarrow> map to_ascii_lower a = map to_ascii_lower b"

definition clear_assignment ::
  "lib \<Rightarrow> job \<Rightarrow> reaper_summary \<Rightarrow> counted" where
  "clear_assignment L current s =
     (let path = job_path ''queue'' (job_id current) in
      bindC (read_text_versioned path) s (\<lambda>found.
        case found of
          None \<Rightarrow> settled s
        | Some versioned \<Rightarrow>
            bindC (from_json L (content versioned)) s (\<lambda>j.
              if state j \<noteq> ''queued'' \<or> assigned_to j \<noteq> assigned_to current then settled s
              else
                bindp (compare_and_swap_text path (version versioned) (to_json (j\<lparr>assigned_to := []\<rparr>))) (\<lambda>r.
                  case r of
                    Inr _ \<Rightarrow>
                      let s = s\<lparr>rs_assignments_cleared := tally (rs_assignments_cleared s)\<rparr>
                      in bindC (updated_at (capacity_prefix @ assigned_to j @ ''.json'')) s (\<lambda>_. settled s)
                  | Inl (StorageConflict _) \<Rightarrow> settled s
                  | Inl error' \<Rightarrow> Ret (Inl error', s)))))"

fun clear_each ::
  "nat \<Rightarrow> lib \<Rightarrow> (string \<times> json) list \<Rightarrow> job list \<Rightarrow> reaper_summary \<Rightarrow> counted" where
  "clear_each fuel L live [] s = settled s"
| "clear_each fuel L live (candidate # candidates) s =
     bindC (recover_job_transition fuel L (job_id candidate)) s (\<lambda>_.
     bindC (read_job L ''queue'' (job_id candidate)) s (\<lambda>found.
       case found of
         None \<Rightarrow> clear_each fuel L live candidates s
       | Some current \<Rightarrow>
           if state current \<noteq> ''queued'' \<or> assigned_to current = [] \<or> pinned_host current \<noteq> [] \<or>
              list_ex (\<lambda>(consumer, _). eq_ignore_ascii_case consumer (assigned_to current)) live
           then clear_each fuel L live candidates s
           else then_count (clear_assignment L current s) (clear_each fuel L live candidates)))"

definition clear_silent_assignments ::
  "nat \<Rightarrow> lib \<Rightarrow> nat \<Rightarrow> reaper_summary \<Rightarrow> counted" where
  "clear_silent_assignments fuel L workers s =
     bindC (read_consumer_capacity L) s (\<lambda>live.
     bindC (list_jobs L workers ''queue'' Every) s (\<lambda>candidates. clear_each fuel L live candidates s))"

section \<open>A whole pass\<close>

definition retire_sentinels :: "lib \<Rightarrow> string \<Rightarrow> nat storage_prog" where
  "retire_sentinels L prefix' = bindE (retire_settled_sentinels L prefix') (\<lambda>sweep. ok (ss_retired sweep))"

definition retire_into :: "lib \<Rightarrow> string \<Rightarrow> reaper_summary \<Rightarrow> counted" where
  "retire_into L prefix' s =
     bindC (retire_sentinels L prefix') s (\<lambda>n.
       settled (s\<lparr>rs_sentinels_retired := rs_sentinels_retired s + n\<rparr>))"

text \<open>\<open>workers\<close> is the number of reads in flight of a listing.\<close>

definition reap_expired_leases :: "nat \<Rightarrow> lib \<Rightarrow> string \<Rightarrow> nat \<Rightarrow> reaper_summary storage_prog" where
  "reap_expired_leases fuel L namespace workers =
     bindp now (\<lambda>t.
     bindE (backfill_priority_markers L) (\<lambda>swept.
     bindE (list_jobs L workers ''running'' Every) (\<lambda>candidates.
     bindp (reap_each fuel L namespace (map job_id candidates) t (summary_default\<lparr>rs_index_swept := swept\<rparr>)) (\<lambda>s.
     bindp (then_count (complete_requeued_releases fuel L namespace t s) (\<lambda>s.
            then_count (clear_silent_assignments fuel L workers s) (\<lambda>s.
            then_count (retire_into L ''queue'' s) (retire_into L ''running''))))
       (\<lambda>(r, s). Ret (case r of Inl e \<Rightarrow> Inl e | Inr _ \<Rightarrow> Inr s))))))"

section \<open>Runs\<close>

lemma run_bindC [run_simps]:
  "run L B (bindC p s f) w =
     (case run L B p w of (Inl e, w') \<Rightarrow> ((Inl e, s), w') | (Inr a, w') \<Rightarrow> run L B (f a) w')"
  by (auto simp: bindC_def run_bindp split: prod.splits sum.splits)

lemma run_settled_count [run_simps]: "run L B (settled s) w = ((Inr (), s), w)"
  by (simp add: settled_def)

lemma verified_reads_only: "snd (run L B (verified_release_completion L n j since t) w) = w"
  by (auto simp: verified_release_completion_def accept_receipt_def accept_archive_def read_bytes_def run_simps
      facade_defs split: option.splits sum.splits prod.splits if_splits)

lemma evidence_reads_only: "snd (run L B (evidence L n j t) w) = w"
  by (simp add: evidence_def verified_reads_only split: option.split)

lemma run_evidence: "run L B (evidence L n j t) w = (fst (run L B (evidence L n j t) w), w)"
  by (metis evidence_reads_only prod.collapse)

lemma run_liveness: "run L B (job_liveness_at L j t) w = (fst (run L B (job_liveness_at L j t) w), w)"
  by (metis liveness_reads_only prod.collapse)

lemma silent_lapsed:
  assumes "lease_promise L j = Some e" "e \<le> t" "be_updated_at B (disk w) (heartbeat_path (job_id j)) = Inr None"
    and "fst (run L B (checkpoint_written_after (command j) e) w) = False"
  shows "fst (run L B (job_liveness_at L j t) w) = Lapsed e"
  using assms by (auto simp: job_liveness_at_def run_simps facade_defs split: prod.splits)

lemma i64_range_clamp [simp]: "i64_range (clamp_i64 i)"
  by (simp add: i64_range_def clamp_i64_def)

lemma sound_put_back [simp]: "sound_job j \<Longrightarrow> sound_job (put_back L j t reason)"
  by (simp add: sound_job_def put_back_def Let_def tally_i64_def)

lemma sound_failed_with [simp]: "sound_job (failed_with L j t reason) = sound_job j"
  by (simp add: failed_with_def sound_job_def)

lemma sound_finished_by [simp]: "sound_job (finished_by j at) = sound_job j"
  by (simp add: finished_by_def sound_job_def)

text \<open>What the reaper changes of a record leaves its identity alone.\<close>

lemma same_identity_settled [simp]:
  assumes "sound_job j"
  shows "same_identity j (put_back L j t reason)" "same_identity j (failed_with L j t reason)"
    "same_identity j (finished_by j at)"
  using sound_jobD(1) [OF assms] by (simp_all add: put_back_def failed_with_def finished_by_def Let_def)

lemma settled_fields [simp]:
  "job_id (put_back L j t reason) = job_id j" "job_id (failed_with L j t reason) = job_id j"
  "job_id (finished_by j at) = job_id j"
  by (simp_all add: put_back_def failed_with_def finished_by_def Let_def)

lemma prefix_state_ends [simp]:
  "prefix_state (prefix_as_str Failed) = ''failed''" "prefix_state (prefix_as_str Completed) = ''completed''"
  by (simp_all add: prefix_state_def prefix_words)

section \<open>Listings and records that cannot be read\<close>

definition unreadable :: "body \<Rightarrow> bool" where
  "unreadable text' \<longleftrightarrow> (case text' of Json v \<Rightarrow> job_from_value v = None | _ \<Rightarrow> True)"

lemma run_from_json_unreadable: "unreadable text' \<Longrightarrow> from_json L text' = fail JsonError"
  by (auto simp: unreadable_def from_json_def split: body.splits option.splits)

lemma run_from_json_readable: "\<not> unreadable text' \<Longrightarrow> \<exists>j. run L B (from_json L text') w = (Inr j, w)"
  by (auto simp: unreadable_def from_json_def finalize_new_def now_def run_simps split: body.splits option.splits)

lemma take_live_reads:
  "\<exists>r. run L B (take_live L Every jobs texts) w = (r, w) \<and>
    (if \<exists>t. Some t \<in> set texts \<and> unreadable t then r = Inl JsonError else \<exists>js. r = Inr (Inr js))"
proof (induction texts arbitrary: jobs)
  case (Cons x texts)
  show ?case
  proof (cases x)
    case None
    then show ?thesis using Cons.IH by simp
  next
    case (Some t)
    show ?thesis
    proof (cases "unreadable t")
      case True
      then show ?thesis
        using Some run_from_json_unreadable [OF True] by auto
    next
      case False
      then obtain j where "run L B (from_json L t) w = (Inr j, w)"
        using run_from_json_readable by blast
      then have same: "run L B (take_live L Every jobs (x # texts)) w = run L B (take_live L Every
          (if is_transition_sentinel_state (state j) then jobs else jobs @ [j]) texts) w"
        using Some by (simp add: run_simps Let_def)
      have "(\<exists>u. Some u \<in> set (x # texts) \<and> unreadable u) \<longleftrightarrow> (\<exists>u. Some u \<in> set texts \<and> unreadable u)"
        using Some False by auto
      then show ?thesis
        unfolding same using Cons.IH by presburger
    qed
  qed
qed simp

lemma set_chunks:
  assumes "0 < n"
  shows "set (concat (chunks n xs)) = set xs"
proof
  show "set (concat (chunks n xs)) \<subseteq> set xs"
    by (auto simp: chunks_def dest: in_set_takeD in_set_dropD)
  show "set xs \<subseteq> set (concat (chunks n xs))"
  proof
    fix x assume "x \<in> set xs"
    then obtain k where k: "k < length xs" "x = xs ! k" by (auto simp: in_set_conv_nth)
    let ?i = "k div n"
    obtain m where m: "m = ?i * n" by blast
    have "m + k mod n = k" "k mod n < n" using assms by (simp_all add: m)
    then have "take n (drop m xs) ! (k mod n) = x" "k mod n < length (take n (drop m xs))"
      using k by simp_all
    note this [unfolded m]
    then have "x \<in> set (take n (drop (?i * n) xs))"
      using nth_mem by metis
    moreover have "?i < (length xs + n - 1) div n"
    proof -
      have "?i * n + n \<le> length xs + n - 1"
        using k(1) div_times_less_eq_dividend [of k n] by linarith
      then have "(?i + 1) * n \<le> length xs + n - 1" by simp
      then have "?i + 1 \<le> (length xs + n - 1) div n"
        using assms by (metis less_eq_div_iff_mult_less_eq)
      then show ?thesis by simp
    qed
    ultimately show "x \<in> set (concat (chunks n xs))"
      by (auto simp: chunks_def)
  qed
qed

text \<open>
  A finished release: the receipt of this job, the request the job was submitted with, unchanged, the
  agreement of the two, and the archive the receipt states, published after the execution began.
\<close>

definition finished_release ::
  "('s \<Rightarrow> string \<Rightarrow> body option) \<Rightarrow> lib \<Rightarrow> string \<Rightarrow> 's \<Rightarrow> job \<Rightarrow> int \<Rightarrow> int \<Rightarrow> string \<Rightarrow> bool" where
  "finished_release view L namespace s j since t at \<longleftrightarrow>
     (\<exists>rb receipt artifact archive uri digest object' qb request completed.
        view s (receipt_path (job_id j)) = Some rb \<and> parsed build_receipt_from_value rb = Some receipt \<and>
        request_input j = Some (uri, digest) \<and> object_ref_parse uri = Inr object' \<and>
        (namespace = [] \<or> or_namespace object' = namespace) \<and>
        view s (storage_path object') = Some qb \<and> sha256_hex L qb = digest \<and>
        parsed worker_request_from_value qb = Some request \<and>
        parse_iso_lenient L (br_completed_at receipt) = Some completed \<and>
        receipt_matches receipt request j completed since t \<and>
        br_artifact receipt = Some artifact \<and> ar_path artifact = ''release.tar.gz'' \<and>
        view s (archive_path (job_id j)) = Some archive \<and> archive_agrees L artifact archive \<and>
        at = br_completed_at receipt)"

text \<open>A store whose status blobs have paths it serves.\<close>

locale reaped_store = lifecycle_store B view put remove annotate token refusal good ready boundary L
  for B :: "'s backend" and view put remove annotate token refusal good ready boundary L +
  assumes good_status: "entry_name id' \<Longrightarrow> good (status_path id') \<and> good (heartbeat_path id')"
    and good_output: "entry_name id' \<Longrightarrow> good (receipt_path id') \<and> good (archive_path id')"
    and good_object: "object_ref_parse uri = Inr object' \<Longrightarrow> good (storage_path object')"
    and running_boundary: "boundary ''running/''" and queue_boundary: "boundary ''queue/''"
    and good_sentinel: "good sentinel_path"
begin

lemma reap_one_judges:
  assumes "ready (disk w)" "sound_job j" "state j = ''running''"
    and "view (disk w) (job_path (prefix_as_str Running) (job_id j)) = Some (to_json j)"
    and "idle_record (job_id j) (view (disk w) (transition_path L (job_id j)))"
  shows "run L B (reap_one fuel L n (job_id j) t s) w =
    (case fst (run L B (job_liveness_at L j t) w) of
       Lapsed _ \<Rightarrow> run L B (settle fuel L n j (token (to_json j)) t lease_expired_reason s) w
     | Unpromised \<Rightarrow> ((Inr (), s\<lparr>rs_unpromised := tally (rs_unpromised s)\<rparr>), w)
     | _ \<Rightarrow> ((Inr (), s), w))"
proof -
  have path: "good (job_path (prefix_as_str Running) (job_id j))"
    using assms(2) by (simp add: good_job sound_job_def)
  obtain v where "run L B (job_liveness_at L j t) w = (v, w)"
    using run_liveness by metis
  then show ?thesis
    using assms(1-4) path recover_idle(1) [OF assms(1,5)]
    by (cases v) (simp_all add: reap_one_def run_simps run_calls)
qed

lemma reaper_words:
  "move_job_if_version fuel L j ''running'' ''queue'' v =
     move_job_if_version fuel L j (prefix_as_str Running) (prefix_as_str Queue) v"
  "move_job_if_version fuel L j ''running'' ''completed'' v =
     move_job_if_version fuel L j (prefix_as_str Running) (prefix_as_str Completed) v"
  "move_job_if_version fuel L j ''running'' ''failed'' v =
     move_job_if_version fuel L j (prefix_as_str Running) (prefix_as_str Failed) v"
  by (simp_all add: prefix_words)

text \<open>What a status blob is not.\<close>

lemma status_paths_other [simp]:
  "status_path i \<noteq> job_path (prefix_as_str p) a" "heartbeat_path i \<noteq> job_path (prefix_as_str p) a"
  "status_path i \<noteq> transition_path L a" "heartbeat_path i \<noteq> transition_path L a"
  by (cases p; simp add: status_path_def heartbeat_path_def job_path_def transition_path_def prefix_words del: queue_words)+

lemma run_cleanup_status:
  assumes "ready (disk w)" "entry_name id'"
  shows "\<exists>w'. run L B (cleanup_status id') w = (Inr (), w') \<and> ready (disk w') \<and>
    view (disk w') (status_path id') = None \<and> view (disk w') (heartbeat_path id') = None \<and>
    (\<forall>x. good x \<longrightarrow> x \<noteq> status_path id' \<longrightarrow> x \<noteq> heartbeat_path id' \<longrightarrow> view (disk w') x = view (disk w) x)"
  using assms good_status [OF assms(2)]
  by (auto simp: cleanup_status_def run_simps run_calls store_simps)

lemma homes_same:
  "(\<And>p. view a (job_path (prefix_as_str p) i) = view b (job_path (prefix_as_str p) i)) \<Longrightarrow> homes view a i = homes view b i"
  by (simp add: homes_def)

text \<open>A version-pinned move of the job as it was read, with nobody in between.\<close>

lemma pinned_move:
  assumes "ready (disk w)" "movable view L (disk w) j r p q" "homes view (disk w) (job_id j) = [p]"
  obtains d w' where "merge_transition_destination j r (prefix_as_str p) (prefix_as_str q) = Inr d"
    and "run L B (move_job_if_version (Suc fuel) L r (prefix_as_str p) (prefix_as_str q) (token (to_json j))) w =
      (Inr True, w')"
    and "ready (disk w')" "view (disk w') (job_path (prefix_as_str q) (job_id j)) = Some (to_json d)"
    and "homes view (disk w') (job_id j) = [q]"
proof -
  obtain d w' where "merge_transition_destination j r (prefix_as_str p) (prefix_as_str q) = Inr d"
    and "run L B (transition_job_if_version (Suc fuel) L r (prefix_as_str p) (prefix_as_str q)
      (Some (token (to_json j)))) w = (Inr True, w')"
    and "moved (disk w) j d p q (disk w')"
    and "homes view (disk w') (job_id j) = [q]"
    using move_home [OF assms(1,2), of "Some (token (to_json j))" fuel] assms(3) by blast
  then show thesis
    using that movedD(1,3) unfolding move_job_if_version_def by blast
qed

lemma tally_grows: "i64_range r \<Longrightarrow> max r (tally_i64 r) = tally_i64 r"
  by (auto simp: i64_range_def tally_i64_def clamp_i64_def)

lemma put_back_merges:
  assumes "merge_transition_destination j (put_back L j t reason) (prefix_as_str Running) (prefix_as_str Queue) = Inr d"
    and "sound_job j"
  shows "state d = ''queued'' \<and> restarts d = tally_i64 (restarts j) \<and> error d = Some reason \<and>
    lease_expires_at d = None \<and> instance_ref d = None \<and> started_at d = None \<and>
    assigned_to d = (if pinned_host j = [] then [] else assigned_to j) \<and> submitter_restarts d = submitter_restarts j"
  using assms sound_jobD(1) [OF assms(2)]
  by (auto simp: merge_transition_destination_def put_back_def Let_def tally_grows split: if_splits)

lemma settle_puts_back:
  assumes rdy: "ready (disk w)" and mv: "movable view L (disk w) j (put_back L j t reason) Running Queue"
    and home: "homes view (disk w) (job_id j) = [Running]" and name: "entry_name (job_id j)"
    and plain: "\<not> terminates_agent j" and unproved: "fst (run L B (evidence L n j t) w) = Inr None"
    and first: "restart_refusal j reason = None"
  shows "\<exists>d w'. run L B (settle (Suc fuel) L n j (token (to_json j)) t reason s) w =
      ((Inr (), s\<lparr>rs_requeued := tally (rs_requeued s)\<rparr>), w') \<and>
    view (disk w') (job_path (prefix_as_str Queue) (job_id j)) = Some (to_json d) \<and>
    homes view (disk w') (job_id j) = [Queue] \<and> state d = ''queued'' \<and> restarts d = tally_i64 (restarts j) \<and>
    error d = Some reason \<and> lease_expires_at d = None \<and> instance_ref d = None \<and>
    assigned_to d = (if pinned_host j = [] then [] else assigned_to j) \<and> restart_refusal d reason \<noteq> None \<and>
    view (disk w') (status_path (job_id j)) = None \<and> view (disk w') (heartbeat_path (job_id j)) = None"
proof -
  obtain d w1 where d: "merge_transition_destination j (put_back L j t reason) (prefix_as_str Running)
      (prefix_as_str Queue) = Inr d"
    and move: "run L B (move_job_if_version (Suc fuel) L (put_back L j t reason) (prefix_as_str Running)
      (prefix_as_str Queue) (token (to_json j))) w = (Inr True, w1)"
    and at: "ready (disk w1)" "view (disk w1) (job_path (prefix_as_str Queue) (job_id j)) = Some (to_json d)"
      "homes view (disk w1) (job_id j) = [Queue]"
    by (rule pinned_move [OF rdy mv home])
  obtain w2 where clean: "run L B (cleanup_status (job_id j)) w1 = (Inr (), w2)"
      "view (disk w2) (status_path (job_id j)) = None" "view (disk w2) (heartbeat_path (job_id j)) = None"
    and kept: "\<And>x. good x \<Longrightarrow> x \<noteq> status_path (job_id j) \<Longrightarrow> x \<noteq> heartbeat_path (job_id j) \<Longrightarrow>
      view (disk w2) x = view (disk w1) x"
    using run_cleanup_status [OF at(1) name] by blast
  have same: "view (disk w2) (job_path (prefix_as_str p) (job_id j)) = view (disk w1) (job_path (prefix_as_str p) (job_id j))" for p
    using name by (intro kept good_job) (auto simp: entry_name_def no_slash_def dest: status_paths_other [THEN notE, OF sym])
  have ev: "run L B (evidence L n j t) w = (Inr None, w)"
    using unproved run_evidence by metis
  have run: "run L B (settle (Suc fuel) L n j (token (to_json j)) t reason s) w =
      ((Inr (), s\<lparr>rs_requeued := tally (rs_requeued s)\<rparr>), w2)"
    using plain first move clean(1) ev
    by (simp add: settle_def finalize_if_self_terminating_def requeue_def run_simps reaper_words Let_def)
  have sound: "sound_job j" using movableD(1) [OF mv] mv by (simp add: movable_def Let_def)
  have fields: "state d = ''queued'' \<and> restarts d = tally_i64 (restarts j) \<and> error d = Some reason \<and>
      lease_expires_at d = None \<and> instance_ref d = None \<and> started_at d = None \<and>
      assigned_to d = (if pinned_host j = [] then [] else assigned_to j) \<and> submitter_restarts d = submitter_restarts j"
    by (rule put_back_merges [OF d sound])
  have "restart_refusal d reason \<noteq> None"
    using fields by (simp add: restart_refusal_def)
  then show ?thesis
    using run clean(2,3) at(2,3) same fields homes_same [OF same] by (intro exI [of _ d] exI [of _ w2]) auto
qed

lemma settle_fails:
  assumes rdy: "ready (disk w)" and mv: "movable view L (disk w) j (failed_with L j t reason) Running Failed"
    and home: "homes view (disk w) (job_id j) = [Running]"
    and plain: "\<not> terminates_agent j" and unproved: "fst (run L B (evidence L n j t) w) = Inr None"
    and again: "restart_refusal j reason \<noteq> None"
  shows "\<exists>d w'. run L B (settle (Suc fuel) L n j (token (to_json j)) t reason s) w =
      ((Inr (), s\<lparr>rs_failed := tally (rs_failed s)\<rparr>), w') \<and>
    view (disk w') (job_path (prefix_as_str Failed) (job_id j)) = Some (to_json d) \<and>
    homes view (disk w') (job_id j) = [Failed] \<and> state d = ''failed'' \<and> error d = Some reason \<and>
    failed_at d = Some (isoformat_utc L t) \<and> restarts d = restarts j"
proof -
  obtain d w' where d: "merge_transition_destination j (failed_with L j t reason) (prefix_as_str Running)
      (prefix_as_str Failed) = Inr d"
    and move: "run L B (move_job_if_version (Suc fuel) L (failed_with L j t reason) (prefix_as_str Running)
      (prefix_as_str Failed) (token (to_json j))) w = (Inr True, w')"
    and at: "view (disk w') (job_path (prefix_as_str Failed) (job_id j)) = Some (to_json d)"
      "homes view (disk w') (job_id j) = [Failed]"
    by (rule pinned_move [OF rdy mv home])
  have "run L B (evidence L n j t) w = (Inr None, w)"
    using unproved run_evidence by metis
  then have "run L B (settle (Suc fuel) L n j (token (to_json j)) t reason s) w =
      ((Inr (), s\<lparr>rs_failed := tally (rs_failed s)\<rparr>), w')"
    using plain again move
    by (auto simp: settle_def finalize_if_self_terminating_def run_simps reaper_words)
  moreover have "state d = ''failed'' \<and> error d = Some reason \<and> failed_at d = Some (isoformat_utc L t) \<and>
      restarts d = restarts j"
    using d by (auto simp: merge_transition_destination_def failed_with_def Let_def split: if_splits)
  ultimately show ?thesis using at by blast
qed

lemma settle_completes:
  assumes rdy: "ready (disk w)" and mv: "movable view L (disk w) j (finished_by j at) Running Completed"
    and home: "homes view (disk w) (job_id j) = [Running]"
    and plain: "\<not> terminates_agent j" and proved: "fst (run L B (evidence L n j t) w) = Inr (Some at)"
  shows "\<exists>d w'. run L B (settle (Suc fuel) L n j (token (to_json j)) t reason s) w =
      ((Inr (), s\<lparr>rs_release_completions := tally (rs_release_completions s)\<rparr>), w') \<and>
    view (disk w') (job_path (prefix_as_str Completed) (job_id j)) = Some (to_json d) \<and>
    homes view (disk w') (job_id j) = [Completed] \<and> state d = ''completed'' \<and> completed_at d = Some at \<and>
    error d = None \<and> restarts d = restarts j"
proof -
  obtain d w' where d: "merge_transition_destination j (finished_by j at) (prefix_as_str Running)
      (prefix_as_str Completed) = Inr d"
    and move: "run L B (move_job_if_version (Suc fuel) L (finished_by j at) (prefix_as_str Running)
      (prefix_as_str Completed) (token (to_json j))) w = (Inr True, w')"
    and at: "view (disk w') (job_path (prefix_as_str Completed) (job_id j)) = Some (to_json d)"
      "homes view (disk w') (job_id j) = [Completed]"
    by (rule pinned_move [OF rdy mv home])
  have "run L B (evidence L n j t) w = (Inr (Some at), w)"
    using proved run_evidence by metis
  then have "run L B (settle (Suc fuel) L n j (token (to_json j)) t reason s) w =
      ((Inr (), s\<lparr>rs_release_completions := tally (rs_release_completions s)\<rparr>), w')"
    using plain move by (auto simp: settle_def finalize_if_self_terminating_def run_simps reaper_words)
  moreover have "state d = ''completed'' \<and> completed_at d = Some at \<and> error d = None \<and> restarts d = restarts j"
    using d by (auto simp: merge_transition_destination_def finished_by_def Let_def split: if_splits)
  ultimately show ?thesis using at by blast
qed

text \<open>A document that has changed since it was judged is left alone.\<close>

lemma settle_outdated:
  assumes rdy: "ready (disk w)" and j: "no_slash (job_id j)"
    and idle: "idle_record (job_id j) (view (disk w) (transition_path L (job_id j)))"
    and now: "view (disk w) (job_path (prefix_as_str Running) (job_id j)) = Some text'" "token text' \<noteq> seen"
    and plain: "\<not> terminates_agent j" and read: "fst (run L B (evidence L n j t) w) = Inr verified"
  shows "run L B (settle (Suc fuel) L n j seen t reason s) w = ((Inr (), s), w)"
proof -
  have stale: "run L B (move_job_if_version (Suc fuel) L r (prefix_as_str Running) q seen) w = (Inr False, w)"
    if "job_id r = job_id j" for r q
    unfolding move_job_if_version_def using that rdy j idle now by (intro move_stale) simp_all
  have "run L B (evidence L n j t) w = (Inr verified, w)"
    using read run_evidence by metis
  then show ?thesis
    using plain
    by (simp add: settle_def finalize_if_self_terminating_def requeue_def run_simps reaper_words stale Let_def
        split: option.split)
qed

text \<open>The evidence answers an instant exactly for a finished release.\<close>

lemma run_accept_receipt:
  assumes rdy: "ready (disk w)" and name: "entry_name (job_id j)"
  shows "fst (run L B (accept_receipt L j since t receipt qb) w) = Inr (Some at) \<longleftrightarrow>
    (\<exists>request completed artifact archive.
       parsed worker_request_from_value qb = Some request \<and>
       parse_iso_lenient L (br_completed_at receipt) = Some completed \<and>
       receipt_matches receipt request j completed since t \<and>
       br_artifact receipt = Some artifact \<and> ar_path artifact = ''release.tar.gz'' \<and>
       view (disk w) (archive_path (job_id j)) = Some archive \<and> archive_agrees L artifact archive \<and>
       at = br_completed_at receipt)"
proof -
  have archive: "run L B (read_bytes (archive_path (job_id j))) w = (Inr (view (disk w) (archive_path (job_id j))), w)"
    using rdy good_output [OF name] by (simp add: read_bytes_def run_calls)
  show ?thesis
    by (auto simp: accept_receipt_def accept_archive_def run_simps archive split: option.splits)
qed

lemma run_verified:
  assumes rdy: "ready (disk w)" and name: "entry_name (job_id j)"
  shows "fst (run L B (verified_release_completion L n j since t) w) = Inr (Some at) \<longleftrightarrow>
    finished_release view L n (disk w) j since t at"
proof -
  have rb: "run L B (read_bytes (receipt_path (job_id j))) w = (Inr (view (disk w) (receipt_path (job_id j))), w)"
    using rdy good_output [OF name] by (simp add: read_bytes_def run_calls)
  have qb: "run L B (read_bytes (storage_path o')) w = (Inr (view (disk w) (storage_path o')), w)"
    if "object_ref_parse uri = Inr o'" for uri o'
    using rdy good_object [OF that] by (simp add: read_bytes_def run_calls)
  show ?thesis
  proof (cases "Option.bind (view (disk w) (receipt_path (job_id j))) (parsed build_receipt_from_value)")
    case None
    then show ?thesis
      by (auto simp: finished_release_def verified_release_completion_def run_simps rb)
  next
    case (Some receipt)
    then obtain r where r: "view (disk w) (receipt_path (job_id j)) = Some r" "parsed build_receipt_from_value r = Some receipt"
      by (cases "view (disk w) (receipt_path (job_id j))") auto
    show ?thesis
    proof (cases "request_input j")
      case None
      then show ?thesis
        using r by (auto simp: finished_release_def verified_release_completion_def run_simps rb)
    next
      case (Some input)
      then obtain uri digest where input: "request_input j = Some (uri, digest)" by (cases input) auto
      show ?thesis
      proof (cases "object_ref_parse uri")
        case (Inl e)
        then show ?thesis
          using r input by (auto simp: finished_release_def verified_release_completion_def run_simps rb)
      next
        case (Inr o')
        have "fst (run L B (verified_release_completion L n j since t) w) =
          (if n \<noteq> [] \<and> or_namespace o' \<noteq> n then Inr None
           else case view (disk w) (storage_path o') of
             None \<Rightarrow> Inr None
           | Some q \<Rightarrow> if sha256_hex L q \<noteq> digest then Inr None
                      else fst (run L B (accept_receipt L j since t receipt q) w))"
          using r input Inr
          by (simp add: verified_release_completion_def run_simps rb qb [OF Inr] split: option.split)
        then show ?thesis
          using r input Inr
          by (auto simp: finished_release_def run_accept_receipt [OF rdy name] split: option.splits if_splits)
      qed
    qed
  qed
qed

lemma run_no_receipt:
  assumes "ready (disk w)" "entry_name (job_id j)" "view (disk w) (receipt_path (job_id j)) = None"
  shows "run L B (verified_release_completion L n j since t) w = (Inr None, w)"
  using assms good_output [OF assms(2)]
  by (simp add: verified_release_completion_def read_bytes_def run_simps run_calls)

lemma evidence_answers:
  assumes rdy: "ready (disk w)" and name: "entry_name (job_id j)"
  shows "\<exists>v. fst (run L B (evidence L n j t) w) = Inr v"
proof -
  have rb: "run L B (read_bytes (receipt_path (job_id j))) w = (Inr (view (disk w) (receipt_path (job_id j))), w)"
    "run L B (read_bytes (archive_path (job_id j))) w = (Inr (view (disk w) (archive_path (job_id j))), w)"
    using rdy good_output [OF name] by (simp_all add: read_bytes_def run_calls)
  have qb: "run L B (read_bytes (storage_path o')) w = (Inr (view (disk w) (storage_path o')), w)"
    if "object_ref_parse uri = Inr o'" for uri o'
    using rdy good_object [OF that] by (simp add: read_bytes_def run_calls)
  have accepted: "\<exists>v. fst (run L B (accept_receipt L j since t receipt q) w) = Inr v" for since receipt q
    by (auto simp: accept_receipt_def accept_archive_def run_simps rb split: option.split)
  have "\<exists>v. fst (run L B (verified_release_completion L n j since t) w) = Inr v" for since
    by (auto simp: verified_release_completion_def run_simps rb qb accepted split: option.split sum.split)
  then show ?thesis by (auto simp: evidence_def run_simps split: option.split)
qed

lemma evidence_finished:
  assumes "ready (disk w)" "entry_name (job_id j)"
  shows "fst (run L B (evidence L n j t) w) = Inr (Some at) \<longleftrightarrow>
    (\<exists>since. started_instant L j = Some since \<and> finished_release view L n (disk w) j since t at)"
  using run_verified [OF assms] by (auto simp: evidence_def run_simps split: option.split)

lemma movable_as:
  "movable view L s j j p q \<Longrightarrow> sound_job r \<Longrightarrow> job_id r = job_id j \<Longrightarrow> same_identity j r \<Longrightarrow> movable view L s j r p q"
  by (simp add: movable_def Let_def)

text \<open>A lost job is completed exactly when a finished release stands.\<close>

lemma settle_by_evidence:
  assumes rdy: "ready (disk w)" and mv: "\<And>q. q \<noteq> Running \<Longrightarrow> movable view L (disk w) j j Running q"
    and home: "homes view (disk w) (job_id j) = [Running]" and name: "entry_name (job_id j)"
    and plain: "\<not> terminates_agent j"
  shows "\<exists>s' w'. run L B (settle (Suc fuel) L n j (token (to_json j)) t reason s) w = ((Inr (), s'), w') \<and>
    (if \<exists>since at. started_instant L j = Some since \<and> finished_release view L n (disk w) j since t at
     then s' = s\<lparr>rs_release_completions := tally (rs_release_completions s)\<rparr> \<and>
       homes view (disk w') (job_id j) = [Completed] \<and>
       (\<exists>d since at. started_instant L j = Some since \<and> finished_release view L n (disk w) j since t at \<and>
         view (disk w') (job_path (prefix_as_str Completed) (job_id j)) = Some (to_json d) \<and>
         state d = ''completed'' \<and> completed_at d = Some at \<and> restarts d = restarts j)
     else rs_release_completions s' = rs_release_completions s \<and>
       homes view (disk w') (job_id j) = [if restart_refusal j reason = None then Queue else Failed])"
proof -
  have sound: "sound_job j" using mv [of Queue] by (simp add: movable_def Let_def)
  note as = movable_as [OF mv] same_identity_settled [OF sound] sound
  consider (finished) since at where "fst (run L B (evidence L n j t) w) = Inr (Some at)"
      "started_instant L j = Some since" "finished_release view L n (disk w) j since t at"
    | (lost) "fst (run L B (evidence L n j t) w) = Inr None"
      "\<not> (\<exists>since at. started_instant L j = Some since \<and> finished_release view L n (disk w) j since t at)"
    using evidence_answers [OF rdy name, of n t] evidence_finished [OF rdy name, of n t]
    by (metis not_None_eq option.distinct(1) sum.inject(2))
  then show ?thesis
  proof cases
    case finished
    have "movable view L (disk w) j (finished_by j at) Running Completed"
      using as by simp
    from settle_completes [OF rdy this home plain finished(1)] show ?thesis
      using finished(2,3) by fastforce
  next
    case lost
    show ?thesis
    proof (cases "restart_refusal j reason")
      case None
      have "movable view L (disk w) j (put_back L j t reason) Running Queue"
        using as by simp
      from settle_puts_back [OF rdy this home name plain lost(1) None] show ?thesis
        using lost(2) None by fastforce
    next
      case (Some r)
      have "movable view L (disk w) j (failed_with L j t reason) Running Failed"
        using as by simp
      from settle_fails [OF rdy this home plain lost(1)] show ?thesis
        using lost(2) Some by fastforce
    qed
  qed
qed

text \<open>A command that ends its own agent is finished whatever became of the document it was judged by.\<close>

lemma settle_self_terminating:
  assumes rdy: "ready (disk w)" and name: "entry_name (job_id j)" and ends: "terminates_agent j"
    and mv: "movable view L (disk w) cur
      (j\<lparr>state := ''completed'', completed_at := Some (isoformat_utc L (clock w)), instance_ref := None\<rparr>) Running Completed"
    and home: "homes view (disk w) (job_id cur) = [Running]"
  shows "\<exists>w'. run L B (settle (Suc fuel) L n j seen t reason s) w = ((Inr (), s), w') \<and>
    homes view (disk w') (job_id j) = [Completed] \<and> view (disk w') (status_path (job_id j)) = None \<and>
    view (disk w') (heartbeat_path (job_id j)) = None"
proof -
  let ?r = "j\<lparr>state := ''completed'', completed_at := Some (isoformat_utc L (clock w)), instance_ref := None\<rparr>"
  have id': "job_id cur = job_id j"
    using mv by (simp add: movable_def Let_def)
  obtain d w1 where move: "run L B (transition_job_if_version (Suc fuel) L ?r (prefix_as_str Running)
      (prefix_as_str Completed) None) w = (Inr True, w1)"
    and moved: "moved (disk w) cur d Running Completed (disk w1)"
    and at: "homes view (disk w1) (job_id j) = [Completed]"
    using move_home [OF rdy mv, of None fuel] home unfolding id' by blast
  obtain w2 where clean: "run L B (cleanup_status (job_id j)) w1 = (Inr (), w2)"
      "view (disk w2) (status_path (job_id j)) = None" "view (disk w2) (heartbeat_path (job_id j)) = None"
    and kept: "\<And>x. good x \<Longrightarrow> x \<noteq> status_path (job_id j) \<Longrightarrow> x \<noteq> heartbeat_path (job_id j) \<Longrightarrow>
      view (disk w2) x = view (disk w1) x"
    using run_cleanup_status [OF movedD(1) [OF moved] name] by blast
  have "view (disk w2) (job_path (prefix_as_str p) (job_id j)) = view (disk w1) (job_path (prefix_as_str p) (job_id j))" for p
    using name by (intro kept good_job) (auto simp: entry_name_def no_slash_def dest: status_paths_other [THEN notE, OF sym])
  then have "homes view (disk w2) (job_id j) = [Completed]"
    using homes_same at by metis
  have "move_job (Suc fuel) L ?r ''running'' ''completed'' =
      move_job (Suc fuel) L ?r (prefix_as_str Running) (prefix_as_str Completed)"
    by (simp add: prefix_words)
  then have "run L B (move_job (Suc fuel) L ?r ''running'' ''completed'') w = (Inr (), w1)"
    using move by (simp add: move_job_def run_simps)
  then have "run L B (finalize_if_self_terminating (Suc fuel) L j) w = (Inr True, w2)"
    using ends clean(1) by (simp add: finalize_if_self_terminating_def run_simps)
  then have "run L B (settle (Suc fuel) L n j seen t reason s) w = ((Inr (), s), w2)"
    by (simp add: settle_def run_simps)
  then show ?thesis
    using clean(2,3) \<open>homes view (disk w2) (job_id j) = [Completed]\<close> by blast
qed

text \<open>One record that is no job ends a listing, and with it the pass.\<close>

lemma fetch_chunks_bad:
  assumes rdy: "ready (disk w)" and paths: "\<And>p. p \<in> set (concat ps) \<Longrightarrow> good p"
    and bad: "p \<in> set (concat ps)" "view (disk w) p = Some text'" "unreadable text'"
  shows "run L B (fetch_chunks L Every jobs ps) w = (Inl JsonError, w)"
  using paths bad(1)
proof (induction ps arbitrary: jobs)
  case (Cons c ps)
  have chunk: "run L B (download_chunk c) w = (Inr (map (view (disk w)) c), w)"
    by (rule run_download_chunk [OF rdy]) (simp add: Cons.prems(1))
  obtain r where r: "run L B (take_live L Every jobs (map (view (disk w)) c)) w = (r, w)"
    and kind: "if \<exists>t. Some t \<in> set (map (view (disk w)) c) \<and> unreadable t then r = Inl JsonError
      else \<exists>js. r = Inr (Inr js)"
    using take_live_reads by blast
  show ?case
  proof (cases "\<exists>t. Some t \<in> set (map (view (disk w)) c) \<and> unreadable t")
    case True
    then show ?thesis using kind chunk r by (simp add: run_simps)
  next
    case False
    then obtain js where js: "r = Inr (Inr js)" using kind by presburger
    have "p \<notin> set c"
      using False bad(2,3) by (force simp: image_iff)
    then have "run L B (fetch_chunks L Every js ps) w = (Inl JsonError, w)"
      using Cons by simp
    then show ?thesis using chunk r js by (simp add: run_simps)
  qed
qed simp

lemma run_list_jobs_bad:
  assumes rdy: "ready (disk w)" and bounds: "boundary (d @ ''/'')" and workers: "0 < workers"
    and bad: "good p" "starts_with p (d @ ''/'')" "ends_with p ''.json''" "view (disk w) p = Some text'" "unreadable text'"
  shows "run L B (list_jobs L workers d Every) w = (Inl JsonError, w)"
proof -
  obtain all where all: "run L B (list_paths (d @ ''/'') Every) w = (Inr all, w)"
    and allD: "\<And>p. p \<in> set all \<Longrightarrow> good p \<and> starts_with p (d @ ''/'') \<and> view (disk w) p \<noteq> None"
    and allI: "\<And>p. boundary (d @ ''/'') \<Longrightarrow> good p \<Longrightarrow> starts_with p (d @ ''/'') \<Longrightarrow>
      view (disk w) p \<noteq> None \<Longrightarrow> p \<in> set all"
    by (rule run_list_paths [OF rdy, of L "d @ ''/''"]) blast
  let ?paths = "filter (\<lambda>p. starts_with p (d @ ''/'') \<and> ends_with p ''.json'') all"
  have "p \<in> set (concat (chunks workers ?paths))"
    unfolding set_chunks [OF workers] using allI [OF bounds bad(1,2)] bad(2,3,4) by simp
  moreover have "good q" if "q \<in> set (concat (chunks workers ?paths))" for q
    using that allD unfolding set_chunks [OF workers] by simp
  ultimately have "run L B (fetch_chunks L Every [] (chunks workers ?paths)) w = (Inl JsonError, w)"
    using fetch_chunks_bad [OF rdy _ _ bad(4,5)] by blast
  then show ?thesis
    using all by (simp add: list_jobs_def Let_def run_simps)
qed

lemma pass_stopped:
  assumes rdy: "ready (disk w)" and ordered: "queue_in_order good view (disk w)" and workers: "0 < workers"
    and bad: "good p" "starts_with p ''running/''" "ends_with p ''.json''" "view (disk w) p = Some text'" "unreadable text'"
  shows "\<exists>w'. run L B (reap_expired_leases fuel L n workers) w = (Inl JsonError, w') \<and>
    (\<forall>x. good x \<longrightarrow> \<not> starts_with x marker_prefix \<longrightarrow> view (disk w') x = view (disk w) x)"
proof -
  obtain w' where repair: "run L B (backfill_priority_markers L) w = (Inr True, w')" "ready (disk w')"
    and kept: "\<And>x. good x \<Longrightarrow> \<not> starts_with x marker_prefix \<Longrightarrow> view (disk w') x = view (disk w) x"
    using run_backfill [OF rdy ordered queue_boundary good_sentinel] by blast
  have "\<not> starts_with p marker_prefix"
    using bad(2) by (auto simp: starts_with_iff marker_prefix_def)
  then have "view (disk w') p = Some text'"
    using kept bad(1,4) by simp
  then have "run L B (list_jobs L workers ''running'' Every) w' = (Inl JsonError, w')"
    using run_list_jobs_bad [OF repair(2), of "''running''" workers p text'] running_boundary workers bad by simp
  then show ?thesis
    using repair(1) kept by (auto simp: reap_expired_leases_def run_simps)
qed

end

section \<open>The device-local store\<close>

lemma plain_output:
  assumes "entry_name i"
  shows "plain_path (status_path i)" "plain_path (heartbeat_path i)" "plain_path (receipt_path i)"
    "plain_path (archive_path i)"
proof -
  have under: "plain_path (''status/'' @ i @ CHR ''/'' # rest)" if "plain_path rest" for rest
    using plain_path_join [of "''status''" "i @ CHR ''/'' # rest"] plain_path_join [of i rest]
      entry_name_plain [OF assms] that by (simp add: plain_path_def)
  show "plain_path (status_path i)" "plain_path (heartbeat_path i)" "plain_path (receipt_path i)"
    "plain_path (archive_path i)"
    using under [of "''status''"] under [of "''heartbeat''"] under [of "''output/receipt.json''"]
      under [of "''output/release.tar.gz''"]
    by (simp_all add: status_path_def heartbeat_path_def receipt_path_def archive_path_def)
       (simp_all add: plain_path_def)
qed

lemma plain_object:
  assumes "object_ref_parse uri = Inr o'"
  shows "plain_path (storage_path o')"
proof -
  obtain a b where new: "object_ref_new a b = Inr o'"
    using assms by (auto simp: object_ref_parse_def Let_def split: option.splits)
  let ?ns = "or_namespace o'"
  have ns: "?ns \<noteq> []" "list_all (\<lambda>c. is_ascii_lower c \<or> is_ascii_digit c \<or> c = CHR ''-'') ?ns"
    and key: "\<not> list_ex (\<lambda>part. part = [] \<or> part = ''.'' \<or> part = ''..'') (split_on (CHR ''/'') (or_key o'))"
    using new by (auto simp: object_ref_new_def Let_def split: if_splits)
  have "CHR ''/'' \<notin> set ?ns" "CHR ''.'' \<notin> set ?ns"
    using ns(2) by (auto simp: list_all_iff is_ascii_lower_def is_ascii_digit_def Let_def)
  then have "entry_name ?ns"
    using ns(1) by (auto simp: entry_name_def)
  then have "plain_path ?ns" by (rule entry_name_plain)
  moreover have "plain_path (or_key o')"
    using key by (auto simp: plain_path_def list_all_iff list_ex_iff)
  ultimately show ?thesis
    using plain_path_join [of "''ecosystem''" "?ns @ CHR ''/'' # or_key o'"] plain_path_join [of ?ns "or_key o'"]
    by (simp add: storage_path_def) (simp add: plain_path_def)
qed

lemma directories: "directory_prefix ''running/''" "directory_prefix ''queue/''"
  by (simp_all add: directory_prefix_def entry_name_def Let_def)

lemma plain_sentinel: "plain_path sentinel_path"
  by (simp add: plain_path_def sentinel_path_def)

lemma no_pulse:
  assumes "local_ready root d" "plain_path p" "local_view root d p = None"
  shows "be_updated_at (local_backend L root) d p = Inr None"
  using assms
  by (simp add: local_backend_def local_updated_at_def local_path_plain bind_result_def modified_def local_view_def)

interpretation reaps: reaped_store "local_backend L root" "local_view root" "local_put root"
  "local_remove root" "local_annotate root" "local_version L"
  "\<lambda>p. ''local storage version changed for '' @ p" plain_path "local_ready root" directory_prefix L
  for L root
  by unfold_locales (simp_all add: plain_output plain_object directories plain_sentinel)

end
