(* ===== verification/Leases.thy ===== *)
theory Leases
  imports Moves
begin

text \<open>
  \<open>src/stado-rs/src/queue/leases/\<close>: the lease of a provider resource. One document per job under
  \<open>provider-leases/\<close>, changed only by a create-if-absent or a swap at the version its owner read;
  an owner is a process, live exactly while it runs, and holds a fence token that a takeover
  replaces. \<open>lease_step\<close> is the state machine; the operations are those of \<open>record/mod.rs\<close> (on a
  document in hand) and of \<open>store.rs\<close> (on the stored one). An instant is in nanoseconds.
\<close>

section \<open>Errors and states\<close>

datatype lease_error =
    LeaseConflict string
  | LeaseValue string
  | LeaseCorrupt string
  | LeaseStorage storage_error

definition is_conflict :: "lease_error \<Rightarrow> bool" where
  "is_conflict e \<longleftrightarrow> (case e of LeaseConflict _ \<Rightarrow> True | _ \<Rightarrow> False)"

datatype lease_state =
    Allocating | Provisioning | Ready | Starting | LRunning | Collecting | Releasing | Released | LFailed

fun lease_state_as_str :: "lease_state \<Rightarrow> string" where
  "lease_state_as_str Allocating = ''allocating''"
| "lease_state_as_str Provisioning = ''provisioning''"
| "lease_state_as_str Ready = ''ready''"
| "lease_state_as_str Starting = ''starting''"
| "lease_state_as_str LRunning = ''running''"
| "lease_state_as_str Collecting = ''collecting''"
| "lease_state_as_str Releasing = ''releasing''"
| "lease_state_as_str Released = ''released''"
| "lease_state_as_str LFailed = ''failed''"

fun allowed_transitions :: "lease_state \<Rightarrow> lease_state list" where
  "allowed_transitions Allocating = [Provisioning, LFailed]"
| "allowed_transitions Provisioning = [Ready, LFailed]"
| "allowed_transitions Ready = [Starting, LFailed]"
| "allowed_transitions Starting = [LRunning, LFailed]"
| "allowed_transitions LRunning = [Collecting, LFailed]"
| "allowed_transitions Collecting = [Releasing, LFailed]"
| "allowed_transitions Releasing = [Released, LFailed]"
| "allowed_transitions LFailed = [Releasing, Released]"
| "allowed_transitions Released = []"

definition lease_state_from_str :: "string \<Rightarrow> lease_error + lease_state" where
  "lease_state_from_str value =
     (if value = ''allocating'' then Inr Allocating
      else if value = ''provisioning'' then Inr Provisioning
      else if value = ''ready'' then Inr Ready
      else if value = ''starting'' then Inr Starting
      else if value = ''running'' then Inr LRunning
      else if value = ''collecting'' then Inr Collecting
      else if value = ''releasing'' then Inr Releasing
      else if value = ''released'' then Inr Released
      else if value = ''failed'' then Inr LFailed
      else Inl (LeaseValue (value @ '' is not a valid LeaseState'')))"

section \<open>Owners that are processes\<close>

datatype owner_state = This | OwnerAlive | Gone | Elsewhere

text \<open>A pid beyond a signed 32-bit one names no process.\<close>

definition pid_alive :: "nat \<Rightarrow> bool prog" where
  "pid_alive pid = (if pid < 2 ^ 31 then PidAlive pid Ret else Ret False)"

definition owner_observed :: "process_owner \<Rightarrow> owner_state prog" where
  "owner_observed holder =
     CurrentProcess (\<lambda>here.
       if po_host holder \<noteq> po_host here then Ret Elsewhere
       else if po_pid holder = po_pid here then Ret This
       else bindp (pid_alive (po_pid holder)) (\<lambda>alive. Ret (if alive then OwnerAlive else Gone)))"

text \<open>The set of invocations running in this process (\<open>ACTIVE_OWNERS\<close>), inserted on begin and removed on drop.\<close>

definition invocation_begin :: "string \<Rightarrow> 's world \<Rightarrow> 's world" where
  "invocation_begin owner_id w = w\<lparr>active_owners := List.insert owner_id (active_owners w)\<rparr>"

definition invocation_end :: "string \<Rightarrow> 's world \<Rightarrow> 's world" where
  "invocation_end owner_id w = w\<lparr>active_owners := removeAll owner_id (active_owners w)\<rparr>"

section \<open>The document\<close>

record provider_lease =
  pl_job_id :: string
  pl_provider :: string
  pl_owner_id :: string
  pl_fence_token :: string
  pl_state :: string
  pl_owner_expires_at :: string
  pl_owner_host :: string
  pl_owner_pid :: nat
  pl_resource_expires_at :: string
  pl_provider_resource_id :: string
  pl_operation_id :: string
  pl_operation_started_at :: string
  pl_prompt_id :: string
  pl_last_error :: string
  pl_result_state :: string
  pl_created_at :: string
  pl_updated_at :: string
  pl_version :: string

text \<open>Every field but the version, which is serialised nowhere.\<close>

definition lease_to_value :: "provider_lease \<Rightarrow> json" where
  "lease_to_value l = JObj [
     (''job_id'', JStr (pl_job_id l)), (''provider'', JStr (pl_provider l)),
     (''owner_id'', JStr (pl_owner_id l)), (''fence_token'', JStr (pl_fence_token l)),
     (''state'', JStr (pl_state l)), (''owner_expires_at'', JStr (pl_owner_expires_at l)),
     (''owner_host'', JStr (pl_owner_host l)), (''owner_pid'', JInt (int (pl_owner_pid l))),
     (''resource_expires_at'', JStr (pl_resource_expires_at l)),
     (''provider_resource_id'', JStr (pl_provider_resource_id l)),
     (''operation_id'', JStr (pl_operation_id l)),
     (''operation_started_at'', JStr (pl_operation_started_at l)),
     (''prompt_id'', JStr (pl_prompt_id l)), (''last_error'', JStr (pl_last_error l)),
     (''result_state'', JStr (pl_result_state l)), (''created_at'', JStr (pl_created_at l)),
     (''updated_at'', JStr (pl_updated_at l))]"

definition lease_text_keys :: "string list" where
  "lease_text_keys = [''job_id'', ''provider'', ''owner_id'', ''fence_token'', ''state'',
     ''owner_expires_at'', ''owner_host'', ''resource_expires_at'', ''provider_resource_id'',
     ''operation_id'', ''operation_started_at'', ''prompt_id'', ''last_error'', ''result_state'',
     ''created_at'', ''updated_at'']"

definition u32_or :: "json_object \<Rightarrow> string \<Rightarrow> nat" where
  "u32_or o' k = (case Option.bind (obj_get o' k) as_u64 of Some n \<Rightarrow> n | None \<Rightarrow> 0)"

text \<open>Every field has a default; a field of another type, or a pid beyond 32 bits, is refused.\<close>

definition lease_object_ok :: "json_object \<Rightarrow> bool" where
  "lease_object_ok o' \<longleftrightarrow>
     list_all (\<lambda>k. pred_option (\<lambda>v. as_str v \<noteq> None) (obj_get o' k)) lease_text_keys \<and>
     pred_option (\<lambda>v. pred_option (\<lambda>n. n < 2 ^ 32) (as_u64 v) \<and> as_u64 v \<noteq> None)
       (obj_get o' ''owner_pid'')"

definition lease_of_object :: "json_object \<Rightarrow> provider_lease" where
  "lease_of_object o' = \<lparr>
     pl_job_id = str_or o' ''job_id'' [], pl_provider = str_or o' ''provider'' [],
     pl_owner_id = str_or o' ''owner_id'' [], pl_fence_token = str_or o' ''fence_token'' [],
     pl_state = str_or o' ''state'' [], pl_owner_expires_at = str_or o' ''owner_expires_at'' [],
     pl_owner_host = str_or o' ''owner_host'' [], pl_owner_pid = u32_or o' ''owner_pid'',
     pl_resource_expires_at = str_or o' ''resource_expires_at'' [],
     pl_provider_resource_id = str_or o' ''provider_resource_id'' [],
     pl_operation_id = str_or o' ''operation_id'' [],
     pl_operation_started_at = str_or o' ''operation_started_at'' [],
     pl_prompt_id = str_or o' ''prompt_id'' [], pl_last_error = str_or o' ''last_error'' [],
     pl_result_state = str_or o' ''result_state'' [], pl_created_at = str_or o' ''created_at'' [],
     pl_updated_at = str_or o' ''updated_at'' [], pl_version = []\<rparr>"

text \<open>\<open>serde_json::from_value::<ProviderLease>\<close>.\<close>

definition lease_from_object :: "json_object \<Rightarrow> provider_lease option" where
  "lease_from_object o' = (if lease_object_ok o' then Some (lease_of_object o') else None)"

type_synonym 'a lease_prog = "(lease_error + 'a) prog"

definition replace_z :: "string \<Rightarrow> string" where
  "replace_z value = concat (map (\<lambda>c. if c = CHR ''Z'' then ''+00:00'' else [c]) value)"

definition parse_timestamp :: "lib \<Rightarrow> string \<Rightarrow> lease_error + int" where
  "parse_timestamp L value =
     ok_or (LeaseValue (''invalid lease timestamp '' @ value)) (parse_rfc3339 L (replace_z value))"

definition lease_new :: "lib \<Rightarrow> string \<Rightarrow> string \<Rightarrow> string \<Rightarrow> int \<Rightarrow> provider_lease prog" where
  "lease_new L id' provider' owner_id ttl =
     bindp now (\<lambda>t.
     CurrentProcess (\<lambda>holder.
     bindp new_uuid (\<lambda>fence.
       Ret \<lparr>pl_job_id = id', pl_provider = provider', pl_owner_id = owner_id,
         pl_fence_token = fence, pl_state = lease_state_as_str Allocating, pl_owner_expires_at = [],
         pl_owner_host = po_host holder, pl_owner_pid = po_pid holder,
         pl_resource_expires_at = to_rfc3339 L (t + nanoseconds ttl),
         pl_provider_resource_id = [], pl_operation_id = [], pl_operation_started_at = [],
         pl_prompt_id = [], pl_last_error = [], pl_result_state = [],
         pl_created_at = to_rfc3339 L t, pl_updated_at = to_rfc3339 L t, pl_version = []\<rparr>)))"

text \<open>Whether the owner is gone: released, ended, or past the expiry an older lease states.\<close>

definition owner_expired :: "lib \<Rightarrow> provider_lease \<Rightarrow> bool lease_prog" where
  "owner_expired L l =
     (if pl_owner_pid l = 0 then
        (if pl_owner_expires_at l = [] then ok True
         else bindp now (\<lambda>t. bindE (Ret (parse_timestamp L (pl_owner_expires_at l))) (\<lambda>at. ok (at \<le> t))))
      else
        bindp (owner_observed \<lparr>po_host = pl_owner_host l, po_pid = pl_owner_pid l\<rparr>) (\<lambda>st.
          case st of
            Elsewhere \<Rightarrow> ok False
          | OwnerAlive \<Rightarrow> ok False
          | Gone \<Rightarrow> ok True
          | This \<Rightarrow> OwnerRunning (pl_owner_id l) (\<lambda>running. ok (\<not> running))))"

definition assert_fence :: "lib \<Rightarrow> provider_lease \<Rightarrow> string \<Rightarrow> string \<Rightarrow> unit lease_prog" where
  "assert_fence L l owner_id fence =
     (let refusal = LeaseConflict ''provider lease fence is no longer valid'' in
      if pl_owner_id l \<noteq> owner_id \<or> pl_fence_token l \<noteq> fence then fail refusal
      else bindE (owner_expired L l) (\<lambda>expired. if expired then fail refusal else ok ()))"

definition renew_owner :: "lib \<Rightarrow> provider_lease \<Rightarrow> string \<Rightarrow> string \<Rightarrow> provider_lease lease_prog" where
  "renew_owner L l owner_id fence =
     bindE (assert_fence L l owner_id fence) (\<lambda>_.
     bindp now (\<lambda>t. ok (l\<lparr>pl_updated_at := to_rfc3339 L t\<rparr>)))"

definition renew_resource ::
  "lib \<Rightarrow> provider_lease \<Rightarrow> string \<Rightarrow> string \<Rightarrow> int \<Rightarrow> provider_lease lease_prog" where
  "renew_resource L l owner_id fence ttl =
     bindE (assert_fence L l owner_id fence) (\<lambda>_.
     bindp now (\<lambda>t. ok (l\<lparr>pl_resource_expires_at := to_rfc3339 L (t + nanoseconds ttl),
       pl_updated_at := to_rfc3339 L t\<rparr>)))"

definition lease_transition ::
  "lib \<Rightarrow> provider_lease \<Rightarrow> lease_state \<Rightarrow> string \<Rightarrow> string \<Rightarrow> provider_lease lease_prog" where
  "lease_transition L l st owner_id fence =
     bindE (assert_fence L l owner_id fence) (\<lambda>_.
     bindE (Ret (lease_state_from_str (pl_state l))) (\<lambda>current.
       if st \<notin> set (allowed_transitions current)
       then fail (LeaseValue ''invalid provider lease transition'')
       else bindp now (\<lambda>t. ok (l\<lparr>pl_state := lease_state_as_str st, pl_updated_at := to_rfc3339 L t\<rparr>))))"

definition takeover :: "lib \<Rightarrow> provider_lease \<Rightarrow> string \<Rightarrow> provider_lease lease_prog" where
  "takeover L l owner_id =
     bindE (owner_expired L l) (\<lambda>expired.
       if \<not> expired then fail (LeaseConflict ''provider lease is held'')
       else
         CurrentProcess (\<lambda>holder.
         bindp new_uuid (\<lambda>fence.
         bindp now (\<lambda>t.
           ok (l\<lparr>pl_owner_id := owner_id, pl_fence_token := fence, pl_owner_host := po_host holder,
             pl_owner_pid := po_pid holder, pl_owner_expires_at := [],
             pl_updated_at := to_rfc3339 L t\<rparr>)))))"

definition relinquish :: "lib \<Rightarrow> provider_lease \<Rightarrow> string \<Rightarrow> string \<Rightarrow> provider_lease lease_prog" where
  "relinquish L l owner_id fence =
     bindE (assert_fence L l owner_id fence) (\<lambda>_.
     bindp now (\<lambda>t. ok (l\<lparr>pl_owner_host := [], pl_owner_pid := 0, pl_owner_expires_at := [],
       pl_updated_at := to_rfc3339 L t\<rparr>)))"

section \<open>The stored document\<close>

definition safe_job_id :: "string \<Rightarrow> bool" where
  "safe_job_id id' \<longleftrightarrow> id' \<noteq> [] \<and>
     list_all (\<lambda>c. is_ascii_alphanumeric c \<or> c = CHR ''.'' \<or> c = CHR ''_'' \<or> c = CHR ''-'') id'"

definition lease_path :: "string \<Rightarrow> lease_error + string" where
  "lease_path id' =
     (if \<not> safe_job_id id' then Inl (LeaseValue ''job id is unsafe for provider lease storage'')
      else Inr (''provider-leases/'' @ id' @ ''.json''))"

definition lease_encode :: "provider_lease \<Rightarrow> body" where
  "lease_encode l = (case lease_to_value l of JObj m \<Rightarrow> Json (JObj (btree_collect m)) | v \<Rightarrow> Json v)"

definition lease_decode :: "body \<Rightarrow> string \<Rightarrow> lease_error + provider_lease" where
  "lease_decode raw version' =
     (case raw of
        Json (JObj o') \<Rightarrow>
          (case lease_from_object o' of
             None \<Rightarrow> Inl (LeaseStorage JsonError)
           | Some l \<Rightarrow> Inr (l\<lparr>pl_version := version'\<rparr>))
      | Json _ \<Rightarrow> Inl (LeaseCorrupt ''provider lease is not an object'')
      | _ \<Rightarrow> Inl (LeaseStorage JsonError))"

definition lease_load :: "string \<Rightarrow> provider_lease option lease_prog" where
  "lease_load id' =
     bindE (Ret (lease_path id')) (\<lambda>path.
     bindE (with_error LeaseStorage (read_text_versioned path)) (\<lambda>found.
       case found of
         None \<Rightarrow> ok None
       | Some value \<Rightarrow> bindE (Ret (lease_decode (content value) (version value))) (\<lambda>l. ok (Some l))))"

definition lease_create :: "provider_lease \<Rightarrow> provider_lease lease_prog" where
  "lease_create l =
     bindE (Ret (lease_path (pl_job_id l))) (\<lambda>path.
     bindE (with_error LeaseStorage (create_text_if_absent path (lease_encode l))) (\<lambda>created.
       if \<not> created then fail (LeaseConflict ''provider lease already exists'')
       else
         bindE (lease_load (pl_job_id l)) (\<lambda>found.
           case found of
             None \<Rightarrow> fail (LeaseConflict ''provider lease disappeared after creation'')
           | Some read \<Rightarrow>
               if \<not> value_eq (lease_to_value read) (lease_to_value l)
               then fail (LeaseConflict ''provider lease changed before creation was confirmed'')
               else ok (l\<lparr>pl_version := pl_version read\<rparr>))))"

definition lease_save :: "provider_lease \<Rightarrow> string \<Rightarrow> provider_lease lease_prog" where
  "lease_save l expected_version =
     (if expected_version = [] \<or> pl_version l \<noteq> expected_version
      then fail (LeaseConflict ''provider lease version was not read by this owner'')
      else
        bindE (Ret (lease_path (pl_job_id l))) (\<lambda>path.
        bindp (compare_and_swap_text path expected_version (lease_encode l)) (\<lambda>r.
          case r of
            Inr new_version \<Rightarrow>
              if new_version = []
              then fail (LeaseCorrupt ''conditional lease write did not return a version'')
              else ok (l\<lparr>pl_version := new_version\<rparr>)
          | Inl (StorageConflict _) \<Rightarrow> fail (LeaseConflict ''provider lease changed concurrently'')
          | Inl error' \<Rightarrow> fail (LeaseStorage error'))))"

definition lease_acquire ::
  "lib \<Rightarrow> string \<Rightarrow> string \<Rightarrow> string \<Rightarrow> int \<Rightarrow> provider_lease lease_prog" where
  "lease_acquire L id' provider' owner_id ttl =
     bindp (lease_new L id' provider' owner_id ttl) (\<lambda>l.
     bindp (lease_create l) (\<lambda>r.
       case r of
         Inr created \<Rightarrow> ok created
       | Inl (LeaseConflict _) \<Rightarrow>
           bindE (lease_load id') (\<lambda>found.
             case found of
               None \<Rightarrow> fail (LeaseConflict ''provider lease disappeared during acquisition'')
             | Some current \<Rightarrow>
                 if pl_job_id current \<noteq> id' \<or> pl_provider current \<noteq> provider'
                 then fail (LeaseConflict ''provider lease identity mismatch'')
                 else bindE (takeover L current owner_id) (\<lambda>taken. lease_save taken (pl_version current)))
       | Inl error' \<Rightarrow> fail error'))"

section \<open>The document is read back\<close>

lemma obj_get_btree_insert: "obj_get (btree_insert k v m) k' = (if k' = k then Some v else obj_get m k')"
  by (induction k v m rule: btree_insert.induct) auto

lemma obj_get_btree_collect:
  assumes "distinct (map fst o')"
  shows "obj_get (btree_collect o') k = obj_get o' k"
  using assms
proof (induction o' rule: rev_induct)
  case (snoc kv o')
  have "obj_get (btree_collect (o' @ [kv])) k = (if k = fst kv then Some (snd kv) else obj_get (btree_collect o') k)"
    by (cases kv) (simp add: btree_collect_def obj_get_btree_insert)
  moreover have "obj_get o' k = None" if "k = fst kv"
    using snoc.prems that by (simp add: obj_get_def map_of_eq_None_iff)
  ultimately show ?case
    using snoc by (cases kv) (auto simp: obj_get_append split: option.splits)
qed (simp add: btree_collect_def)

definition wf_lease :: "provider_lease \<Rightarrow> bool" where
  "wf_lease l \<longleftrightarrow> pl_owner_pid l < 2 ^ 32 \<and> safe_job_id (pl_job_id l)"

lemma lease_roundtrip [doc_simps]:
  assumes "pl_owner_pid l < 2 ^ 32"
  shows "lease_decode (lease_encode l) v = Inr (l\<lparr>pl_version := v\<rparr>)"
proof -
  obtain m where m: "lease_to_value l = JObj m" "distinct (map fst m)"
    by (simp add: lease_to_value_def)
  have get: "obj_get (btree_collect m) k = get_key (lease_to_value l) k" for k
    using m by (simp add: obj_get_btree_collect)
  have "lease_object_ok (btree_collect m)"
    unfolding lease_object_ok_def get using assms
    by (simp add: lease_to_value_def lease_text_keys_def u64_range_def)
  moreover have "lease_of_object (btree_collect m) = l\<lparr>pl_version := []\<rparr>"
    unfolding lease_of_object_def str_or_def u32_or_def get using assms
    by (simp add: lease_to_value_def u64_range_def)
  ultimately show ?thesis
    using m(1) by (simp add: lease_encode_def lease_decode_def lease_from_object_def)
qed

lemma lease_value_wf: "value_eq (lease_to_value l) (lease_to_value (l\<lparr>pl_version := v\<rparr>))"
  by (simp add: lease_to_value_def)

section \<open>The state machine\<close>

inductive lease_step :: "lease_state \<Rightarrow> lease_state \<Rightarrow> bool" where
  "t \<in> set (allowed_transitions s) \<Longrightarrow> lease_step s t"

inductive_simps lease_step_simps [simp]: "lease_step s t"

lemma lease_state_word [simp]: "lease_state_from_str (lease_state_as_str s) = Inr s"
  by (cases s) (simp_all add: lease_state_from_str_def)

lemma lease_step_from:
  "lease_step Allocating t \<longleftrightarrow> t = Provisioning \<or> t = LFailed"
  "lease_step Released t \<longleftrightarrow> False"
  "lease_step s LRunning \<longleftrightarrow> s = Starting"
  "lease_step s Starting \<longleftrightarrow> s = Ready"
  "lease_step s Ready \<longleftrightarrow> s = Provisioning"
  "lease_step s Provisioning \<longleftrightarrow> s = Allocating"
  "lease_step s Allocating \<longleftrightarrow> False"
  by (cases s; auto)+

section \<open>What the owner can observe\<close>

text \<open>The holder is not seen to be gone: on another host, alive on this one, or an invocation running here.\<close>

definition holder_live :: "'s world \<Rightarrow> provider_lease \<Rightarrow> bool" where
  "holder_live w l \<longleftrightarrow> pl_owner_pid l \<noteq> 0 \<and>
     (pl_owner_host l \<noteq> po_host (this_process w) \<or>
      (if pl_owner_pid l = po_pid (this_process w) then pl_owner_id l \<in> set (active_owners w)
       else pl_owner_pid l < 2 ^ 31 \<and> pl_owner_pid l \<in> set (live_pids w)))"

lemma run_owner_expired [run_simps]:
  "pl_owner_pid l \<noteq> 0 \<Longrightarrow> run L B (owner_expired L l) w = (Inr (\<not> holder_live w l), w)"
  "pl_owner_pid l = 0 \<Longrightarrow> pl_owner_expires_at l = [] \<Longrightarrow> run L B (owner_expired L l) w = (Inr True, w)"
  by (auto simp: owner_expired_def owner_observed_def pid_alive_def holder_live_def run_simps)

lemma run_assert_fence:
  "run L B (assert_fence L l owner_id fence) w = (r, w') \<Longrightarrow> w' = w"
  by (auto simp: assert_fence_def owner_expired_def owner_observed_def pid_alive_def Let_def run_simps
      split: if_splits sum.splits owner_state.splits)

text \<open>The document is released, or its holder is seen to be gone.\<close>

definition holder_gone :: "'s world \<Rightarrow> provider_lease \<Rightarrow> bool" where
  "holder_gone w l \<longleftrightarrow>
     (if pl_owner_pid l = 0 then pl_owner_expires_at l = [] else \<not> holder_live w l)"

lemma holder_frame [simp]:
  "holder_live (w\<lparr>uuids := n\<rparr>) l = holder_live w l" "holder_live w (l\<lparr>pl_version := v\<rparr>) = holder_live w l"
  "holder_gone (w\<lparr>uuids := n\<rparr>) l = holder_gone w l" "holder_gone w (l\<lparr>pl_version := v\<rparr>) = holder_gone w l"
  by (simp_all add: holder_live_def holder_gone_def)

lemma run_takeover [run_simps]:
  "holder_gone w l \<Longrightarrow> run L B (takeover L l owner_id) w =
     (Inr (l\<lparr>pl_owner_id := owner_id, pl_fence_token := uuid_simple L (uuids w),
        pl_owner_host := po_host (this_process w), pl_owner_pid := po_pid (this_process w),
        pl_owner_expires_at := [], pl_updated_at := to_rfc3339 L (clock w)\<rparr>),
      w\<lparr>uuids := Suc (uuids w)\<rparr>)"
  "holder_live w l \<Longrightarrow>
     run L B (takeover L l owner_id) w = (Inl (LeaseConflict ''provider lease is held''), w)"
  by (auto simp: takeover_def holder_gone_def run_simps split: if_splits) (auto simp: holder_live_def run_simps)

section \<open>Driving a lease through its states\<close>

text \<open>One owner's successive transitions of the document in hand.\<close>

fun lease_drive ::
  "lib \<Rightarrow> provider_lease \<Rightarrow> lease_state list \<Rightarrow> string \<Rightarrow> string \<Rightarrow> provider_lease lease_prog" where
  "lease_drive L l [] owner_id fence = ok l"
| "lease_drive L l (st # sts) owner_id fence =
     bindE (lease_transition L l st owner_id fence) (\<lambda>l'. lease_drive L l' sts owner_id fence)"

text \<open>The states between a state and the running one, where there is a way.\<close>

fun way_to_running :: "lease_state \<Rightarrow> lease_state list option" where
  "way_to_running Allocating = Some [Provisioning, Ready, Starting, LRunning]"
| "way_to_running Provisioning = Some [Ready, Starting, LRunning]"
| "way_to_running Ready = Some [Starting, LRunning]"
| "way_to_running Starting = Some [LRunning]"
| "way_to_running LRunning = Some []"
| "way_to_running _ = None"

text \<open>A shortest way from a state to the released one.\<close>

fun way_to_released :: "lease_state \<Rightarrow> lease_state list" where
  "way_to_released Released = []"
| "way_to_released Releasing = [Released]"
| "way_to_released LFailed = [Released]"
| "way_to_released _ = [LFailed, Released]"

lemma transition_follows_table:
  assumes "run L B (lease_transition L l st owner_id fence) w = (r, w')"
  shows "w' = w" and "r = Inr l' \<Longrightarrow> \<exists>s. lease_state_from_str (pl_state l) = Inr s \<and> lease_step s st \<and>
    pl_owner_id l = owner_id \<and> pl_fence_token l = fence \<and>
    l' = l\<lparr>pl_state := lease_state_as_str st, pl_updated_at := to_rfc3339 L (clock w)\<rparr>"
proof -
  obtain r1 w1 where fence: "run L B (assert_fence L l owner_id fence) w = (r1, w1)"
    by fastforce
  have w1: "w1 = w"
    using run_assert_fence [OF fence] .
  have owner: "pl_owner_id l = owner_id \<and> pl_fence_token l = fence" if "r1 = Inr u" for u
    using fence that by (auto simp: assert_fence_def Let_def split: if_splits)
  show "w' = w"
    using assms fence w1
    by (auto simp: lease_transition_def run_simps split: sum.splits if_splits)
  show "\<exists>s. lease_state_from_str (pl_state l) = Inr s \<and> lease_step s st \<and>
    pl_owner_id l = owner_id \<and> pl_fence_token l = fence \<and>
    l' = l\<lparr>pl_state := lease_state_as_str st, pl_updated_at := to_rfc3339 L (clock w)\<rparr>" if "r = Inr l'"
    using assms fence w1 owner that
    by (cases "lease_state_from_str (pl_state l)")
       (auto simp: lease_transition_def run_simps split: sum.splits if_splits)
qed

lemma transition_succeeds:
  assumes "holder_live w l" and "pl_owner_id l = owner_id" and "pl_fence_token l = fence"
    and "lease_state_from_str (pl_state l) = Inr s" and "lease_step s st"
  shows "run L B (lease_transition L l st owner_id fence) w =
    (Inr (l\<lparr>pl_state := lease_state_as_str st, pl_updated_at := to_rfc3339 L (clock w)\<rparr>), w)"
proof -
  have "pl_owner_pid l \<noteq> 0"
    using assms(1) by (simp add: holder_live_def)
  then show ?thesis
    using assms by (simp add: lease_transition_def assert_fence_def run_simps)
qed

lemma drive_to_running:
  assumes "run L B (lease_drive L l sts owner_id fence) w = (Inr l', w')"
    and "lease_state_from_str (pl_state l) = Inr s" and "pl_state l' = lease_state_as_str LRunning"
  shows "way_to_running s = Some sts"
  using assms
proof (induction sts arbitrary: l s w)
  case Nil
  then show ?case by (cases s) (auto simp: lease_state_from_str_def split: if_splits)
next
  case (Cons st sts)
  obtain l1 w1 where step: "run L B (lease_transition L l st owner_id fence) w = (Inr l1, w1)"
    and rest: "run L B (lease_drive L l1 sts owner_id fence) w1 = (Inr l', w')"
    using Cons.prems(1) by (auto simp: run_simps split: prod.splits sum.splits)
  have l1: "lease_step s st" "pl_state l1 = lease_state_as_str st"
    using transition_follows_table(2) [OF step refl] Cons.prems(2) by auto
  have "way_to_running st = Some sts"
    using Cons.IH [OF rest _ Cons.prems(3)] l1(2) by simp
  then show ?case using l1(1) by (cases s) auto
qed

lemma drive_to_released:
  assumes "holder_live w l" and "pl_owner_id l = owner_id" and "pl_fence_token l = fence"
    and "lease_state_from_str (pl_state l) = Inr s"
  shows "\<exists>l'. run L B (lease_drive L l (way_to_released s) owner_id fence) w = (Inr l', w) \<and>
    lease_state_from_str (pl_state l') = Inr Released"
proof -
  let ?to = "\<lambda>l st. l\<lparr>pl_state := lease_state_as_str st, pl_updated_at := to_rfc3339 L (clock w)\<rparr>"
  have live: "holder_live w (?to l st) = holder_live w l" for l st
    by (simp add: holder_live_def)
  have step: "run L B (lease_transition L l st owner_id fence) w = (Inr (?to l st), w)"
    if "holder_live w l" "pl_owner_id l = owner_id" "pl_fence_token l = fence"
      "lease_state_from_str (pl_state l) = Inr t" "lease_step t st" for l st t
    by (rule transition_succeeds [OF that])
  show ?thesis
    using assms live
    by (cases s) (simp_all add: run_simps step del: lease_state_as_str.simps lease_step_simps
        add: lease_step.simps)
qed

section \<open>The stored lease\<close>

text \<open>The document after \<open>owner_id\<close> took it over in an acquisition that started at \<open>w\<close>.\<close>

definition taken_lease :: "lib \<Rightarrow> 's world \<Rightarrow> provider_lease \<Rightarrow> string \<Rightarrow> provider_lease" where
  "taken_lease L w l owner_id = l\<lparr>pl_owner_id := owner_id, pl_fence_token := uuid_simple L (uuids w + 1),
     pl_owner_host := po_host (this_process w), pl_owner_pid := po_pid (this_process w),
     pl_owner_expires_at := [], pl_updated_at := to_rfc3339 L (clock w)\<rparr>"

definition lease_blob :: "string \<Rightarrow> string" where
  "lease_blob id' = ''provider-leases/'' @ id' @ ''.json''"

lemma lease_path_safe [simp]: "safe_job_id id' \<Longrightarrow> lease_path id' = Inr (lease_blob id')"
  by (simp add: lease_path_def lease_blob_def)

locale lease_store = blob_store B view put remove annotate token refusal good ready
  for B :: "'s backend" and view put remove annotate token refusal good ready +
  fixes L :: lib
  assumes token_nonempty [simp]: "token t \<noteq> []"
    and good_lease: "safe_job_id id' \<Longrightarrow> good (lease_blob id')"
begin

lemmas lease_steps = run_simps run_calls run_swap store_simps good_lease

lemma run_load:
  assumes "ready (disk w)" and "safe_job_id id'"
  shows "view (disk w) (lease_blob id') = None \<Longrightarrow> run L B (lease_load id') w = (Inr None, w)"
    and "view (disk w) (lease_blob id') = Some (lease_encode l) \<Longrightarrow> pl_owner_pid l < 2 ^ 32 \<Longrightarrow>
      run L B (lease_load id') w = (Inr (Some (l\<lparr>pl_version := token (lease_encode l)\<rparr>)), w)"
  using assms by (simp_all add: lease_load_def lease_steps doc_simps)

lemma run_create:
  assumes "ready (disk w)" and "wf_lease l"
  shows "view (disk w) (lease_blob (pl_job_id l)) = None \<Longrightarrow>
      run L B (lease_create l) w = (Inr (l\<lparr>pl_version := token (lease_encode l)\<rparr>),
        w\<lparr>disk := put (disk w) (lease_blob (pl_job_id l)) (lease_encode l)\<rparr>)"
    and "view (disk w) (lease_blob (pl_job_id l)) \<noteq> None \<Longrightarrow>
      run L B (lease_create l) w = (Inl (LeaseConflict ''provider lease already exists''), w)"
proof -
  have safe: "safe_job_id (pl_job_id l)" and pid: "pl_owner_pid l < 2 ^ 32"
    using assms(2) by (auto simp: wf_lease_def)
  have eq: "value_eq (lease_to_value (l\<lparr>pl_version := v\<rparr>)) (lease_to_value l)" for v
    by (simp add: lease_to_value_def)
  show "run L B (lease_create l) w = (Inr (l\<lparr>pl_version := token (lease_encode l)\<rparr>),
        w\<lparr>disk := put (disk w) (lease_blob (pl_job_id l)) (lease_encode l)\<rparr>)"
    if "view (disk w) (lease_blob (pl_job_id l)) = None"
  proof -
    let ?w = "w\<lparr>disk := put (disk w) (lease_blob (pl_job_id l)) (lease_encode l)\<rparr>"
    have "run L B (lease_load (pl_job_id l)) ?w =
        (Inr (Some (l\<lparr>pl_version := token (lease_encode l)\<rparr>)), ?w)"
      by (rule run_load(2)) (use assms(1) safe pid in \<open>simp_all add: store_simps good_lease\<close>)
    then show ?thesis
      using assms(1) safe that eq by (simp add: lease_create_def lease_steps)
  qed
  show "run L B (lease_create l) w = (Inl (LeaseConflict ''provider lease already exists''), w)"
    if "view (disk w) (lease_blob (pl_job_id l)) \<noteq> None"
    using assms(1) safe that by (auto simp: lease_create_def lease_steps)
qed

lemma run_save:
  assumes "ready (disk w)" and "safe_job_id (pl_job_id l)"
    and "view (disk w) (lease_blob (pl_job_id l)) = Some c" and "pl_version l \<noteq> []"
  shows "run L B (lease_save l (pl_version l)) w =
    (if token c = pl_version l
     then (Inr (l\<lparr>pl_version := token (lease_encode l)\<rparr>),
       w\<lparr>disk := put (disk w) (lease_blob (pl_job_id l)) (lease_encode l)\<rparr>)
     else (Inl (LeaseConflict ''provider lease changed concurrently''), w))"
  using assms by (simp add: lease_save_def lease_steps)

lemma run_new:
  assumes "safe_job_id id'" and "po_pid (this_process w) < 2 ^ 32"
  obtains n where "run L B (lease_new L id' provider' owner_id ttl) w = (n, w\<lparr>uuids := Suc (uuids w)\<rparr>)"
    and "wf_lease n" and "pl_job_id n = id'" and "pl_owner_id n = owner_id"
    and "pl_state n = lease_state_as_str Allocating" and "pl_fence_token n = uuid_simple L (uuids w)"
    and "pl_owner_host n = po_host (this_process w)" and "pl_owner_pid n = po_pid (this_process w)"
  using assms by (simp add: lease_new_def run_simps wf_lease_def)

lemma lease_encode_version [simp]: "lease_encode (l\<lparr>pl_version := v\<rparr>) = lease_encode l"
  by (simp add: lease_encode_def lease_to_value_def)

text \<open>Nobody takes a lease whose holder is not seen to be gone.\<close>

lemma acquire_held:
  assumes "ready (disk w)" and "safe_job_id id'" and "po_pid (this_process w) < 2 ^ 32"
    and "view (disk w) (lease_blob id') = Some (lease_encode l)" and "pl_owner_pid l < 2 ^ 32"
    and "holder_live w l"
  shows "\<exists>why w'. run L B (lease_acquire L id' provider' owner_id ttl) w = (Inl (LeaseConflict why), w') \<and>
    disk w' = disk w"
proof -
  let ?w = "w\<lparr>uuids := Suc (uuids w)\<rparr>"
  obtain n where new: "run L B (lease_new L id' provider' owner_id ttl) w = (n, ?w)"
    "wf_lease n" "pl_job_id n = id'"
    using run_new [OF assms(2,3)] by metis
  have create: "run L B (lease_create n) ?w = (Inl (LeaseConflict ''provider lease already exists''), ?w)"
    by (rule run_create(2)) (use assms new in auto)
  have load: "run L B (lease_load id') ?w = (Inr (Some (l\<lparr>pl_version := token (lease_encode l)\<rparr>)), ?w)"
    by (rule run_load(2)) (use assms in auto)
  show ?thesis
    using assms(6)
    by (simp add: lease_acquire_def run_simps new(1) create load)
qed

lemma acquire_free:
  assumes "ready (disk w)" and "safe_job_id id'" and "po_pid (this_process w) < 2 ^ 32"
    and "view (disk w) (lease_blob id') = None"
  shows "\<exists>l w'. run L B (lease_acquire L id' provider' owner_id ttl) w = (Inr l, w') \<and>
    view (disk w') (lease_blob id') = Some (lease_encode l) \<and> pl_version l = token (lease_encode l) \<and>
    pl_job_id l = id' \<and> pl_owner_id l = owner_id \<and> pl_state l = lease_state_as_str Allocating \<and>
    pl_fence_token l = uuid_simple L (uuids w) \<and>
    pl_owner_host l = po_host (this_process w) \<and> pl_owner_pid l = po_pid (this_process w)"
proof -
  let ?w = "w\<lparr>uuids := Suc (uuids w)\<rparr>"
  obtain n where new: "run L B (lease_new L id' provider' owner_id ttl) w = (n, ?w)"
    "wf_lease n" "pl_job_id n = id'" "pl_owner_id n = owner_id" "pl_state n = lease_state_as_str Allocating"
    "pl_fence_token n = uuid_simple L (uuids w)"
    "pl_owner_host n = po_host (this_process w)" "pl_owner_pid n = po_pid (this_process w)"
    by (rule run_new [OF assms(2,3)])
  have "run L B (lease_create n) ?w = (Inr (n\<lparr>pl_version := token (lease_encode n)\<rparr>),
        ?w\<lparr>disk := put (disk ?w) (lease_blob id') (lease_encode n)\<rparr>)"
    using run_create(1) [of ?w n] assms new(2,3) by simp
  then show ?thesis
    using assms new by (simp add: lease_acquire_def run_simps store_simps good_lease)
qed

text \<open>A takeover keeps what the lease records of the resource and makes the old owner's version stale.\<close>

lemma acquire_takes_over:
  assumes "ready (disk w)" and "safe_job_id id'" and "po_pid (this_process w) < 2 ^ 32"
    and "view (disk w) (lease_blob id') = Some (lease_encode l)" and "pl_owner_pid l < 2 ^ 32"
    and "pl_job_id l = id'" and "pl_provider l = provider'" and "holder_gone w l"
  shows "\<exists>w'. run L B (lease_acquire L id' provider' owner_id ttl) w =
      (Inr ((taken_lease L w l owner_id)\<lparr>pl_version := token (lease_encode (taken_lease L w l owner_id))\<rparr>), w') \<and>
    disk w' = put (disk w) (lease_blob id') (lease_encode (taken_lease L w l owner_id))"
proof -
  let ?l = "taken_lease L w l owner_id"
  let ?w = "w\<lparr>uuids := Suc (uuids w)\<rparr>" and ?v = "token (lease_encode l)"
  obtain n where new: "run L B (lease_new L id' provider' owner_id ttl) w = (n, ?w)"
    "wf_lease n" "pl_job_id n = id'"
    using run_new [OF assms(2,3)] by metis
  have create: "run L B (lease_create n) ?w = (Inl (LeaseConflict ''provider lease already exists''), ?w)"
    by (rule run_create(2)) (use assms new in auto)
  have load: "run L B (lease_load id') ?w = (Inr (Some (l\<lparr>pl_version := ?v\<rparr>)), ?w)"
    by (rule run_load(2)) (use assms in auto)
  have gone: "holder_gone ?w (l\<lparr>pl_version := ?v\<rparr>)"
    using assms(8) by simp
  let ?u = "?w\<lparr>uuids := Suc (uuids ?w)\<rparr>"
  have taken: "run L B (takeover L (l\<lparr>pl_version := ?v\<rparr>) owner_id) ?w = (Inr (?l\<lparr>pl_version := ?v\<rparr>), ?u)"
    using run_takeover(1) [OF gone] by (cases l) (simp add: taken_lease_def)
  have "pl_job_id ?l = id'"
    using assms(6) by (simp add: taken_lease_def)
  then have "run L B (lease_save (?l\<lparr>pl_version := ?v\<rparr>) ?v) ?u =
      (Inr (?l\<lparr>pl_version := token (lease_encode ?l)\<rparr>),
       ?u\<lparr>disk := put (disk w) (lease_blob id') (lease_encode ?l)\<rparr>)"
    using run_save [of ?u "?l\<lparr>pl_version := ?v\<rparr>" "lease_encode l"] assms(1,2,4) by simp
  then show ?thesis
    using assms(6,7) by (simp add: lease_acquire_def run_simps new(1) create load taken)
qed

end

lemma plain_lease_blob:
  assumes "safe_job_id id'"
  shows "plain_path (lease_blob id')"
proof -
  have "no_slash id'"
    using assms by (auto simp: safe_job_id_def no_slash_def list_all_iff is_ascii_alphanumeric_def
      is_ascii_digit_def is_ascii_upper_def is_ascii_lower_def Let_def)
  then show ?thesis
    using plain_two [of "''provider-leases''" "id' @ ''.json''"] by (simp add: lease_blob_def)
qed

interpretation held: lease_store "local_backend L root" "local_view root" "local_put root"
  "local_remove root" "local_annotate root" "local_version L"
  "\<lambda>p. ''local storage version changed for '' @ p" plain_path "local_ready root" L
  for L root
  by unfold_locales (simp_all add: plain_lease_blob local_version_def)

end
