(* ===== verification/Samples.thy ===== *)
theory Samples
  imports Reaper Leases
begin

text \<open>
  Concrete inputs the witnesses are evaluated on: a digest function and a calendar, one job, and a
  device-local store with that job queued and indexed.
\<close>

definition sample_sha :: "body \<Rightarrow> 256 word" where
  "sample_sha t =
     (case t of
        Json v \<Rightarrow>
          (case (get_str v ''fence_token'', job_from_value v) of
             (Some fence, _) \<Rightarrow> word_of_nat (3000 + length fence)
           | (None, None) \<Rightarrow> 8
           | (None, Some j) \<Rightarrow>
               (case lease_expires_at j of None \<Rightarrow> 7 | Some s \<Rightarrow> word_of_nat (100 + length s)))
      | Raw s \<Rightarrow> word_of_nat (1000 + length s)
      | Joined ts \<Rightarrow> word_of_nat (5000 + length ts))"

definition sample_lib :: lib where
  "sample_lib =
     \<lparr>sha256 = sample_sha,
      to_rfc3339 = (\<lambda>t. replicate (nat t) (CHR ''T'')),
      parse_rfc3339 = (\<lambda>s. if s \<noteq> [] \<and> set s \<subseteq> {CHR ''T''} then Some (int (length s)) else None),
      parse_naive = (\<lambda>_ _. None), format_utc = (\<lambda>_ t. replicate (nat t) (CHR ''T'')), byte_length = (\<lambda>t. case t of Raw s \<Rightarrow> length s | _ \<Rightarrow> 1),
      uuid_simple = (\<lambda>n. ''u'' @ replicate n (CHR ''0''))\<rparr>"

definition sample_root :: "string list" where
  "sample_root = [''srv'', ''store'']"

definition sample_job :: job where
  "sample_job = job_default\<lparr>job_id := ''job-1'', command := ''train'', created_at := ''TT''\<rparr>"

definition sample_running :: job where
  "sample_running = sample_job\<lparr>state := ''running'', lease_expires_at := Some ''T''\<rparr>"

text \<open>A device with the given blobs and nothing else, at instant 9.\<close>

definition sample_device :: "(string \<times> body) list \<Rightarrow> local_disk world" where
  "sample_device docs =
     \<lparr>disk = \<lparr>files = map (\<lambda>(p, t). (blob_target sample_root p, t)) docs, sidecars = [],
        exclusive_locks = [], admitted = None, mtimes = (\<lambda>_. 0), device_time = 9\<rparr>,
      clock = 9, uuids = 0, this_process = \<lparr>po_host = ''h'', po_pid = 1\<rparr>, live_pids = [1],
      active_owners = []\<rparr>"

abbreviation sample_view :: "local_disk \<Rightarrow> string \<Rightarrow> body option" where
  "sample_view \<equiv> local_view sample_root"

abbreviation sample_backend :: "local_disk backend" where
  "sample_backend \<equiv> local_backend sample_lib sample_root"

definition queued_world :: "local_disk world" where
  "queued_world = sample_device [(job_path (prefix_as_str Queue) ''job-1'', to_json sample_job)]"

definition running_world :: "local_disk world" where
  "running_world = sample_device [(job_path (prefix_as_str Running) ''job-1'', to_json sample_running)]"

definition empty_world :: "local_disk world" where
  "empty_world = sample_device []"

lemma sample_job_default [simp]: "sound_job sample_job" "state sample_job = ''queued''"
  "job_id sample_job = ''job-1''" "unlinked sample_job" "not_before sample_job = None"
  by (simp_all add: sample_job_def job_default_def job_of_object_def sound_job_def wf_job_def
      field_reads no_slash_def default_state_def unlinked_def i64_range_def f64_is_finite_def
      f64_exponent_def)

lemma sample_running_default [simp]: "sound_job sample_running" "state sample_running = ''running''"
  "job_id sample_running = ''job-1''" "unlinked sample_running"
  by (simp_all add: sample_running_def) (simp add: unlinked_def sample_job_def job_default_def
      job_of_object_def field_reads)

lemma sample_device_view [simp]: "sample_view (disk (sample_device docs)) p = map_of docs p"
proof -
  have "map_of (map (\<lambda>(p, t). (blob_target sample_root p, t)) docs) (blob_target sample_root p) =
      map_of docs p"
    by (induction docs) auto
  then show ?thesis by (simp add: sample_device_def local_view_def read_file_def)
qed

lemma sample_device_clock [simp]: "clock (sample_device docs) = 9"
  by (simp add: sample_device_def)

lemma sample_device_ready:
  assumes "list_all (\<lambda>(p, _). plain_path p) docs"
  shows "local_ready sample_root (disk (sample_device docs))"
proof -
  have root: "list_all entry_name sample_root"
    by (simp add: sample_root_def entry_name_def)
  have "mutation_guard sample_root (disk (sample_device docs)) = Inr ()"
    by (simp add: sample_root_def mutation_guard_def write_fence_for_root_def)
  moreover have "list_all (\<lambda>(item, _). list_all entry_name item) (files (disk (sample_device docs)))"
    using assms root
    by (fastforce simp: sample_device_def list_all_iff blob_target_def plain_path_names)
  ultimately show ?thesis using root by (simp add: local_ready_def)
qed

lemma sample_ready [simp]:
  "local_ready sample_root (disk queued_world)"
  "local_ready sample_root (disk running_world)"
  "local_ready sample_root (disk empty_world)"
  by (simp_all add: queued_world_def running_world_def empty_world_def sample_device_ready
      plain_move_paths no_slash_def)

lemma sample_movable:
  assumes "q \<noteq> Queue"
  shows "movable sample_view L (disk queued_world) sample_job (sample_job\<lparr>lease_expires_at := x\<rparr>) Queue q"
    and "movable sample_view L (disk queued_world) sample_job sample_job Queue q"
  using assms sound_jobD(1) [OF sample_job_default(1)]
  by (simp_all add: movable_def Let_def queued_world_def vacant_def idle_record_def)

lemma sentinel_queued [simp]:
  "\<not> is_transition_sentinel_state ''queued''" "\<not> is_transition_sentinel_state ''running''"
  by (simp_all add: is_transition_sentinel_state_def starts_with_def transition_fence_prefix_def
      transition_cleaned_prefix_def)

lemma sample_homes [simp]: "homes sample_view (disk queued_world) ''job-1'' = [Queue]"
  by (rule homes_single) (auto simp: queued_world_def)

lemma sample_blank [simp]:
  "sample_view (disk empty_world) p = None"
  "sample_view (disk queued_world) (cancellation_path i) = None"
  "sample_view (disk queued_world) (transition_path L i) = None"
  "sample_view (disk running_world) (transition_path L i) = None"
  by (simp_all add: empty_world_def queued_world_def running_world_def)
     (simp add: cancellation_path_def job_path_def prefix_words del: queue_words)

text \<open>A device where the job was queued, claimed and finished, and has left every prefix.\<close>

definition sample_record :: job_transition where
  "sample_record =
     \<lparr>jt_schema = transition_schema, jt_transition_id = ''t'', jt_owner = ''o'', jt_job_id = ''job-1'',
      jt_from_prefix = ''running'', jt_to_prefix = ''completed'', jt_source_version = ''v'',
      jt_source_digest = ''d'', jt_destination_version = None, jt_state = Retired, jt_created_at = ''T'',
      jt_destination_job = sample_job\<lparr>state := ''completed''\<rparr>\<rparr>"

definition settled_world :: "local_disk world" where
  "settled_world = sample_device [(transition_path sample_lib ''job-1'', transition_to_body sample_record)]"

definition sample_request :: json where
  "sample_request = JObj [(''job_id'', JStr ''job-1''), (''requested_at'', JStr ''TTT'')]"

definition asked_world :: "local_disk world" where
  "asked_world = sample_device
     [(job_path (prefix_as_str Queue) ''job-1'', to_json sample_job),
      (cancellation_path ''job-1'', Json sample_request)]"

definition indexed_world :: "local_disk world" where
  "indexed_world = sample_device
     [(job_path (prefix_as_str Queue) ''job-1'', to_json sample_job), (marker_path sample_job, Raw ''m'')]"

lemma cancellation_path_other [simp]:
  "cancellation_path i \<noteq> job_path (prefix_as_str p) a" "job_path (prefix_as_str p) a \<noteq> cancellation_path i"
  "cancellation_path i \<noteq> transition_path L a" "transition_path L a \<noteq> cancellation_path i"
  by (cases p; simp add: cancellation_path_def job_path_def transition_path_def prefix_words del: queue_words)+

lemma plain_cancellation: "no_slash i \<Longrightarrow> plain_path (cancellation_path i)"
  by (rule lives.good_cancellation)

lemma sample_settled:
  "local_ready sample_root (disk settled_world)" "tidy sample_view (disk settled_world) ''job-1''"
  "sample_view (disk settled_world) (transition_path sample_lib ''job-1'') \<noteq> None"
  "idle_record ''job-1'' (sample_view (disk settled_world) (transition_path sample_lib ''job-1''))"
proof -
  show "local_ready sample_root (disk settled_world)" "tidy sample_view (disk settled_world) ''job-1''"
    "sample_view (disk settled_world) (transition_path sample_lib ''job-1'') \<noteq> None"
    by (simp_all add: settled_world_def sample_device_ready plain_move_paths tidy_def)
  have "sound_record ''job-1'' sample_record"
    using sound_jobD(1) [OF sample_job_default(1)]
    by (simp add: sound_record_def sample_record_def stored_state_def transition_state_from_def
        retired_word_def)
  then show "idle_record ''job-1'' (sample_view (disk settled_world) (transition_path sample_lib ''job-1''))"
    by (auto simp: settled_world_def idle_record_def sample_record_def intro!: exI [of _ sample_record])
qed

lemma sample_asked:
  "local_ready sample_root (disk asked_world)"
  "movable sample_view sample_lib (disk asked_world) sample_job sample_job Queue Cancelled"
  "sample_view (disk asked_world) (cancellation_path ''job-1'') = Some (Json sample_request)"
  "get_str sample_request ''job_id'' = Some ''job-1''" "get_str sample_request ''requested_at'' = Some ''TTT''"
  "parse_rfc3339 sample_lib ''TTT'' \<noteq> None" "homes sample_view (disk asked_world) ''job-1'' = [Queue]"
proof -
  show "local_ready sample_root (disk asked_world)"
    by (simp add: asked_world_def sample_device_ready plain_move_paths plain_cancellation no_slash_def)
  show "movable sample_view sample_lib (disk asked_world) sample_job sample_job Queue Cancelled"
    using sound_jobD(1) [OF sample_job_default(1)]
    by (simp add: movable_def Let_def asked_world_def vacant_def idle_record_def)
  show "homes sample_view (disk asked_world) ''job-1'' = [Queue]"
    by (rule homes_single) (auto simp: asked_world_def)
qed (simp_all add: asked_world_def sample_request_def get_str_def sample_lib_def)

lemma sample_indexed:
  "local_ready sample_root (disk indexed_world)"
  "sample_view (disk indexed_world) (transition_path L ''job-1'') = None"
  "sample_view (disk indexed_world) (job_path (prefix_as_str Queue) ''job-1'') = Some (to_json sample_job)"
  "sample_view (disk indexed_world) (marker_path sample_job) \<noteq> None"
  using sample_job_default(1)
  by (simp_all add: indexed_world_def sample_device_ready plain_move_paths sound_job_def no_slash_def)

text \<open>A device whose deployment root is fenced by the handoff transaction \<open>t1\<close>.\<close>

definition fenced_root :: "string list" where
  "fenced_root = [''home'', ''.stado'', ''local-storage'']"

definition fenced_world :: "local_disk world" where
  "fenced_world = (sample_device [])\<lparr>disk :=
     \<lparr>files = [([''home'', ''.stado'', ''recovery'', ''storage-root-write-fence.json''],
        Json (JObj [(''schema'', JStr write_fence_protocol), (''transaction'', JStr ''t1'')]))],
      sidecars = [], exclusive_locks = [], admitted = None, mtimes = (\<lambda>_. 0), device_time = 9\<rparr>\<rparr>"

lemma sample_fenced: "mutation_guard fenced_root (disk fenced_world) = Inl (IoError ''local storage writes are fenced'')"
  by (simp add: fenced_root_def fenced_world_def mutation_guard_def write_fence_for_root_def numeral_nat
      fence_mutation_guard_def read_intent_def read_file_def get_str_def fence_refused_def)

text \<open>The renewed document has another version: its lease reads differently.\<close>

lemma sample_version:
  assumes "wf_job j" "lease_expires_at j = Some s" "100 + length s < 2 ^ 256"
  shows "local_version sample_lib (to_json j) = hex_digits 64 (100 + length s)"
proof -
  have "unat (word_of_nat (100 + length s) :: 256 word) = 100 + length s"
    using assms(3) by (simp only: unat_of_nat) simp
  moreover have "''fence_token'' \<notin> fst ` set (job_fields j)"
    unfolding set_map [symmetric] job_fields_keys by (simp add: job_keys_def)
  then have "get_str (job_to_value j) ''fence_token'' = None"
    by (simp add: get_str_def job_to_value_def job_object_def present_fields_absent)
  ultimately show ?thesis
    using assms(1,2)
    by (simp add: local_version_def sha256_hex_def sample_lib_def sample_sha_def to_json_def job_roundtrip
        del: of_nat_add)
qed

lemma sample_renewal:
  "local_version sample_lib
     (to_json (sample_running\<lparr>lease_expires_at := Some (to_rfc3339 sample_lib (clock running_world + 5))\<rparr>)) \<noteq>
   local_version sample_lib (to_json sample_running)"
proof -
  have wf: "wf_job sample_running" using sound_jobD(1) [OF sample_running_default(1)] .
  have "lease_expires_at sample_running = Some ''T''" by (simp add: sample_running_def)
  then have "local_version sample_lib (to_json sample_running) = hex_digits 64 101"
    using sample_version [OF wf] by simp
  moreover have "to_rfc3339 sample_lib (clock running_world + 5) = replicate 14 (CHR ''T'')"
    by (simp add: sample_lib_def running_world_def)
  ultimately show ?thesis
    using sample_version [of "sample_running\<lparr>lease_expires_at := Some (replicate 14 (CHR ''T''))\<rparr>"
        "replicate 14 (CHR ''T'')"] wf hex_digits_less [of 101 114 64]
    by auto
qed

lemma sample_options: "wf_options submit_options_default"
  by (simp add: wf_options_def submit_options_default_def i64_range_def f64_is_finite_def f64_exponent_def)

section \<open>The index\<close>

definition named_job :: job where
  "named_job = sample_job\<lparr>job_id := ''job-0123456789ab0123456789ab''\<rparr>"

text \<open>A queued job without its marker, and a marker that names no job.\<close>

definition stray_world :: "local_disk world" where
  "stray_world = sample_device
     [(job_path (prefix_as_str Queue) ''job-0123456789ab0123456789ab'', to_json named_job),
      (''queue_priority/stray.json'', Raw ''m'')]"

lemma named_job_default [simp]: "sound_job named_job" "state named_job = ''queued''"
  "job_id named_job = ''job-0123456789ab0123456789ab''"
  by (simp_all add: named_job_def sample_job_def job_default_def job_of_object_def sound_job_def wf_job_def
      field_reads no_slash_def default_state_def i64_range_def f64_is_finite_def f64_exponent_def)

lemma named_job_canonical: "is_canonical_job_id ''job-0123456789ab0123456789ab''"
  by (simp add: is_canonical_job_id_def job_id_head_def job_id_hex_len_def strip_prefix_def is_lower_hex_def
      is_ascii_digit_def)

lemma stray_queue:
  assumes "starts_with p ''queue/''" "sample_view (disk stray_world) p = Some t"
  shows "p = job_path (prefix_as_str Queue) ''job-0123456789ab0123456789ab'' \<and> t = to_json named_job"
  using assms by (auto simp: stray_world_def starts_with_def split: if_splits)

lemma sample_stray:
  "local_ready sample_root (disk stray_world)" "queue_in_order plain_path sample_view (disk stray_world)"
  "queued_in sample_view (disk stray_world) named_job"
  "plain_path ''queue_priority/stray.json''" "starts_with ''queue_priority/stray.json'' marker_prefix"
  "is_marker ''queue_priority/stray.json''"
  "\<not> (\<exists>p id'. starts_with p ''queue/'' \<and> sample_view (disk stray_world) p \<noteq> None \<and> path_job_id p = Some id' \<and>
     ends_with ''queue_priority/stray.json'' (id_suffix id'))"
  "sample_view (disk stray_world) (marker_path named_job) = None"
  "sample_view (disk stray_world) ''queue_priority/stray.json'' \<noteq> None"
proof -
  show plain: "plain_path ''queue_priority/stray.json''" "starts_with ''queue_priority/stray.json'' marker_prefix"
    "is_marker ''queue_priority/stray.json''"
    by (simp_all add: plain_path_def marker_prefix_def is_marker_def starts_with_def ends_with_def)
  show "local_ready sample_root (disk stray_world)"
    using plain(1) by (simp add: stray_world_def sample_device_ready plain_move_paths no_slash_def)
  show "queue_in_order plain_path sample_view (disk stray_world)"
    unfolding queue_in_order_def
  proof (intro allI impI)
    fix p t
    assume "starts_with p ''queue/''" "sample_view (disk stray_world) p = Some t"
    from stray_queue [OF this] show "\<exists>j. sound_job j \<and> t = to_json j \<and>
        (state j = ''queued'' \<longrightarrow> is_canonical_job_id (job_id j) \<and> p = job_path (prefix_as_str Queue) (job_id j))"
      using named_job_canonical by (intro exI [of _ named_job]) simp
  qed
  show "queued_in sample_view (disk stray_world) named_job"
    "sample_view (disk stray_world) (marker_path named_job) = None"
    "sample_view (disk stray_world) ''queue_priority/stray.json'' \<noteq> None"
    by (simp_all add: queued_in_def stray_world_def job_path_def prefix_words marker_path_def marker_prefix_def del: queue_words)
  have "path_job_id (job_path (prefix_as_str Queue) ''job-0123456789ab0123456789ab'') = Some ''job-0123456789ab0123456789ab''"
    by (rule path_job_id_queue) (simp add: no_slash_def)
  then show "\<not> (\<exists>p id'. starts_with p ''queue/'' \<and> sample_view (disk stray_world) p \<noteq> None \<and> path_job_id p = Some id' \<and>
     ends_with ''queue_priority/stray.json'' (id_suffix id'))"
    using stray_queue by (auto simp: id_suffix_def ends_with_def)
qed

section \<open>Lost workers\<close>

text \<open>The worker of \<open>sample_running\<close> promised to speak by instant 1.\<close>

lemma sample_running_fields [simp]:
  "command sample_running = ''train''" "terminates_agent sample_running = False"
  "submitter_restarts sample_running = False" "error sample_running = None" "restarts sample_running = 0"
  "started_at sample_running = None" "pinned_host sample_running = []"
  "lease_expires_at sample_running = Some ''T''"
  by (simp_all add: sample_running_def sample_job_def job_default_def job_of_object_def field_reads)

text \<open>A device with one running document, and blobs beside the lifecycle.\<close>

definition beside :: "string \<Rightarrow> bool" where
  "beside p \<longleftrightarrow> plain_path p \<and> (starts_with p ''status/'' \<or> starts_with p ''ecosystem/'')"

definition lost_world :: "job \<Rightarrow> (string \<times> body) list \<Rightarrow> local_disk world" where
  "lost_world j docs = sample_device ((job_path (prefix_as_str Running) ''job-1'', to_json j) # docs)"

lemma running_lost: "running_world = lost_world sample_running []"
  by (simp add: running_world_def lost_world_def)

lemma lost_world_device [simp]: "clock (lost_world j docs) = 9"
  by (simp add: lost_world_def)

lemma lost_world_view:
  assumes "list_all (\<lambda>(p, _). beside p) docs"
  shows "sample_view (disk (lost_world j docs)) p =
    (if p = job_path (prefix_as_str Running) ''job-1'' then Some (to_json j)
     else if beside p then map_of docs p else None)"
proof -
  have "map_of docs p = None" if "\<not> beside p"
    using assms that by (induction docs) auto
  then show ?thesis by (simp add: lost_world_def)
qed

lemma not_beside [simp]: "\<not> beside (job_path (prefix_as_str p) i)" "\<not> beside (transition_path L i)"
  by (cases p; simp add: beside_def starts_with_def job_path_def transition_path_def prefix_words del: queue_words)+

lemma lost_world_ready:
  assumes "list_all (\<lambda>(p, _). beside p) docs"
  shows "local_ready sample_root (disk (lost_world j docs))"
proof -
  have "list_all (\<lambda>(p, _). plain_path p) docs"
    using assms by (auto simp: list_all_iff beside_def)
  then show ?thesis
    by (simp add: lost_world_def sample_device_ready plain_move_paths no_slash_def)
qed

lemma lost_world_job:
  assumes docs: "list_all (\<lambda>(p, _). beside p) docs"
    and j: "sound_job j" "job_id j = ''job-1''" "state j = ''running''" "unlinked j"
  shows "homes sample_view (disk (lost_world j docs)) ''job-1'' = [Running]"
    and "sound_job r \<Longrightarrow> job_id r = ''job-1'' \<Longrightarrow> same_identity j r \<Longrightarrow> q \<noteq> Running \<Longrightarrow>
      movable sample_view L (disk (lost_world j docs)) j r Running q"
proof -
  show "homes sample_view (disk (lost_world j docs)) ''job-1'' = [Running]"
    by (rule homes_single) (simp add: lost_world_view [OF docs] j)
  show "movable sample_view L (disk (lost_world j docs)) j r Running q"
    if "sound_job r" "job_id r = ''job-1''" "same_identity j r" "q \<noteq> Running"
    using that j by (simp add: movable_def Let_def lost_world_view [OF docs] vacant_def idle_record_def)
qed

lemma sample_entry [simp]: "entry_name ''job-1''"
  by (simp add: entry_name_def)

text \<open>No pulse and no checkpoint was written.\<close>

lemma lost_world_silent:
  assumes docs: "list_all (\<lambda>(p, _). beside p) docs" and "map_of docs (heartbeat_path ''job-1'') = None"
  shows "be_updated_at sample_backend (disk (lost_world j docs)) (heartbeat_path ''job-1'') = Inr None"
proof -
  have "sample_view (disk (lost_world j docs)) (heartbeat_path ''job-1'') = None"
    using assms(2) by (simp add: lost_world_view [OF docs] heartbeat_path_def job_path_def prefix_words del: queue_words)
  then show ?thesis
    by (rule no_pulse [OF lost_world_ready [OF docs] plain_output(2) [OF sample_entry]])
qed

lemma sample_promise:
  "lease_expires_at j = Some ''T'' \<Longrightarrow> lease_promise sample_lib j = Some 1"
  "fst (run L B (checkpoint_written_after ''train'' e) w) = False"
  by (simp_all add: lease_promise_def parse_iso_lenient_def sample_lib_def checkpoint_written_after_def
      ckpt_prefix_from_command_def checkpoint_flag_def starts_with_def)

lemma sample_lapsed:
  "homes sample_view (disk running_world) ''job-1'' = [Running]"
  "be_updated_at sample_backend (disk running_world) (heartbeat_path ''job-1'') = Inr None"
  "sound_job r \<Longrightarrow> job_id r = ''job-1'' \<Longrightarrow> same_identity sample_running r \<Longrightarrow> q \<noteq> Running \<Longrightarrow>
    movable sample_view L (disk running_world) sample_running r Running q"
  by (simp_all add: running_lost lost_world_job lost_world_silent)

text \<open>A release whose worker died after it had published everything.\<close>

definition sample_worker_request :: json_object where
  "sample_worker_request =
     [(''schema_version'', JInt 1), (''run_id'', JStr ''r''), (''product'', JStr ''p''), (''version'', JStr ''1''),
      (''platform'', JStr ''linux''), (''builder'', JStr ''b''), (''source_commit'', JStr ''c''),
      (''source_sha256'', JStr ''s''), (''manifest_sha256'', JStr ''m''), (''source_archive'', JStr ''a''),
      (''manifest_path'', JStr ''f'')]"

definition sample_build_receipt :: "string \<Rightarrow> json_object" where
  "sample_build_receipt digest =
     [(''schema_version'', JInt 1), (''run_id'', JStr ''r''), (''job_id'', JStr ''job-1''), (''product'', JStr ''p''),
      (''version'', JStr ''1''), (''platform'', JStr ''linux''), (''builder'', JStr ''b''),
      (''source_commit'', JStr ''c''), (''source_sha256'', JStr ''s''), (''manifest_sha256'', JStr ''m''),
      (''quality'', JArr []),
      (''build'', JObj [(''name'', JStr ''n''), (''argv'', JArr []), (''status'', JStr ''passed''), (''exit_code'', JInt 0)]),
      (''status'', JStr ''passed''),
      (''artifact'', JObj [(''sha256'', JStr digest), (''bytes'', JInt 1),
        (''path'', JStr ''release.tar.gz'')]),
      (''completed_at'', JStr ''TTT'')]"

definition release_job :: job where
  "release_job = sample_running\<lparr>started_at := Some ''TT''\<rparr>\<lparr>resolved_input_artifacts :=
     [(''request'', JObj [(''relative_path'', JStr ''release-request.json''),
        (''sha256'', JStr (sha256_hex sample_lib (Json (JObj sample_worker_request)))), (''stado_uri'', JStr ''stado://ns/q'')])]\<rparr>"

definition release_docs :: "(string \<times> body) list" where
  "release_docs =
     [(receipt_path ''job-1'', Json (JObj (sample_build_receipt (sha256_hex sample_lib (Raw ''z''))))), (''ecosystem/ns/q'', Json (JObj sample_worker_request)),
      (archive_path ''job-1'', Raw ''z'')]"

lemma wf_with_inputs: "wf_job j \<Longrightarrow> wf_json (JObj m) \<Longrightarrow> wf_job (j\<lparr>resolved_input_artifacts := m\<rparr>)"
  unfolding wf_job_def by simp

lemma sound_with_inputs:
  "sound_job j \<Longrightarrow> wf_json (JObj m) \<Longrightarrow> sound_job (j\<lparr>resolved_input_artifacts := m\<rparr>)"
  unfolding sound_job_def using wf_with_inputs by simp

lemma sound_started: "sound_job (j\<lparr>started_at := s\<rparr>) = sound_job j"
  by (simp add: sound_job_def)

lemma release_job_sound [simp]:
  "sound_job release_job" "job_id release_job = ''job-1''" "state release_job = ''running''" "unlinked release_job"
  "terminates_agent release_job = False" "lease_expires_at release_job = Some ''T''" "command release_job = ''train''"
proof -
  show "sound_job release_job"
    unfolding release_job_def by (rule sound_with_inputs) (simp_all add: sound_started)
qed (use sample_running_default(4) in \<open>simp_all add: release_job_def unlinked_def\<close>)

lemma release_docs_beside: "list_all (\<lambda>(p, _). beside p) release_docs"
  using plain_output [OF sample_entry]
  by (simp add: release_docs_def beside_def receipt_path_def archive_path_def starts_with_def)
     (simp add: plain_path_def)

lemma sample_worker_request_fields:
  "obj_get sample_worker_request ''schema_version'' = Some (JInt 1)"
  "obj_get sample_worker_request ''run_id'' = Some (JStr ''r'')"
  "obj_get sample_worker_request ''product'' = Some (JStr ''p'')"
  "obj_get sample_worker_request ''version'' = Some (JStr ''1'')"
  "obj_get sample_worker_request ''platform'' = Some (JStr ''linux'')"
  "obj_get sample_worker_request ''builder'' = Some (JStr ''b'')"
  "obj_get sample_worker_request ''source_commit'' = Some (JStr ''c'')"
  "obj_get sample_worker_request ''source_sha256'' = Some (JStr ''s'')"
  "obj_get sample_worker_request ''manifest_sha256'' = Some (JStr ''m'')"
  "obj_get sample_worker_request ''source_archive'' = Some (JStr ''a'')"
  "obj_get sample_worker_request ''manifest_path'' = Some (JStr ''f'')"
  "obj_get sample_worker_request ''inputs'' = None"
  "obj_get sample_worker_request ''secret_env'' = None"
  by (simp_all add: sample_worker_request_def obj_get_def)

lemma sample_build_receipt_fields:
  "obj_get (sample_build_receipt digest) ''schema_version'' = Some (JInt 1)"
  "obj_get (sample_build_receipt digest) ''run_id'' = Some (JStr ''r'')"
  "obj_get (sample_build_receipt digest) ''job_id'' = Some (JStr ''job-1'')"
  "obj_get (sample_build_receipt digest) ''product'' = Some (JStr ''p'')"
  "obj_get (sample_build_receipt digest) ''version'' = Some (JStr ''1'')"
  "obj_get (sample_build_receipt digest) ''platform'' = Some (JStr ''linux'')"
  "obj_get (sample_build_receipt digest) ''builder'' = Some (JStr ''b'')"
  "obj_get (sample_build_receipt digest) ''source_commit'' = Some (JStr ''c'')"
  "obj_get (sample_build_receipt digest) ''source_sha256'' = Some (JStr ''s'')"
  "obj_get (sample_build_receipt digest) ''manifest_sha256'' = Some (JStr ''m'')"
  "obj_get (sample_build_receipt digest) ''quality'' = Some (JArr [])"
  "obj_get (sample_build_receipt digest) ''build'' = Some (JObj [(''name'', JStr ''n''), (''argv'', JArr []), (''status'', JStr ''passed''), (''exit_code'', JInt 0)])"
  "obj_get (sample_build_receipt digest) ''status'' = Some (JStr ''passed'')"
  "obj_get (sample_build_receipt digest) ''artifact'' = Some (JObj [(''sha256'', JStr digest), (''bytes'', JInt 1),
     (''path'', JStr ''release.tar.gz'')])"
  "obj_get (sample_build_receipt digest) ''completed_at'' = Some (JStr ''TTT'')"
  "obj_get (sample_build_receipt digest) ''inputs'' = None"
  "obj_get (sample_build_receipt digest) ''secret_env'' = None"
  "obj_get (sample_build_receipt digest) ''failure'' = None"
  by (simp_all add: sample_build_receipt_def obj_get_def)

lemma sample_parsed:
  "parsed worker_request_from_value (Json (JObj sample_worker_request)) =
     Some \<lparr>wr_schema_version = 1, wr_run_id = ''r'', wr_product = ''p'', wr_version = ''1'', wr_platform = ''linux'',
       wr_builder = ''b'', wr_source_commit = ''c'', wr_source_sha256 = ''s'', wr_manifest_sha256 = ''m'',
       wr_source_archive = ''a'', wr_manifest_path = ''f'', wr_inputs = [], wr_secret_env = []\<rparr>"
  "parsed build_receipt_from_value (Json (JObj (sample_build_receipt digest))) =
     Some \<lparr>br_schema_version = 1, br_run_id = ''r'', br_job_id = ''job-1'', br_product = ''p'', br_version = ''1'',
       br_platform = ''linux'', br_builder = ''b'', br_source_commit = ''c'', br_source_sha256 = ''s'',
       br_manifest_sha256 = ''m'', br_inputs = [], br_secret_env = [], br_quality = [],
       br_build = \<lparr>sr_name = ''n'', sr_argv = [], sr_status = StepPassed, sr_exit_code = Some 0\<rparr>,
       br_status = StepPassed,
       br_artifact = Some \<lparr>ar_sha256 = digest, ar_bytes = 1, ar_path = ''release.tar.gz''\<rparr>,
       br_completed_at = ''TTT'', br_failure = None\<rparr>"
proof -
  note reads = parsed_def required_def defaulted_def nullable_def as_u32_def as_str_def list_of_def as_u64_def u64_range_def
    as_i32_def
  have "only_keys [''schema_version'', ''run_id'', ''product'', ''version'', ''platform'', ''builder'', ''source_commit'',
       ''source_sha256'', ''manifest_sha256'', ''source_archive'', ''manifest_path'', ''inputs'', ''secret_env'']
       (JObj sample_worker_request) = Some sample_worker_request"
    by (simp add: only_keys_def) (simp add: sample_worker_request_def)
  then show "parsed worker_request_from_value (Json (JObj sample_worker_request)) = Some \<lparr>wr_schema_version = 1,
       wr_run_id = ''r'', wr_product = ''p'', wr_version = ''1'', wr_platform = ''linux'', wr_builder = ''b'',
       wr_source_commit = ''c'', wr_source_sha256 = ''s'', wr_manifest_sha256 = ''m'', wr_source_archive = ''a'',
       wr_manifest_path = ''f'', wr_inputs = [], wr_secret_env = []\<rparr>"
    by (simp add: worker_request_from_value_def reads sample_worker_request_fields)
  have "only_keys [''schema_version'', ''run_id'', ''job_id'', ''product'', ''version'', ''platform'',
       ''builder'', ''source_commit'', ''source_sha256'', ''manifest_sha256'', ''inputs'', ''secret_env'',
       ''quality'', ''build'', ''status'', ''artifact'', ''completed_at'', ''failure'']
       (JObj (sample_build_receipt digest)) = Some (sample_build_receipt digest)"
    by (simp add: only_keys_def) (simp add: sample_build_receipt_def)
  moreover have "step_receipt_from_value (JObj [(''name'', JStr ''n''), (''argv'', JArr []), (''status'', JStr ''passed''),
      (''exit_code'', JInt 0)]) = Some \<lparr>sr_name = ''n'', sr_argv = [], sr_status = StepPassed, sr_exit_code = Some 0\<rparr>"
    by (simp add: step_receipt_from_value_def only_keys_def obj_get_def reads step_status_from_value_def)
  moreover have "artifact_receipt_from_value (JObj [(''sha256'', JStr digest), (''bytes'', JInt 1),
      (''path'', JStr ''release.tar.gz'')]) = Some \<lparr>ar_sha256 = digest, ar_bytes = 1, ar_path = ''release.tar.gz''\<rparr>"
    by (simp add: artifact_receipt_from_value_def only_keys_def obj_get_def reads)
  ultimately show "parsed build_receipt_from_value (Json (JObj (sample_build_receipt digest))) =
     Some \<lparr>br_schema_version = 1, br_run_id = ''r'', br_job_id = ''job-1'', br_product = ''p'', br_version = ''1'',
       br_platform = ''linux'', br_builder = ''b'', br_source_commit = ''c'', br_source_sha256 = ''s'',
       br_manifest_sha256 = ''m'', br_inputs = [], br_secret_env = [], br_quality = [],
       br_build = \<lparr>sr_name = ''n'', sr_argv = [], sr_status = StepPassed, sr_exit_code = Some 0\<rparr>,
       br_status = StepPassed,
       br_artifact = Some \<lparr>ar_sha256 = digest, ar_bytes = 1, ar_path = ''release.tar.gz''\<rparr>,
       br_completed_at = ''TTT'', br_failure = None\<rparr>"
    by (simp add: build_receipt_from_value_def reads sample_build_receipt_fields step_status_from_value_def)
qed

lemma sample_release:
  "started_instant sample_lib release_job = Some 2"
  "finished_release sample_view sample_lib [] (disk (lost_world release_job release_docs)) release_job 2 9 ''TTT''"
proof -
  show "started_instant sample_lib release_job = Some 2"
    by (simp add: started_instant_def release_job_def parse_iso_lenient_def sample_lib_def)
  have object: "object_ref_parse ''stado://ns/q'' = Inr \<lparr>or_namespace = ''ns'', or_key = ''q''\<rparr>"
    by code_simp
  have input: "request_input release_job = Some (''stado://ns/q'', sha256_hex sample_lib (Json (JObj sample_worker_request)))"
    by (simp add: request_input_def release_job_def obj_get_def as_object_def as_str_def)
  have path: "beside (receipt_path ''job-1'')" "beside (archive_path ''job-1'')" "beside ''ecosystem/ns/q''"
    using release_docs_beside by (simp_all add: release_docs_def)
  have "p \<noteq> job_path (prefix_as_str Running) ''job-1''" if "beside p" for p
    using that by auto
  then have views: "sample_view (disk (lost_world release_job release_docs)) p = map_of release_docs p" if "beside p" for p
    using that by (simp add: lost_world_view [OF release_docs_beside])
  have found:
    "sample_view (disk (lost_world release_job release_docs)) (receipt_path ''job-1'') =
       Some (Json (JObj (sample_build_receipt (sha256_hex sample_lib (Raw ''z'')))))"
    "sample_view (disk (lost_world release_job release_docs)) (storage_path \<lparr>or_namespace = ''ns'', or_key = ''q''\<rparr>) =
       Some (Json (JObj sample_worker_request))"
    "sample_view (disk (lost_world release_job release_docs)) (archive_path ''job-1'') = Some (Raw ''z'')"
    by (simp_all add: views path storage_path_def)
       (simp_all add: release_docs_def receipt_path_def archive_path_def)
  have at: "parse_iso_lenient sample_lib ''TTT'' = Some 3" "byte_length sample_lib (Raw ''z'') = 1"
    by (simp_all add: parse_iso_lenient_def sample_lib_def)
  show "finished_release sample_view sample_lib [] (disk (lost_world release_job release_docs)) release_job 2 9 ''TTT''"
    by (simp add: finished_release_def found input object sample_parsed at receipt_matches_def schema_version_def
        inputs_match_def step_passed_def archive_agrees_def)
qed

section \<open>Provider leases\<close>

definition sample_lease :: provider_lease where
  "sample_lease = \<lparr>pl_job_id = ''job-1'', pl_provider = ''box'', pl_owner_id = ''first'',
     pl_fence_token = ''f'', pl_state = ''running'', pl_owner_expires_at = [], pl_owner_host = ''h'',
     pl_owner_pid = 7, pl_resource_expires_at = ''TTTTTTTTTTTT'', pl_provider_resource_id = ''r-9'',
     pl_operation_id = [], pl_operation_started_at = [], pl_prompt_id = [], pl_last_error = [],
     pl_result_state = [], pl_created_at = ''T'', pl_updated_at = ''T'', pl_version = []\<rparr>"

text \<open>The lease of a process that is gone (pid 7 of this host), and of one on another host.\<close>

definition left_world :: "local_disk world" where
  "left_world = sample_device [(lease_blob ''job-1'', lease_encode sample_lease)]"

definition held_world :: "local_disk world" where
  "held_world = sample_device [(lease_blob ''job-1'', lease_encode (sample_lease\<lparr>pl_owner_host := ''other''\<rparr>))]"

lemma sample_safe_id: "safe_job_id ''job-1''"
  by (simp add: safe_job_id_def is_ascii_alphanumeric_def is_ascii_digit_def is_ascii_upper_def
      is_ascii_lower_def)

lemma sample_lease_worlds:
  "local_ready sample_root (disk left_world)" "local_ready sample_root (disk held_world)"
  "sample_view (disk left_world) (lease_blob ''job-1'') = Some (lease_encode sample_lease)"
  "sample_view (disk held_world) (lease_blob ''job-1'') =
     Some (lease_encode (sample_lease\<lparr>pl_owner_host := ''other''\<rparr>))"
  by (simp_all add: left_world_def held_world_def sample_device_ready plain_lease_blob sample_safe_id)

lemma sample_holders:
  "holder_gone left_world sample_lease" "holder_live held_world (sample_lease\<lparr>pl_owner_host := ''other''\<rparr>)"
  "po_pid (this_process left_world) = 1" "po_pid (this_process held_world) = 1"
  by (simp_all add: holder_gone_def holder_live_def left_world_def held_world_def sample_device_def
      sample_lease_def)

lemma sample_fence_version:
  assumes "3000 + length (pl_fence_token l) < 2 ^ 256"
  shows "local_version sample_lib (lease_encode l) = hex_digits 64 (3000 + length (pl_fence_token l))"
proof -
  have "unat (word_of_nat (3000 + length (pl_fence_token l)) :: 256 word) = 3000 + length (pl_fence_token l)"
    using assms by (simp only: unat_of_nat) simp
  moreover have "get_str (JObj (btree_collect m)) ''fence_token'' = Some (pl_fence_token l)"
    if "lease_to_value l = JObj m" for m
    using that by (auto simp: get_str_def obj_get_btree_collect lease_to_value_def)
  ultimately show ?thesis
    by (simp add: local_version_def sha256_hex_def sample_lib_def sample_sha_def lease_encode_def
        lease_to_value_def del: of_nat_add)
qed

lemma sample_takeover_version:
  "local_version sample_lib (lease_encode (taken_lease sample_lib left_world sample_lease ''second'')) \<noteq>
   local_version sample_lib (lease_encode sample_lease)"
proof -
  have "pl_fence_token (taken_lease sample_lib left_world sample_lease ''second'') = ''u0''"
    by (simp add: taken_lease_def sample_lib_def left_world_def sample_device_def)
  moreover have "pl_fence_token sample_lease = ''f''"
    by (simp add: sample_lease_def)
  ultimately show ?thesis
    using hex_digits_less [of 3001 3002 64] by (simp add: sample_fence_version)
qed

end
