(* ===== verification/Retries.thy ===== *)
theory Retries
  imports Lifecycle
begin

text \<open>
  The retry loops end. A round of a loop is repeated only after a write of it was refused because another
  writer was first, so a loop whose bound exceeds the number of such refusals never uses it up.
  \<open>within p n Q\<close> says this of a program whatever the store answers: every execution in which at most
  \<open>n\<close> conditional writes are refused ends with an answer in \<open>Q\<close>.
\<close>

section \<open>Executions with a bounded number of refused writes\<close>

definition lost_race :: "storage_error \<Rightarrow> bool" where
  "lost_race e \<longleftrightarrow> (case e of StorageConflict _ \<Rightarrow> True | NotFound _ \<Rightarrow> True | _ \<Rightarrow> False)"

text \<open>What a store answers: never the mark of a used-up bound.\<close>

definition answer :: "storage_error + 'b \<Rightarrow> bool" where
  "answer r \<longleftrightarrow> r \<noteq> Inl OutOfFuel"

text \<open>What follows a write: one refusal fewer is left after a refused one.\<close>

definition paying :: "bool \<Rightarrow> nat \<Rightarrow> (nat \<Rightarrow> bool) \<Rightarrow> bool" where
  "paying refused n W \<longleftrightarrow> (if refused then (\<forall>m. n = Suc m \<longrightarrow> W m) else W n)"

lemma paying_fewer:
  "paying b n W \<Longrightarrow> m \<le> n \<Longrightarrow> (\<And>i j. W i \<Longrightarrow> j \<le> i \<Longrightarrow> V j) \<Longrightarrow> paying b m V"
  by (cases n) (auto simp: paying_def split: if_splits)

primrec within :: "'a prog \<Rightarrow> nat \<Rightarrow> ('a \<Rightarrow> bool) \<Rightarrow> bool" where
  "within (Ret a) n Q = Q a"
| "within (UploadText p t k) n Q = (\<forall>r. answer r \<longrightarrow> within (k r) n Q)"
| "within (DownloadText p k) n Q = (\<forall>r. answer r \<longrightarrow> within (k r) n Q)"
| "within (UploadTextIfAbsent p t k) n Q =
     (\<forall>r. answer r \<longrightarrow>
       paying (r = Inr False) n (\<lambda>m. within (k r) m Q))"
| "within (DownloadTextVersioned p k) n Q = (\<forall>r. answer r \<longrightarrow> within (k r) n Q)"
| "within (CompareAndSwapText p v t k) n Q =
     (\<forall>r. answer r \<longrightarrow>
       paying (\<exists>e. r = Inl e \<and> lost_race e) n (\<lambda>m. within (k r) m Q))"
| "within (DeleteBlob p k) n Q = (\<forall>r. answer r \<longrightarrow> within (k r) n Q)"
| "within (ExistsBlob p k) n Q = (\<forall>r. answer r \<longrightarrow> within (k r) n Q)"
| "within (ListPaths p l k) n Q = (\<forall>r. answer r \<longrightarrow> within (k r) n Q)"
| "within (ListPage p a l k) n Q = (\<forall>r. answer r \<longrightarrow> within (k r) n Q)"
| "within (SetMetadata p kv k) n Q = (\<forall>r. answer r \<longrightarrow> within (k r) n Q)"
| "within (ListBlobsWithMeta p k) n Q = (\<forall>r. answer r \<longrightarrow> within (k r) n Q)"
| "within (UpdatedAt p k) n Q = (\<forall>r. answer r \<longrightarrow> within (k r) n Q)"
| "within (Now k) n Q = (\<forall>r. within (k r) n Q)"
| "within (NewUuid k) n Q = (\<forall>r. within (k r) n Q)"
| "within (CurrentProcess k) n Q = (\<forall>r. within (k r) n Q)"
| "within (PidAlive p k) n Q = (\<forall>r. within (k r) n Q)"
| "within (OwnerRunning i k) n Q = (\<forall>r. within (k r) n Q)"

lemma within_fewer: "within p n Q \<Longrightarrow> m \<le> n \<Longrightarrow> (\<And>a. Q a \<Longrightarrow> R a) \<Longrightarrow> within p m R"
proof (induction p arbitrary: n m)
  case (UploadTextIfAbsent p t k)
  show ?case
    using UploadTextIfAbsent.prems UploadTextIfAbsent.IH [OF rangeI]
    by (auto intro: paying_fewer)
next
  case (CompareAndSwapText p v t k)
  show ?case
    using CompareAndSwapText.prems CompareAndSwapText.IH [OF rangeI]
    by (auto intro: paying_fewer)
qed (simp_all, (metis rangeI)+)

lemma paying_mono: "paying b n W \<Longrightarrow> (\<And>m. m \<le> n \<Longrightarrow> W m \<Longrightarrow> V m) \<Longrightarrow> paying b n V"
  by (auto simp: paying_def split: if_splits)

lemma within_bindp:
  assumes "within p n (\<lambda>a. \<forall>m \<le> n. within (f a) m Q)"
  shows "within (bindp p f) n Q"
  using assms
proof (induction p arbitrary: n)
  case (UploadTextIfAbsent p t k)
  have "paying b n (\<lambda>m. within (bindp (k r) f) m Q)"
    if "paying b n (\<lambda>m. within (k r) m (\<lambda>a. \<forall>i \<le> n. within (f a) i Q))" for b r
    using that by (rule paying_mono) (rule UploadTextIfAbsent.IH [OF rangeI], erule within_fewer, simp_all)
  then show ?case using UploadTextIfAbsent.prems by simp
next
  case (CompareAndSwapText p v t k)
  have "paying b n (\<lambda>m. within (bindp (k r) f) m Q)"
    if "paying b n (\<lambda>m. within (k r) m (\<lambda>a. \<forall>i \<le> n. within (f a) i Q))" for b r
    using that by (rule paying_mono) (rule CompareAndSwapText.IH [OF rangeI], erule within_fewer, simp_all)
  then show ?case using CompareAndSwapText.prems by simp
qed simp_all

text \<open>Programs that answer without the mark \<open>spent\<close> of a used-up bound.\<close>

abbreviation returns :: "nat \<Rightarrow> 'a storage_prog \<Rightarrow> bool" where
  "returns n p \<equiv> within p n (\<lambda>r. r \<noteq> Inl OutOfFuel)"

abbreviation returns_submit :: "nat \<Rightarrow> (submit_error + 'a) prog \<Rightarrow> bool" where
  "returns_submit n p \<equiv> within p n (\<lambda>r. r \<noteq> Inl (Storage OutOfFuel))"

lemma returns_bindp:
  "within p n Q \<Longrightarrow> (\<And>r m. Q r \<Longrightarrow> m \<le> n \<Longrightarrow> within (f r) m R) \<Longrightarrow> within (bindp p f) n R"
  by (rule within_bindp) (erule within_fewer, auto)

lemma returns_bindE:
  assumes "within p n (\<lambda>r. r \<noteq> Inl x)" and "\<And>a m. m \<le> n \<Longrightarrow> within (f a) m (\<lambda>r. r \<noteq> Inl x)"
  shows "within (bindE p f) n (\<lambda>r. r \<noteq> Inl x)"
  unfolding bindE_def using assms(1) by (rule returns_bindp) (auto simp: assms(2) split: sum.split)

lemma returns_with_error:
  "within p n (\<lambda>r. r \<noteq> Inl x) \<Longrightarrow> (\<And>e. g e = y \<Longrightarrow> e = x) \<Longrightarrow> within (with_error g p) n (\<lambda>r. r \<noteq> Inl y)"
  unfolding with_error_def by (erule returns_bindp) (auto simp: map_err_def split: sum.splits)

text \<open>The calls.\<close>

lemma within_calls [simp]:
  "returns n (upload_text p t)" "returns n (download_text p)" "returns n (read_text_versioned p)"
  "returns n (create_text_if_absent p t)" "returns n (delete_blob p)" "returns n (exists_blob p)"
  "returns n (list_paths p l)" "returns n (set_metadata p kv)" "returns n (list_blobs_with_meta p)"
  by (simp_all add: facade_defs answer_def paying_def)

lemma within_now: "(\<And>t. within (f t) n Q) \<Longrightarrow> within (bindp now f) n Q"
  by (simp add: now_def)

lemma within_swap:
  assumes "\<And>a. within (f (Inr a)) n Q"
    and "\<And>e. e \<noteq> OutOfFuel \<Longrightarrow> \<not> lost_race e \<Longrightarrow> within (f (Inl e)) n Q"
    and "\<And>e m. lost_race e \<Longrightarrow> n = Suc m \<Longrightarrow> within (f (Inl e)) m Q"
  shows "within (bindp (compare_and_swap_text p v t) f) n Q"
proof (cases "v = []")
  case True
  then show ?thesis using assms(2) [of "Other _"] by (simp add: compare_and_swap_text_def lost_race_def)
next
  case False
  have "paying (\<exists>e. r = Inl e \<and> lost_race e) n (\<lambda>m. within (f r) m Q)" if "answer r" for r
    using that assms by (cases r) (auto simp: answer_def paying_def)
  then show ?thesis using False by (simp add: compare_and_swap_text_def)
qed

section \<open>The readers\<close>

lemma returns_from_json [simp]: "returns n (from_json L t)"
  by (auto simp: from_json_def finalize_new_def now_def split: body.split option.split)

lemma decoded_answer [simp]: "transition_from_body t \<noteq> Inl OutOfFuel"
  by (auto simp: transition_from_body_def ok_or_def split: body.split option.split)

lemmas returns_intro = returns_bindE within_swap
lemmas returns_split = option.split sum.split storage_error.split body.split prod.split if_split
  missing_manifest.split submit_error.split transition_state.split

lemma returns_reads [simp]:
  "returns n (read_job L p i)" "returns n (read_job_transition L i)"
  by (auto simp: read_job_def read_job_transition_def intro!: returns_intro split: returns_split)

lemma returns_first_holding [simp]: "returns n (first_holding L i ps)"
  by (induction ps arbitrary: n) (auto intro!: returns_intro split: returns_split)

lemma returns_markers [simp]: "returns n (write_marker j)" "returns n (delete_marker_for j)"
  by (simp_all add: write_marker_def delete_marker_for_def)

section \<open>The loops of a move\<close>

lemma lost_race_simps [simp]:
  "lost_race (StorageConflict s)" "lost_race (NotFound s)" "\<not> lost_race (Other s)" "\<not> lost_race OutOfFuel"
  by (simp_all add: lost_race_def)

lemma returns_set_transition_state: "n < fuel \<Longrightarrow> returns n (set_transition_state fuel L t s)"
proof (induction fuel arbitrary: n)
  case (Suc fuel)
  then show ?case
    by (auto simp: loop_bodies intro!: returns_intro split: returns_split)
qed (simp add: loop_bodies)

lemma returns_retire_record: "n < fuel \<Longrightarrow> returns n (retire_transition_record fuel L t)"
proof (induction fuel arbitrary: n)
  case (Suc fuel)
  then show ?case
    by (auto simp: loop_bodies intro!: returns_intro split: returns_split)
qed (simp add: loop_bodies)

lemma returns_retire_source: "n < fuel \<Longrightarrow> returns n (retire_transition_source fuel L t)"
proof (induction fuel arbitrary: n)
  case (Suc fuel)
  then show ?case
    by (auto simp: loop_bodies Let_def intro!: returns_intro split: returns_split)
qed (simp add: loop_bodies)

lemma within_create [simp]:
  "returns n (bindE (create_text_if_absent p t) f) \<longleftrightarrow>
     returns n (f True) \<and> (\<forall>m. n = Suc m \<longrightarrow> returns m (f False))"
  by (auto simp: create_text_if_absent_def bindE_def answer_def paying_def all_bool_eq split: sum.split_asm sum.split)

lemma returns_install: "n < fuel \<Longrightarrow> returns n (install_destination fuel L t)"
proof (induction fuel arbitrary: n)
  case (Suc fuel)
  then show ?case
    by (auto simp: loop_bodies Let_def intro!: returns_intro split: returns_split)
qed (simp add: loop_bodies)

lemma returns_on_transition: "within (on_transition j q) n (\<lambda>_. True)"
  by (auto simp: on_transition_def upload_text_def split: returns_split)

section \<open>The loops of a run manifest\<close>

text \<open>What is checked without the store answers a validation error, if any.\<close>

definition checked :: "submit_error + 'a \<Rightarrow> bool" where
  "checked r \<longleftrightarrow> (\<forall>e. r \<noteq> Inl (Storage e))"

lemma checked_simps [simp]:
  "checked (Inr a)" "checked (Inl (Validation s))" "checked (ok_or (Validation s) x)"
  by (auto simp: checked_def ok_or_def split: option.split)

lemma checked_bind: "checked r \<Longrightarrow> (\<And>a. checked (f a)) \<Longrightarrow> checked (bind_result r f)"
  by (auto simp: checked_def bind_result_def split: sum.split)

lemma checked_collect: "(\<And>r. r \<in> set rs \<Longrightarrow> checked r) \<Longrightarrow> checked (collect_results rs)"
  by (induction rs) (auto intro!: checked_bind)

lemma checked_manifest [simp]:
  "checked (recorded_instant L v)" "checked (outcome_shape L entry j)" "checked (outcome_times L t c i x pj shape)"
  "checked (commands_of_request request)" "checked (required_manifest_string m k)"
  by (auto simp: recorded_instant_def outcome_shape_def outcome_times_def commands_of_request_def
      required_manifest_string_def intro!: checked_bind split: option.split prod.split)

lemma checked_plans [simp]:
  "checked (manifest_header L m i r d)" "checked (entry_plan L plan index entry)" "checked (v2_plan L m i)"
  "checked (v2_entry_hardware L i d index c entry)" "checked (migrated_entry L d cs index entry)"
  "checked (validate_run_id i)"
  by (auto simp: manifest_header_def entry_plan_def v2_plan_def v2_entry_hardware_def migrated_entry_def
      validate_run_id_def Let_def intro!: checked_bind split: option.split prod.split)

lemma checked_migrated [simp]: "checked (migrated_manifest L m i)"
  by (auto simp: migrated_manifest_def Let_def intro!: checked_bind checked_collect split: option.split prod.split)

lemma returns_checked [simp]: "checked r \<Longrightarrow> returns_submit n (Ret r)"
  by (simp add: checked_def)

lemma returns_outcome [simp]: "returns_submit n (terminal_outcome L a b c d e f)"
  by (auto simp: terminal_outcome_def simp del: within.simps(1) intro!: returns_bindE within_now)

lemma returns_validate_entries [simp]: "returns_submit n (validate_entries L a b c)"
  by (induction c arbitrary: b n)
     (auto simp: validate_entry_def simp del: within.simps(1) intro!: returns_bindE split: returns_split)

lemma returns_validate [simp]:
  "returns_submit n (validate_run_manifest L m i r d)" "returns_submit n (validate_stored_run_manifest L m i)"
  by (auto simp: validate_run_manifest_def validate_stored_run_manifest_def simp del: within.simps(1)
      intro!: returns_bindE split: returns_split)

lemma migrated_error [simp]: "migrated_manifest L m i \<noteq> Inl (Storage e)" "validate_run_id i \<noteq> Inl (Storage e)"
  using checked_migrated checked_plans(6) unfolding checked_def by blast+

lemma returns_migrate:
  shows "n < fuel \<Longrightarrow> returns_submit n (migrate_loop fuel L i)"
    and "n < fuel \<Longrightarrow> returns_submit n (migrate_v2_run_manifest fuel L i)"
proof -
  show loop: "n < fuel \<Longrightarrow> returns_submit n (migrate_loop fuel L i)" for n fuel
  proof (induction fuel arbitrary: n)
    case (Suc fuel)
    then show ?case
      by (auto simp: Let_def intro!: returns_intro returns_with_error split: returns_split)
  qed simp
  show "n < fuel \<Longrightarrow> returns_submit n (migrate_v2_run_manifest fuel L i)"
    by (auto simp: migrate_v2_run_manifest_def intro!: returns_bindE loop)
qed

lemma submit_text_error: "submit_error_text e = OutOfFuel \<Longrightarrow> e = Storage OutOfFuel"
  by (auto simp: submit_error_text_def split: submit_error.splits storage_error.splits)

lemma returns_as_storage [simp]:
  "returns n (with_error submit_error_text (validate_stored_run_manifest L m i))"
  "map_err submit_error_text (validate_run_id i) \<noteq> Inl OutOfFuel"
  by (rule returns_with_error [OF returns_validate(2) submit_text_error])
     (auto simp: map_err_def dest: submit_text_error split: sum.splits)

lemma same_outcome_error [simp]: "same_outcome existing p j \<noteq> Inl OutOfFuel"
  by (auto simp: same_outcome_def split: option.split)

lemma outcome_decision_error [simp]: "outcome_decision m r i j p \<noteq> Inl OutOfFuel"
  by (auto simp: outcome_decision_def ok_or_def bind_result_def Let_def split: option.splits sum.splits)

lemma returns_record_loop: "n < fuel \<Longrightarrow> returns n (record_loop fuel L r i j p m)"
proof (induction fuel arbitrary: n)
  case (Suc fuel)
  then show ?case
    by (auto simp: Let_def index_retained_job_def manifest_gone_def intro!: returns_intro
        within_now split: returns_split)
qed simp

lemma returns_record_outcome: "n < fuel \<Longrightarrow> returns n (record_terminal_outcome fuel L j p)"
  by (auto simp: record_terminal_outcome_def record_terminal_outcome_inner_def manifest_gone_def
      intro!: returns_bindE returns_bindp [OF returns_migrate(2)] returns_record_loop dest: submit_text_error
      split: returns_split)

section \<open>A whole recovery\<close>

lemma returns_retire_move: "n < fuel \<Longrightarrow> returns n (retire_move fuel L t d)"
  by (auto simp: retire_move_def intro!: returns_bindE returns_bindp [OF returns_on_transition]
      returns_retire_source returns_retire_record)

lemma returns_finish: "n < fuel \<Longrightarrow> returns n (finish_completed_transition fuel L t)"
  by (auto simp: finish_completed_transition_def Let_def intro!: returns_bindE returns_bindp [OF returns_record_outcome]
      returns_retire_move returns_retire_record split: returns_split)

lemmas returns_moves = returns_finish returns_set_transition_state returns_install

lemma returns_recover_parts:
  assumes "n < fuel"
  shows "returns n (settle_prepared fuel L t)" "returns n (settle_absent_source fuel L t)"
    "returns n (recover_aborted fuel L t)" "returns n (settle_unrecognized_transition fuel L t)"
  using assms
  by (auto simp: settle_prepared_def settle_absent_source_def recover_aborted_def settle_unrecognized_transition_def
      intro!: returns_bindE returns_moves split: returns_split)

lemma returns_recover_prepared: "n < fuel \<Longrightarrow> returns n (recover_prepared fuel L t)"
  by (auto simp: recover_prepared_def Let_def intro!: returns_intro returns_recover_parts returns_moves
      split: returns_split)

lemma returns_recover: "n < fuel \<Longrightarrow> returns n (recover_job_transition fuel L i)"
  by (auto simp: recover_job_transition_def intro!: returns_bindE returns_recover_parts returns_recover_prepared
      returns_finish split: returns_split)

section \<open>Renewals and rewrites\<close>

lemma returns_renew: "n < fuel \<Longrightarrow> returns n (renew_running_lease fuel L i promise)"
proof -
  have "n < fuel \<Longrightarrow> returns n (renew_loop fuel L i promise)" for n
  proof (induction fuel arbitrary: n)
    case (Suc fuel)
    then show ?case
      by (auto simp: renew_loop.simps Let_def intro!: returns_intro within_now split: returns_split)
  qed (simp add: renew_loop.simps)
  then show "n < fuel \<Longrightarrow> returns n (renew_running_lease fuel L i promise)"
    by (simp add: renew_running_lease_def)
qed

lemma returns_rewritten [simp]: "returns n (rewritten j p)"
  by (auto simp: rewritten_def intro!: returns_bindE returns_bindp [OF within_calls(8)] split: returns_split)

lemma returns_rewrite: "n < fuel \<Longrightarrow> returns n (rewrite_queued_job fuel L i f)"
proof -
  have "n < fuel \<Longrightarrow> returns n (rewrite_loop fuel L i f)" for n
  proof (induction fuel arbitrary: n)
    case (Suc fuel)
    then show ?case
      by (auto simp: rewrite_loop.simps Let_def intro!: returns_intro split: returns_split)
  qed (simp add: rewrite_loop.simps)
  then show "n < fuel \<Longrightarrow> returns n (rewrite_queued_job fuel L i f)"
    by (auto simp: rewrite_queued_job_def intro!: returns_bindE returns_recover)
qed

section \<open>Of a run\<close>

text \<open>The conditional writes of a run that were refused.\<close>

primrec refused :: "lib \<Rightarrow> 's backend \<Rightarrow> 'a prog \<Rightarrow> 's world \<Rightarrow> nat" where
  "refused L B (Ret a) w = 0"
| "refused L B (UploadText p t k) w =
     (let (r, d) = be_upload_text B (disk w) p t in refused L B (k r) (w\<lparr>disk := d\<rparr>))"
| "refused L B (DownloadText p k) w = refused L B (k (be_download_text B (disk w) p)) w"
| "refused L B (UploadTextIfAbsent p t k) w =
     (let (r, d) = be_upload_text_if_absent B (disk w) p t
      in (if r = Inr False then 1 else 0) + refused L B (k r) (w\<lparr>disk := d\<rparr>))"
| "refused L B (DownloadTextVersioned p k) w = refused L B (k (be_download_text_versioned B (disk w) p)) w"
| "refused L B (CompareAndSwapText p v t k) w =
     (let (r, d) = be_compare_and_swap_text B (disk w) p v t
      in (if \<exists>e. r = Inl e \<and> lost_race e then 1 else 0) + refused L B (k r) (w\<lparr>disk := d\<rparr>))"
| "refused L B (DeleteBlob p k) w =
     (let (r, d) = be_delete B (disk w) p in refused L B (k r) (w\<lparr>disk := d\<rparr>))"
| "refused L B (ExistsBlob p k) w = refused L B (k (be_exists B (disk w) p)) w"
| "refused L B (ListPaths p l k) w = refused L B (k (be_list_paths B (disk w) p l)) w"
| "refused L B (ListPage p a l k) w = refused L B (k (be_list_page B (disk w) p a l)) w"
| "refused L B (SetMetadata p kv k) w =
     (let (r, d) = be_set_metadata B (disk w) p kv in refused L B (k r) (w\<lparr>disk := d\<rparr>))"
| "refused L B (ListBlobsWithMeta p k) w = refused L B (k (be_list_blobs_with_meta B (disk w) p)) w"
| "refused L B (UpdatedAt p k) w = refused L B (k (be_updated_at B (disk w) p)) w"
| "refused L B (Now k) w = refused L B (k (clock w)) w"
| "refused L B (NewUuid k) w = refused L B (k (uuid_simple L (uuids w))) (w\<lparr>uuids := Suc (uuids w)\<rparr>)"
| "refused L B (CurrentProcess k) w = refused L B (k (this_process w)) w"
| "refused L B (PidAlive p k) w = refused L B (k (p \<in> set (live_pids w))) w"
| "refused L B (OwnerRunning i k) w = refused L B (k (i \<in> set (active_owners w))) w"

definition honest :: "'s backend \<Rightarrow> bool" where
  "honest B \<longleftrightarrow> (\<forall>s p t v l a n kv.
     answer (fst (be_upload_text B s p t)) \<and> answer (be_download_text B s p) \<and>
     answer (fst (be_upload_text_if_absent B s p t)) \<and> answer (be_download_text_versioned B s p) \<and>
     answer (fst (be_compare_and_swap_text B s p v t)) \<and> answer (fst (be_delete B s p)) \<and>
     answer (be_exists B s p) \<and> answer (be_list_paths B s p l) \<and> answer (be_list_page B s p a n) \<and>
     answer (fst (be_set_metadata B s p kv)) \<and> answer (be_list_blobs_with_meta B s p) \<and>
     answer (be_updated_at B s p))"

lemma honestD:
  assumes "honest B"
  shows "be_upload_text B s p t = (r, d) \<Longrightarrow> answer r" "answer (be_download_text B s p)"
    "be_upload_text_if_absent B s p t = (r1, d) \<Longrightarrow> answer r1" "answer (be_download_text_versioned B s p)"
    "be_compare_and_swap_text B s p v t = (r2, d) \<Longrightarrow> answer r2" "be_delete B s p = (r3, d) \<Longrightarrow> answer r3"
    "answer (be_exists B s p)" "answer (be_list_paths B s p l)" "answer (be_list_page B s p a n)"
    "be_set_metadata B s p kv = (r4, d) \<Longrightarrow> answer r4" "answer (be_list_blobs_with_meta B s p)"
    "answer (be_updated_at B s p)"
  using assms unfolding honest_def by (metis fst_conv)+

lemma paying_run: "paying b n W \<Longrightarrow> (if b then 1 else 0) + k \<le> n \<Longrightarrow> \<exists>m \<ge> k. W m"
  by (cases n) (auto simp: paying_def split: if_splits)

theorem within_run:
  assumes "honest B" and "within p n Q" and "refused L B p w \<le> n"
  shows "Q (fst (run L B p w))"
  using assms(2,3)
proof (induction p arbitrary: n w)
  case (UploadTextIfAbsent p t k)
  obtain r d where call: "be_upload_text_if_absent B (disk w) p t = (r, d)" by fastforce
  then have "answer r"
    using honestD [OF assms(1)] by blast
  then obtain m where "refused L B (k r) (w\<lparr>disk := d\<rparr>) \<le> m" "within (k r) m Q"
    using paying_run [of "r = Inr False" n "\<lambda>m. within (k r) m Q"] UploadTextIfAbsent.prems call by fastforce
  then show ?case
    using UploadTextIfAbsent.IH [OF rangeI] call by simp
next
  case (CompareAndSwapText p v t k)
  obtain r d where call: "be_compare_and_swap_text B (disk w) p v t = (r, d)" by fastforce
  then have "answer r"
    using honestD [OF assms(1)] by blast
  then obtain m where "refused L B (k r) (w\<lparr>disk := d\<rparr>) \<le> m" "within (k r) m Q"
    using paying_run [of "\<exists>e. r = Inl e \<and> lost_race e" n "\<lambda>m. within (k r) m Q"] CompareAndSwapText.prems call
    by fastforce
  then show ?case
    using CompareAndSwapText.IH [OF rangeI] call by simp
next
  case (UploadText p t k)
  obtain r d where "be_upload_text B (disk w) p t = (r, d)" by fastforce
  then show ?case
    using UploadText.IH [OF rangeI] UploadText.prems honestD(1) [OF assms(1)] by simp blast
next
  case (DeleteBlob p k)
  obtain r d where "be_delete B (disk w) p = (r, d)" by fastforce
  then show ?case
    using DeleteBlob.IH [OF rangeI] DeleteBlob.prems honestD(6) [OF assms(1)] by simp blast
next
  case (SetMetadata p kv k)
  obtain r d where "be_set_metadata B (disk w) p kv = (r, d)" by fastforce
  then show ?case
    using SetMetadata.IH [OF rangeI] SetMetadata.prems honestD(10) [OF assms(1)] by simp blast
qed (simp_all, (metis rangeI honestD(2,4,7,8,9,11,12) [OF assms(1)])+)

end
