(* ===== verification/Claimable.thy ===== *)
theory Claimable
  imports Retries Migrations Reads "HOL-Library.Product_Lexorder" "HOL-Library.Option_ord"
begin

text \<open>
  \<open>src/stado-rs/src/queue/listing/claimable/\<close>: what a scheduler poll can claim. The index is walked in
  name order, a page at a time: each marker names a job, the job document decides. A scan has a window
  (the jobs wanted), a budget (the documents it may read) and the caller's own rule; a bounded scan
  resumes where the last one of its handle stopped. While no sweep has covered the queue, the whole
  prefix is read oldest first as well. The reads of a page are one sequence in name order; the cursor of
  the handle is an argument and part of the answer. The walk takes a bound on its pages.
\<close>

section \<open>The scan\<close>

text \<open>A window and a budget are positive where they are stated.\<close>

record job_scan =
  js_want :: "nat option"
  js_budget :: "nat option"
  js_max_gpu_mem_gb :: int
  js_eligible :: "job \<Rightarrow> bool"
  js_from_head :: bool

definition window_full :: "job_scan \<Rightarrow> nat \<Rightarrow> bool" where
  "window_full scan found = (case js_want scan of None \<Rightarrow> False | Some want \<Rightarrow> want \<le> found)"

definition budget_spent :: "job_scan \<Rightarrow> nat \<Rightarrow> bool" where
  "budget_spent scan scanned = (case js_budget scan of None \<Rightarrow> False | Some budget \<Rightarrow> budget \<le> scanned)"

definition accepts :: "job_scan \<Rightarrow> job \<Rightarrow> bool" where
  "accepts scan j \<longleftrightarrow>
     \<not> is_transition_sentinel_state (state j) \<and> gpu_mem_gb j \<le> js_max_gpu_mem_gb scan \<and> js_eligible scan j"

definition left :: "nat option \<Rightarrow> nat \<Rightarrow> nat option" where
  "left bound used = Option.bind bound (\<lambda>b. if b \<le> used then None else Some (b - used))"

definition marker_page :: "job_scan \<Rightarrow> nat \<Rightarrow> nat \<Rightarrow> nat option" where
  "marker_page scan found scanned =
     (case (left (js_want scan) found, left (js_budget scan) scanned) of
        (Some wanted, Some allowed) \<Rightarrow> Some (min wanted allowed)
      | (Some bound, None) \<Rightarrow> Some bound
      | (None, Some bound) \<Rightarrow> Some bound
      | (None, None) \<Rightarrow> None)"

text \<open>The jobs found, the ids among them, the documents read.\<close>

record walk =
  wk_out :: "job list"
  wk_seen :: "string list"
  wk_scanned :: nat

definition charge :: "walk \<Rightarrow> walk" where
  "charge s = s\<lparr>wk_scanned := tally (wk_scanned s)\<rparr>"

definition take_in :: "walk \<Rightarrow> job \<Rightarrow> walk" where
  "take_in s j = s\<lparr>wk_out := wk_out s @ [j], wk_seen := job_id j # wk_seen s\<rparr>"

section \<open>The walk over the index\<close>

text \<open>Every read is made; what each answered is looked at later, in order.\<close>

fun download_many_or_none :: "string list \<Rightarrow> (storage_error + body option) list prog" where
  "download_many_or_none [] = Ret []"
| "download_many_or_none (path # paths) =
     bindp (download_text path) (\<lambda>r. bindp (download_many_or_none paths) (\<lambda>rs. Ret (r # rs)))"

definition job_named :: "body option \<Rightarrow> storage_error + string option" where
  "job_named body =
     (case body of
        None \<Rightarrow> Inr None
      | Some (Json v) \<Rightarrow> Inr (get_str v ''job_id'')
      | Some _ \<Rightarrow> Inl JsonError)"

text \<open>\<open>Inl\<close>: the walk stops, at this name; \<open>Inr\<close>: it goes on.\<close>

fun resolve ::
  "job_scan \<Rightarrow> walk \<Rightarrow> (string \<times> string) list \<Rightarrow> string list \<Rightarrow> (storage_error + body option) list \<Rightarrow>
     storage_error + (walk \<times> string + walk \<times> (string \<times> string) list)" where
  "resolve scan s entries (marker # markers) (body # bodies) =
     bind_result (bind_result body job_named) (\<lambda>resolved.
       case resolved of
         Some id' \<Rightarrow>
           if id' \<notin> set (wk_seen s) then resolve scan s (entries @ [(marker, id')]) markers bodies
           else (let s = charge s in
                 if budget_spent scan (wk_scanned s) then Inr (Inl (s, marker))
                 else resolve scan s entries markers bodies)
       | None \<Rightarrow>
           (let s = charge s in
            if budget_spent scan (wk_scanned s) then Inr (Inl (s, marker))
            else resolve scan s entries markers bodies))"
| "resolve scan s entries _ _ = Inr (Inr (s, entries))"

fun admit ::
  "lib \<Rightarrow> job_scan \<Rightarrow> string \<Rightarrow> bool \<Rightarrow> walk \<Rightarrow> (string \<times> string) list \<Rightarrow> (storage_error + body option) list \<Rightarrow>
     (walk \<times> string + walk) storage_prog" where
  "admit L scan origin wrapped s ((marker, id') # entries) (body # bodies) =
     (if wrapped \<and> origin \<noteq> [] \<and> origin < marker then ok (Inl (s, []))
      else
        let s = charge s; rest = (\<lambda>s. if budget_spent scan (wk_scanned s) then ok (Inl (s, marker))
                                  else admit L scan origin wrapped s entries bodies)
        in bindE (Ret body) (\<lambda>found.
             case found of
               None \<Rightarrow> rest s
             | Some data \<Rightarrow>
                 bindE (from_json L data) (\<lambda>j.
                   if marker = marker_path j \<and> accepts scan j \<and> job_id j \<notin> set (wk_seen s)
                   then (let s = take_in s j in
                         if window_full scan (length (wk_out s)) then ok (Inl (s, marker)) else rest s)
                   else rest s)))"
| "admit L scan origin wrapped s _ _ = ok (Inr s)"

text \<open>The answer: the walk and where it stopped, empty at the end of the index.\<close>

fun walk_index ::
  "nat \<Rightarrow> lib \<Rightarrow> string \<Rightarrow> job_scan \<Rightarrow> string \<Rightarrow> string \<Rightarrow> bool \<Rightarrow> walk \<Rightarrow> (walk \<times> string) storage_prog" where
  "walk_index 0 L prefix' scan origin at wrapped s = fail OutOfFuel"
| "walk_index (Suc pages) L prefix' scan origin at wrapped s =
     bindE (list_page marker_prefix at (marker_page scan (length (wk_out s)) (wk_scanned s))) (\<lambda>page.
       if page = []
       then (if wrapped \<or> origin = [] then ok (s, [])
             else walk_index pages L prefix' scan origin [] True s)
       else
         let page_end = last page; markers = filter is_marker page in
         bindp (download_many_or_none markers) (\<lambda>marker_bodies.
         bindE (Ret (resolve scan s [] markers marker_bodies)) (\<lambda>resolved.
           case resolved of
             Inl stopped \<Rightarrow> ok stopped
           | Inr (s, entries) \<Rightarrow>
               bindp (download_many_or_none (map (\<lambda>(_, id'). job_path prefix' id') entries)) (\<lambda>bodies.
               bindE (admit L scan origin wrapped s entries bodies) (\<lambda>admitted.
                 case admitted of
                   Inl stopped \<Rightarrow> ok stopped
                 | Inr s \<Rightarrow>
                     if page_end \<le> at \<and> at \<noteq> [] then ok (s, [])
                     else walk_index pages L prefix' scan origin page_end wrapped s)))))"

definition collect_from_index ::
  "nat \<Rightarrow> lib \<Rightarrow> string \<Rightarrow> job_scan \<Rightarrow> string \<Rightarrow> walk \<Rightarrow> (walk \<times> string) storage_prog" where
  "collect_from_index pages L prefix' scan cursor s =
     (if window_full scan (length (wk_out s)) \<or> budget_spent scan (wk_scanned s) then ok (s, cursor)
      else
        let bounded = (js_want scan \<noteq> None \<or> js_budget scan \<noteq> None);
            rotates = (bounded \<and> \<not> js_from_head scan);
            origin = (if rotates then cursor else [])
        in bindE (walk_index pages L prefix' scan origin origin False s) (\<lambda>(s, stopped_at).
             ok (s, if rotates then stopped_at else cursor)))"

section \<open>The pass over the prefix\<close>

text \<open>\<open>str::parse::<i64>\<close>: a sign or none, digits, in range.\<close>

definition parse_i64 :: "string \<Rightarrow> int option" where
  "parse_i64 s =
     (let (sign, digits) = (case s of
            c # cs \<Rightarrow> if c = CHR ''-'' then (-1, cs) else if c = CHR ''+'' then (1, cs) else (1, s)
          | [] \<Rightarrow> (1, []));
          value = sign * int (foldl (\<lambda>n c. 10 * n + (of_char c - 48)) 0 digits)
      in if digits = [] \<or> \<not> list_all is_ascii_digit digits \<or> \<not> i64_range value then None else Some value)"

text \<open>Documents are ordered by whether they are undated, by their last change, and by name.\<close>

fun worth_reading :: "job_scan \<Rightarrow> walk \<Rightarrow> blob_info list \<Rightarrow> storage_error + (bool \<times> int option \<times> string) list" where
  "worth_reading scan s [] = Inr []"
| "worth_reading scan s (blob # blobs) =
     (let name = last (split_on (CHR ''/'') (bi_name blob));
          id' = (case strip_suffix name ''.json'' of Some id' \<Rightarrow> id' | None \<Rightarrow> name)
      in if \<not> ends_with (bi_name blob) ''.json'' \<or> id' \<in> set (wk_seen s) then worth_reading scan s blobs
         else
           bind_result (case map_of (bi_metadata blob) ''gpu_mem_gb'' of
               None \<Rightarrow> Inr True
             | Some text' \<Rightarrow>
                 bind_result (ok_or (Other ''corrupt gpu_mem_gb metadata'') (parse_i64 text')) (\<lambda>mem.
                   Inr (\<not> js_max_gpu_mem_gb scan < mem))) (\<lambda>fits.
           bind_result (worth_reading scan s blobs) (\<lambda>rest.
             Inr (if fits then (bi_updated blob = None, bi_updated blob, bi_name blob) # rest else rest))))"

text \<open>\<open>Inl\<close>: the window is full or the budget spent.\<close>

fun take_oldest :: "lib \<Rightarrow> job_scan \<Rightarrow> walk \<Rightarrow> body option list \<Rightarrow> (walk + walk) storage_prog" where
  "take_oldest L scan s [] = ok (Inr s)"
| "take_oldest L scan s (None # texts) = take_oldest L scan s texts"
| "take_oldest L scan s (Some data # texts) =
     bindE (from_json L data) (\<lambda>j.
       let s = charge s; rest = (\<lambda>s. if budget_spent scan (wk_scanned s) then ok (Inl s)
                                 else take_oldest L scan s texts)
       in if accepts scan j \<and> job_id j \<notin> set (wk_seen s)
          then (let s = take_in s j in
                if window_full scan (length (wk_out s)) then ok (Inl s) else rest s)
          else rest s)"

fun oldest_chunks :: "lib \<Rightarrow> job_scan \<Rightarrow> walk \<Rightarrow> string list list \<Rightarrow> walk storage_prog" where
  "oldest_chunks L scan s [] = ok s"
| "oldest_chunks L scan s (paths # rest) =
     bindE (download_chunk paths) (\<lambda>texts.
     bindE (take_oldest L scan s texts) (\<lambda>r.
       case r of Inl s \<Rightarrow> ok s | Inr s \<Rightarrow> oldest_chunks L scan s rest))"

definition collect_oldest_first ::
  "lib \<Rightarrow> nat \<Rightarrow> string \<Rightarrow> job_scan \<Rightarrow> walk \<Rightarrow> walk storage_prog" where
  "collect_oldest_first L workers prefix' scan s =
     (if window_full scan (length (wk_out s)) \<or> budget_spent scan (wk_scanned s) then ok s
      else
        bindE (list_blobs_with_meta (prefix' @ ''/'')) (\<lambda>blobs.
        bindE (Ret (worth_reading scan s blobs)) (\<lambda>ordered.
          oldest_chunks L scan s (chunks workers (map (\<lambda>(_, _, name). name) (sort ordered))))))"

section \<open>What a poll can claim\<close>

definition no_walk :: walk where
  "no_walk = \<lparr>wk_out = [], wk_seen = [], wk_scanned = 0\<rparr>"

definition list_claimable ::
  "nat \<Rightarrow> lib \<Rightarrow> nat \<Rightarrow> string \<Rightarrow> job_scan \<Rightarrow> string \<Rightarrow> (job list \<times> string) storage_prog" where
  "list_claimable pages L workers prefix' scan cursor =
     (if prefix' \<noteq> ''queue''
      then bindE (collect_oldest_first L workers prefix' scan no_walk) (\<lambda>s. ok (wk_out s, cursor))
      else
        bindE has_swept (\<lambda>indexed.
        bindE (if indexed then ok True else backfill_priority_markers L) (\<lambda>_.
        bindE (collect_from_index pages L prefix' scan cursor no_walk) (\<lambda>(s, cursor).
          if indexed then ok (wk_out s, cursor)
          else bindE (collect_oldest_first L workers prefix' scan s) (\<lambda>s. ok (wk_out s, cursor))))))"

section \<open>Whatever the store answers\<close>

text \<open>A program that answers in \<open>Q\<close> whatever the store does.\<close>

abbreviation always :: "'a prog \<Rightarrow> ('a \<Rightarrow> bool) \<Rightarrow> bool" where
  "always p Q \<equiv> \<forall>n. within p n Q"

abbreviation always_ok :: "'a storage_prog \<Rightarrow> ('a \<Rightarrow> bool) \<Rightarrow> bool" where
  "always_ok p Q \<equiv> always p (pred_sum (\<lambda>_. True) Q)"

lemma within_trivial [simp]: "within p n (\<lambda>_. True)"
  by (induction p arbitrary: n) (auto simp: paying_def)

lemma within_after: "(\<And>a m. within (f a) m R) \<Longrightarrow> within (bindp p f) n R"
  by (rule returns_bindp [where Q = "\<lambda>_. True"]) auto

lemma within_afterE:
  "(\<And>a m. within (f a) m (pred_sum (\<lambda>_. True) R)) \<Longrightarrow> within (bindE p f) n (pred_sum (\<lambda>_. True) R)"
  unfolding bindE_def by (rule within_after) (auto split: sum.split)

lemma within_bindE:
  "within p n (pred_sum (\<lambda>_. True) Q) \<Longrightarrow> (\<And>a m. Q a \<Longrightarrow> within (f a) m (pred_sum (\<lambda>_. True) R)) \<Longrightarrow>
   within (bindE p f) n (pred_sum (\<lambda>_. True) R)"
  unfolding bindE_def by (erule returns_bindp) (auto split: sum.split)

text \<open>The jobs found: one of each id, each taken by the caller's rule, no more than were wanted.\<close>

definition sound_walk :: "job_scan \<Rightarrow> walk \<Rightarrow> bool" where
  "sound_walk scan s \<longleftrightarrow>
     distinct (map job_id (wk_out s)) \<and> set (wk_seen s) = job_id ` set (wk_out s) \<and>
     list_all (accepts scan) (wk_out s) \<and> pred_option (\<lambda>want. length (wk_out s) \<le> want) (js_want scan)"

definition open_walk :: "job_scan \<Rightarrow> walk \<Rightarrow> bool" where
  "open_walk scan s \<longleftrightarrow> sound_walk scan s \<and> \<not> window_full scan (length (wk_out s))"

lemma charge_simps [simp]:
  "wk_out (charge s) = wk_out s" "wk_seen (charge s) = wk_seen s" "wk_scanned (charge s) = tally (wk_scanned s)"
  "sound_walk scan (charge s) = sound_walk scan s" "open_walk scan (charge s) = open_walk scan s"
  by (simp_all add: charge_def sound_walk_def open_walk_def)

lemma take_in_simps [simp]:
  "wk_out (take_in s j) = wk_out s @ [j]" "wk_seen (take_in s j) = job_id j # wk_seen s"
  "wk_scanned (take_in s j) = wk_scanned s"
  by (simp_all add: take_in_def)

lemma open_walk_sound: "open_walk scan s \<Longrightarrow> sound_walk scan s"
  by (simp add: open_walk_def)

lemma take_in_sound:
  "open_walk scan s \<Longrightarrow> accepts scan j \<Longrightarrow> job_id j \<notin> set (wk_seen s) \<Longrightarrow> sound_walk scan (take_in s j)"
  by (auto simp: open_walk_def sound_walk_def window_full_def split: option.splits)

lemma take_in_open:
  "open_walk scan s \<Longrightarrow> accepts scan j \<Longrightarrow> job_id j \<notin> set (wk_seen s) \<Longrightarrow>
   \<not> window_full scan (Suc (length (wk_out s))) \<Longrightarrow> open_walk scan (take_in s j)"
  using take_in_sound by (simp add: open_walk_def)

lemma resolve_sound:
  "open_walk scan s \<Longrightarrow> resolve scan s entries markers bodies = Inr (Inl (s', m)) \<Longrightarrow> sound_walk scan s'"
  "open_walk scan s \<Longrightarrow> resolve scan s entries markers bodies = Inr (Inr (s', es)) \<Longrightarrow> open_walk scan s'"
  by (induction scan s entries markers bodies rule: resolve.induct)
     (auto simp: bind_result_Inr_iff Let_def open_walk_sound split: option.splits if_splits)

lemma admit_sound:
  "open_walk scan s \<Longrightarrow>
   always_ok (admit L scan origin wrapped s entries bodies)
     (\<lambda>r. case r of Inl (s', m) \<Rightarrow> sound_walk scan s' | Inr s' \<Rightarrow> open_walk scan s')"
  by (induction L scan origin wrapped s entries bodies rule: admit.induct)
     (auto simp: Let_def open_walk_sound take_in_sound take_in_open intro!: within_afterE split: option.splits)

lemma resolved_sound:
  assumes "open_walk scan s"
  shows "pred_sum (\<lambda>_. True)
    (\<lambda>r. case r of Inl (s', m) \<Rightarrow> sound_walk scan s' | Inr (s', es) \<Rightarrow> open_walk scan s')
    (resolve scan s entries markers bodies)"
proof (cases "resolve scan s entries markers bodies")
  case (Inr r)
  then show ?thesis
    using resolve_sound [OF assms] by (cases r) auto
qed simp

lemma walk_index_sound:
  "open_walk scan s \<Longrightarrow>
   always_ok (walk_index pages L prefix' scan origin at wrapped s) (\<lambda>(s', m). sound_walk scan s')"
proof (induction pages arbitrary: at wrapped s)
  case (Suc pages)
  note open_sound = open_walk_sound [OF Suc.prems]
  have admitted: "within
      (bindE (admit L scan origin wrapped s' entries bodies) (\<lambda>r. case r of
         Inl stopped \<Rightarrow> ok stopped
       | Inr s \<Rightarrow> if q then ok (s, []) else walk_index pages L prefix' scan origin e wrapped s)) n
      (pred_sum (\<lambda>_. True) (\<lambda>(s', m). sound_walk scan s'))" if "open_walk scan s'" for s' entries bodies q e n
    by (rule within_bindE [OF admit_sound [OF that, rule_format]])
       (auto simp: open_walk_sound Suc.IH split: sum.splits)
  have resolved: "within
      (bindE (Ret (resolve scan s entries markers marker_bodies)) (\<lambda>r. case r of
         Inl stopped \<Rightarrow> ok stopped
       | Inr (s, entries) \<Rightarrow>
           bindp (download_many_or_none (map (\<lambda>(_, id'). job_path prefix' id') entries)) (\<lambda>bodies.
           bindE (admit L scan origin wrapped s entries bodies) (\<lambda>r. case r of
             Inl stopped \<Rightarrow> ok stopped
           | Inr s \<Rightarrow> if q then ok (s, []) else walk_index pages L prefix' scan origin e wrapped s)))) n
      (pred_sum (\<lambda>_. True) (\<lambda>(s', m). sound_walk scan s'))" for entries markers marker_bodies q e n
  proof (rule within_bindE)
    show "within (Ret (resolve scan s entries markers marker_bodies)) n (pred_sum (\<lambda>_. True)
        (\<lambda>r. case r of Inl (s', m) \<Rightarrow> sound_walk scan s' | Inr (s', es) \<Rightarrow> open_walk scan s'))"
      by (simp add: resolved_sound [OF Suc.prems])
  qed (auto intro!: within_after admitted split: sum.splits)
  show ?case
    unfolding walk_index.simps Let_def
    using open_sound Suc.IH [OF Suc.prems] resolved
    by (intro allI within_afterE) (auto intro!: within_after)
qed simp

lemma collect_from_index_sound:
  "sound_walk scan s \<Longrightarrow> always_ok (collect_from_index pages L prefix' scan cursor s) (\<lambda>(s', m). sound_walk scan s')"
  using walk_index_sound
  by (auto simp: collect_from_index_def Let_def open_walk_def
      intro!: within_bindE [where Q = "\<lambda>(s', m). sound_walk scan s'"])

lemma take_oldest_sound:
  "open_walk scan s \<Longrightarrow>
   always_ok (take_oldest L scan s texts)
     (\<lambda>r. case r of Inl s' \<Rightarrow> sound_walk scan s' | Inr s' \<Rightarrow> open_walk scan s')"
  by (induction L scan s texts rule: take_oldest.induct)
     (auto simp: Let_def open_walk_sound take_in_sound take_in_open intro!: within_afterE split: option.splits)

lemma oldest_chunks_sound:
  "open_walk scan s \<Longrightarrow> always_ok (oldest_chunks L scan s cs) (sound_walk scan)"
proof (induction cs arbitrary: s)
  case (Cons c cs)
  have "within (bindE (take_oldest L scan s texts)
      (\<lambda>r. case r of Inl s \<Rightarrow> ok s | Inr s \<Rightarrow> oldest_chunks L scan s cs)) n
      (pred_sum (\<lambda>_. True) (sound_walk scan))" for texts n
    by (rule within_bindE [OF take_oldest_sound [OF Cons.prems, rule_format]])
       (auto simp: Cons.IH split: sum.splits)
  then show ?case by (simp only: oldest_chunks.simps) (blast intro: within_afterE)
qed (simp add: open_walk_sound)

lemma collect_oldest_first_sound:
  "sound_walk scan s \<Longrightarrow> always_ok (collect_oldest_first L workers prefix' scan s) (sound_walk scan)"
  using oldest_chunks_sound
  by (auto simp: collect_oldest_first_def open_walk_def intro!: within_afterE)

lemma no_walk_sound: "sound_walk scan no_walk"
  by (simp add: sound_walk_def no_walk_def pred_option_def)

lemma list_claimable_sound:
  "always_ok (list_claimable pages L workers prefix' scan cursor)
     (\<lambda>(jobs, cursor'). distinct (map job_id jobs) \<and> list_all (accepts scan) jobs \<and>
       pred_option (\<lambda>want. length jobs \<le> want) (js_want scan))"
  (is "always_ok _ ?Q")
proof
  fix n
  have answers: "within (bindE (collect_oldest_first L workers prefix' scan s) (\<lambda>s. ok (wk_out s, cursor))) m
      (pred_sum (\<lambda>_. True) ?Q)" if "sound_walk scan s" for s m cursor
    by (rule within_bindE [OF collect_oldest_first_sound [OF that, rule_format]]) (simp add: sound_walk_def)
  have answer: "distinct (map job_id (wk_out s))" "list_all (accepts scan) (wk_out s)"
    "pred_option (\<lambda>want. length (wk_out s) \<le> want) (js_want scan)" if "sound_walk scan s" for s
    using that by (simp_all add: sound_walk_def)
  have indexed: "within (bindE (collect_from_index pages L prefix' scan cursor no_walk) (\<lambda>(s, cursor).
      if indexed then ok (wk_out s, cursor)
      else bindE (collect_oldest_first L workers prefix' scan s) (\<lambda>s. ok (wk_out s, cursor)))) m
      (pred_sum (\<lambda>_. True) ?Q)" for indexed m
    by (rule within_bindE [OF collect_from_index_sound [OF no_walk_sound, rule_format]])
       (use answers in \<open>auto dest: answer\<close>)
  show "within (list_claimable pages L workers prefix' scan cursor) n (pred_sum (\<lambda>_. True) ?Q)"
    unfolding list_claimable_def
    using answers [OF no_walk_sound] indexed by (cases "prefix' = ''queue''") (simp_all add: within_afterE)
qed

end
