(* ===== verification/Polls.thy ===== *)
theory Polls
  imports Claimable
begin

text \<open>
  What the walk over the index amounts to. The code asks for a page of names, reads every marker body of
  it, then every job they name, and charges as it goes. \<open>examine\<close> is the plain account of it: marker by
  marker, one unit each, the job it names or nothing. The locale \<open>paged_store\<close> is a store that also
  lists in name order; over it the walk reads a prefix of the index from where it starts, whole pages at
  a time, and polls that resume one another come round to every job.
\<close>

section \<open>One marker after another\<close>

definition examine1 :: "(string \<Rightarrow> job option) \<Rightarrow> walk \<Rightarrow> string \<Rightarrow> walk" where
  "examine1 f s m = (case f m of None \<Rightarrow> charge s | Some j \<Rightarrow> take_in (charge s) j)"

definition examine :: "(string \<Rightarrow> job option) \<Rightarrow> walk \<Rightarrow> string list \<Rightarrow> walk" where
  "examine f s ms = foldl (examine1 f) s ms"

definition scan_ended :: "job_scan \<Rightarrow> walk \<Rightarrow> bool" where
  "scan_ended scan s \<longleftrightarrow> window_full scan (length (wk_out s)) \<or> budget_spent scan (wk_scanned s)"

text \<open>Room for \<open>k\<close> more names, within the bounds of the scan and of its counter.\<close>

definition room :: "job_scan \<Rightarrow> walk \<Rightarrow> nat \<Rightarrow> bool" where
  "room scan s k \<longleftrightarrow>
     (\<forall>want. js_want scan = Some want \<longrightarrow> length (wk_out s) + k \<le> want) \<and>
     (\<forall>b. js_budget scan = Some b \<longrightarrow> wk_scanned s + k \<le> b \<and> b \<le> usize_max)"

text \<open>No marker of the list leads to a job that was found, and no two lead to one job.\<close>

definition fresh :: "(string \<Rightarrow> job option) \<Rightarrow> walk \<Rightarrow> string list \<Rightarrow> bool" where
  "fresh f s ms \<longleftrightarrow>
     distinct ms \<and> (\<forall>m \<in> set ms. \<forall>j. f m = Some j \<longrightarrow> job_id j \<notin> set (wk_seen s)) \<and>
     (\<forall>m \<in> set ms. \<forall>n \<in> set ms. \<forall>j k. f m = Some j \<longrightarrow> f n = Some k \<longrightarrow> job_id j = job_id k \<longrightarrow> m = n)"

lemma examine_simps [simp]:
  "examine f s [] = s" "examine f s (m # ms) = examine f (examine1 f s m) ms"
  "examine f s (xs @ ys) = examine f (examine f s xs) ys"
  by (simp_all add: examine_def)

lemma examine1_simps [simp]:
  "f m = None \<Longrightarrow> examine1 f s m = charge s" "f m = Some j \<Longrightarrow> examine1 f s m = take_in (charge s) j"
  by (simp_all add: examine1_def)

lemma examine1_scanned [simp]: "wk_scanned (examine1 f s m) = tally (wk_scanned s)"
  by (simp add: examine1_def split: option.split)

lemma map_filter_append [simp]: "List.map_filter f (xs @ ys) = List.map_filter f xs @ List.map_filter f ys"
  by (simp add: List.map_filter_def)

lemma map_filter_Nil [simp]: "List.map_filter f [] = []"
  by (simp add: List.map_filter_def)

lemma map_filter_Cons: "List.map_filter f (m # ms) = (case f m of None \<Rightarrow> [] | Some j \<Rightarrow> [j]) @ List.map_filter f ms"
  by (simp add: List.map_filter_def split: option.split)

lemma examine_out: "wk_out (examine f s ms) = wk_out s @ List.map_filter f ms"
  by (induction ms arbitrary: s) (auto simp: map_filter_Cons examine1_def split: option.split)

lemma examine_seen:
  "set (wk_seen (examine f s ms)) = set (wk_seen s) \<union> job_id ` set (List.map_filter f ms)"
  by (induction ms arbitrary: s) (auto simp: map_filter_Cons examine1_def split: option.split)

lemma room_examine1: "room scan s (Suc k) \<Longrightarrow> room scan (examine1 f s m) k"
  by (auto simp: room_def examine1_def tally_def usize_max_def split: option.splits)

lemma room_charge: "room scan s (Suc k) \<Longrightarrow> room scan (charge s) k"
  by (auto simp: room_def tally_def usize_max_def)

lemma room_ended: "room scan s (Suc k) \<Longrightarrow> \<not> scan_ended scan s"
  by (auto simp: room_def scan_ended_def window_full_def budget_spent_def split: option.splits)

lemma fresh_examine1: "fresh f s (m # ms) \<Longrightarrow> fresh f (examine1 f s m) ms"
  by (auto simp: fresh_def examine1_def split: option.splits)

lemma fresh_examine: "fresh f s (xs @ ys) \<Longrightarrow> fresh f (examine f s xs) ys"
  by (induction xs arbitrary: s) (auto dest: fresh_examine1)

lemma fresh_charge [simp]: "fresh f (charge s) ms = fresh f s ms"
  by (simp add: fresh_def)

lemma fresh_sub: "fresh f s ms \<Longrightarrow> distinct ns \<Longrightarrow> set ns \<subseteq> set ms \<Longrightarrow> fresh f s ns"
  by (auto simp: fresh_def subset_iff)

text \<open>The markers of a page that lead nowhere are charged first; the others are examined in order.\<close>

definition charges :: "nat \<Rightarrow> walk \<Rightarrow> walk" where
  "charges n s = (charge ^^ n) s"

lemma charges_simps [simp]:
  "charges 0 s = s" "charges (Suc n) s = charges n (charge s)"
  "wk_out (charges n s) = wk_out s" "wk_seen (charges n s) = wk_seen s"
  by (induction n arbitrary: s) (simp_all add: charges_def funpow_swap1)

lemma room_charges: "room scan s (n + k) \<Longrightarrow> room scan (charges n s) k"
  by (induction n arbitrary: s) (simp_all add: room_charge)

lemma resolve_page:
  assumes "room scan s (length entries + length markers)" "\<not> scan_ended scan s"
    and "\<And>m. m \<in> set markers \<Longrightarrow> body m = Inr (b m) \<and> job_named (b m) = Inr (name m)"
  defines "alive \<equiv> \<lambda>m. \<exists>i. name m = Some i \<and> i \<notin> set (wk_seen s)"
  defines "live \<equiv> filter alive markers"
  shows "resolve scan s entries markers (map body markers) =
    (let s' = charges (length markers - length live) s
     in if entries = [] \<and> live = [] \<and> markers \<noteq> [] \<and> scan_ended scan s' then Inr (Inl (s', last markers))
        else Inr (Inr (s', entries @ map (\<lambda>m. (m, the (name m))) live)))"
  using assms(1-3) unfolding live_def alive_def
proof (induction markers arbitrary: s entries)
  case (Cons m ms)
  have m: "body m = Inr (b m)" "job_named (b m) = Inr (name m)"
    using Cons.prems(3) by simp_all
  have rest: "\<And>x. x \<in> set ms \<Longrightarrow> body x = Inr (b x) \<and> job_named (b x) = Inr (name x)"
    using Cons.prems(3) by simp
  show ?case
  proof (cases "\<exists>i. name m = Some i \<and> i \<notin> set (wk_seen s)")
    case True
    then obtain i where i: "name m = Some i" "i \<notin> set (wk_seen s)" by blast
    have "room scan s (length (entries @ [(m, i)]) + length ms)"
      using Cons.prems(1) by simp
    from Cons.IH [OF this Cons.prems(2) rest] show ?thesis
      using m i by (simp add: Let_def)
  next
    case False
    let ?live = "\<lambda>m. \<exists>i. name m = Some i \<and> i \<notin> set (wk_seen s)"
    have len: "length (filter ?live ms) \<le> length ms" by simp
    have r: "room scan (charge s) (length entries + length ms)"
      using Cons.prems(1) by (simp add: room_charge)
    have step: "resolve scan s entries (m # ms) (map body (m # ms)) =
        (if budget_spent scan (wk_scanned (charge s)) then Inr (Inl (charge s, m))
         else resolve scan (charge s) entries ms (map body ms))"
      using m False by (auto simp: Let_def split: option.split)
    show ?thesis
    proof (cases "budget_spent scan (wk_scanned (charge s))")
      case True
      then have "entries = [] \<and> ms = []"
        using room_ended [of scan "charge s" "length entries + length ms - 1"] r
        by (cases "length entries + length ms") (auto simp: scan_ended_def)
      then show ?thesis
        using True False step by (simp add: scan_ended_def)
    next
      case spent: False
      then have open': "\<not> scan_ended scan (charge s)"
        using Cons.prems(2) by (simp add: scan_ended_def)
      show ?thesis
        using Cons.IH [OF r open' rest] step spent False open' len by (auto simp: Let_def Suc_diff_le)
    qed
  qed
qed simp

text \<open>What admission does with the entries of a page: up to the first beyond the origin, in order.\<close>

fun admitted_of :: "job_scan \<Rightarrow> (string \<Rightarrow> bool) \<Rightarrow> (string \<Rightarrow> job option) \<Rightarrow> walk \<Rightarrow> string list \<Rightarrow> walk \<times> string + walk" where
  "admitted_of scan beyond f s [] = Inr s"
| "admitted_of scan beyond f s (m # ms) =
     (if beyond m then Inl (s, [])
      else (let s = examine1 f s m in if scan_ended scan s then Inl (s, m) else admitted_of scan beyond f s ms))"

lemma admitted_page:
  fixes beyond :: "string \<Rightarrow> bool"
  assumes "room scan s (length ms)" "\<not> scan_ended scan s"
  defines "within' \<equiv> takeWhile (\<lambda>m. \<not> beyond m) ms"
  shows "admitted_of scan beyond f s ms =
    (let s' = examine f s within'
     in if within' \<noteq> ms then Inl (s', []) else if scan_ended scan s' then Inl (s', last ms) else Inr s')"
  using assms(1,2) unfolding within'_def
proof (induction ms arbitrary: s)
  case (Cons m ms)
  have r: "room scan (examine1 f s m) (length ms)"
    using Cons.prems(1) by (simp add: room_examine1)
  show ?case
  proof (cases "beyond m \<or> scan_ended scan (examine1 f s m)")
    case True
    then have "beyond m \<or> ms = []"
      using r room_ended [of scan "examine1 f s m" "length ms - 1"] by (cases ms) auto
    then show ?thesis
      using True by (auto simp: Let_def)
  next
    case False
    then show ?thesis
      using Cons.IH [OF r] by (auto simp: Let_def)
  qed
qed simp

text \<open>Resolution and admission of a page together: every marker of it within the bound is examined.\<close>

lemma room_examine: "room scan s (length xs + k) \<Longrightarrow> room scan (examine f s xs) k"
  by (induction xs arbitrary: s) (simp_all add: room_examine1)

lemma room_less: "room scan s k \<Longrightarrow> i \<le> k \<Longrightarrow> room scan s i"
  by (fastforce simp: room_def)

lemma scanned_charges: "wk_scanned (charges n s) = (tally ^^ n) (wk_scanned s)"
  by (induction n arbitrary: s) (simp_all add: funpow_swap1)

lemma scanned_examine: "wk_scanned (examine f s xs) = wk_scanned (charges (length xs) s)"
  by (induction xs arbitrary: s) (simp_all add: scanned_charges funpow_swap1)

lemma tally_counts: "n + k \<le> usize_max \<Longrightarrow> (tally ^^ k) n = n + k"
  by (induction k arbitrary: n) (simp_all add: tally_def usize_max_def funpow_Suc_right del: funpow.simps)

lemma map_filter_alive:
  "(\<And>m. m \<in> set ms \<Longrightarrow> \<not> alive m \<Longrightarrow> f m = None) \<Longrightarrow> List.map_filter f (filter alive ms) = List.map_filter f ms"
  by (induction ms) (auto simp: map_filter_Cons split: option.split)

lemma takeWhile_sorted:
  "sorted_wrt (<) (ms :: 'a :: linorder list) \<Longrightarrow> (\<And>m n. beyond m \<Longrightarrow> m < n \<Longrightarrow> beyond n) \<Longrightarrow>
   takeWhile (\<lambda>m. \<not> beyond m) ms = filter (\<lambda>m. \<not> beyond m) ms"
proof (induction ms)
  case (Cons m ms)
  then show ?case by (auto simp: filter_empty_conv)
qed simp

lemma page_outcome:
  fixes ms :: "string list" and beyond alive :: "string \<Rightarrow> bool"
  assumes sorted: "sorted_wrt (<) ms" "\<forall>m n. beyond m \<longrightarrow> m < n \<longrightarrow> beyond n"
    and room: "room scan s (length ms)" "\<not> scan_ended scan s"
    and dead: "\<forall>m \<in> set ms. \<not> beyond m \<longrightarrow> \<not> alive m \<longrightarrow> f m = None"
  defines "live \<equiv> filter alive ms"
  defines "s1 \<equiv> charges (length ms - length live) s"
    and "inside \<equiv> filter (\<lambda>m. \<not> beyond m) ms"
  shows "\<exists>s'. wk_out s' = wk_out s @ List.map_filter f inside \<and>
    set (wk_seen s') = set (wk_seen s) \<union> job_id ` set (List.map_filter f inside) \<and> room scan s' 0 \<and>
    (inside = ms \<longrightarrow> wk_scanned s' = wk_scanned (charges (length ms) s)) \<and>
    (let r = (if live = [] \<and> ms \<noteq> [] \<and> scan_ended scan s1 then Inl (s1, last ms)
              else admitted_of scan beyond f s1 live)
     in r = Inr s' \<and> \<not> scan_ended scan s' \<or>
        (\<exists>stop. r = Inl (s', stop) \<and> (stop \<in> set ms \<and> scan_ended scan s' \<or> inside \<noteq> ms)))"
proof -
  define taken where "taken = takeWhile (\<lambda>m. \<not> beyond m) live"
  have len: "length live \<le> length ms" by (simp add: live_def)
  have room1: "room scan s1 (length live)"
    unfolding s1_def using room(1) len by (intro room_charges) simp
  have taken: "taken = filter alive inside"
    unfolding taken_def live_def inside_def
    by (subst takeWhile_sorted) (use sorted in \<open>auto simp: sorted_wrt_filter filter_filter intro!: filter_cong\<close>)
  have jobs: "List.map_filter f taken = List.map_filter f inside"
    unfolding taken by (rule map_filter_alive) (use dead in \<open>simp add: inside_def\<close>)
  let ?s = "examine f s1 taken"
  have out: "wk_out ?s = wk_out s @ List.map_filter f inside"
    "set (wk_seen ?s) = set (wk_seen s) \<union> job_id ` set (List.map_filter f inside)"
    by (simp_all add: examine_out examine_seen jobs s1_def)
  have all_taken: "inside = ms \<Longrightarrow> taken = live"
    by (simp add: taken live_def)
  have split: "live = taken @ dropWhile (\<lambda>m. \<not> beyond m) live"
    by (simp add: taken_def)
  have "room scan ?s 0"
    using room1 split by (intro room_examine) (metis add.right_neutral length_append le_add1 room_less)
  moreover have "wk_scanned ?s = wk_scanned (charges (length ms) s)" if "inside = ms"
    using len all_taken [OF that]
    by (simp add: scanned_examine s1_def scanned_charges flip: funpow_add [THEN fun_cong, simplified])
  moreover have "(let r = (if live = [] \<and> ms \<noteq> [] \<and> scan_ended scan s1 then Inl (s1, last ms)
              else admitted_of scan beyond f s1 live)
     in r = Inr ?s \<and> \<not> scan_ended scan ?s \<or> (\<exists>stop. r = Inl (?s, stop) \<and> (stop \<in> set ms \<and> scan_ended scan ?s \<or> inside \<noteq> ms)))"
  proof (cases "live = []")
    case True
    have "\<not> scan_ended scan s1" if "ms = []"
      using that room(2) by (simp add: s1_def)
    then show ?thesis
      using True by (auto simp: Let_def taken_def)
  next
    case False
    then have "\<not> scan_ended scan s1"
      using room1 room_ended [of scan s1 "length live - 1"] by (cases live) auto
    moreover have "last live \<in> set ms"
      using False last_in_set [of live] by (auto simp: live_def)
    ultimately show ?thesis
      using False all_taken unfolding admitted_page [OF room1 \<open>\<not> scan_ended scan s1\<close>] Let_def taken_def [symmetric]
      by auto
  qed
  ultimately show ?thesis using out by blast
qed

text \<open>The whole walk: of the markers before it, a prefix is examined.\<close>

definition ahead :: "string list \<Rightarrow> string \<Rightarrow> string \<Rightarrow> bool \<Rightarrow> string list" where
  "ahead ms origin at wrapped =
     (if wrapped then filter (\<lambda>m. at < m \<and> m \<le> origin) ms
      else filter (\<lambda>m. at < m) ms @ (if origin = [] then [] else filter (\<lambda>m. m \<le> origin) ms))"

lemma marker_nonempty: "is_marker m \<Longrightarrow> [] < m"
  by (cases m) (simp_all add: is_marker_def ends_with_def starts_with_def)

lemma marker_page_room:
  assumes "\<not> scan_ended scan s" "\<forall>b. js_budget scan = Some b \<longrightarrow> b \<le> usize_max"
  shows "case marker_page scan (length (wk_out s)) (wk_scanned s) of
    None \<Rightarrow> room scan s k | Some n \<Rightarrow> 0 < n \<and> room scan s n"
  using assms
  by (auto simp: scan_ended_def window_full_def budget_spent_def marker_page_def left_def room_def min_def
      split: option.splits)

lemma fresh_seen: "set (wk_seen s) = set (wk_seen s') \<Longrightarrow> fresh f s ms = fresh f s' ms"
  by (simp add: fresh_def)

lemma page_split:
  assumes "sorted_wrt (<) (xs :: 'a :: linorder list)" "filter (\<lambda>n. at < n) xs = page @ rest" "page \<noteq> []"
  shows "filter (\<lambda>n. last page < n) xs = rest" "at < last page"
    "sorted_wrt (<) page" "\<And>n. n \<in> set page \<Longrightarrow> at < n \<and> n \<le> last page \<and> n \<in> set xs"
proof -
  have sorted: "sorted_wrt (<) (page @ rest)"
    unfolding assms(2) [symmetric] using assms(1) by (rule sorted_wrt_filter)
  have last: "n \<le> last page" if "n \<in> set page" for n
    using sorted that assms(3) by (metis append_butlast_last_id in_set_conv_decomp less_imp_le order.refl rotate1.simps(2)
        set_ConsD set_rotate1 sorted_wrt_append)
  have in_xs: "set (page @ rest) = {n \<in> set xs. at < n}"
    unfolding assms(2) [symmetric] by auto
  then show "at < last page"
    using assms(3) by (metis (mono_tags, lifting) last_in_set mem_Collect_eq set_append UnI1)
  show "sorted_wrt (<) page" using sorted by (simp add: sorted_wrt_append)
  show "\<And>n. n \<in> set page \<Longrightarrow> at < n \<and> n \<le> last page \<and> n \<in> set xs"
    using in_xs last by auto
  have "filter (\<lambda>n. last page < n) xs = filter (\<lambda>n. last page < n) (filter (\<lambda>n. at < n) xs)"
    unfolding filter_filter using \<open>at < last page\<close> by (intro filter_cong) auto
  also have "\<dots> = filter (\<lambda>n. last page < n) page @ filter (\<lambda>n. last page < n) rest"
    by (simp add: assms(2))
  also have "filter (\<lambda>n. last page < n) page = []"
    using last by (auto simp: filter_empty_conv dest!: last leD)
  also have "filter (\<lambda>n. last page < n) rest = rest"
    using sorted assms(3) by (auto simp: filter_id_conv sorted_wrt_append)
  finally show "filter (\<lambda>n. last page < n) xs = rest" by simp
qed

section \<open>A store that lists in name order\<close>

locale paged_store = lifecycle_store B view put remove annotate token refusal good ready boundary L
  for B :: "'s backend" and view put remove annotate token refusal good ready boundary L +
  fixes names :: "'s \<Rightarrow> string \<Rightarrow> string list"
  assumes page_law: "ready s \<Longrightarrow>
      be_list_page B s P a limit =
        Inr (let after = filter (\<lambda>n. a < n) (names s P) in case limit of None \<Rightarrow> after | Some k \<Rightarrow> take k after)"
    and names_sorted: "sorted_wrt (<) (names s P)"
    and names_good: "ready s \<Longrightarrow> n \<in> set (names s P) \<Longrightarrow> good n \<and> starts_with n P \<and> view s n \<noteq> None"
    and names_all: "ready s \<Longrightarrow> boundary P \<Longrightarrow> good n \<Longrightarrow> starts_with n P \<Longrightarrow> view s n \<noteq> None \<Longrightarrow> n \<in> set (names s P)"
begin

end

text \<open>
  The job a marker leads to: the one its body names, when that is in the queue, is still indexed under
  this marker, and is one the caller takes.
\<close>

definition named_in :: "('s \<Rightarrow> string \<Rightarrow> body option) \<Rightarrow> 's \<Rightarrow> string \<Rightarrow> string option" where
  "named_in view s m = (case view s m of Some (Json v) \<Rightarrow> get_str v ''job_id'' | _ \<Rightarrow> None)"

definition indexed_job ::
  "('s \<Rightarrow> string \<Rightarrow> body option) \<Rightarrow> 's \<Rightarrow> job_scan \<Rightarrow> string \<Rightarrow> job option" where
  "indexed_job view s scan m =
     Option.bind (named_in view s m) (\<lambda>id'.
       case view s (job_path ''queue'' id') of
         Some (Json v) \<Rightarrow> Option.bind (job_from_value v) (\<lambda>j.
           if m = marker_path j \<and> accepts scan j then Some j else None)
       | _ \<Rightarrow> None)"

text \<open>Marker bodies are JSON, and what they name is no document or a sound job under its own id.\<close>

definition index_readable ::
  "('s \<Rightarrow> string \<Rightarrow> body option) \<Rightarrow> 's \<Rightarrow> string list \<Rightarrow> bool" where
  "index_readable view s ms \<longleftrightarrow>
     (\<forall>m \<in> set ms. (\<exists>v. view s m = Some (Json v)) \<and>
       (\<forall>id'. named_in view s m = Some id' \<longrightarrow> no_slash id' \<and>
         (\<forall>t. view s (job_path ''queue'' id') = Some t \<longrightarrow>
           (\<exists>j. sound_job j \<and> job_id j = id' \<and> t = to_json j))))"

lemma index_readable_sub: "index_readable view s ms \<Longrightarrow> set ns \<subseteq> set ms \<Longrightarrow> index_readable view s ns"
  by (auto simp: index_readable_def)

lemma indexed_job_Some:
  assumes "index_readable view s ms" "m \<in> set ms" "indexed_job view s scan m = Some j"
  shows "sound_job j \<and> named_in view s m = Some (job_id j) \<and> m = marker_path j \<and> accepts scan j \<and>
    view s (job_path ''queue'' (job_id j)) = Some (to_json j)"
proof -
  obtain id' where id': "named_in view s m = Some id'"
    using assms(3) by (auto simp: indexed_job_def bind_eq_Some_conv)
  obtain v where v: "view s (job_path ''queue'' id') = Some (Json v)" "job_from_value v = Some j"
      "m = marker_path j" "accepts scan j"
    using assms(3) id' by (auto simp: indexed_job_def bind_eq_Some_conv split: option.splits body.splits if_splits)
  obtain k where k: "sound_job k" "job_id k = id'" "Json v = to_json k"
    using assms(1,2) id' v(1) unfolding index_readable_def by blast
  then have "k = j"
    using v(2) job_roundtrip [of k] by (simp add: to_json_def sound_job_def)
  then show ?thesis using k v id' by simp
qed

lemma indexed_job_read:
  assumes "named_in view s m = Some (job_id j)" "sound_job j" "view s (job_path ''queue'' (job_id j)) = Some (to_json j)"
  shows "indexed_job view s scan m = (if m = marker_path j \<and> accepts scan j then Some j else None)"
  using assms job_roundtrip [of j] by (simp add: indexed_job_def to_json_def sound_job_def)

lemma indexed_fresh:
  assumes "index_readable view s ms" "distinct ms"
  shows "fresh (indexed_job view s scan) no_walk ms"
proof -
  have "m = n" if "m \<in> set ms" "n \<in> set ms" "indexed_job view s scan m = Some j"
      "indexed_job view s scan n = Some k" "job_id j = job_id k" for m n j k
  proof -
    have "to_json j = to_json k" "sound_job j" "sound_job k"
      using indexed_job_Some [OF assms(1) that(1,3)] indexed_job_Some [OF assms(1) that(2,4)] that(5) by simp_all
    then have "j = k" by (rule to_json_inject)
    then show ?thesis
      using indexed_job_Some [OF assms(1) that(1,3)] indexed_job_Some [OF assms(1) that(2,4)] by simp
  qed
  then show ?thesis
    unfolding fresh_def using assms(2) by (intro conjI ballI allI impI) (simp_all add: no_walk_def)
qed

context paged_store
begin

lemma run_list_page:
  "ready (disk w) \<Longrightarrow> run L B (list_page P a limit) w =
    (Inr (let after = filter (\<lambda>n. a < n) (names (disk w) P) in case limit of None \<Rightarrow> after | Some k \<Rightarrow> take k after), w)"
  by (simp add: facade_defs page_law)

lemma run_download_many:
  assumes "ready (disk w)" "\<And>p. p \<in> set ps \<Longrightarrow> good p"
  shows "run L B (download_many_or_none ps) w = (map (\<lambda>p. Inr (view (disk w) p)) ps, w)"
  using assms by (induction ps) (auto simp: run_simps run_calls)

lemma run_admit:
  fixes scan origin wrapped w
  defines "f \<equiv> indexed_job view (disk w) scan"
    and "beyond \<equiv> \<lambda>m. wrapped \<and> origin \<noteq> [] \<and> origin < m"
  assumes "index_readable view (disk w) ms" "\<And>m. m \<in> set ms \<Longrightarrow> named_in view (disk w) m \<noteq> None"
    and "fresh f s ms" "\<not> scan_ended scan s"
  shows "run L B (admit L scan origin wrapped s (map (\<lambda>m. (m, the (named_in view (disk w) m))) ms)
      (map (\<lambda>m. Inr (view (disk w) (job_path ''queue'' (the (named_in view (disk w) m))))) ms)) w =
    (Inr (admitted_of scan beyond f s ms), w)"
  using assms(3-6)
proof (induction ms arbitrary: s)
  case (Cons m ms)
  obtain id' where id': "named_in view (disk w) m = Some id'"
    using Cons.prems(2) by auto
  have sub: "index_readable view (disk w) ms"
    using Cons.prems(1) by (rule index_readable_sub) auto
  have IH: "\<not> scan_ended scan (examine1 f s m) \<Longrightarrow>
    run L B (admit L scan origin wrapped (examine1 f s m) (map (\<lambda>m. (m, the (named_in view (disk w) m))) ms)
      (map (\<lambda>m. Inr (view (disk w) (job_path ''queue'' (the (named_in view (disk w) m))))) ms)) w =
    (Inr (admitted_of scan beyond f (examine1 f s m) ms), w)"
    using Cons.IH [OF sub _ fresh_examine1 [OF Cons.prems(3)]] Cons.prems(2) by simp
  have open': "\<not> window_full scan (length (wk_out s))"
    using Cons.prems(4) by (simp add: scan_ended_def)
  show ?case
  proof (cases "view (disk w) (job_path ''queue'' id')")
    case None
    then have "f m = None"
      using id' by (simp add: f_def indexed_job_def)
    then show ?thesis
      using IH id' None open' by (simp add: beyond_def run_simps Let_def scan_ended_def)
  next
    case (Some t)
    then obtain j where j: "sound_job j" "job_id j = id'" "t = to_json j"
      using Cons.prems(1) id' unfolding index_readable_def by auto
    have f: "f m = (if m = marker_path j \<and> accepts scan j then Some j else None)"
      unfolding f_def using indexed_job_read [of view "disk w" m j scan] id' j Some by simp
    have new: "f m = Some j \<Longrightarrow> job_id j \<notin> set (wk_seen s)"
      using Cons.prems(3) by (simp add: fresh_def)
    show ?thesis
      using IH id' Some j f new open' by (auto simp: beyond_def run_simps Let_def scan_ended_def)
  qed
qed (simp add: run_simps)

text \<open>A page is read, resolved and admitted.\<close>

lemma run_page:
  fixes scan origin wrapped w ms s
  defines "f \<equiv> indexed_job view (disk w) scan"
    and "beyond \<equiv> \<lambda>m. wrapped \<and> origin \<noteq> [] \<and> origin < m"
    and "live \<equiv> filter (\<lambda>m. \<exists>i. named_in view (disk w) m = Some i \<and> i \<notin> set (wk_seen s)) ms"
  defines "s1 \<equiv> charges (length ms - length live) s"
  assumes "ready (disk w)" "index_readable view (disk w) ms" "\<And>m. m \<in> set ms \<Longrightarrow> good m" "distinct ms"
    and "room scan s (length ms)" "\<not> scan_ended scan s"
  shows "run L B (bindp (download_many_or_none ms) (\<lambda>marker_bodies.
      bindE (Ret (resolve scan s [] ms marker_bodies)) (\<lambda>r. case r of
        Inl stopped \<Rightarrow> ok stopped
      | Inr (s, entries) \<Rightarrow>
          bindp (download_many_or_none (map (\<lambda>(_, id'). job_path ''queue'' id') entries)) (\<lambda>bodies.
          bindE (admit L scan origin wrapped s entries bodies) (\<lambda>r. case r of
            Inl stopped \<Rightarrow> ok stopped | Inr s \<Rightarrow> K s))))) w =
    (if live = [] \<and> ms \<noteq> [] \<and> scan_ended scan s1 then (Inr (s1, last ms), w)
     else case admitted_of scan beyond f s1 live of
            Inl stopped \<Rightarrow> (Inr stopped, w) | Inr s' \<Rightarrow> run L B (K s') w)"
proof -
  have bodies: "job_named (view (disk w) m) = Inr (named_in view (disk w) m)" if "m \<in> set ms" for m
    using assms(6) that by (auto simp: index_readable_def job_named_def named_in_def)
  have resolved: "resolve scan s [] ms (map (\<lambda>p. Inr (view (disk w) p)) ms) =
      (if live = [] \<and> ms \<noteq> [] \<and> scan_ended scan s1 then Inr (Inl (s1, last ms))
       else Inr (Inr (s1, map (\<lambda>m. (m, the (named_in view (disk w) m))) live)))"
    using resolve_page [of scan s "[]" ms "\<lambda>p. Inr (view (disk w) p)" "view (disk w)" "named_in view (disk w)"]
      bodies assms(9,10) by (simp add: live_def s1_def Let_def)
  have live: "set live \<subseteq> set ms" "\<And>m. m \<in> set live \<Longrightarrow> named_in view (disk w) m \<noteq> None"
    by (auto simp: live_def)
  have docs: "good (job_path ''queue'' (the (named_in view (disk w) m)))" if "m \<in> set live" for m
  proof -
    obtain i where "named_in view (disk w) m = Some i" using live(2) \<open>m \<in> set live\<close> by auto
    moreover then have "no_slash i"
      using assms(6) live(1) that by (auto simp: index_readable_def)
    ultimately show ?thesis
      using good_job [of i Queue] by (simp add: prefix_words del: queue_words)
  qed
  have "job_id j \<notin> set (wk_seen s)" if "m \<in> set live" "f m = Some j" for m j
    using that indexed_job_Some [OF assms(6), of m scan j] live(1) by (auto simp: live_def f_def)
  then have "fresh f s1 live"
    using fresh_sub [OF indexed_fresh [OF assms(6,8), of scan], of live] live(1) assms(8)
    by (auto simp: s1_def live_def fresh_def f_def)
  moreover have "\<not> scan_ended scan s1" if "live \<noteq> []"
    using that room_charges [of scan s "length ms - length live" "length live"] assms(9) room_ended [of scan s1 "length live - 1"]
    by (cases live) (auto simp: s1_def live_def)
  ultimately have admitted: "run L B (admit L scan origin wrapped s1 (map (\<lambda>m. (m, the (named_in view (disk w) m))) live)
      (map (\<lambda>m. Inr (view (disk w) (job_path ''queue'' (the (named_in view (disk w) m))))) live)) w =
      (Inr (admitted_of scan beyond f s1 live), w)"
    using run_admit [of w live scan s1 origin wrapped] index_readable_sub [OF assms(6) live(1)] live(2)
    unfolding f_def beyond_def by (cases "live = []") (simp_all add: run_simps)
  have "run L B (download_many_or_none (map (\<lambda>m. job_path ''queue'' (the (named_in view (disk w) m))) live)) w =
      (map (\<lambda>m. Inr (view (disk w) (job_path ''queue'' (the (named_in view (disk w) m))))) live, w)"
    by (subst run_download_many [OF assms(5)]) (use docs in auto)
  then show ?thesis
    using run_download_many [OF assms(5,7), of ms] admitted
    by (simp add: run_simps resolved o_def split: sum.split)
qed

declare walk_index.simps [simp del]

lemma run_walk:
  fixes scan w
  defines "ns \<equiv> names (disk w) marker_prefix" and "f \<equiv> indexed_job view (disk w) scan"
  defines "ms \<equiv> filter is_marker ns"
  assumes rdy: "ready (disk w)" and readable: "index_readable view (disk w) ms"
    and bounded: "\<forall>b. js_budget scan = Some b \<longrightarrow> b \<le> usize_max"
  shows "(wrapped \<longrightarrow> origin \<noteq> []) \<Longrightarrow> \<not> scan_ended scan s \<Longrightarrow> fresh f s (ahead ms origin at wrapped) \<Longrightarrow>
    length (filter (\<lambda>n. at < n) ns) + (if wrapped \<or> origin = [] then 0 else Suc (length ns)) < pages \<Longrightarrow>
    \<exists>s' stop E R. run L B (walk_index pages L ''queue'' scan origin at wrapped s) w = (Inr (s', stop), w) \<and>
      ahead ms origin at wrapped = E @ R \<and> wk_out s' = wk_out s @ List.map_filter f E \<and> room scan s' 0 \<and>
      (origin = [] \<longrightarrow> wk_scanned s' = wk_scanned (charges (length E) s) \<and>
        (\<forall>b. js_budget scan = Some b \<longrightarrow> wk_scanned s + length E \<le> b)) \<and>
      (R = [] \<or> stop \<in> set E) \<and> (R = [] \<or> scan_ended scan s')"
proof (induction pages arbitrary: at wrapped s)
  case (Suc pages)
  let ?lim = "marker_page scan (length (wk_out s)) (wk_scanned s)"
  define after where "after = filter (\<lambda>n. at < n) ns"
  define page where "page = (case ?lim of None \<Rightarrow> after | Some k \<Rightarrow> take k after)"
  have listed: "run L B (list_page marker_prefix at ?lim) w = (Inr page, w)"
    unfolding run_list_page [OF rdy] page_def after_def ns_def Let_def ..
  have room_any: "case ?lim of None \<Rightarrow> room scan s k | Some n \<Rightarrow> 0 < n \<and> room scan s n" for k
    using marker_page_room [OF Suc.prems(2) bounded] .
  show ?case
  proof (cases "after = []")
    case True
    then have page: "page = []" by (simp add: page_def split: option.split)
    have none: "filter (\<lambda>m. at < m) ms = []"
      using True by (auto simp: after_def ms_def filter_empty_conv)
    show ?thesis
    proof (cases "wrapped \<or> origin = []")
      case True
      have "ahead ms origin at wrapped = []"
        using none True by (auto simp: ahead_def filter_empty_conv)
      moreover have "room scan s 0"
        using room_any [of 0] room_less [of scan s _ 0] by (auto split: option.splits)
      moreover have "run L B (walk_index (Suc pages) L ''queue'' scan origin at wrapped s) w = (Inr (s, []), w)"
        unfolding walk_index.simps run_bindE listed using True page by simp
      ultimately show ?thesis by (auto simp: room_def)
    next
      case False
      have "ahead ms origin at wrapped = ahead ms origin [] True"
        using False none by (auto simp: ahead_def ms_def marker_nonempty intro!: filter_cong)
      moreover have "length (filter (\<lambda>n. [] < n) ns) < pages"
        using Suc.prems(4) False length_filter_le [of "\<lambda>n. [] < n" ns] by (auto simp del: length_filter_le)
      moreover have "run L B (walk_index (Suc pages) L ''queue'' scan origin at wrapped s) w =
          run L B (walk_index pages L ''queue'' scan origin [] True s) w"
        unfolding walk_index.simps run_bindE listed using False page by simp
      ultimately show ?thesis
        using Suc.IH [of True s "[]"] Suc.prems(2,3) False by auto
    qed
  next
    case False
    define rest where "rest = (case ?lim of None \<Rightarrow> [] | Some k \<Rightarrow> drop k after)"
    have parts: "filter (\<lambda>n. at < n) ns = page @ rest" and page: "page \<noteq> []" and room: "room scan s (length page)"
      using False room_any [of "length after"]
      by (auto simp: page_def rest_def after_def split: option.splits intro: room_less)
    note split = page_split [OF names_sorted [of "disk w" marker_prefix, folded ns_def] parts page]
    define pms where "pms = filter is_marker page"
    define beyond where "beyond = (\<lambda>m. wrapped \<and> origin \<noteq> [] \<and> origin < m)"
    define inside where "inside = filter (\<lambda>m. \<not> beyond m) pms"
    define alive where "alive = (\<lambda>m. \<exists>i. named_in view (disk w) m = Some i \<and> i \<notin> set (wk_seen s))"
    define K where "K = (\<lambda>s. if last page \<le> at \<and> at \<noteq> [] then ok (s, [])
        else walk_index pages L ''queue'' scan origin (last page) wrapped s)"
    have pms: "set pms \<subseteq> set ms" "sorted_wrt (<) pms" "distinct pms" "room scan s (length pms)" "\<And>m. m \<in> set pms \<Longrightarrow> good m"
      using split(3,4) room names_good [OF rdy, of _ marker_prefix] length_filter_le [of is_marker page]
      by (auto simp: pms_def ms_def ns_def sorted_wrt_filter strict_sorted_iff intro: room_less)
    have later: "filter (\<lambda>m. at < m) ms = pms @ filter (\<lambda>m. last page < m) ms"
    proof -
      have "filter (\<lambda>m. x < m) ms = filter is_marker (filter (\<lambda>m. x < m) ns)" for x
        by (simp add: ms_def conj_commute)
      then show ?thesis by (simp only: parts split(1) filter_append pms_def)
    qed
    have ahead: "ahead ms origin at wrapped = inside @ ahead ms origin (last page) wrapped"
    proof (cases wrapped)
      case True
      have "filter (\<lambda>m. x < m \<and> m \<le> origin) ms = filter (\<lambda>m. m \<le> origin) (filter (\<lambda>m. x < m) ms)" for x
        by (simp add: conj_commute)
      then have "ahead ms origin x wrapped = filter (\<lambda>m. m \<le> origin) (filter (\<lambda>m. x < m) ms)" for x
        using True by (simp only: ahead_def if_True)
      then show ?thesis
        using True Suc.prems(1) by (simp add: later inside_def beyond_def not_less del: filter_filter)
    next
      case False
      then show ?thesis
        unfolding ahead_def inside_def beyond_def by (simp add: later)
    qed
    have cut: "ahead ms origin (last page) wrapped = []" if "inside \<noteq> pms"
    proof -
      obtain m where "m \<in> set pms" "beyond m"
        using \<open>inside \<noteq> pms\<close> unfolding inside_def by (metis filter_True)
      then have "wrapped" "origin < last page"
        using split(4) [of m] by (auto simp: beyond_def pms_def)
      then show ?thesis by (auto simp: ahead_def filter_empty_conv)
    qed
    have readable': "index_readable view (disk w) pms"
      by (rule index_readable_sub [OF readable pms(1)])
    define dry where "dry \<longleftrightarrow> filter alive pms = [] \<and> pms \<noteq> [] \<and>
        scan_ended scan (charges (length pms - length (filter alive pms)) s)"
    define r where "r = (if dry
        then Inl (charges (length pms - length (filter alive pms)) s, last pms)
        else admitted_of scan beyond f (charges (length pms - length (filter alive pms)) s) (filter alive pms))"
    have run: "run L B (walk_index (Suc pages) L ''queue'' scan origin at wrapped s) w =
      (case r of Inl stopped \<Rightarrow> (Inr stopped, w) | Inr s' \<Rightarrow> run L B (K s') w)"
    proof -
      note page_run = run_page [OF rdy readable' pms(5,3,4) Suc.prems(2), of origin wrapped K]
      have "run L B (walk_index (Suc pages) L ''queue'' scan origin at wrapped s) w =
          (if dry
           then (Inr (charges (length pms - length (filter alive pms)) s, last pms), w)
           else case admitted_of scan beyond f (charges (length pms - length (filter alive pms)) s) (filter alive pms) of
             Inl stopped \<Rightarrow> (Inr stopped, w) | Inr s' \<Rightarrow> run L B (K s') w)"
        unfolding walk_index.simps run_bindE listed prod.case sum.case if_not_P [OF page] Let_def dry_def alive_def
          beyond_def f_def pms_def K_def
        by (rule page_run [unfolded pms_def K_def])
      then show ?thesis
        by (simp add: r_def)
    qed
    have dead: "\<forall>m \<in> set pms. \<not> beyond m \<longrightarrow> \<not> alive m \<longrightarrow> f m = None"
    proof (intro ballI impI, rule ccontr)
      fix m
      assume that: "m \<in> set pms" "\<not> beyond m" "\<not> alive m" and "f m \<noteq> None"
      then obtain j where j: "f m = Some j" by auto
      then have "job_id j \<in> set (wk_seen s)"
        using indexed_job_Some [OF readable' that(1)] that(3) by (auto simp: f_def alive_def)
      moreover have "m \<in> set (ahead ms origin at wrapped)"
        using that by (simp add: ahead inside_def)
      ultimately show False
        using Suc.prems(3) j by (auto simp: fresh_def)
    qed
    have upward: "\<forall>m n. beyond m \<longrightarrow> m < n \<longrightarrow> beyond n"
      by (auto simp: beyond_def)
    obtain s' where s': "wk_out s' = wk_out s @ List.map_filter f inside"
      "set (wk_seen s') = set (wk_seen s) \<union> job_id ` set (List.map_filter f inside)" "room scan s' 0"
      "inside = pms \<longrightarrow> wk_scanned s' = wk_scanned (charges (length pms) s)"
      and r: "r = Inr s' \<and> \<not> scan_ended scan s' \<or>
        (\<exists>stop. r = Inl (s', stop) \<and> (stop \<in> set pms \<and> scan_ended scan s' \<or> inside \<noteq> pms))"
      using page_outcome [where beyond = beyond and alive = alive and f = f, OF pms(2) upward pms(4) Suc.prems(2) dead]
      unfolding inside_def Let_def dry_def [symmetric] r_def [symmetric] by blast
    have scanned: "wk_scanned s' = wk_scanned (charges (length inside) s)"
      "\<forall>b. js_budget scan = Some b \<longrightarrow> wk_scanned s' = wk_scanned s + length inside \<and> wk_scanned s + length inside \<le> b"
      if "origin = []"
    proof -
      have all_in: "inside = pms"
        using that by (simp add: inside_def beyond_def)
      then show "wk_scanned s' = wk_scanned (charges (length inside) s)"
        using s'(4) by simp
      then show "\<forall>b. js_budget scan = Some b \<longrightarrow> wk_scanned s' = wk_scanned s + length inside \<and> wk_scanned s + length inside \<le> b"
        using pms(4) all_in tally_counts [of "wk_scanned s" "length pms"] by (auto simp: scanned_charges room_def)
    qed
    from r consider
      (on) "run L B (walk_index (Suc pages) L ''queue'' scan origin at wrapped s) w = run L B (K s') w" "\<not> scan_ended scan s'"
    | (stop) stop where "run L B (walk_index (Suc pages) L ''queue'' scan origin at wrapped s) w = (Inr (s', stop), w)"
        "stop \<in> set pms \<and> scan_ended scan s' \<or> inside \<noteq> pms"
      unfolding run by auto
    then show ?thesis
    proof cases
      case stop
      then show ?thesis
        using s' scanned ahead cut by (intro exI [of _ s'] exI [of _ stop] exI [of _ inside] exI) auto
    next
      case on
      have "fresh f s' (ahead ms origin (last page) wrapped)"
        using fresh_examine [of f s inside "ahead ms origin (last page) wrapped"] Suc.prems(3) s'(2)
        by (subst fresh_seen [of s' "examine f s inside"]) (simp_all add: ahead examine_seen)
      moreover have "length (filter (\<lambda>n. last page < n) ns) < length (filter (\<lambda>n. at < n) ns)"
        unfolding split(1) parts using page by simp
      moreover have "K s' = walk_index pages L ''queue'' scan origin (last page) wrapped s'"
        using split(2) [THEN not_le [THEN iffD2]] by (simp add: K_def)
      ultimately obtain s'' stop E R where
        "run L B (K s') w = (Inr (s'', stop), w)" "ahead ms origin (last page) wrapped = E @ R"
        "wk_out s'' = wk_out s' @ List.map_filter f E" "room scan s'' 0"
        "origin = [] \<longrightarrow> wk_scanned s'' = wk_scanned (charges (length E) s') \<and>
          (\<forall>b. js_budget scan = Some b \<longrightarrow> wk_scanned s' + length E \<le> b)"
        "R = [] \<or> stop \<in> set E" "R = [] \<or> scan_ended scan s''"
        using Suc.IH [OF Suc.prems(1) on(2), of "last page"] Suc.prems(4) by auto
      then show ?thesis
        using on(1) s'(1) scanned ahead
        by (intro exI [of _ s''] exI [of _ stop] exI [of _ "inside @ E"] exI [of _ R])
           (auto simp: scanned_charges funpow_add add.commute)
    qed
  qed
qed simp

end

end
