(* ===== verification/Fair_Polls.thy ===== *)
theory Fair_Polls
  imports Polls Local_File
begin

text \<open>
  Polls of an indexed queue, one after another: a poll from the head returns the caller's jobs in the
  order of the index, and polls that resume where the last one stopped come round to every job. The
  device-local store lists in name order.
\<close>

section \<open>Bounds and rotation\<close>

text \<open>The part of the index a scan from the head may read, and what is left of it for the window.\<close>

definition up_to :: "nat option \<Rightarrow> 'a list \<Rightarrow> 'a list" where
  "up_to bound xs = (case bound of None \<Rightarrow> xs | Some n \<Rightarrow> take n xs)"

definition claimable ::
  "('s \<Rightarrow> string \<Rightarrow> body option) \<Rightarrow> 's \<Rightarrow> job_scan \<Rightarrow> string list \<Rightarrow> job list" where
  "claimable view s scan ms =
     up_to (js_want scan) (List.map_filter (indexed_job view s scan) (up_to (js_budget scan) ms))"

lemma length_map_filter: "length (List.map_filter f xs) \<le> length xs"
  by (induction xs) (auto simp: map_filter_Cons split: option.split)

text \<open>A prefix that the bounds allow, and that ends only where one of them ends it.\<close>

lemma prefix_claimable:
  fixes R :: "string list"
  assumes "room scan s 0" "wk_out s = List.map_filter f E" "wk_scanned s = (tally ^^ length E) 0"
    and "R = [] \<or> scan_ended scan s" "\<forall>b. js_budget scan = Some b \<longrightarrow> length E \<le> b \<and> b \<le> usize_max"
  shows "List.map_filter f E = up_to (js_want scan) (List.map_filter f (up_to (js_budget scan) (E @ R)))"
proof -
  have fits: "up_to (js_want scan) (List.map_filter f E) = List.map_filter f E" "up_to (js_budget scan) E = E"
    using assms(1,2,5) by (auto simp: up_to_def room_def split: option.split)
  show ?thesis
  proof (cases "R = []")
    case True
    then show ?thesis using fits by simp
  next
    case False
    then consider "window_full scan (length (wk_out s))" | b where "js_budget scan = Some b" "b \<le> length E"
      using assms(3-5) tally_counts [of 0 "length E"]
      by (fastforce simp: scan_ended_def budget_spent_def split: option.splits)
    then show ?thesis
    proof cases
      case 1
      then obtain n where n: "js_want scan = Some n" "length (List.map_filter f E) = n"
        using assms(1,2) by (auto simp: window_full_def room_def split: option.splits)
      moreover obtain R' where "up_to (js_budget scan) (E @ R) = E @ R'"
        using assms(5) by (cases "js_budget scan") (auto simp: up_to_def)
      ultimately show ?thesis by (simp add: up_to_def)
    next
      case 2
      then have "up_to (js_budget scan) (E @ R) = E"
        using assms(5) by (auto simp: up_to_def)
      then show ?thesis using fits by simp
    qed
  qed
qed

text \<open>Cyclic order from a cursor.\<close>

definition between :: "string \<Rightarrow> string \<Rightarrow> string \<Rightarrow> bool" where
  "between c m x \<longleftrightarrow> (if c < x then c < m \<and> m < x else c < m \<or> m < x)"

definition distance :: "string list \<Rightarrow> string \<Rightarrow> string \<Rightarrow> nat" where
  "distance ms c x = length (filter (\<lambda>m. between c m x) ms)"

definition comes_before :: "string \<Rightarrow> string \<Rightarrow> string \<Rightarrow> bool" where
  "comes_before c a b \<longleftrightarrow> c < a \<and> (a < b \<or> b \<le> c) \<or> a < b \<and> b \<le> c"

lemma ahead_ordered:
  assumes "sorted_wrt (<) ms"
  shows "sorted_wrt (comes_before c) (ahead ms c c False)"
proof -
  have "sorted_wrt (comes_before c) (filter (\<lambda>m. c < m) ms)" "sorted_wrt (comes_before c) (filter (\<lambda>m. m \<le> c) ms)"
    by (rule sorted_wrt_mono_rel [rotated, OF sorted_wrt_filter [OF assms]], simp add: comes_before_def)+
  then show ?thesis
    by (auto simp: ahead_def sorted_wrt_append comes_before_def)
qed

lemma distance_decreases:
  assumes "comes_before c stop x" "stop \<in> set ms"
  shows "distance ms stop x < distance ms c x"
proof -
  have "length (filter (\<lambda>m. between stop m x) ms) < length (filter (\<lambda>m. between c m x) ms)"
    using assms
  proof (induction ms)
    case (Cons m ms)
    have sub: "between stop m x \<Longrightarrow> between c m x" for m
      using assms(1) by (auto simp: between_def comes_before_def split: if_splits)
    have le: "length (filter (\<lambda>m. between stop m x) ms) \<le> length (filter (\<lambda>m. between c m x) ms)"
      using sub by (induction ms) auto
    have self: "\<not> between stop stop x" "between c stop x"
      using assms(1) by (auto simp: between_def comes_before_def split: if_splits)
    show ?case
      using Cons sub [of m] le self by (cases "m = stop") auto
  qed simp
  then show ?thesis by (simp add: distance_def)
qed

lemma distance_bound: "x \<in> set ms \<Longrightarrow> distance ms c x < length ms"
  unfolding distance_def by (rule length_filter_less) (auto simp: between_def)

section \<open>One poll\<close>

context paged_store
begin

text \<open>A poll of an indexed queue, as one of these walks.\<close>

lemma run_indexed_poll:
  fixes scan w cursor
  defines "ns \<equiv> names (disk w) marker_prefix" and "f \<equiv> indexed_job view (disk w) scan"
  defines "ms \<equiv> filter is_marker ns"
    and "origin \<equiv> (if (js_want scan \<noteq> None \<or> js_budget scan \<noteq> None) \<and> \<not> js_from_head scan then cursor else [])"
  assumes rdy: "ready (disk w)" and readable: "index_readable view (disk w) ms"
    and bounded: "\<forall>b. js_budget scan = Some b \<longrightarrow> 0 < b \<and> b \<le> usize_max" "js_want scan \<noteq> Some 0"
    and swept: "run L B has_swept w = (Inr True, w)" and pages: "Suc (2 * length ns) < pages"
  shows "\<exists>s stop E R. run L B (list_claimable pages L workers ''queue'' scan cursor) w =
      (Inr (List.map_filter f E, if (js_want scan \<noteq> None \<or> js_budget scan \<noteq> None) \<and> \<not> js_from_head scan then stop else cursor), w) \<and>
    wk_out s = List.map_filter f E \<and> ahead ms origin origin False = E @ R \<and> room scan s 0 \<and>
    (origin = [] \<longrightarrow> wk_scanned s = (tally ^^ length E) 0 \<and>
      (\<forall>b. js_budget scan = Some b \<longrightarrow> length E \<le> b)) \<and>
    (R = [] \<or> stop \<in> set E) \<and> (R = [] \<or> scan_ended scan s)"
proof -
  have sorted: "sorted_wrt (<) ms"
    unfolding ms_def ns_def by (rule sorted_wrt_filter [OF names_sorted])
  have open': "\<not> scan_ended scan no_walk"
    using bounded by (auto simp: scan_ended_def window_full_def budget_spent_def no_walk_def split: option.splits)
  have "distinct (ahead ms origin origin False)" "set (ahead ms origin origin False) \<subseteq> set ms"
    using sorted by (auto simp: ahead_def strict_sorted_iff)
  then have fresh: "fresh f no_walk (ahead ms origin origin False)"
    using fresh_sub [OF indexed_fresh [OF readable, of scan]] sorted by (simp add: f_def strict_sorted_iff)
  have "length (filter (\<lambda>n. origin < n) ns) + (if False \<or> origin = [] then 0 else Suc (length ns)) < pages"
    using pages length_filter_le [of "\<lambda>n. origin < n" ns] by (auto simp del: length_filter_le)
  then obtain s stop E R where walk:
    "run L B (walk_index pages L ''queue'' scan origin origin False no_walk) w = (Inr (s, stop), w)"
    "ahead ms origin origin False = E @ R" "wk_out s = List.map_filter f E" "room scan s 0"
    "origin = [] \<longrightarrow> wk_scanned s = (tally ^^ length E) 0 \<and> (\<forall>b. js_budget scan = Some b \<longrightarrow> length E \<le> b)" "R = [] \<or> stop \<in> set E" "R = [] \<or> scan_ended scan s"
    using run_walk [of w scan False origin no_walk origin pages, folded ns_def f_def ms_def, OF rdy readable _ _ open' fresh]
      bounded(1) by (auto simp: no_walk_def scanned_charges)
  have "\<not> (window_full scan (length (wk_out no_walk)) \<or> budget_spent scan (wk_scanned no_walk))"
    using open' by (simp add: scan_ended_def)
  then have "run L B (collect_from_index pages L ''queue'' scan cursor no_walk) w =
      (Inr (s, if (js_want scan \<noteq> None \<or> js_budget scan \<noteq> None) \<and> \<not> js_from_head scan then stop else cursor), w)"
    unfolding collect_from_index_def Let_def origin_def [symmetric] run_bindE walk(1) by (simp add: origin_def [symmetric] run_bindE walk(1))
  then have "run L B (list_claimable pages L workers ''queue'' scan cursor) w =
      (Inr (List.map_filter f E, if (js_want scan \<noteq> None \<or> js_budget scan \<noteq> None) \<and> \<not> js_from_head scan then stop else cursor), w)"
    by (simp add: list_claimable_def run_bindE swept walk(3))
  then show ?thesis using walk(2-) by blast
qed

lemma run_poll_from_head:
  fixes scan w cursor
  defines "ms \<equiv> filter is_marker (names (disk w) marker_prefix)"
  assumes "ready (disk w)" "index_readable view (disk w) ms"
    and "\<forall>b. js_budget scan = Some b \<longrightarrow> 0 < b \<and> b \<le> usize_max" "js_want scan \<noteq> Some 0"
    and "run L B has_swept w = (Inr True, w)" "Suc (2 * length (names (disk w) marker_prefix)) < pages"
    and "js_from_head scan"
  shows "run L B (list_claimable pages L workers ''queue'' scan cursor) w =
      (Inr (claimable view (disk w) scan ms, cursor), w)"
proof -
  let ?f = "indexed_job view (disk w) scan"
  obtain s stop E R where poll: "run L B (list_claimable pages L workers ''queue'' scan cursor) w =
      (Inr (List.map_filter ?f E, cursor), w)"
    and walk: "wk_out s = List.map_filter ?f E" "ahead ms [] [] False = E @ R" "room scan s 0"
      "wk_scanned s = (tally ^^ length E) 0" "\<forall>b. js_budget scan = Some b \<longrightarrow> length E \<le> b" "R = [] \<or> scan_ended scan s"
    using run_indexed_poll [of w scan pages workers cursor] assms by auto
  have "ahead ms [] [] False = ms"
    unfolding ahead_def using marker_nonempty by (auto simp: ms_def intro!: filter_cong)
  then show ?thesis
    using poll walk(2) prefix_claimable [OF walk(3,1,4,6)] walk(5) assms(4) by (simp add: claimable_def)
qed

lemma run_poll_progress:
  fixes scan w cursor
  defines "ms \<equiv> filter is_marker (names (disk w) marker_prefix)"
  assumes "ready (disk w)" "index_readable view (disk w) ms"
    and "\<forall>b. js_budget scan = Some b \<longrightarrow> 0 < b \<and> b \<le> usize_max" "js_want scan \<noteq> Some 0"
    and "run L B has_swept w = (Inr True, w)" "Suc (2 * length (names (disk w) marker_prefix)) < pages"
    and "\<not> js_from_head scan" "x \<in> set ms" "indexed_job view (disk w) scan x = Some j"
  shows "\<exists>jobs cursor'. run L B (list_claimable pages L workers ''queue'' scan cursor) w = (Inr (jobs, cursor'), w) \<and>
    (j \<in> set jobs \<or> distance ms cursor' x < distance ms cursor x)"
proof -
  let ?f = "indexed_job view (disk w) scan" and ?bounded = "js_want scan \<noteq> None \<or> js_budget scan \<noteq> None"
  define origin where "origin = (if ?bounded then cursor else [])"
  obtain s stop E R where poll: "run L B (list_claimable pages L workers ''queue'' scan cursor) w =
      (Inr (List.map_filter ?f E, if ?bounded then stop else cursor), w)"
    and walk: "ahead ms origin origin False = E @ R" "R = [] \<or> stop \<in> set E" "R = [] \<or> scan_ended scan s"
    using run_indexed_poll [of w scan pages workers cursor] assms unfolding origin_def by auto
  have x: "x \<in> set (E @ R)"
    unfolding walk(1) [symmetric] using assms(9) marker_nonempty [of x]
    by (auto simp: ahead_def ms_def not_less)
  show ?thesis
  proof (cases "x \<in> set E")
    case True
    then have "j \<in> set (List.map_filter ?f E)"
      using assms(10) by (force simp: List.map_filter_def)
    then show ?thesis using poll by blast
  next
    case False
    then have rest: "x \<in> set R" "stop \<in> set E" "scan_ended scan s"
      using x walk by auto
    then have "?bounded"
      by (auto simp: scan_ended_def window_full_def budget_spent_def split: option.splits)
    have sorted: "sorted_wrt (<) ms"
      unfolding ms_def by (rule sorted_wrt_filter [OF names_sorted])
    then have "comes_before cursor stop x"
      using ahead_ordered [OF sorted, of cursor] walk(1) rest \<open>?bounded\<close>
      by (simp add: origin_def sorted_wrt_append)
    moreover have "stop \<in> set ms"
    proof -
      have "stop \<in> set (ahead ms origin origin False)" by (simp add: walk(1) rest(2))
      then show ?thesis by (auto simp: ahead_def split: if_splits)
    qed
    ultimately show ?thesis
      using poll \<open>?bounded\<close> distance_decreases by auto
  qed
qed

end

text \<open>Jobs are claimed in the order of their markers.\<close>

lemma claimable_ordered:
  assumes "index_readable view s ms" "sorted_wrt (<) ms"
  shows "sorted_wrt (\<lambda>a b. marker_path a < marker_path b) (claimable view s scan ms)"
proof -
  have own: "marker_path j = m" if "m \<in> set ms" "indexed_job view s scan m = Some j" for m j
    using indexed_job_Some [OF assms(1) that] by simp
  have jobs: "sorted_wrt (\<lambda>a b. marker_path a < marker_path b) (List.map_filter (indexed_job view s scan) xs)"
    if "set xs \<subseteq> set ms" "sorted_wrt (<) xs" for xs
    using that
  proof (induction xs)
    case (Cons m xs)
    then show ?case
      using own by (auto simp: map_filter_Cons List.map_filter_def split: option.splits)
  qed simp
  have "set (up_to b ms) \<subseteq> set ms" "sorted_wrt (<) (up_to b ms)" for b
    using assms(2) by (auto simp: up_to_def sorted_wrt_take dest: in_set_takeD split: option.splits)
  from jobs [OF this] show ?thesis
    by (auto simp: claimable_def up_to_def sorted_wrt_take split: option.splits)
qed

section \<open>Polls that resume one another\<close>

text \<open>The jobs of a number of polls, each with the cursor the last one left.\<close>

fun polls :: "nat \<Rightarrow> nat \<Rightarrow> lib \<Rightarrow> nat \<Rightarrow> job_scan \<Rightarrow> string \<Rightarrow> job list storage_prog" where
  "polls 0 pages L workers scan cursor = ok []"
| "polls (Suc n) pages L workers scan cursor =
     bindE (list_claimable pages L workers ''queue'' scan cursor) (\<lambda>(jobs, cursor).
     bindE (polls n pages L workers scan cursor) (\<lambda>more. ok (jobs @ more)))"

context paged_store
begin

lemma run_polls:
  fixes scan w
  defines "ms \<equiv> filter is_marker (names (disk w) marker_prefix)"
  assumes "ready (disk w)" "index_readable view (disk w) ms"
    and "\<forall>b. js_budget scan = Some b \<longrightarrow> 0 < b \<and> b \<le> usize_max" "js_want scan \<noteq> Some 0"
    and "run L B has_swept w = (Inr True, w)" "Suc (2 * length (names (disk w) marker_prefix)) < pages"
    and "\<not> js_from_head scan" "x \<in> set ms" "indexed_job view (disk w) scan x = Some j"
  shows "\<exists>jobs. run L B (polls n pages L workers scan cursor) w = (Inr jobs, w) \<and>
    (distance ms cursor x < n \<longrightarrow> j \<in> set jobs)"
proof (induction n arbitrary: cursor)
  case (Suc n)
  obtain jobs cursor' where poll: "run L B (list_claimable pages L workers ''queue'' scan cursor) w = (Inr (jobs, cursor'), w)"
    and found: "j \<in> set jobs \<or> distance ms cursor' x < distance ms cursor x"
    using run_poll_progress [of w scan pages x j workers cursor] assms by auto
  obtain more where "run L B (polls n pages L workers scan cursor') w = (Inr more, w)"
    "distance ms cursor' x < n \<longrightarrow> j \<in> set more"
    using Suc.IH [of cursor'] by blast
  then show ?case using poll found by (auto simp: run_bindE)
qed simp

end

section \<open>The device-local store\<close>

definition local_names :: "string list \<Rightarrow> local_disk \<Rightarrow> string \<Rightarrow> string list" where
  "local_names root d P = sort (names_under root d P)"

lemma dropWhile_sorted: "sorted (xs :: 'a :: linorder list) \<Longrightarrow> dropWhile (\<lambda>n. n \<le> a) xs = filter (\<lambda>n. a < n) xs"
proof (induction xs)
  case (Cons x xs)
  then have "filter (\<lambda>n. a < n) xs = xs" if "a < x"
    using that by (intro filter_True) auto
  then show ?case using Cons by auto
qed simp

interpretation pages: paged_store "local_backend L root" "local_view root" "local_put root"
  "local_remove root" "local_annotate root" "local_version L"
  "\<lambda>p. ''local storage version changed for '' @ p" plain_path "local_ready root" directory_prefix L
  "local_names root"
  for L root
proof (unfold_locales, goal_cases)
  case (1 s P a limit)
  then show ?case
    by (simp add: local_backend_def local_list_page_def local_names_def Let_def dropWhile_sorted)
next
  case (2 s P)
  then show ?case
    by (simp add: local_names_def names_under_def strict_sorted_iff split: prod.split)
next
  case (3 s n P)
  then show ?case
    using names_under_sound [OF local_ready_named [OF 3(1)], of n P]
    by (simp add: local_names_def blob_name_def)
next
  case (4 s P n)
  then show ?case
    using names_under_complete [of P n root s] by (simp add: local_names_def)
qed

end
