(* ===== verification/Interleaving.thy ===== *)
theory Interleaving
  imports Migrations
begin

text \<open>
  Programs of several processes on one store. Between two calls of a program any other may act:
  \<open>step\<close> performs one call of a program, \<open>system_step\<close> one call of any one of the processes, and a
  schedule is a sequence of such steps. The runs of \<open>Store\<close> are the schedules in which one process
  acts alone (\<open>alone\<close>).
\<close>

primrec step :: "lib \<Rightarrow> 's backend \<Rightarrow> 'a prog \<Rightarrow> 's world \<Rightarrow> 'a prog \<times> 's world" where
  "step L B (Ret a) w = (Ret a, w)"
| "step L B (UploadText p t k) w =
     (let (r, d) = be_upload_text B (disk w) p t in (k r, w\<lparr>disk := d\<rparr>))"
| "step L B (DownloadText p k) w = (k (be_download_text B (disk w) p), w)"
| "step L B (UploadTextIfAbsent p t k) w =
     (let (r, d) = be_upload_text_if_absent B (disk w) p t in (k r, w\<lparr>disk := d\<rparr>))"
| "step L B (DownloadTextVersioned p k) w = (k (be_download_text_versioned B (disk w) p), w)"
| "step L B (CompareAndSwapText p v t k) w =
     (let (r, d) = be_compare_and_swap_text B (disk w) p v t in (k r, w\<lparr>disk := d\<rparr>))"
| "step L B (DeleteBlob p k) w = (let (r, d) = be_delete B (disk w) p in (k r, w\<lparr>disk := d\<rparr>))"
| "step L B (ExistsBlob p k) w = (k (be_exists B (disk w) p), w)"
| "step L B (ListPaths p l k) w = (k (be_list_paths B (disk w) p l), w)"
| "step L B (ListPage p a l k) w = (k (be_list_page B (disk w) p a l), w)"
| "step L B (SetMetadata p kv k) w =
     (let (r, d) = be_set_metadata B (disk w) p kv in (k r, w\<lparr>disk := d\<rparr>))"
| "step L B (ListBlobsWithMeta p k) w = (k (be_list_blobs_with_meta B (disk w) p), w)"
| "step L B (UpdatedAt p k) w = (k (be_updated_at B (disk w) p), w)"
| "step L B (Now k) w = (k (clock w), w)"
| "step L B (NewUuid k) w = (k (uuid_simple L (uuids w)), w\<lparr>uuids := Suc (uuids w)\<rparr>)"
| "step L B (CurrentProcess k) w = (k (this_process w), w)"
| "step L B (PidAlive p k) w = (k (p \<in> set (live_pids w)), w)"
| "step L B (OwnerRunning i k) w = (k (i \<in> set (active_owners w)), w)"

inductive system_step ::
  "lib \<Rightarrow> 's backend \<Rightarrow> 'a prog list \<times> 's world \<Rightarrow> 'a prog list \<times> 's world \<Rightarrow> bool" for L B where
  "i < length ps \<Longrightarrow> step L B (ps ! i) w = (p, w') \<Longrightarrow> system_step L B (ps, w) (ps[i := p], w')"

abbreviation schedule ::
  "lib \<Rightarrow> 's backend \<Rightarrow> 'a prog list \<times> 's world \<Rightarrow> 'a prog list \<times> 's world \<Rightarrow> bool" where
  "schedule L B \<equiv> (system_step L B)\<^sup>*\<^sup>*"

text \<open>A step does what the run does first, and a run is reached by the steps of the one process.\<close>

lemma run_step: "run L B p w = (case step L B p w of (p', w') \<Rightarrow> run L B p' w')"
  by (cases p) (auto split: prod.splits)

lemma system_stepI:
  "i < length ps \<Longrightarrow> ps ! i = q \<Longrightarrow> step L B q w = (p, w') \<Longrightarrow> system_step L B (ps, w) (ps[i := p], w')"
  by (auto intro: system_step.intros)

lemma step_bindp:
  "(\<And>a. q \<noteq> Ret a) \<Longrightarrow> step L B (bindp q f) w = (case step L B q w of (q', w') \<Rightarrow> (bindp q' f, w'))"
  by (cases q) (auto split: prod.splits)

lemma alone_step:
  assumes "i < length ps" and "\<And>a. q \<noteq> Ret a"
    and "\<And>q1 w1. step L B q w = (q1, w1) \<Longrightarrow> schedule L B (ps[i := bindp q1 f], w1) c"
  shows "schedule L B (ps[i := bindp q f], w) c"
proof -
  obtain q1 w1 where q1: "step L B q w = (q1, w1)" by fastforce
  have "system_step L B (ps[i := bindp q f], w) (ps[i := bindp q1 f], w1)"
    using system_stepI [of i "ps[i := bindp q f]" "bindp q f" L B w "bindp q1 f" w1] assms(1)
    by (simp add: step_bindp [OF assms(2)] q1)
  then show ?thesis
    using assms(3) [OF q1] by (rule converse_rtranclp_into_rtranclp)
qed

lemma alone:
  assumes "i < length ps" and "run L B q w = (a, w')"
  shows "schedule L B (ps[i := bindp q f], w) (ps[i := f a], w')"
  using assms(2)
proof (induction q arbitrary: w)
  case (Ret x)
  then show ?case by simp
qed (rule alone_step [OF assms(1)], simp, force split: prod.splits)+

text \<open>The same for a program that ends, from the question mark operator or from nothing.\<close>

lemma alone_bindE:
  assumes "i < length ps" and "run L B q w = (Inr a, w')"
  shows "schedule L B (ps[i := bindE q f], w) (ps[i := f a], w')"
  using alone [OF assms, of "\<lambda>r. case r of Inl e \<Rightarrow> Ret (Inl e) | Inr x \<Rightarrow> f x"] by (simp add: bindE_def)

lemma alone_ends:
  assumes "i < length ps" and "run L B q w = (a, w')"
  shows "schedule L B (ps[i := q], w) (ps[i := Ret a], w')"
  using alone [OF assms, of Ret] by simp

text \<open>Two processes: the first goes on as far as its next program, or the other runs to its end.\<close>

lemma first_goes_on:
  assumes "run L B q w = (Inr a, w')" and "schedule L B ([f a, r], w') c"
  shows "schedule L B ([bindE q f, r], w) c"
proof -
  have "schedule L B ([bindE q f, r], w) ([f a, r], w')"
    using alone_bindE [of 0 "[bindE q f, r]"] assms(1) by fastforce
  then show ?thesis using assms(2) by (rule rtranclp_trans)
qed

lemma first_ends:
  assumes "run L B p w = (a, w')" and "schedule L B ([Ret a, r], w') c"
  shows "schedule L B ([p, r], w) c"
proof -
  have "schedule L B ([p, r], w) ([Ret a, r], w')"
    using alone_ends [of 0 "[p, r]"] assms(1) by fastforce
  then show ?thesis using assms(2) by (rule rtranclp_trans)
qed

lemma second_ends:
  assumes "run L B r w = (b, w')" and "schedule L B ([p, Ret b], w') c"
  shows "schedule L B ([p, r], w) c"
proof -
  have "schedule L B ([p, r], w) ([p, Ret b], w')"
    using alone_ends [of 1 "[p, r]"] assms(1) by fastforce
  then show ?thesis using assms(2) by (rule rtranclp_trans)
qed

section \<open>Admission and the repair of the index\<close>

lemma hex_digits_free: "\<not> is_lower_hex c \<Longrightarrow> c \<notin> set (hex_digits n k)"
  using lower_hex_digits [of n k] by (auto simp: list_all_iff)

lemma marker_is_marker: "sound_job j \<Longrightarrow> is_marker (marker_path j)"
proof -
  assume j: "sound_job j"
  let ?h = "hex_digits 16 (nat \<bar>priority j - i64_max\<bar>)"
  let ?name = "?h @ ''-'' @ created_at j @ ''-'' @ job_id j @ ''.json''"
  have free: "CHR ''/'' \<notin> set ?h" "CHR ''.'' \<notin> set ?h"
    by (rule hex_digits_free, simp add: is_lower_hex_def is_ascii_digit_def Let_def)+
  have "CHR ''/'' \<notin> set ?name"
    using free j by (simp add: sound_job_def no_slash_def)
  then have "split_on (CHR ''/'') (marker_path j) = [''queue_priority'', ?name]"
    using split_on_append_sep [of "CHR ''/''" "''queue_priority''" ?name] split_on_no_sep [of "CHR ''/''" ?name]
    by (simp add: marker_path_def priority_key_def marker_prefix_def)
  moreover have "\<not> starts_with ?name ''.''"
    using free(2) length_hex_digits [of 16 "nat \<bar>priority j - i64_max\<bar>"]
    by (cases ?h) (auto simp: starts_with_def)
  moreover have "ends_with ?name ''.json''"
    by (auto simp: ends_with_iff intro: exI [of _ "?h @ ''-'' @ created_at j @ ''-'' @ job_id j"])
  ultimately show "is_marker (marker_path j)"
    by (simp add: is_marker_def)
qed

lemma marker_path_prefix: "starts_with (marker_path j) marker_prefix"
  by (simp add: marker_path_def)

context lifecycle_store
begin

text \<open>
  The repair between the marker of an admission and its document: the marker names no queued job, so it
  is pruned, and the document that follows is not in the index.
\<close>

lemma repair_between:
  assumes rdy: "ready (disk w)" and j: "sound_job j"
    and fresh: "view (disk w) (transition_path L (job_id j)) = None"
      "\<And>p. view (disk w) (job_path (prefix_as_str p) (job_id j)) = None"
    and empty: "\<And>p. good p \<Longrightarrow> starts_with p ''queue/'' \<Longrightarrow> view (disk w) p = None"
    and bounds: "boundary ''queue/''" and sentinel: "good sentinel_path"
  shows "\<exists>w'. schedule L B ([create_queued_job_if_absent fuel L j, backfill_priority_markers L], w)
      ([Ret (Inr True), Ret (Inr True)], w') \<and>
    view (disk w') (job_path (prefix_as_str Queue) (job_id j)) = Some (to_json j) \<and>
    view (disk w') (marker_path j) = None"
proof -
  have plain: "no_slash (job_id j)" "good (marker_path j)" "is_marker (marker_path j)"
    using j good_marker marker_is_marker by (auto simp: sound_job_def)
  have hold: "run L B (first_holding L (job_id j) probe_order) w = (Inr None, w)"
    using run_first_holding [of w "job_id j" "rev prefix_values"] rdy plain fresh
    by (auto simp: probe_order_words tidy_def simp del: not_None_eq)
  have idle: "idle_record (job_id j) (view (disk w) (transition_path L (job_id j)))"
    using fresh by (simp add: idle_record_def)
  let ?q = "job_path (prefix_as_str Queue) (job_id j)"
  let ?m = "Json (JObj [(''job_id'', JStr (job_id j)), (''priority'', JInt (priority j))])"
  define w1 where "w1 = w\<lparr>disk := put (disk w) (marker_path j) ?m\<rparr>"
  have rdy1: "ready (disk w1)"
    using rdy plain by (simp add: w1_def store_simps)
  have marker: "run L B (write_marker j) w = (Inr (), w1)"
    using rdy plain by (simp add: write_marker_def run_calls w1_def)
  have "\<not> starts_with (marker_path j) ''queue/''"
    by (simp add: marker_path_def marker_prefix_def starts_with_def)
  then have empty1: "view (disk w1) p = None" if "good p" "starts_with p ''queue/''" for p
    using that empty rdy plain by (auto simp: w1_def store_simps)
  then have "queue_in_order good view (disk w1)"
    by (auto simp: queue_in_order_def)
  then obtain w2 where repair: "run L B (backfill_priority_markers L) w1 = (Inr True, w2)" "ready (disk w2)"
    and gone: "\<And>x. good x \<Longrightarrow> starts_with x marker_prefix \<Longrightarrow> is_marker x \<Longrightarrow> view (disk w2) x \<noteq> None \<Longrightarrow>
      \<exists>p id'. good p \<and> starts_with p ''queue/'' \<and> view (disk w1) p \<noteq> None \<and> path_job_id p = Some id' \<and>
        ends_with x (id_suffix id')"
    and kept: "\<And>x. good x \<Longrightarrow> \<not> starts_with x marker_prefix \<Longrightarrow> view (disk w2) x = view (disk w1) x"
    using run_backfill [OF rdy1 _ bounds sentinel] by blast
  have pruned: "view (disk w2) (marker_path j) = None"
    using gone [OF plain(2) marker_path_prefix plain(3)] empty1 by (metis option.distinct(1))
  have q: "good ?q" "starts_with ?q ''queue/''" "\<not> starts_with ?q marker_prefix"
    using good_job [of "job_id j" Queue] plain
    by (simp, simp_all add: prefix_words job_path_def marker_prefix_def starts_with_def del: queue_words)
  then have queue_free: "view (disk w2) ?q = None"
    using kept empty1 by simp
  define w3 where "w3 = w2\<lparr>disk := annotate (put (disk w2) ?q (to_json j)) ?q (job_metadata j)\<rparr>"
  have admitted: "run L B (exists_blob (transition_path L (job_id j))) w = (Inr False, w)"
    using rdy fresh plain by (simp add: run_calls)
  have rest: "run L B (bindE (create_text_if_absent (job_path ''queue'' (job_id j)) (to_json j)) (\<lambda>created.
      if created then bindE (set_metadata (job_path ''queue'' (job_id j)) (job_metadata j)) (\<lambda>_. ok created)
      else bindE (exists_blob (job_path ''queue'' (job_id j))) (\<lambda>standing.
        bindE (if standing then ok () else delete_marker_for j) (\<lambda>_. ok created)))) w2 = (Inr True, w3)"
    using repair(2) queue_free q
    by (simp add: run_simps run_calls store_simps w3_def)
  have sched: "schedule L B ([create_queued_job_if_absent fuel L j, backfill_priority_markers L], w)
      ([Ret (Inr True), Ret (Inr True)], w3)"
    unfolding create_queued_job_if_absent_def
    by (rule first_goes_on [OF recover_idle(1) [OF rdy idle]], rule first_goes_on [OF hold],
        rule first_goes_on [OF admitted], simp only: if_False not_not simp_thms, rule first_goes_on [OF marker],
        rule second_ends [OF repair(1)], rule first_ends [OF rest], rule rtranclp.rtrancl_refl)
  have "?q \<noteq> marker_path j"
    using q(3) marker_path_prefix [of j] by metis
  then have "view (disk w3) ?q = Some (to_json j)" "view (disk w3) (marker_path j) = None"
    using repair(2) q(1) plain(2) pruned by (simp_all add: w3_def store_simps)
  then show ?thesis using sched by blast
qed

end

end
