(* ===== verification/Scan_Samples.thy ===== *)
theory Scan_Samples
  imports Samples Fair_Polls Interleaving
begin

text \<open>A queue of two jobs with their index, which a sweep has covered.\<close>

definition urgent_job :: job where
  "urgent_job = sample_job\<lparr>job_id := ''job-2'', priority := 5\<rparr>"

definition sample_marker :: "job \<Rightarrow> body" where
  "sample_marker j = Json (JObj [(''job_id'', JStr (job_id j)), (''priority'', JInt (priority j))])"

definition scan_world :: "local_disk world" where
  "scan_world = sample_device
     [(job_path (prefix_as_str Queue) ''job-1'', to_json sample_job),
      (job_path (prefix_as_str Queue) ''job-2'', to_json urgent_job),
      (marker_path sample_job, sample_marker sample_job),
      (marker_path urgent_job, sample_marker urgent_job),
      (sentinel_path, Json (JObj [(''cursor'', JStr []), (''done'', JBool True), (''coverage'', JStr coverage)]))]"

text \<open>One job of one accelerator, and any number of documents.\<close>

definition one_job :: "bool \<Rightarrow> job_scan" where
  "one_job from_head = \<lparr>js_want = Some 1, js_budget = None, js_max_gpu_mem_gb = i64_max,
     js_eligible = (\<lambda>j. True), js_from_head = from_head\<rparr>"

lemma urgent_job_default [simp]: "sound_job urgent_job" "state urgent_job = ''queued''" "job_id urgent_job = ''job-2''"
  "priority urgent_job = 5" "gpu_mem_gb urgent_job = 0" "priority sample_job = 0" "gpu_mem_gb sample_job = 0"
  by (simp_all add: urgent_job_def sample_job_def job_default_def job_of_object_def sound_job_def wf_job_def
      field_reads no_slash_def default_state_def i64_range_def f64_is_finite_def f64_exponent_def)

lemma scan_marker_order: "marker_path urgent_job < marker_path sample_job"
  by (rule marker_path_priority_less) (simp_all add: i64_range_def)

lemma marker_doc [simp]: "marker_path j \<noteq> job_path (prefix_as_str p) i" "job_path (prefix_as_str p) i \<noteq> marker_path j"
  "sentinel_path \<noteq> job_path (prefix_as_str p) i" "job_path (prefix_as_str p) i \<noteq> sentinel_path"
  by (cases p; simp add: marker_path_def marker_prefix_def job_path_def sentinel_path_def prefix_words del: queue_words)+

lemma scan_view:
  "sample_view (disk scan_world) (job_path (prefix_as_str Queue) ''job-1'') = Some (to_json sample_job)"
  "sample_view (disk scan_world) (job_path (prefix_as_str Queue) ''job-2'') = Some (to_json urgent_job)"
  "sample_view (disk scan_world) (marker_path sample_job) = Some (sample_marker sample_job)"
  "sample_view (disk scan_world) (marker_path urgent_job) = Some (sample_marker urgent_job)"
  "sample_view (disk scan_world) sentinel_path =
     Some (Json (JObj [(''cursor'', JStr []), (''done'', JBool True), (''coverage'', JStr coverage)]))"
  using scan_marker_order marker_not_sentinel [of urgent_job] marker_not_sentinel [of sample_job]
  by (auto simp: scan_world_def)

lemma scan_ready: "local_ready sample_root (disk scan_world)"
  using sound_jobD(1) [OF sample_job_default(1)] sample_job_default(1) urgent_job_default(1)
  by (simp add: scan_world_def sample_device_ready plain_move_paths sound_job_def no_slash_def plain_sentinel)

lemma scan_swept: "run sample_lib sample_backend has_swept scan_world = (Inr True, scan_world)"
  using scan_ready
  by (simp add: has_swept_def read_sentinel_def run_simps lf.run_calls plain_sentinel scan_view get_str_def
      coverage_def)

lemma scan_named:
  "named_in sample_view (disk scan_world) (marker_path sample_job) = Some ''job-1''"
  "named_in sample_view (disk scan_world) (marker_path urgent_job) = Some ''job-2''"
  by (simp_all add: named_in_def scan_view sample_marker_def get_str_def)

lemma scan_names:
  "local_names sample_root (disk scan_world) marker_prefix = sort [marker_path urgent_job, marker_path sample_job, sentinel_path]"
  "length (local_names sample_root (disk scan_world) marker_prefix) = 3"
proof -
  let ?ns = "local_names sample_root (disk scan_world) marker_prefix"
    and ?three = "[marker_path urgent_job, marker_path sample_job, sentinel_path]"
  have "n \<in> set ?ns \<longleftrightarrow> n \<in> set ?three" for n
  proof
    assume "n \<in> set ?ns"
    then have n: "starts_with n marker_prefix" "sample_view (disk scan_world) n \<noteq> None"
      using pages.names_good [OF scan_ready] by blast+
    from n(2) have "n \<in> set ?three \<or>
        n = job_path (prefix_as_str Queue) ''job-1'' \<or> n = job_path (prefix_as_str Queue) ''job-2''"
      by (auto simp: scan_world_def split: if_splits)
    then show "n \<in> set ?three"
      using n(1) by (auto simp: marker_prefix_def job_path_def prefix_words starts_with_def simp del: queue_words)
  next
    have "plain_path (marker_path sample_job)" "plain_path (marker_path urgent_job)"
      using sample_job_default(1) urgent_job_default(1) by (simp_all add: plain_move_paths sound_job_def)
    moreover assume "n \<in> set ?three"
    ultimately show "n \<in> set ?ns"
      using pages.names_all [OF scan_ready lives.marker_boundary, of n] plain_sentinel scan_view
      by (auto simp: marker_path_def sentinel_path_def marker_prefix_def)
  qed
  then have sets: "set ?ns = set (sort ?three)" by auto
  have "distinct ?three"
    using scan_marker_order marker_not_sentinel [of urgent_job] marker_not_sentinel [of sample_job] by auto
  then show names: "?ns = sort ?three"
    by (intro strict_sorted_equal [OF _ pages.names_sorted sets]) (simp only: strict_sorted_iff sorted_sort distinct_sort simp_thms)
  show "length ?ns = 3" unfolding names length_sort by simp
qed

lemma scan_markers:
  "filter is_marker (local_names sample_root (disk scan_world) marker_prefix) = [marker_path urgent_job, marker_path sample_job]"
proof (rule strict_sorted_equal)
  show "set (filter is_marker (local_names sample_root (disk scan_world) marker_prefix)) =
      set [marker_path urgent_job, marker_path sample_job]"
    using marker_is_marker [of sample_job] marker_is_marker [of urgent_job] sentinel_not_marker
    by (auto simp: scan_names(1))
qed (use scan_marker_order in \<open>simp_all add: sorted_wrt_filter pages.names_sorted\<close>)

lemma one_job_simps [simp]:
  "js_want (one_job h) = Some 1" "js_budget (one_job h) = None" "js_from_head (one_job h) = h"
  "accepts (one_job h) sample_job" "accepts (one_job h) urgent_job"
  by (simp_all add: one_job_def accepts_def i64_max_def)

lemma scan_readable:
  "index_readable sample_view (disk scan_world) (filter is_marker (local_names sample_root (disk scan_world) marker_prefix))"
  unfolding scan_markers index_readable_def
  using scan_view scan_named by (auto simp: sample_marker_def no_slash_def intro: exI [of _ sample_job] exI [of _ urgent_job])

lemma scan_jobs:
  "indexed_job sample_view (disk scan_world) (one_job h) (marker_path sample_job) = Some sample_job"
  "indexed_job sample_view (disk scan_world) (one_job h) (marker_path urgent_job) = Some urgent_job"
  using indexed_job_read [of sample_view "disk scan_world" "marker_path sample_job" sample_job "one_job h"]
    indexed_job_read [of sample_view "disk scan_world" "marker_path urgent_job" urgent_job "one_job h"] scan_view scan_named
  by simp_all

end
