(* ===== verification/Control.thy ===== *)
theory Control
  imports Interleaving
begin

text \<open>
  The two switches that stop the fleet from claiming: \<open>src/stado-rs/src/queue/control.rs\<close> (the pause
  of the queue, one document changed by create-if-absent or compare-and-swap only) and
  \<open>src/stado-rs/src/queue/demand.rs\<close> with the commands of \<open>cli/demand.rs\<close> (demand-response windows,
  one document per event); and how an agent's tick turns them, with its own readings of the machine,
  into the reason it refuses work (\<open>agent/tick/gates/admission.rs\<close>). A derived \<open>Deserialize\<close> also
  reads an array of the fields in order; \<open>positional\<close> names them.
\<close>

definition positional :: "string list \<Rightarrow> json \<Rightarrow> json_object option" where
  "positional keys v =
     (case v of
        JObj o' \<Rightarrow> Some o'
      | JArr xs \<Rightarrow> if length xs \<le> length keys then Some (zip keys xs) else None
      | _ \<Rightarrow> None)"

fun blank_text :: "body \<Rightarrow> bool" where
  "blank_text (Json v) = False"
| "blank_text (Raw s) = (trim s = [])"
| "blank_text (Joined bs) = list_all blank_text bs"

section \<open>The pause of the queue\<close>

definition control_blob :: string where
  "control_blob = ''config/queue_control.json''"

definition queued_prefix :: string where
  "queued_prefix = ''queue''"

definition running_prefix :: string where
  "running_prefix = ''running''"

record queue_control =
  qc_paused :: bool
  qc_reason :: string
  qc_since :: string
  qc_by :: string

definition default_control :: queue_control where
  "default_control = \<lparr>qc_paused = False, qc_reason = [], qc_since = [], qc_by = []\<rparr>"

definition control_keys :: "string list" where
  "control_keys = [''paused'', ''reason'', ''since'', ''by'']"

definition control_to_json :: "queue_control \<Rightarrow> body" where
  "control_to_json c = Json (JObj [(''paused'', JBool (qc_paused c)), (''reason'', JStr (qc_reason c)),
     (''since'', JStr (qc_since c)), (''by'', JStr (qc_by c))])"

definition control_of_object :: "json_object \<Rightarrow> queue_control option" where
  "control_of_object o' =
     (if bool_ok o' ''paused'' \<and> list_all (str_ok o') [''reason'', ''since'', ''by'']
      then Some \<lparr>qc_paused = bool_or o' ''paused'', qc_reason = str_or o' ''reason'' [],
             qc_since = str_or o' ''since'' [], qc_by = str_or o' ''by'' []\<rparr>
      else None)"

definition control_from_text :: "body \<Rightarrow> storage_error + queue_control" where
  "control_from_text t =
     (case t of
        Json v \<Rightarrow> ok_or JsonError (Option.bind (positional control_keys v) control_of_object)
      | _ \<Rightarrow> Inl JsonError)"

definition pause_summary :: "queue_control \<Rightarrow> string" where
  "pause_summary c =
     (let parts = (if qc_reason c = [] then [] else [''reason: '' @ qc_reason c]) @
                  (if qc_since c = [] then [] else [''since '' @ qc_since c]) @
                  (if qc_by c = [] then [] else [''by '' @ qc_by c])
      in if parts = [] then ''no reason recorded'' else join_with '', '' parts)"

definition read_control :: "queue_control storage_prog" where
  "read_control =
     bindE (read_text_versioned control_blob) (\<lambda>found.
       case found of
         None \<Rightarrow> ok default_control
       | Some versioned \<Rightarrow>
           if blank_text (content versioned) then ok default_control
           else Ret (control_from_text (content versioned)))"

text \<open>The host name of \<open>watchdog::hostname\<close> is the reporter's own; a flip without an author states it.\<close>

definition set_paused :: "lib \<Rightarrow> string \<Rightarrow> bool \<Rightarrow> string \<Rightarrow> string \<Rightarrow> queue_control storage_prog" where
  "set_paused L hostname paused reason by' =
     bindp now (\<lambda>t.
       let state' = \<lparr>qc_paused = paused, qc_reason = reason, qc_since = isoformat_utc L t,
                      qc_by = (if by' = [] then hostname else by')\<rparr>;
           body' = control_to_json state'
       in bindE (bindE (read_text_versioned control_blob) (\<lambda>found.
            case found of
              None \<Rightarrow> create_text_if_absent control_blob body'
            | Some versioned \<Rightarrow>
                bindp (compare_and_swap_text control_blob (version versioned) body') (\<lambda>swapped.
                  case swapped of
                    Inr _ \<Rightarrow> ok True
                  | Inl (StorageConflict _) \<Rightarrow> ok False
                  | Inl (NotFound _) \<Rightarrow> create_text_if_absent control_blob body'
                  | Inl e \<Rightarrow> fail e)))
          (\<lambda>won. if won then ok state' else fail (StorageConflict control_blob)))"

definition job_blobs :: "string \<Rightarrow> string list storage_prog" where
  "job_blobs prefix' =
     bindE (list_paths (prefix' @ ''/'') Every) (\<lambda>paths.
       ok (filter (\<lambda>name. ends_with name ''.json'') paths))"

definition job_count :: "string \<Rightarrow> nat storage_prog" where
  "job_count prefix' = bindE (job_blobs prefix') (\<lambda>names. ok (length names))"

definition is_drained :: "bool storage_prog" where
  "is_drained = bindE (job_blobs running_prefix) (\<lambda>names. ok (names = []))"

section \<open>The switch under any interleaving\<close>

lemma control_roundtrip [simp]: "control_from_text (control_to_json c) = Inr c"
  by (simp add: control_from_text_def control_to_json_def positional_def control_of_object_def
      field_reads field_checks ok_or_def)

lemma control_to_json_not_blank [simp]: "\<not> blank_text (control_to_json c)"
  by (simp add: control_to_json_def)

definition acknowledged :: "queue_control storage_prog \<Rightarrow> bool" where
  "acknowledged q \<longleftrightarrow> (\<exists>s. q = ok s)"

text \<open>
  A program that writes nothing but the switch, only where it is absent or at the version it holds,
  and that ends, with the state it wrote, as soon as the write is answered.
\<close>

primrec flips :: "queue_control storage_prog \<Rightarrow> bool" where
  "flips (Ret r) = True"
| "flips (UploadTextIfAbsent p t k) =
     (p = control_blob \<and> (\<exists>s. t = control_to_json s \<and> k (Inr True) = ok s) \<and>
      \<not> acknowledged (k (Inr False)) \<and> (\<forall>e. \<not> acknowledged (k (Inl e))) \<and> (\<forall>r. flips (k r)))"
| "flips (CompareAndSwapText p v t k) =
     (p = control_blob \<and> (\<exists>s. t = control_to_json s \<and> (\<forall>v'. k (Inr v') = ok s)) \<and>
      (\<forall>e. \<not> acknowledged (k (Inl e))) \<and> (\<forall>r. flips (k r)))"
| "flips (DownloadTextVersioned p k) = (\<forall>r. \<not> acknowledged (k r) \<and> flips (k r))"
| "flips (Now k) = (\<forall>r. \<not> acknowledged (k r) \<and> flips (k r))"
| "flips (UploadText p t k) = False"
| "flips (DownloadText p k) = False"
| "flips (DeleteBlob p k) = False"
| "flips (ExistsBlob p k) = False"
| "flips (ListPaths p l k) = False"
| "flips (ListPage p a l k) = False"
| "flips (SetMetadata p kv k) = False"
| "flips (ListBlobsWithMeta p k) = False"
| "flips (UpdatedAt p k) = False"
| "flips (NewUuid k) = False"
| "flips (CurrentProcess k) = False"
| "flips (PidAlive p k) = False"
| "flips (OwnerRunning i k) = False"

lemma flips_set_paused: "flips (set_paused L h paused reason by')" "\<not> acknowledged (set_paused L h paused reason by')"
  by (auto simp: set_paused_def facade_defs bindE_def acknowledged_def Let_def
      split: option.splits sum.splits storage_error.splits)

context blob_store
begin

lemma run_read_control:
  assumes "ready (disk w)" and "good control_blob"
  shows "run L B read_control w =
    ((case view (disk w) control_blob of
        None \<Rightarrow> Inr default_control
      | Some t \<Rightarrow> if blank_text t then Inr default_control else control_from_text t), w)"
  using assms by (auto simp: read_control_def run_simps run_calls split: option.splits)

lemma run_set_paused:
  assumes "ready (disk w)" and "good control_blob"
    and "\<And>t. view (disk w) control_blob = Some t \<Longrightarrow> token t \<noteq> []"
  shows "run L B (set_paused L h paused reason by') w =
    (let s = \<lparr>qc_paused = paused, qc_reason = reason, qc_since = isoformat_utc L (clock w),
               qc_by = (if by' = [] then h else by')\<rparr>
     in (Inr s, w\<lparr>disk := put (disk w) control_blob (control_to_json s)\<rparr>))"
  using assms by (auto simp: set_paused_def Let_def run_simps run_calls run_swap split: option.splits)

lemma flip_step:
  assumes "flips q" and "ready (disk w)" and "good control_blob" and "step L B q w = (q', w')"
  shows "flips q' \<and> ready (disk w') \<and>
    (acknowledged q \<and> q' = q \<and> disk w' = disk w \<or>
     \<not> acknowledged q' \<and> view (disk w') control_blob = view (disk w) control_blob \<or>
     (\<exists>s. q' = ok s \<and> view (disk w') control_blob = Some (control_to_json s)))"
  using assms
  by (cases q) (auto simp: create_law swap_law versioned_law store_simps acknowledged_def
      split: option.splits if_splits sum.splits, metis)

text \<open>
  An acknowledged flip is in force, as it is or replaced by another acknowledged one; while none is
  acknowledged the switch is what it was.
\<close>

lemma acknowledged_stays: "acknowledged q \<Longrightarrow> step L B q w = (q', w') \<Longrightarrow> q' = q \<and> w' = w"
  by (auto simp: acknowledged_def)

lemma schedule_flips:
  assumes "schedule L B c c'" and "good control_blob" and "ready (disk (snd c))"
    and "list_all flips (fst c)" and "\<And>q. q \<in> set (fst c) \<Longrightarrow> \<not> acknowledged q"
  shows "ready (disk (snd c')) \<and> list_all flips (fst c') \<and>
    (if \<exists>i < length (fst c'). acknowledged (fst c' ! i)
     then \<exists>i < length (fst c'). \<exists>s. fst c' ! i = ok s \<and>
       view (disk (snd c')) control_blob = Some (control_to_json s)
     else view (disk (snd c')) control_blob = view (disk (snd c)) control_blob)"
  using assms(1)
proof induction
  case base
  then show ?case using assms(3-5) by auto
next
  case (step c1 c2)
  from step.hyps(2) step.IH show ?case
  proof cases
    case (1 i ps w q w')
    note IH = step.IH [unfolded 1(1) fst_conv snd_conv]
    with 1 have rdy: "ready (disk w)" and fl: "list_all flips ps" and i: "i < length ps"
      and st: "step L B (ps ! i) w = (q, w')" by simp_all
    have "flips (ps ! i)" using fl i by (simp add: list_all_length)
    from flip_step [OF this rdy assms(2) st]
    have next': "flips q" "ready (disk w')" and three:
      "acknowledged (ps ! i) \<and> q = ps ! i \<and> disk w' = disk w \<or>
       \<not> acknowledged q \<and> view (disk w') control_blob = view (disk w) control_blob \<or>
       (\<exists>s. q = ok s \<and> view (disk w') control_blob = Some (control_to_json s))" by blast+
    have all: "list_all flips (ps[i := q])"
      using fl next'(1) set_update_subset_insert [of ps i q] by (auto simp: list_all_iff)
    from three show ?thesis
    proof (elim disjE exE conjE)
      assume "q = ps ! i" "disk w' = disk w"
      then show ?thesis using IH 1 by (simp cong del: if_weak_cong)
    next
      assume no: "\<not> acknowledged q" and same: "view (disk w') control_blob = view (disk w) control_blob"
      then have old: "\<not> acknowledged (ps ! i)" using acknowledged_stays [OF _ st] by blast
      have "acknowledged (ps[i := q] ! k) = acknowledged (ps ! k)" for k
        using no old i by (cases "k = i") simp_all
      moreover have "ps[i := q] ! k = ok s \<longleftrightarrow> ps ! k = ok s" for k s
        using no old i by (cases "k = i") (auto simp: acknowledged_def)
      ultimately show ?thesis using IH 1(2) same next' all by (simp cong del: if_weak_cong)
    next
      fix s
      assume "q = ok s" "view (disk w') control_blob = Some (control_to_json s)"
      then show ?thesis using 1 i next' all by (auto simp: acknowledged_def intro!: exI [of _ i])
    qed
  qed
qed

lemma acknowledged_flip_read:
  assumes "schedule L B (map (\<lambda>(h, p, r, b). set_paused L h p r b) flips', w) (ps, w')"
    and "good control_blob" and "ready (disk w)" and "i < length ps" and "ps ! i = ok s"
  shows "\<exists>j s'. j < length ps \<and> ps ! j = ok s' \<and> run L B read_control w' = (Inr s', w')"
proof -
  let ?start = "map (\<lambda>(h, p, r, b). set_paused L h p r b) flips'"
  have start: "list_all flips ?start" "\<And>q. q \<in> set ?start \<Longrightarrow> \<not> acknowledged q"
    by (auto simp: list_all_iff flips_set_paused)
  have "\<exists>j < length ps. acknowledged (ps ! j)" using assms(4,5) by (auto simp: acknowledged_def)
  with schedule_flips [OF assms(1,2)] start assms(3)
  have "ready (disk w') \<and> (\<exists>j < length ps. \<exists>s. ps ! j = ok s \<and>
      view (disk w') control_blob = Some (control_to_json s))"
    unfolding fst_conv snd_conv by presburger
  then show ?thesis using assms(2) by (auto simp: run_read_control)
qed

end

end
