(* ===== verification/Demand.thy ===== *)
theory Demand
  imports Control
begin

text \<open>
  \<open>src/stado-rs/src/queue/demand.rs\<close> with the commands of \<open>cli/demand.rs\<close> that change an event, and
  \<open>agent/tick/gates/admission.rs\<close>: a demand-response event is one document, a window in which the
  hosts it names claim nothing; an agent's tick turns the pause of the queue, the active event and its
  own readings of the machine into the reason it refuses work. The printing of an event, and the
  resolution of host names against the registry when an event is added, are not modelled.
\<close>

section \<open>Events\<close>

definition events_prefix :: string where
  "events_prefix = ''state/demand/events/''"

record payment =
  pay_amount :: f64
  pay_currency :: string
  pay_source :: string

record demand_event =
  de_id :: string
  de_program :: string
  de_hosts :: "string list"
  de_starts_at :: string
  de_ends_at :: string
  de_source :: string
  de_recorded_at :: string
  de_payment :: "payment option"
  de_withdrawn_at :: "string option"

definition payment_to_value :: "payment \<Rightarrow> json" where
  "payment_to_value p = JObj [(''amount'', f64_value (pay_amount p)),
     (''currency'', JStr (pay_currency p)), (''source'', JStr (pay_source p))]"

definition payment_keys :: "string list" where
  "payment_keys = [''amount'', ''currency'', ''source'']"

text \<open>Every field is required, and no other is allowed.\<close>

definition payment_from_value :: "json \<Rightarrow> payment option" where
  "payment_from_value v =
     Option.bind (positional payment_keys v) (\<lambda>o'.
       if set (map fst o') = set payment_keys \<and>
          f64_ok o' ''amount'' \<and> str_ok o' ''currency'' \<and> str_ok o' ''source''
       then Some \<lparr>pay_amount = f64_or o' ''amount'', pay_currency = str_or o' ''currency'' [],
              pay_source = str_or o' ''source'' []\<rparr>
       else None)"

definition event_to_body :: "demand_event \<Rightarrow> body" where
  "event_to_body e = Json (JObj (present_fields [
     (''id'', Some (JStr (de_id e))), (''program'', Some (JStr (de_program e))),
     (''hosts'', Some (JArr (map JStr (de_hosts e)))),
     (''starts_at'', Some (JStr (de_starts_at e))), (''ends_at'', Some (JStr (de_ends_at e))),
     (''source'', Some (JStr (de_source e))), (''recorded_at'', Some (JStr (de_recorded_at e))),
     (''payment'', map_option payment_to_value (de_payment e)),
     (''withdrawn_at'', map_option JStr (de_withdrawn_at e))]))"

definition event_required :: "string list" where
  "event_required = [''id'', ''program'', ''hosts'', ''starts_at'', ''ends_at'', ''source'', ''recorded_at'']"

definition event_keys :: "string list" where
  "event_keys = event_required @ [''payment'', ''withdrawn_at'']"

definition event_payment :: "json_object \<Rightarrow> payment option option" where
  "event_payment o' =
     (case obj_get o' ''payment'' of
        None \<Rightarrow> Some None
      | Some JNull \<Rightarrow> Some None
      | Some v \<Rightarrow> map_option Some (payment_from_value v))"

definition event_of_object :: "json_object \<Rightarrow> demand_event option" where
  "event_of_object o' =
     (if set event_required \<subseteq> set (map fst o') \<and> set (map fst o') \<subseteq> set event_keys \<and>
         list_all (str_ok o') [''id'', ''program'', ''starts_at'', ''ends_at'', ''source'', ''recorded_at''] \<and>
         strs_ok o' ''hosts'' \<and> optstr_ok o' ''withdrawn_at''
      then map_option (\<lambda>paid.
             \<lparr>de_id = str_or o' ''id'' [], de_program = str_or o' ''program'' [],
              de_hosts = strs_or o' ''hosts'', de_starts_at = str_or o' ''starts_at'' [],
              de_ends_at = str_or o' ''ends_at'' [], de_source = str_or o' ''source'' [],
              de_recorded_at = str_or o' ''recorded_at'' [], de_payment = paid,
              de_withdrawn_at = optstr_or o' ''withdrawn_at''\<rparr>) (event_payment o')
      else None)"

definition event_from_body :: "body \<Rightarrow> demand_event option" where
  "event_from_body t =
     (case t of Json v \<Rightarrow> Option.bind (positional event_keys v) event_of_object | _ \<Rightarrow> None)"

definition event_window :: "lib \<Rightarrow> demand_event \<Rightarrow> (int \<times> int) option" where
  "event_window L e =
     Option.bind (parse_rfc3339 L (de_starts_at e)) (\<lambda>starts.
     map_option (Pair starts) (parse_rfc3339 L (de_ends_at e)))"

definition sheds :: "lib \<Rightarrow> demand_event \<Rightarrow> string \<Rightarrow> int \<Rightarrow> bool" where
  "sheds L e host t \<longleftrightarrow>
     de_withdrawn_at e = None \<and> host \<in> set (de_hosts e) \<and>
     (case event_window L e of None \<Rightarrow> False | Some (starts, ends) \<Rightarrow> starts \<le> t \<and> t < ends)"

definition validate_event :: "lib \<Rightarrow> demand_event \<Rightarrow> string + unit" where
  "validate_event L e =
     (if \<not> list_all (\<lambda>c. is_ascii_lower c \<or> is_ascii_digit c \<or> c = CHR ''-'') (de_id e) \<or> de_id e = []
      then Inl (''event id '' @ de_id e)
      else if trim (de_program e) = [] then Inl ''--program cannot be empty''
      else if trim (de_source e) = [] then Inl ''--source cannot be empty''
      else if de_hosts e = [] then Inl ''--host names no host''
      else (case event_window L e of
              None \<Rightarrow> Inl ''--starts-at and --ends-at must be RFC 3339 times''
            | Some (starts, ends) \<Rightarrow>
                if ends \<le> starts then Inl ''--ends-at must be after --starts-at'' else Inr ()))"

section \<open>The store\<close>

definition event_path :: "string \<Rightarrow> string" where
  "event_path id' = events_prefix @ id' @ ''.json''"

definition not_an_event :: "string \<Rightarrow> storage_error" where
  "not_an_event key = Other (key @ '' is not a demand event'')"

definition load_event :: "string \<Rightarrow> demand_event option storage_prog" where
  "load_event id' =
     bindE (download_text (event_path id')) (\<lambda>found.
       case found of
         None \<Rightarrow> ok None
       | Some t \<Rightarrow> Ret (ok_or (not_an_event (event_path id')) (map_option Some (event_from_body t))))"

definition save_event :: "demand_event \<Rightarrow> unit storage_prog" where
  "save_event e = upload_text (event_path (de_id e)) (event_to_body e)"

fun read_events :: "string list \<Rightarrow> demand_event list storage_prog" where
  "read_events [] = ok []"
| "read_events (key # keys) =
     bindE (download_text key) (\<lambda>found.
       case found of
         None \<Rightarrow> read_events keys
       | Some t \<Rightarrow>
           (case event_from_body t of
              None \<Rightarrow> fail (not_an_event key)
            | Some e \<Rightarrow> bindE (read_events keys) (\<lambda>es. ok (e # es))))"

text \<open>A stable sort, the greatest start first.\<close>

definition newest_first :: "demand_event list \<Rightarrow> demand_event list" where
  "newest_first es = rev (sort_key de_starts_at (rev es))"

definition list_events :: "demand_event list storage_prog" where
  "list_events =
     bindE (list_paths events_prefix Every) (\<lambda>keys.
     bindE (read_events keys) (\<lambda>es. ok (newest_first es)))"

definition active_for :: "lib \<Rightarrow> string \<Rightarrow> demand_event option storage_prog" where
  "active_for L host =
     bindp now (\<lambda>t.
     bindE list_events (\<lambda>es. ok (List.find (\<lambda>e. sheds L e host t) es)))"

section \<open>The operator's commands\<close>

datatype command_error =
    Refused string
  | Usage string
  | Missing string
  | CommandStorage storage_error

definition require_event :: "string \<Rightarrow> (command_error + demand_event) prog" where
  "require_event id' =
     bindE (with_error CommandStorage (load_event id')) (\<lambda>found.
       Ret (ok_or (Missing (''no demand event '' @ id' @ '' is recorded'')) found))"

definition withdraw_event :: "lib \<Rightarrow> string \<Rightarrow> (command_error + demand_event) prog" where
  "withdraw_event L id' =
     bindE (require_event id') (\<lambda>e.
       if de_withdrawn_at e \<noteq> None
       then fail (Refused (''demand event '' @ id' @ '' is already withdrawn''))
       else bindp now (\<lambda>t.
         let e' = e\<lparr>de_withdrawn_at := Some (to_rfc3339 L t)\<rparr>
         in bindE (with_error CommandStorage (save_event e')) (\<lambda>_. ok e')))"

definition record_payment ::
  "string \<Rightarrow> f64 \<Rightarrow> string \<Rightarrow> string \<Rightarrow> (command_error + demand_event) prog" where
  "record_payment id' amount currency source =
     (if \<not> (f64_is_finite amount \<and> \<not> f64_lt_zero amount) then fail (Usage ''--amount is not a payment'')
      else if trim currency = [] \<or> trim source = []
      then fail (Usage ''--currency and --source cannot be empty'')
      else bindE (require_event id') (\<lambda>e.
        let e' = e\<lparr>de_payment :=
               Some \<lparr>pay_amount = amount, pay_currency = currency, pay_source = source\<rparr>\<rparr>
        in bindE (with_error CommandStorage (save_event e')) (\<lambda>_. ok e')))"

section \<open>What a tick refuses work for\<close>

text \<open>The readings of the machine a tick takes beside the two switches.\<close>

record gate_readings =
  gr_target_name :: "string option"
  gr_drain :: "string option"
  gr_pressure_active :: bool
  gr_swap_full :: "string option"
  gr_lock_reason :: "string option"

text \<open>An event list that cannot be read sheds no load.\<close>

definition demand_reading :: "lib \<Rightarrow> gate_readings \<Rightarrow> demand_event option prog" where
  "demand_reading L g =
     (case gr_target_name g of
        None \<Rightarrow> Ret None
      | Some host \<Rightarrow> bindp (active_for L host) (\<lambda>r. Ret (case r of Inl e \<Rightarrow> None | Inr event \<Rightarrow> event)))"

definition policy_reason :: "queue_control \<Rightarrow> demand_event option \<Rightarrow> gate_readings \<Rightarrow> string option" where
  "policy_reason control event g =
     (if qc_paused control then Some ''queue_paused''
      else if event \<noteq> None then Some ''demand_response''
      else if gr_drain g \<noteq> None then Some ''drain_requested''
      else if gr_pressure_active g then Some ''disk_pressure_active''
      else if gr_swap_full g \<noteq> None then Some ''swap_ceiling_exceeded''
      else gr_lock_reason g)"

definition admission_reason :: "lib \<Rightarrow> gate_readings \<Rightarrow> string option storage_prog" where
  "admission_reason L g =
     bindE read_control (\<lambda>control.
     bindp (demand_reading L g) (\<lambda>event. ok (policy_reason control event g)))"

section \<open>Documents and their order\<close>

definition finite_payment :: "demand_event \<Rightarrow> bool" where
  "finite_payment e \<longleftrightarrow> pred_option (\<lambda>p. f64_is_finite (pay_amount p)) (de_payment e)"

lemma payment_roundtrip: "f64_is_finite (pay_amount p) \<Longrightarrow> payment_from_value (payment_to_value p) = Some p"
  by (simp add: payment_from_value_def payment_to_value_def positional_def payment_keys_def
      field_reads field_checks f64_from_value_f64_value)

lemma event_roundtrip:
  assumes "finite_payment e"
  shows "event_from_body (event_to_body e) = Some e"
proof -
  have "de_payment e = Some p \<Longrightarrow> payment_from_value (payment_to_value p) = Some p" for p
    using assms by (simp add: finite_payment_def payment_roundtrip)
  moreover have "payment_to_value p \<noteq> JNull" for p by (simp add: payment_to_value_def)
  ultimately show ?thesis
    by (cases "de_payment e"; cases "de_withdrawn_at e"; cases e)
       (auto simp: event_from_body_def event_to_body_def positional_def event_of_object_def
         event_payment_def event_keys_def event_required_def present_fields_def List.map_filter_simps
         field_reads field_checks split: json.splits)
qed

lemma set_newest_first [simp]: "set (newest_first es) = set es"
  by (simp add: newest_first_def)

lemma newest_first_descending: "sorted_wrt (\<lambda>a b. de_starts_at b \<le> de_starts_at a) (newest_first es)"
proof -
  have "sorted_wrt (\<lambda>a b. de_starts_at a \<le> de_starts_at b) (sort_key de_starts_at (rev es))"
    using sorted_sort_key [of de_starts_at "rev es"] by (simp add: sorted_map)
  then show ?thesis by (simp add: newest_first_def sorted_wrt_rev)
qed

lemma newest_first_stable:
  "filter (\<lambda>e. de_starts_at e = s) (newest_first es) = filter (\<lambda>e. de_starts_at e = s) es"
proof -
  have "filter (\<lambda>e. de_starts_at e = s) (sort_key de_starts_at (rev es)) =
      filter (\<lambda>e. de_starts_at e = s) (rev es)"
    using sort_key_stable [of de_starts_at s "rev es"] by (simp add: eq_commute)
  then show ?thesis by (simp add: newest_first_def rev_filter [symmetric])
qed

lemma find_descending:
  assumes "sorted_wrt (\<lambda>a b. f b \<le> f a) xs" and "List.find P xs = Some x"
  shows "x \<in> set xs \<and> P x \<and> (\<forall>y \<in> set xs. P y \<longrightarrow> f y \<le> (f x :: 'a :: linorder))"
  using assms by (induction xs) (auto split: if_splits)

section \<open>The event in force\<close>

text \<open>The events a store has recorded: the documents under their prefix that are events.\<close>

definition recorded :: "(string \<Rightarrow> body option) \<Rightarrow> (string \<Rightarrow> bool) \<Rightarrow> demand_event \<Rightarrow> bool" where
  "recorded blobs served e \<longleftrightarrow>
     (\<exists>p. served p \<and> starts_with p events_prefix \<and> Option.bind (blobs p) event_from_body = Some e)"

definition unreadable_event :: "(string \<Rightarrow> body option) \<Rightarrow> (string \<Rightarrow> bool) \<Rightarrow> string \<Rightarrow> bool" where
  "unreadable_event blobs served p \<longleftrightarrow>
     served p \<and> starts_with p events_prefix \<and> blobs p \<noteq> None \<and> Option.bind (blobs p) event_from_body = None"

context blob_store
begin

lemma run_read_events:
  assumes "ready (disk w)" and "\<And>p. p \<in> set ps \<Longrightarrow> good p \<and> view (disk w) p \<noteq> None"
  shows "if \<exists>p \<in> set ps. Option.bind (view (disk w) p) event_from_body = None
    then \<exists>e. run L B (read_events ps) w = (Inl e, w)
    else run L B (read_events ps) w =
      (Inr (map (\<lambda>p. the (Option.bind (view (disk w) p) event_from_body)) ps), w)"
  using assms(2)
proof (induction ps)
  case (Cons p ps)
  then have p: "good p" "view (disk w) p \<noteq> None"
    and ps: "\<And>q. q \<in> set ps \<Longrightarrow> good q \<and> view (disk w) q \<noteq> None" by auto
  from Cons.IH [OF ps] p show ?case
    by (auto simp: run_simps run_calls [OF assms(1)] split: option.splits if_splits)
qed simp

end

context listed_store
begin

lemma run_active_for:
  assumes rdy: "ready (disk w)" and bounds: "boundary events_prefix"
  shows "if \<exists>p. unreadable_event (view (disk w)) good p
    then \<exists>e. run L B (active_for L host) w = (Inl e, w)
    else \<exists>found. run L B (active_for L host) w = (Inr found, w) \<and>
      (case found of
         None \<Rightarrow> \<forall>e. recorded (view (disk w)) good e \<longrightarrow> \<not> sheds L e host (clock w)
       | Some e \<Rightarrow> recorded (view (disk w)) good e \<and> sheds L e host (clock w) \<and>
           (\<forall>e'. recorded (view (disk w)) good e' \<longrightarrow> sheds L e' host (clock w) \<longrightarrow>
             de_starts_at e' \<le> de_starts_at e))"
proof -
  let ?read = "\<lambda>p. Option.bind (view (disk w) p) event_from_body"
  obtain ps where list: "run L B (list_paths events_prefix Every) w = (Inr ps, w)"
    and ps: "\<And>p. p \<in> set ps \<Longrightarrow> good p \<and> starts_with p events_prefix \<and> view (disk w) p \<noteq> None"
    and all: "\<And>p. good p \<Longrightarrow> starts_with p events_prefix \<Longrightarrow> view (disk w) p \<noteq> None \<Longrightarrow> p \<in> set ps"
    using run_list_paths [OF rdy, of L events_prefix] bounds by metis
  have bad: "(\<exists>p. unreadable_event (view (disk w)) good p) \<longleftrightarrow> (\<exists>p \<in> set ps. ?read p = None)"
    unfolding unreadable_event_def using ps all by blast
  note read = run_read_events [OF rdy, of ps L]
  show ?thesis
  proof (cases "\<exists>p \<in> set ps. ?read p = None")
    case True
    then obtain e where "run L B (read_events ps) w = (Inl e, w)" using read ps by auto
    then have "run L B (active_for L host) w = (Inl e, w)"
      by (simp add: active_for_def list_events_def run_simps list)
    with True bad show ?thesis by simp
  next
    case False
    let ?es = "newest_first (map (\<lambda>p. the (?read p)) ps)"
    let ?found = "List.find (\<lambda>e. sheds L e host (clock w)) ?es"
    have "run L B (read_events ps) w = (Inr (map (\<lambda>p. the (?read p)) ps), w)"
      using read ps False by auto
    then have run: "run L B (active_for L host) w = (Inr ?found, w)"
      by (simp add: active_for_def list_events_def run_simps list)
    have rec: "recorded (view (disk w)) good e \<longleftrightarrow> e \<in> set ?es" for e
    proof
      assume "recorded (view (disk w)) good e"
      then obtain p where "p \<in> set ps" "?read p = Some e"
        unfolding recorded_def using all by (metis bind_eq_None_conv option.distinct(1))
      then show "e \<in> set ?es" by (auto intro!: rev_image_eqI)
    next
      assume "e \<in> set ?es"
      then obtain p where "p \<in> set ps" "e = the (?read p)" by auto
      moreover from this have "?read p = Some e" using False by auto
      ultimately show "recorded (view (disk w)) good e" using ps by (auto simp: recorded_def)
    qed
    have "case ?found of
         None \<Rightarrow> \<forall>e. recorded (view (disk w)) good e \<longrightarrow> \<not> sheds L e host (clock w)
       | Some e \<Rightarrow> recorded (view (disk w)) good e \<and> sheds L e host (clock w) \<and>
           (\<forall>e'. recorded (view (disk w)) good e' \<longrightarrow> sheds L e' host (clock w) \<longrightarrow>
             de_starts_at e' \<le> de_starts_at e)"
    proof (cases ?found)
      case None
      then have "\<forall>e \<in> set ?es. \<not> sheds L e host (clock w)" unfolding find_None_iff by blast
      then show ?thesis unfolding None rec option.case by blast
    next
      case (Some e)
      from find_descending [OF newest_first_descending Some] show ?thesis
        unfolding Some rec option.case by blast
    qed
    with run show ?thesis unfolding bad if_not_P [OF False] by blast
  qed
qed

text \<open>A tick admits work exactly when neither switch nor the machine is against it.\<close>

lemma run_admission_reason:
  assumes rdy: "ready (disk w)" and bounds: "boundary events_prefix" and good: "good control_blob"
    and control: "run L B read_control w = (Inr control, w)"
  shows "\<exists>event. run L B (admission_reason L g) w = (Inr (policy_reason control event g), w) \<and>
    (event \<noteq> None \<longleftrightarrow> (\<exists>host e. gr_target_name g = Some host \<and>
       (\<nexists>p. unreadable_event (view (disk w)) good p) \<and>
       recorded (view (disk w)) good e \<and> sheds L e host (clock w)))"
proof (cases "gr_target_name g")
  case None
  then show ?thesis by (simp add: admission_reason_def demand_reading_def run_simps control)
next
  case (Some host)
  let ?unread = "\<exists>p. unreadable_event (view (disk w)) good p"
  note active = run_active_for [OF rdy bounds, of L host]
  show ?thesis
  proof (cases ?unread)
    case True
    from active obtain e where "run L B (active_for L host) w = (Inl e, w)"
      unfolding if_P [OF True] by blast
    then show ?thesis
      using True by (simp add: admission_reason_def demand_reading_def run_simps control Some)
  next
    case False
    from active obtain found where found: "run L B (active_for L host) w = (Inr found, w)"
      and what: "case found of
         None \<Rightarrow> \<forall>e. recorded (view (disk w)) good e \<longrightarrow> \<not> sheds L e host (clock w)
       | Some e \<Rightarrow> recorded (view (disk w)) good e \<and> sheds L e host (clock w) \<and>
           (\<forall>e'. recorded (view (disk w)) good e' \<longrightarrow> sheds L e' host (clock w) \<longrightarrow>
             de_starts_at e' \<le> de_starts_at e)"
      unfolding if_not_P [OF False] by blast
    have "run L B (admission_reason L g) w = (Inr (policy_reason control found g), w)"
      by (simp add: admission_reason_def demand_reading_def run_simps control Some found)
    moreover have "found \<noteq> None \<longleftrightarrow> (\<exists>e. recorded (view (disk w)) good e \<and> sheds L e host (clock w))"
      using what by (cases found) auto
    ultimately show ?thesis using False Some by auto
  qed
qed

end

section \<open>A withdrawal can be lost\<close>

text \<open>
  The commands save the event they read without a version: a payment recorded over an event that
  was withdrawn after it was read puts the event back in force, with both commands answered.
\<close>

context blob_store
begin

lemma withdrawal_lost:
  assumes rdy: "ready (disk w)" and good: "good (event_path (de_id e))" and fin: "finite_payment e"
    and held: "view (disk w) (event_path (de_id e)) = Some (event_to_body e)"
    and open': "de_withdrawn_at e = None"
    and amount: "f64_is_finite amount" "\<not> f64_lt_zero amount" "trim currency \<noteq> []" "trim source \<noteq> []"
  shows "\<exists>e1 e2 w'. schedule L B
      ([record_payment (de_id e) amount currency source, withdraw_event L (de_id e)], w)
      ([ok e1, ok e2], w') \<and>
    de_withdrawn_at e2 \<noteq> None \<and> de_withdrawn_at e1 = None \<and>
    view (disk w') (event_path (de_id e)) = Some (event_to_body e1)"
proof -
  let ?p = "event_path (de_id e)"
  let ?e1 = "e\<lparr>de_payment := Some \<lparr>pay_amount = amount, pay_currency = currency, pay_source = source\<rparr>\<rparr>"
  let ?e2 = "e\<lparr>de_withdrawn_at := Some (to_rfc3339 L (clock w))\<rparr>"
  let ?w2 = "w\<lparr>disk := put (disk w) ?p (event_to_body ?e2)\<rparr>"
  let ?w1 = "?w2\<lparr>disk := put (disk ?w2) ?p (event_to_body ?e1)\<rparr>"
  let ?save = "bindE (with_error CommandStorage (save_event ?e1)) (\<lambda>_. ok ?e1)"
  have req: "run L B (require_event (de_id e)) w = (Inr e, w)"
    using run_calls(1) [OF rdy good] held event_roundtrip [OF fin]
    by (simp add: require_event_def load_event_def run_simps ok_or_def)
  have form: "record_payment (de_id e) amount currency source =
      bindE (require_event (de_id e)) (\<lambda>e. let e' = e\<lparr>de_payment :=
               Some \<lparr>pay_amount = amount, pay_currency = currency, pay_source = source\<rparr>\<rparr>
        in bindE (with_error CommandStorage (save_event e')) (\<lambda>_. ok e'))"
    using amount by (simp add: record_payment_def)
  have withdraw: "run L B (withdraw_event L (de_id e)) w = (Inr ?e2, ?w2)"
    using run_calls(4) [OF rdy good] open'
    by (simp add: withdraw_event_def run_simps req Let_def save_event_def)
  have "ready (disk ?w2)" using rdy good by (simp add: store_simps)
  then have save: "run L B ?save ?w2 = (Inr ?e1, ?w1)"
    using run_calls(4) [of ?w2 ?p] good by (simp add: save_event_def run_simps)
  have last: "schedule L B ([?save, Ret (Inr ?e2)], ?w2) ([Ret (Inr ?e1), Ret (Inr ?e2)], ?w1)"
    by (rule first_ends [OF save]) simp
  have "schedule L B ([?save, withdraw_event L (de_id e)], w) ([Ret (Inr ?e1), Ret (Inr ?e2)], ?w1)"
    by (rule second_ends [OF withdraw last])
  then have "schedule L B ([record_payment (de_id e) amount currency source, withdraw_event L (de_id e)], w)
      ([Ret (Inr ?e1), Ret (Inr ?e2)], ?w1)"
    unfolding form Let_def by (rule first_goes_on [OF req])
  moreover have "view (disk ?w1) ?p = Some (event_to_body ?e1)"
    using good by (simp add: store_simps)
  ultimately show ?thesis
    using open' by (intro exI [of _ ?e1] exI [of _ ?e2] exI [of _ ?w1]) simp
qed

end

section \<open>On the device\<close>

lemma withdrawal_undone:
  assumes "local_ready root (disk w)" and "plain_path (event_path (de_id e))" and "finite_payment e"
    and "local_view root (disk w) (event_path (de_id e)) = Some (event_to_body e)"
    and "de_withdrawn_at e = None" and "f64_is_finite amount" "\<not> f64_lt_zero amount"
    and "trim currency \<noteq> []" "trim source \<noteq> []"
  shows "\<exists>e1 e2 w'. schedule L (local_backend L root)
      ([record_payment (de_id e) amount currency source, withdraw_event L (de_id e)], w)
      ([ok e1, ok e2], w') \<and>
    de_withdrawn_at e2 \<noteq> None \<and> de_withdrawn_at e1 = None \<and>
    local_view root (disk w') (event_path (de_id e)) = Some (event_to_body e1)"
  by (rule lf.withdrawal_lost [OF assms])

lemma tick_admits_exactly:
  assumes "local_ready root (disk w)"
    and "run L (local_backend L root) read_control w = (Inr control, w)"
  shows "\<exists>reason. run L (local_backend L root) (admission_reason L g) w = (Inr reason, w) \<and>
    (reason = None \<longleftrightarrow>
       \<not> qc_paused control \<and>
       \<not> (\<exists>host e. gr_target_name g = Some host \<and>
           (\<nexists>p. unreadable_event (local_view root (disk w)) plain_path p) \<and>
           recorded (local_view root (disk w)) plain_path e \<and> sheds L e host (clock w)) \<and>
       gr_drain g = None \<and> \<not> gr_pressure_active g \<and> gr_swap_full g = None \<and> gr_lock_reason g = None)"
proof -
  have "directory_prefix events_prefix" "plain_path control_blob"
    by (simp_all add: directory_prefix_def events_prefix_def entry_name_def control_blob_def plain_path_def)
  from lp.run_admission_reason [OF assms(1) this assms(2), of g]
  show ?thesis by (auto simp: policy_reason_def)
qed

end
