(* ===== verification/Objects.thy ===== *)
theory Objects
  imports Interleaving
begin

text \<open>
  The calls of \<open>BlobBackend\<close> (\<open>queue/contract/backend.rs\<close>) that a copy and a failover store make
  beside those of the queue: an object's bytes, and one object's facts (\<open>stat\<close>). The bytes of an
  object are a type of their own; on the device a file's bytes are its text. \<open>object_store\<close> states what
  a successful answer promises, so it also holds of a store that refuses.
\<close>

record ('s, 'b) object_backend = "'s backend" +
  be_download_bytes :: "'s \<Rightarrow> string \<Rightarrow> storage_error + 'b option"
  be_upload_bytes :: "'s \<Rightarrow> string \<Rightarrow> 'b \<Rightarrow> (storage_error + unit) \<times> 's"
  be_stat :: "'s \<Rightarrow> string \<Rightarrow> storage_error + blob_info option"

section \<open>The device\<close>

definition local_download_bytes :: "string list \<Rightarrow> local_disk \<Rightarrow> string \<Rightarrow> storage_error + body option" where
  "local_download_bytes root d path =
     bind_result (local_path root path) (\<lambda>target. Inr (read_file d target))"

definition local_upload_bytes ::
  "string list \<Rightarrow> local_disk \<Rightarrow> string \<Rightarrow> body \<Rightarrow> (storage_error + unit) \<times> local_disk" where
  "local_upload_bytes root d path content' =
     (case local_path root path of
        Inl e \<Rightarrow> (Inl e, d)
      | Inr target \<Rightarrow>
          (case mutation_guard root d of
             Inl e \<Rightarrow> (Inl e, d)
           | Inr _ \<Rightarrow> (Inr (), publish_replacing d target content')))"

definition local_stat :: "string list \<Rightarrow> local_disk \<Rightarrow> string \<Rightarrow> storage_error + blob_info option" where
  "local_stat root d path =
     bind_result (local_path root path) (\<lambda>target.
       Inr (if read_file d target = None then None
            else Some \<lparr>bi_name = path, bi_updated = modified d target,
                   bi_metadata = read_sidecar d (metadata_path path)\<rparr>))"

definition local_objects :: "lib \<Rightarrow> string list \<Rightarrow> (local_disk, body) object_backend" where
  "local_objects L root =
     backend.extend (local_backend L root)
       (object_backend.fields (local_download_bytes root) (local_upload_bytes root) (local_stat root))"

lemma local_objects_text [simp]: "backend.truncate (local_objects L root) = local_backend L root"
  by (simp add: local_objects_def local_backend_def backend.defs object_backend.defs)

lemma local_objects_sel [simp]:
  "be_download_bytes (local_objects L root) = local_download_bytes root"
  "be_upload_bytes (local_objects L root) = local_upload_bytes root"
  "be_stat (local_objects L root) = local_stat root"
  "be_upload_text (local_objects L root) = local_upload_text root"
  "be_download_text (local_objects L root) = local_download_text root"
  "be_delete (local_objects L root) = local_delete root"
  "be_exists (local_objects L root) = local_exists root"
  "be_set_metadata (local_objects L root) = local_set_metadata root"
  "be_list_blobs_with_meta (local_objects L root) = local_list_blobs_with_meta root"
  by (simp_all add: local_objects_def local_backend_def backend.defs object_backend.defs)

text \<open>
  Every blob without the extension \<open>json\<close> shares its metadata file with the blob of that name and the
  extension: the metadata of one is the metadata of the other.
\<close>

lemma metadata_shared:
  assumes "path_extension p \<noteq> Some ''json''" and "path_extension (p @ ''.json'') = Some ''json''"
  shows "metadata_path p = metadata_path (p @ ''.json'')"
  using assms by (simp add: metadata_path_def)

section \<open>What an answer promises\<close>

locale object_store =
  fixes S :: "('s, 'b) object_backend"
    and bytes :: "'s \<Rightarrow> string \<Rightarrow> 'b option"
    and served :: "string \<Rightarrow> bool"
    and listed :: "string \<Rightarrow> bool"
    and sane :: "'s \<Rightarrow> bool"
  assumes bytes_law: "sane s \<Longrightarrow> served p \<Longrightarrow> be_download_bytes S s p = Inr found \<Longrightarrow> found = bytes s p"
    and upload_law: "sane s \<Longrightarrow> served p \<Longrightarrow> be_upload_bytes S s p b = (r, s') \<Longrightarrow>
      sane s' \<and> (r = Inr () \<longrightarrow> bytes s' p = Some b) \<and>
      (\<forall>q. served q \<longrightarrow> q \<noteq> p \<longrightarrow> bytes s' q = bytes s q)"
    and text_law: "sane s \<Longrightarrow> served p \<Longrightarrow> be_upload_text S s p t = (r, s') \<Longrightarrow>
      sane s' \<and> (\<forall>q. served q \<longrightarrow> q \<noteq> p \<longrightarrow> bytes s' q = bytes s q)"
    and annotate_law: "sane s \<Longrightarrow> served p \<Longrightarrow> be_set_metadata S s p kv = (r, s') \<Longrightarrow>
      sane s' \<and> (\<forall>q. served q \<longrightarrow> bytes s' q = bytes s q)"
    and delete_law: "sane s \<Longrightarrow> served p \<Longrightarrow> be_delete S s p = (r, s') \<Longrightarrow>
      sane s' \<and> (r = Inr () \<longrightarrow> bytes s' p = None) \<and>
      (\<forall>q. served q \<longrightarrow> q \<noteq> p \<longrightarrow> bytes s' q = bytes s q)"
    and exists_law: "sane s \<Longrightarrow> served p \<Longrightarrow> be_exists S s p = Inr there \<Longrightarrow> there = (bytes s p \<noteq> None)"
    and listing_law: "sane s \<Longrightarrow> be_list_blobs_with_meta S s P = Inr bs \<Longrightarrow>
      (\<forall>b \<in> set bs. served (bi_name b) \<and> bytes s (bi_name b) \<noteq> None) \<and>
      (listed P \<longrightarrow> (\<forall>p. served p \<longrightarrow> starts_with p P \<longrightarrow> bytes s p \<noteq> None \<longrightarrow> p \<in> bi_name ` set bs))"

lemma local_named_write [simp]:
  assumes "local_named root d" "plain_path p"
  shows "local_named root (publish_replacing d (blob_target root p) t)"
    and "local_named root (remove_missing_ok d target)"
    and "local_named root (d\<lparr>sidecars := m\<rparr>)"
  using assms
  by (auto simp: local_named_def publish_replacing_def remove_missing_ok_def list_all_iff blob_target_def
      plain_path_names)

interpretation lo: object_store "local_objects L root" "local_view root" blob_name listable "local_named root"
  for L root
proof (unfold_locales, goal_cases)
  case (7 s P bs)
  then show ?case
    using names_under_sound [OF 7(1)] names_under_listable [of P _ root s]
    by (auto simp: local_listing image_image)
qed (auto simp: local_ops local_download_bytes_def local_upload_bytes_def blob_name_def local_path_plain
      local_view_def Let_def split: sum.splits if_splits)

end
