(* ===== verification/Failover.thy ===== *)
theory Failover
  imports Objects
begin

text \<open>
  \<open>src/stado-rs/src/queue/failover/\<close>: a store of two. Every mutation commits to the primary and is
  then mirrored to the backup, whose refusal is reported and changes no answer; a read the primary
  refuses is answered by the backup, unless the store reads from its primary only; and a published
  release object the primary has lost is served from the backup and written back. The state is the
  pair of the two stores' states. Reading a range, a release by its URI and local files are not
  modelled; \<open>utf8\<close> is \<open>String::from_utf8\<close> on the bytes of the two stores.
\<close>

datatype read_mode = Failover | PrimaryOnly

record ('p, 'q, 'b) failover_backend =
  fo_primary :: "('p, 'b) object_backend"
  fo_backup :: "('q, 'b) object_backend"
  fo_read_mode :: read_mode

definition upload_part_marker :: string where
  "upload_part_marker = ''.__stado_upload/''"

definition heals_from_mirror :: "string \<Rightarrow> bool" where
  "heals_from_mirror path =
     (if contains_str path upload_part_marker then False
      else list_ex (\<lambda>segment. segment = ''releases'') (split_on (CHR ''/'') path))"

text \<open>A refused read is answered by the backup, its own refusal included.\<close>

definition failed_over ::
  "('p, 'q, 'b) failover_backend \<Rightarrow> storage_error + 'a \<Rightarrow> storage_error + 'a \<Rightarrow> storage_error + 'a" where
  "failed_over F primary backup =
     (case primary of
        Inr a \<Rightarrow> Inr a
      | Inl e \<Rightarrow> if fo_read_mode F = PrimaryOnly then Inl e else backup)"

text \<open>A mutation: the primary's answer, and the backup's new state once the primary committed.\<close>

definition mirrored ::
  "(storage_error + 'a) \<times> 'p \<Rightarrow> 'q \<Rightarrow> ('a \<Rightarrow> (storage_error + 'c) \<times> 'q) \<Rightarrow> (storage_error + 'a) \<times> 'p \<times> 'q" where
  "mirrored committed q replica =
     (case committed of
        (Inl e, p') \<Rightarrow> (Inl e, p', q)
      | (Inr a, p') \<Rightarrow> (Inr a, p', snd (replica a)))"

definition mirrored_bytes ::
  "('p, 'q, 'b) failover_backend \<Rightarrow> 'p \<times> 'q \<Rightarrow> string \<Rightarrow> (storage_error + 'b option) \<times> 'p \<times> 'q" where
  "mirrored_bytes F s path =
     (if \<not> heals_from_mirror path then (Inr None, s)
      else (case be_download_bytes (fo_backup F) (snd s) path of
              Inl e \<Rightarrow> (Inl e, s)
            | Inr None \<Rightarrow> (Inr None, s)
            | Inr (Some b) \<Rightarrow> (Inr (Some b), snd (be_upload_bytes (fo_primary F) (fst s) path b), snd s)))"

section \<open>The trait's operations\<close>

definition fo_upload_text ::
  "('p, 'q, 'b) failover_backend \<Rightarrow> 'p \<times> 'q \<Rightarrow> string \<Rightarrow> body \<Rightarrow> (storage_error + unit) \<times> 'p \<times> 'q" where
  "fo_upload_text F s path t =
     mirrored (be_upload_text (fo_primary F) (fst s) path t) (snd s)
       (\<lambda>_. be_upload_text (fo_backup F) (snd s) path t)"

definition fo_upload_bytes ::
  "('p, 'q, 'b) failover_backend \<Rightarrow> 'p \<times> 'q \<Rightarrow> string \<Rightarrow> 'b \<Rightarrow> (storage_error + unit) \<times> 'p \<times> 'q" where
  "fo_upload_bytes F s path b =
     mirrored (be_upload_bytes (fo_primary F) (fst s) path b) (snd s)
       (\<lambda>_. be_upload_bytes (fo_backup F) (snd s) path b)"

definition fo_download_text ::
  "('b \<Rightarrow> body option) \<Rightarrow> ('p, 'q, 'b) failover_backend \<Rightarrow> 'p \<times> 'q \<Rightarrow> string
   \<Rightarrow> (storage_error + body option) \<times> 'p \<times> 'q" where
  "fo_download_text utf8 F s path =
     (case be_download_text (fo_primary F) (fst s) path of
        Inr (Some t) \<Rightarrow> (Inr (Some t), s)
      | Inr None \<Rightarrow>
          (case mirrored_bytes F s path of
             (Inl e, s') \<Rightarrow> (Inl e, s')
           | (Inr None, s') \<Rightarrow> (Inr None, s')
           | (Inr (Some b), s') \<Rightarrow>
               (map_err (\<lambda>_. Other (path @ '': mirrored copy is not text''))
                  (ok_or () (map_option Some (utf8 b))), s'))
      | Inl e \<Rightarrow> (failed_over F (Inl e) (be_download_text (fo_backup F) (snd s) path), s))"

definition fo_download_bytes ::
  "('p, 'q, 'b) failover_backend \<Rightarrow> 'p \<times> 'q \<Rightarrow> string \<Rightarrow> (storage_error + 'b option) \<times> 'p \<times> 'q" where
  "fo_download_bytes F s path =
     (case be_download_bytes (fo_primary F) (fst s) path of
        Inr (Some b) \<Rightarrow> (Inr (Some b), s)
      | Inr None \<Rightarrow> mirrored_bytes F s path
      | Inl e \<Rightarrow> (failed_over F (Inl e) (be_download_bytes (fo_backup F) (snd s) path), s))"

definition fo_upload_text_if_absent ::
  "('p, 'q, 'b) failover_backend \<Rightarrow> 'p \<times> 'q \<Rightarrow> string \<Rightarrow> body \<Rightarrow> (storage_error + bool) \<times> 'p \<times> 'q" where
  "fo_upload_text_if_absent F s path t =
     (case be_upload_text_if_absent (fo_primary F) (fst s) path t of
        (Inr False, p') \<Rightarrow> (Inr False, p', snd s)
      | committed \<Rightarrow> mirrored committed (snd s) (\<lambda>_. be_upload_text (fo_backup F) (snd s) path t))"

definition fo_download_text_versioned ::
  "('p, 'q, 'b) failover_backend \<Rightarrow> 'p \<times> 'q \<Rightarrow> string \<Rightarrow> storage_error + versioned_text option" where
  "fo_download_text_versioned F s path =
     failed_over F (be_download_text_versioned (fo_primary F) (fst s) path)
       (be_download_text_versioned (fo_backup F) (snd s) path)"

definition fo_compare_and_swap_text ::
  "('p, 'q, 'b) failover_backend \<Rightarrow> 'p \<times> 'q \<Rightarrow> string \<Rightarrow> string \<Rightarrow> body
   \<Rightarrow> (storage_error + string) \<times> 'p \<times> 'q" where
  "fo_compare_and_swap_text F s path expected t =
     mirrored (be_compare_and_swap_text (fo_primary F) (fst s) path expected t) (snd s)
       (\<lambda>_. be_upload_text (fo_backup F) (snd s) path t)"

definition fo_delete ::
  "('p, 'q, 'b) failover_backend \<Rightarrow> 'p \<times> 'q \<Rightarrow> string \<Rightarrow> (storage_error + unit) \<times> 'p \<times> 'q" where
  "fo_delete F s path =
     mirrored (be_delete (fo_primary F) (fst s) path) (snd s) (\<lambda>_. be_delete (fo_backup F) (snd s) path)"

definition named_exactly :: "string \<Rightarrow> blob_info list \<Rightarrow> bool" where
  "named_exactly path bs = list_ex (\<lambda>b. bi_name b = path) bs"

definition fo_exists ::
  "('p, 'q, 'b) failover_backend \<Rightarrow> 'p \<times> 'q \<Rightarrow> string \<Rightarrow> storage_error + bool" where
  "fo_exists F s path =
     (case be_list_blobs_with_meta (fo_primary F) (fst s) path of
        Inr bs \<Rightarrow>
          if named_exactly path bs then Inr True
          else if heals_from_mirror path then be_exists (fo_backup F) (snd s) path
          else Inr False
      | Inl e \<Rightarrow> failed_over F (Inl e)
          (map_sum id (named_exactly path) (be_list_blobs_with_meta (fo_backup F) (snd s) path)))"

definition fo_list_paths ::
  "('p, 'q, 'b) failover_backend \<Rightarrow> 'p \<times> 'q \<Rightarrow> string \<Rightarrow> listing \<Rightarrow> storage_error + string list" where
  "fo_list_paths F s prefix listing' =
     failed_over F (be_list_paths (fo_primary F) (fst s) prefix listing')
       (be_list_paths (fo_backup F) (snd s) prefix listing')"

definition fo_list_page ::
  "('p, 'q, 'b) failover_backend \<Rightarrow> 'p \<times> 'q \<Rightarrow> string \<Rightarrow> string \<Rightarrow> nat option
   \<Rightarrow> storage_error + string list" where
  "fo_list_page F s prefix start_after limit =
     failed_over F (be_list_page (fo_primary F) (fst s) prefix start_after limit)
       (be_list_page (fo_backup F) (snd s) prefix start_after limit)"

definition fo_stat ::
  "('p, 'q, 'b) failover_backend \<Rightarrow> 'p \<times> 'q \<Rightarrow> string \<Rightarrow> storage_error + blob_info option" where
  "fo_stat F s path =
     failed_over F (be_stat (fo_primary F) (fst s) path) (be_stat (fo_backup F) (snd s) path)"

definition fo_updated_at ::
  "('p, 'q, 'b) failover_backend \<Rightarrow> 'p \<times> 'q \<Rightarrow> string \<Rightarrow> storage_error + int option" where
  "fo_updated_at F s path = map_sum id (\<lambda>found. Option.bind found bi_updated) (fo_stat F s path)"

definition fo_set_metadata ::
  "('p, 'q, 'b) failover_backend \<Rightarrow> 'p \<times> 'q \<Rightarrow> string \<Rightarrow> (string \<times> string) list
   \<Rightarrow> (storage_error + unit) \<times> 'p \<times> 'q" where
  "fo_set_metadata F s path kv =
     mirrored (be_set_metadata (fo_primary F) (fst s) path kv) (snd s)
       (\<lambda>_. be_set_metadata (fo_backup F) (snd s) path kv)"

definition fo_list_blobs_with_meta ::
  "('p, 'q, 'b) failover_backend \<Rightarrow> 'p \<times> 'q \<Rightarrow> string \<Rightarrow> storage_error + blob_info list" where
  "fo_list_blobs_with_meta F s prefix =
     failed_over F (be_list_blobs_with_meta (fo_primary F) (fst s) prefix)
       (be_list_blobs_with_meta (fo_backup F) (snd s) prefix)"

section \<open>Programs on the pair\<close>

text \<open>\<open>run\<close> of \<open>Store\<close>, with the reads that write an object back.\<close>

primrec run_failover ::
  "lib \<Rightarrow> ('b \<Rightarrow> body option) \<Rightarrow> ('p, 'q, 'b) failover_backend \<Rightarrow> 'a prog \<Rightarrow> ('p \<times> 'q) world
   \<Rightarrow> 'a \<times> ('p \<times> 'q) world" where
  "run_failover L u F (Ret a) w = (a, w)"
| "run_failover L u F (UploadText p t k) w =
     (let (r, d) = fo_upload_text F (disk w) p t in run_failover L u F (k r) (w\<lparr>disk := d\<rparr>))"
| "run_failover L u F (DownloadText p k) w =
     (let (r, d) = fo_download_text u F (disk w) p in run_failover L u F (k r) (w\<lparr>disk := d\<rparr>))"
| "run_failover L u F (UploadTextIfAbsent p t k) w =
     (let (r, d) = fo_upload_text_if_absent F (disk w) p t in run_failover L u F (k r) (w\<lparr>disk := d\<rparr>))"
| "run_failover L u F (DownloadTextVersioned p k) w =
     run_failover L u F (k (fo_download_text_versioned F (disk w) p)) w"
| "run_failover L u F (CompareAndSwapText p v t k) w =
     (let (r, d) = fo_compare_and_swap_text F (disk w) p v t in run_failover L u F (k r) (w\<lparr>disk := d\<rparr>))"
| "run_failover L u F (DeleteBlob p k) w =
     (let (r, d) = fo_delete F (disk w) p in run_failover L u F (k r) (w\<lparr>disk := d\<rparr>))"
| "run_failover L u F (ExistsBlob p k) w = run_failover L u F (k (fo_exists F (disk w) p)) w"
| "run_failover L u F (ListPaths p l k) w = run_failover L u F (k (fo_list_paths F (disk w) p l)) w"
| "run_failover L u F (ListPage p a l k) w = run_failover L u F (k (fo_list_page F (disk w) p a l)) w"
| "run_failover L u F (SetMetadata p kv k) w =
     (let (r, d) = fo_set_metadata F (disk w) p kv in run_failover L u F (k r) (w\<lparr>disk := d\<rparr>))"
| "run_failover L u F (ListBlobsWithMeta p k) w =
     run_failover L u F (k (fo_list_blobs_with_meta F (disk w) p)) w"
| "run_failover L u F (UpdatedAt p k) w = run_failover L u F (k (fo_updated_at F (disk w) p)) w"
| "run_failover L u F (Now k) w = run_failover L u F (k (clock w)) w"
| "run_failover L u F (NewUuid k) w =
     run_failover L u F (k (uuid_simple L (uuids w))) (w\<lparr>uuids := Suc (uuids w)\<rparr>)"
| "run_failover L u F (CurrentProcess k) w = run_failover L u F (k (this_process w)) w"
| "run_failover L u F (PidAlive p k) w = run_failover L u F (k (p \<in> set (live_pids w))) w"
| "run_failover L u F (OwnerRunning i k) w = run_failover L u F (k (i \<in> set (active_owners w))) w"

text \<open>The world of a process that has the primary alone.\<close>

definition on_primary :: "('p \<times> 'q) world \<Rightarrow> 'p world" where
  "on_primary w = \<lparr>disk = fst (disk w), clock = clock w, uuids = uuids w, this_process = this_process w,
     live_pids = live_pids w, active_owners = active_owners w\<rparr>"

text \<open>The paths a run asks for by name.\<close>

primrec asked_paths :: "lib \<Rightarrow> 's backend \<Rightarrow> 'a prog \<Rightarrow> 's world \<Rightarrow> string list" where
  "asked_paths L B (Ret a) w = []"
| "asked_paths L B (UploadText p t k) w =
     p # (let (r, d) = be_upload_text B (disk w) p t in asked_paths L B (k r) (w\<lparr>disk := d\<rparr>))"
| "asked_paths L B (DownloadText p k) w = p # asked_paths L B (k (be_download_text B (disk w) p)) w"
| "asked_paths L B (UploadTextIfAbsent p t k) w =
     p # (let (r, d) = be_upload_text_if_absent B (disk w) p t in asked_paths L B (k r) (w\<lparr>disk := d\<rparr>))"
| "asked_paths L B (DownloadTextVersioned p k) w =
     p # asked_paths L B (k (be_download_text_versioned B (disk w) p)) w"
| "asked_paths L B (CompareAndSwapText p v t k) w =
     p # (let (r, d) = be_compare_and_swap_text B (disk w) p v t in asked_paths L B (k r) (w\<lparr>disk := d\<rparr>))"
| "asked_paths L B (DeleteBlob p k) w =
     p # (let (r, d) = be_delete B (disk w) p in asked_paths L B (k r) (w\<lparr>disk := d\<rparr>))"
| "asked_paths L B (ExistsBlob p k) w = p # asked_paths L B (k (be_exists B (disk w) p)) w"
| "asked_paths L B (ListPaths p l k) w = asked_paths L B (k (be_list_paths B (disk w) p l)) w"
| "asked_paths L B (ListPage p a l k) w = asked_paths L B (k (be_list_page B (disk w) p a l)) w"
| "asked_paths L B (SetMetadata p kv k) w =
     p # (let (r, d) = be_set_metadata B (disk w) p kv in asked_paths L B (k r) (w\<lparr>disk := d\<rparr>))"
| "asked_paths L B (ListBlobsWithMeta p k) w = asked_paths L B (k (be_list_blobs_with_meta B (disk w) p)) w"
| "asked_paths L B (UpdatedAt p k) w = p # asked_paths L B (k (be_updated_at B (disk w) p)) w"
| "asked_paths L B (Now k) w = asked_paths L B (k (clock w)) w"
| "asked_paths L B (NewUuid k) w = asked_paths L B (k (uuid_simple L (uuids w))) (w\<lparr>uuids := Suc (uuids w)\<rparr>)"
| "asked_paths L B (CurrentProcess k) w = asked_paths L B (k (this_process w)) w"
| "asked_paths L B (PidAlive p k) w = asked_paths L B (k (p \<in> set (live_pids w))) w"
| "asked_paths L B (OwnerRunning i k) w = asked_paths L B (k (i \<in> set (active_owners w))) w"

lemma asked_paths_bindp [run_simps]:
  "asked_paths L B (bindp p f) w = asked_paths L B p w @ (case run L B p w of (a, w') \<Rightarrow> asked_paths L B (f a) w')"
  by (induction p arbitrary: w) (auto simp: Let_def split: prod.splits)

lemma asked_paths_bindE [run_simps]:
  "asked_paths L B (bindE p f) w = asked_paths L B p w @
     (case run L B p w of (Inl e, w') \<Rightarrow> [] | (Inr a, w') \<Rightarrow> asked_paths L B (f a) w')"
  by (auto simp: bindE_def asked_paths_bindp split: prod.splits sum.splits)

lemma asked_paths_calls:
  "asked_paths L B (upload_text p t) w = [p]" "asked_paths L B (download_text p) w = [p]"
  "asked_paths L B (create_text_if_absent p t) w = [p]" "asked_paths L B (read_text_versioned p) w = [p]"
  "asked_paths L B (delete_blob p) w = [p]" "asked_paths L B (exists_blob p) w = [p]" "asked_paths L B now w = []"
  "v \<noteq> [] \<Longrightarrow> asked_paths L B (compare_and_swap_text p v t) w = [p]"
  by (simp_all add: facade_defs split: prod.splits)

lemma on_primary_sel [simp]:
  "disk (on_primary w) = fst (disk w)" "clock (on_primary w) = clock w" "uuids (on_primary w) = uuids w"
  "this_process (on_primary w) = this_process w" "live_pids (on_primary w) = live_pids w"
  "active_owners (on_primary w) = active_owners w"
  "on_primary (w\<lparr>disk := d\<rparr>) = (on_primary w)\<lparr>disk := fst d\<rparr>"
  "on_primary (w\<lparr>uuids := n\<rparr>) = (on_primary w)\<lparr>uuids := n\<rparr>"
  "(on_primary w)\<lparr>disk := fst (disk w)\<rparr> = on_primary w"
  by (simp_all add: on_primary_def)

section \<open>The pair is its primary\<close>

text \<open>
  A primary whose reads of the paths it serves are answered, and whose listing and \<open>stat\<close> of one
  object agree with its reads.
\<close>

locale authority = blob_store B view put remove annotate token refusal good ready
  for B :: "'p backend" and view put remove annotate token refusal good ready +
  fixes P :: "('p, 'b) object_backend"
  assumes text_calls: "backend.truncate P = B"
    and exact_law: "ready s \<Longrightarrow> good p \<Longrightarrow>
      \<exists>bs. be_list_blobs_with_meta B s p = Inr bs \<and> (named_exactly p bs \<longleftrightarrow> view s p \<noteq> None)"
    and stat_law: "ready s \<Longrightarrow> good p \<Longrightarrow>
      \<exists>found. be_stat P s p = Inr found \<and> be_updated_at B s p = Inr (Option.bind found bi_updated)"
    and paths_law: "ready s \<Longrightarrow> \<exists>ps. be_list_paths B s P' l = Inr ps"
    and page_law: "ready s \<Longrightarrow> \<exists>ps. be_list_page B s P' a n = Inr ps"
    and meta_law: "ready s \<Longrightarrow> \<exists>bs. be_list_blobs_with_meta B s P' = Inr bs"
begin

lemma calls_of_primary:
  "be_upload_text P = be_upload_text B" "be_download_text P = be_download_text B"
  "be_upload_text_if_absent P = be_upload_text_if_absent B"
  "be_download_text_versioned P = be_download_text_versioned B"
  "be_compare_and_swap_text P = be_compare_and_swap_text B" "be_delete P = be_delete B"
  "be_list_paths P = be_list_paths B" "be_list_page P = be_list_page B"
  "be_set_metadata P = be_set_metadata B" "be_list_blobs_with_meta P = be_list_blobs_with_meta B"
  unfolding text_calls [symmetric] by (simp_all add: backend.defs)

text \<open>Whatever the backup holds or answers, and in either read mode.\<close>

lemma run_failover_is_primary:
  assumes "ready (fst (disk w))"
    and "list_all (\<lambda>p. good p \<and> \<not> heals_from_mirror p) (asked_paths L B prog (on_primary w))"
    and "fo_primary F = P"
  shows "run L B prog (on_primary w) =
    apsnd on_primary (run_failover L u F prog w)"
  using assms(1,2)
proof (induction prog arbitrary: w)
  case (UploadText p t k)
  from UploadText.prems show ?case
    by (auto simp: UploadText.IH [OF rangeI, symmetric] fo_upload_text_def mirrored_def assms(3) calls_of_primary upload_law store_simps)
next
  case (DownloadText p k)
  from DownloadText.prems show ?case
    by (auto simp: DownloadText.IH [OF rangeI, symmetric] fo_download_text_def mirrored_bytes_def assms(3) calls_of_primary download_law
        split: option.splits)
next
  case (UploadTextIfAbsent p t k)
  from UploadTextIfAbsent.prems show ?case
    by (auto simp: UploadTextIfAbsent.IH [OF rangeI, symmetric] fo_upload_text_if_absent_def mirrored_def assms(3) calls_of_primary create_law
        store_simps split: if_splits)
next
  case (DownloadTextVersioned p k)
  from DownloadTextVersioned.prems show ?case
    by (auto simp: DownloadTextVersioned.IH [OF rangeI, symmetric] fo_download_text_versioned_def failed_over_def assms(3) calls_of_primary versioned_law)
next
  case (CompareAndSwapText p v t k)
  from CompareAndSwapText.prems show ?case
    by (auto simp: CompareAndSwapText.IH [OF rangeI, symmetric] fo_compare_and_swap_text_def mirrored_def assms(3) calls_of_primary swap_law
        store_simps split: option.splits if_splits)
next
  case (DeleteBlob p k)
  from DeleteBlob.prems show ?case
    by (auto simp: DeleteBlob.IH [OF rangeI, symmetric] fo_delete_def mirrored_def assms(3) calls_of_primary delete_law store_simps)
next
  case (ExistsBlob p k)
  from ExistsBlob.prems obtain bs where "be_list_blobs_with_meta B (fst (disk w)) p = Inr bs"
    "named_exactly p bs \<longleftrightarrow> view (fst (disk w)) p \<noteq> None"
    using exact_law [of "fst (disk w)" p] by auto
  with ExistsBlob.prems show ?case
    by (auto simp: ExistsBlob.IH [OF rangeI, symmetric] fo_exists_def assms(3) calls_of_primary exists_law)
next
  case (ListPaths p l k)
  show ?case
    using ListPaths.prems paths_law [of "fst (disk w)" p l]
    by (auto simp: ListPaths.IH [OF rangeI, symmetric] fo_list_paths_def failed_over_def assms(3) calls_of_primary)
next
  case (ListPage p a l k)
  show ?case
    using ListPage.prems page_law [of "fst (disk w)" p a l]
    by (auto simp: ListPage.IH [OF rangeI, symmetric] fo_list_page_def failed_over_def assms(3) calls_of_primary)
next
  case (SetMetadata p kv k)
  from SetMetadata.prems show ?case
    by (auto simp: SetMetadata.IH [OF rangeI, symmetric] fo_set_metadata_def mirrored_def assms(3) calls_of_primary metadata_law store_simps)
next
  case (ListBlobsWithMeta p k)
  show ?case
    using ListBlobsWithMeta.prems meta_law [of "fst (disk w)" p]
    by (auto simp: ListBlobsWithMeta.IH [OF rangeI, symmetric] fo_list_blobs_with_meta_def failed_over_def assms(3) calls_of_primary)
next
  case (UpdatedAt p k)
  from UpdatedAt.prems obtain found where "be_stat P (fst (disk w)) p = Inr found"
    "be_updated_at B (fst (disk w)) p = Inr (Option.bind found bi_updated)"
    using stat_law [of "fst (disk w)" p] by auto
  with UpdatedAt.prems show ?case
    by (auto simp: UpdatedAt.IH [OF rangeI, symmetric] fo_updated_at_def fo_stat_def failed_over_def assms(3))
next
  case (NewUuid k)
  from NewUuid.prems show ?case by (auto simp: NewUuid.IH [OF rangeI, symmetric])
qed simp_all

end

text \<open>The backup keeps up: blobs that are the same on both stores stay the same.\<close>

definition in_step ::
  "('p \<Rightarrow> string \<Rightarrow> body option) \<Rightarrow> ('q \<Rightarrow> string \<Rightarrow> body option) \<Rightarrow> ('p \<Rightarrow> bool) \<Rightarrow> ('q \<Rightarrow> bool)
   \<Rightarrow> (string \<Rightarrow> bool) \<Rightarrow> 'p \<times> 'q \<Rightarrow> bool" where
  "in_step view view' ready ready' good d \<longleftrightarrow>
     ready (fst d) \<and> ready' (snd d) \<and> (\<forall>p. good p \<longrightarrow> view' (snd d) p = view (fst d) p)"

locale replicated = authority B view put remove annotate token refusal good ready P +
    replica: blob_store C view' put' remove' annotate' token' refusal' good ready'
  for B :: "'p backend" and view put remove annotate token refusal good ready
    and P :: "('p, 'b) object_backend"
    and C :: "'q backend" and view' put' remove' annotate' token' refusal' ready' +
  fixes Q :: "('q, 'b) object_backend"
  assumes replica_calls: "backend.truncate Q = C"
begin

lemma calls_of_replica:
  "be_upload_text Q = be_upload_text C" "be_delete Q = be_delete C" "be_set_metadata Q = be_set_metadata C"
  unfolding replica_calls [symmetric] by (simp_all add: backend.defs)

abbreviation synced :: "'p \<times> 'q \<Rightarrow> bool" where
  "synced \<equiv> in_step view view' ready ready' good"

lemma synced_steps:
  assumes "synced d" and "good p"
  shows "synced (put (fst d) p t, put' (snd d) p t)"
    and "synced (remove (fst d) p, remove' (snd d) p)"
    and "synced (annotate (fst d) p kv, annotate' (snd d) p kv)"
  using assms by (simp_all add: in_step_def store_simps replica.store_simps)

lemma synced_ready: "synced d \<Longrightarrow> ready (fst d) \<and> ready' (snd d)"
  by (simp add: in_step_def)

lemmas mirror_simps = mirrored_def calls_of_primary calls_of_replica upload_law create_law swap_law
  delete_law metadata_law replica.upload_law replica.delete_law replica.metadata_law synced_steps

lemma replica_follows:
  assumes "synced (disk w)"
    and "list_all (\<lambda>p. good p \<and> \<not> heals_from_mirror p) (asked_paths L B prog (on_primary w))"
    and "fo_primary F = P" and "fo_backup F = Q"
  shows "synced (disk (snd (run_failover L u F prog w)))"
  using assms(1,2)
proof (induction prog arbitrary: w)
  case (UploadText p t k)
  from UploadText.prems synced_ready [OF UploadText.prems(1)] show ?case
    by (auto simp: UploadText.IH [OF rangeI] fo_upload_text_def assms(3,4) mirror_simps)
next
  case (DownloadText p k)
  from DownloadText.prems synced_ready [OF DownloadText.prems(1)] show ?case
    by (auto simp: DownloadText.IH [OF rangeI] fo_download_text_def mirrored_bytes_def assms(3) mirror_simps
        download_law split: option.splits)
next
  case (UploadTextIfAbsent p t k)
  from UploadTextIfAbsent.prems synced_ready [OF UploadTextIfAbsent.prems(1)] show ?case
    by (auto simp: UploadTextIfAbsent.IH [OF rangeI] fo_upload_text_if_absent_def assms(3,4) mirror_simps
        split: if_splits)
next
  case (DownloadTextVersioned p k)
  from DownloadTextVersioned.prems synced_ready [OF DownloadTextVersioned.prems(1)] show ?case
    by (auto simp: DownloadTextVersioned.IH [OF rangeI] fo_download_text_versioned_def failed_over_def
        assms(3) mirror_simps versioned_law)
next
  case (CompareAndSwapText p v t k)
  from CompareAndSwapText.prems synced_ready [OF CompareAndSwapText.prems(1)] show ?case
    by (auto simp: CompareAndSwapText.IH [OF rangeI] fo_compare_and_swap_text_def assms(3,4) mirror_simps
        split: option.splits if_splits)
next
  case (DeleteBlob p k)
  from DeleteBlob.prems synced_ready [OF DeleteBlob.prems(1)] show ?case
    by (auto simp: DeleteBlob.IH [OF rangeI] fo_delete_def assms(3,4) mirror_simps)
next
  case (ExistsBlob p k)
  from ExistsBlob.prems have "ready (fst (disk w))" "good p" by (simp_all add: in_step_def)
  from exact_law [OF this] obtain bs where "be_list_blobs_with_meta B (fst (disk w)) p = Inr bs"
    "named_exactly p bs \<longleftrightarrow> view (fst (disk w)) p \<noteq> None" by auto
  with ExistsBlob.prems synced_ready [OF ExistsBlob.prems(1)] show ?case
    by (auto simp: ExistsBlob.IH [OF rangeI] fo_exists_def assms(3) mirror_simps exists_law)
next
  case (ListPaths p l k)
  show ?case
    using ListPaths.prems synced_ready [OF ListPaths.prems(1)] paths_law [of "fst (disk w)" p l]
    by (auto simp: ListPaths.IH [OF rangeI] fo_list_paths_def failed_over_def assms(3) mirror_simps)
next
  case (ListPage p a l k)
  show ?case
    using ListPage.prems synced_ready [OF ListPage.prems(1)] page_law [of "fst (disk w)" p a l]
    by (auto simp: ListPage.IH [OF rangeI] fo_list_page_def failed_over_def assms(3) mirror_simps)
next
  case (SetMetadata p kv k)
  from SetMetadata.prems synced_ready [OF SetMetadata.prems(1)] show ?case
    by (auto simp: SetMetadata.IH [OF rangeI] fo_set_metadata_def assms(3,4) mirror_simps)
next
  case (ListBlobsWithMeta p k)
  show ?case
    using ListBlobsWithMeta.prems synced_ready [OF ListBlobsWithMeta.prems(1)] meta_law [of "fst (disk w)" p]
    by (auto simp: ListBlobsWithMeta.IH [OF rangeI] fo_list_blobs_with_meta_def failed_over_def assms(3)
        mirror_simps)
next
  case (UpdatedAt p k)
  from UpdatedAt.prems have "ready (fst (disk w))" "good p" by (simp_all add: in_step_def)
  from stat_law [OF this] obtain found where "be_stat P (fst (disk w)) p = Inr found"
    "be_updated_at B (fst (disk w)) p = Inr (Option.bind found bi_updated)" by auto
  with UpdatedAt.prems synced_ready [OF UpdatedAt.prems(1)] show ?case
    by (auto simp: UpdatedAt.IH [OF rangeI] fo_updated_at_def fo_stat_def failed_over_def assms(3))
qed simp_all

end

section \<open>Two devices\<close>

lemma device_contract:
  "blob_store (local_backend L root) (local_view root) (local_put root) (local_remove root)
     (local_annotate root) (local_version L) (\<lambda>p. ''local storage version changed for '' @ p)
     blob_name (local_ready root)"
  by unfold_locales
     (auto simp: blob_name_def lf.download_law lf.versioned_law lf.exists_law lf.upload_law lf.create_law
       lf.swap_law lf.delete_law lf.metadata_law lf.store_simps)

interpretation au: authority "local_backend L root" "local_view root" "local_put root"
  "local_remove root" "local_annotate root" "local_version L"
  "\<lambda>p. ''local storage version changed for '' @ p" blob_name "local_ready root" "local_objects L root"
  for L root
proof (intro authority.intro authority_axioms.intro device_contract, goal_cases)
  case (2 s p)
  then have "p \<in> set (names_under root s p) \<longleftrightarrow> local_view root s p \<noteq> None"
    using names_under_sound [of root s p p] names_under_listable [of p p root s]
    by (auto simp: local_ready_named blob_name_listable starts_with_def)
  with 2 show ?case
    by (simp add: local_backend_def local_listing local_ready_named named_exactly_def list_ex_iff)
next
  case (3 s p)
  then show ?case
    by (simp add: local_backend_def local_updated_at_def local_stat_def local_path_plain blob_name_def
        bind_result_def modified_def)
qed (simp_all add: local_backend_def local_list_paths_def local_list_page_def local_listing
      local_ready_named Let_def split: listing.splits)

interpretation rp: replicated "local_backend L root" "local_view root" "local_put root"
  "local_remove root" "local_annotate root" "local_version L"
  "\<lambda>p. ''local storage version changed for '' @ p" blob_name "local_ready root" "local_objects L root"
  "local_backend L root'" "local_view root'" "local_put root'"
  "local_remove root'" "local_annotate root'" "local_version L"
  "\<lambda>p. ''local storage version changed for '' @ p" "local_ready root'" "local_objects L root'"
  for L root root'
  by (intro replicated.intro replicated_axioms.intro au.authority_axioms device_contract) simp

text \<open>A release object the primary has lost: stated present, served, and back on the primary.\<close>

lemma lost_object_healed:
  assumes "local_ready root d" and "blob_name p" and "heals_from_mirror p"
    and "local_view root d p = None" and "local_view root' d' p = Some b" and "local_named root' d'"
    and "fo_primary F = local_objects L root" and "fo_backup F = local_objects L root'"
  shows "fo_exists F (d, d') p = Inr True"
    and "fo_download_bytes F (d, d') p = (Inr (Some b), local_put root d p b, d')"
    and "local_view root (local_put root d p b) p = Some b"
proof -
  have plain: "plain_path p" using assms(2) by (simp add: blob_name_def)
  have "p \<notin> set (names_under root d p)"
    using names_under_sound [of root d p p] assms(1,4) by (auto simp: local_ready_named)
  then show "fo_exists F (d, d') p = Inr True"
    using assms plain
    by (simp add: fo_exists_def local_listing local_ready_named named_exactly_def list_ex_iff
        local_exists_def local_path_plain bind_result_def local_view_def)
  show "fo_download_bytes F (d, d') p = (Inr (Some b), local_put root d p b, d')"
    using assms plain
    by (simp add: fo_download_bytes_def mirrored_bytes_def local_download_bytes_def local_upload_bytes_def
        local_path_plain bind_result_def local_view_def local_ready_def local_put_def)
  show "local_view root (local_put root d p b) p = Some b"
    using lf.store_simps(1) [OF plain plain] by simp
qed

end
