(* ===== verification/Copy.thy ===== *)
theory Copy
  imports Objects
begin

text \<open>
  \<open>src/stado-rs/src/queue/copy/\<close>: the copy of a whole queue store to another, prefix by prefix, with a
  resume marker at the destination, and the pruning that makes a backup a replica. The source is read
  and never written, so its state is fixed during a run; the destination's state is threaded through.
  The bounded fan-out over the objects of a prefix is taken in the order of the listing, in which its
  results are collected. \<open>size'\<close> is the length of an object's bytes. Metadata keys are folded to lower
  case as ASCII. The construction of the two endpoints from the configuration is not modelled.
\<close>

section \<open>Reports\<close>

datatype outcome = Copied | MetadataRepaired | Skipped | Vanished | CopyFailed string

record object_report =
  or_name :: string
  or_bytes :: nat
  or_outcome :: outcome

record prefix_report =
  pr_prefix :: string
  pr_listing_error :: "string option"
  pr_objects :: "object_report list"

record copy_report =
  cr_prefixes :: "prefix_report list"
  cr_resumed_from :: string

fun is_failed :: "outcome \<Rightarrow> bool" where
  "is_failed (CopyFailed e) = True"
| "is_failed o' = False"

definition count_outcome :: "(outcome \<Rightarrow> bool) \<Rightarrow> prefix_report \<Rightarrow> nat" where
  "count_outcome predicate r = length (filter (\<lambda>ob. predicate (or_outcome ob)) (pr_objects r))"

definition copied_count :: "prefix_report \<Rightarrow> nat" where
  "copied_count r = count_outcome (\<lambda>x. x = Copied) r"

definition repaired_count :: "prefix_report \<Rightarrow> nat" where
  "repaired_count r = count_outcome (\<lambda>x. x = MetadataRepaired) r"

definition skipped_count :: "prefix_report \<Rightarrow> nat" where
  "skipped_count r = count_outcome (\<lambda>x. x = Skipped) r"

definition vanished_count :: "prefix_report \<Rightarrow> nat" where
  "vanished_count r = count_outcome (\<lambda>x. x = Vanished) r"

definition failures :: "prefix_report \<Rightarrow> object_report list" where
  "failures r = filter (\<lambda>ob. is_failed (or_outcome ob)) (pr_objects r)"

definition failed_count :: "prefix_report \<Rightarrow> nat" where
  "failed_count r = length (failures r) + (if pr_listing_error r = None then 0 else 1)"

definition bytes_written :: "prefix_report \<Rightarrow> nat" where
  "bytes_written r = sum_list (map or_bytes (pr_objects r))"

definition prefix_clean :: "prefix_report \<Rightarrow> bool" where
  "prefix_clean r \<longleftrightarrow> pr_listing_error r = None \<and> failures r = []"

definition report_clean :: "copy_report \<Rightarrow> bool" where
  "report_clean r \<longleftrightarrow> list_all prefix_clean (cr_prefixes r)"

section \<open>One object\<close>

definition lowercase_keys :: "(string \<times> string) list \<Rightarrow> string \<Rightarrow> string option" where
  "lowercase_keys metadata = map_of (rev (map (\<lambda>(key, value). (map to_ascii_lower key, value)) metadata))"

definition index_by_name :: "blob_info list \<Rightarrow> string \<Rightarrow> (string \<Rightarrow> string option) option" where
  "index_by_name blobs = map_of (rev (map (\<lambda>b. (bi_name b, lowercase_keys (bi_metadata b))) blobs))"

definition metadata_satisfied :: "(string \<Rightarrow> string option) \<Rightarrow> (string \<times> string) list \<Rightarrow> bool" where
  "metadata_satisfied landed wanted \<longleftrightarrow>
     list_all (\<lambda>(key, value). value = [] \<or> landed (map to_ascii_lower key) = Some value) wanted"

definition copy_body ::
  "('b \<Rightarrow> nat) \<Rightarrow> ('d, 'b) object_backend \<Rightarrow> 'd \<Rightarrow> blob_info \<Rightarrow> 'b \<Rightarrow> (nat \<times> outcome) \<times> 'd" where
  "copy_body size' D d blob body' =
     (case be_upload_bytes D d (bi_name blob) body' of
        (Inl e, d') \<Rightarrow> ((0, CopyFailed ''destination write failed''), d')
      | (Inr _, d') \<Rightarrow>
          if bi_metadata blob = [] then ((size' body', Copied), d')
          else (case be_set_metadata D d' (bi_name blob) (bi_metadata blob) of
                  (Inl e, d'') \<Rightarrow> ((0, CopyFailed ''metadata write failed''), d'')
                | (Inr _, d'') \<Rightarrow> ((size' body', Copied), d'')))"

definition copy_object ::
  "('b \<Rightarrow> nat) \<Rightarrow> ('s, 'b) object_backend \<Rightarrow> 's \<Rightarrow> ('d, 'b) object_backend \<Rightarrow> 'd \<Rightarrow> blob_info
   \<Rightarrow> (string \<Rightarrow> string option) option \<Rightarrow> (nat \<times> outcome) \<times> 'd" where
  "copy_object size' S s D d blob landed =
     (case be_download_bytes S s (bi_name blob) of
        Inl e \<Rightarrow> ((0, CopyFailed ''source read failed''), d)
      | Inr None \<Rightarrow> ((0, Vanished), d)
      | Inr (Some body') \<Rightarrow>
          (case landed of
             None \<Rightarrow> copy_body size' D d blob body'
           | Some there \<Rightarrow>
               (case be_download_bytes D d (bi_name blob) of
                  Inl e \<Rightarrow> ((0, CopyFailed ''destination read failed''), d)
                | Inr existing \<Rightarrow>
                    if existing = Some body' then
                      (if metadata_satisfied there (bi_metadata blob) then ((0, Skipped), d)
                       else (case be_set_metadata D d (bi_name blob) (bi_metadata blob) of
                               (Inl e, d') \<Rightarrow> ((0, CopyFailed ''metadata write failed''), d')
                             | (Inr _, d') \<Rightarrow> ((0, MetadataRepaired), d')))
                    else copy_body size' D d blob body')))"

fun copy_each ::
  "('b \<Rightarrow> nat) \<Rightarrow> ('s, 'b) object_backend \<Rightarrow> 's \<Rightarrow> ('d, 'b) object_backend \<Rightarrow> 'd
   \<Rightarrow> (string \<Rightarrow> (string \<Rightarrow> string option) option) \<Rightarrow> blob_info list \<Rightarrow> object_report list \<times> 'd" where
  "copy_each size' S s D d present [] = ([], d)"
| "copy_each size' S s D d present (blob # blobs) =
     (let ((n, o'), d1) = copy_object size' S s D d blob (present (bi_name blob));
          (rs, d2) = copy_each size' S s D d1 present blobs
      in (\<lparr>or_name = bi_name blob, or_bytes = n, or_outcome = o'\<rparr> # rs, d2))"

section \<open>One prefix\<close>

definition wrote :: "outcome \<Rightarrow> bool" where
  "wrote o' \<longleftrightarrow> o' = Copied \<or> o' = MetadataRepaired"

definition verified ::
  "(string \<Rightarrow> (string \<Rightarrow> string option) option) \<Rightarrow> blob_info \<Rightarrow> object_report \<Rightarrow> object_report" where
  "verified landed blob ob =
     (if \<not> wrote (or_outcome ob) then ob
      else (case landed (bi_name blob) of
              None \<Rightarrow> ob\<lparr>or_bytes := 0, or_outcome :=
                CopyFailed ''object is absent from the destination listing after the write''\<rparr>
            | Some found \<Rightarrow>
                if \<not> metadata_satisfied found (bi_metadata blob)
                then ob\<lparr>or_bytes := 0, or_outcome := CopyFailed ''metadata did not land''\<rparr>
                else ob))"

definition verify_metadata ::
  "('d, 'b) object_backend \<Rightarrow> 'd \<Rightarrow> string \<Rightarrow> blob_info list \<Rightarrow> prefix_report \<Rightarrow> prefix_report" where
  "verify_metadata D d prefix blobs report =
     (if \<not> list_ex (\<lambda>ob. wrote (or_outcome ob)) (pr_objects report) then report
      else (case be_list_blobs_with_meta D d prefix of
              Inl e \<Rightarrow> report\<lparr>pr_listing_error := Some ''metadata verification listing failed''\<rparr>
            | Inr found \<Rightarrow> report\<lparr>pr_objects :=
                map2 (verified (index_by_name found)) blobs (pr_objects report)\<rparr>))"

definition copy_prefix ::
  "('b \<Rightarrow> nat) \<Rightarrow> ('s, 'b) object_backend \<Rightarrow> 's \<Rightarrow> ('d, 'b) object_backend \<Rightarrow> 'd \<Rightarrow> string
   \<Rightarrow> prefix_report \<times> 'd" where
  "copy_prefix size' S s D d prefix =
     (let report = \<lparr>pr_prefix = prefix, pr_listing_error = None, pr_objects = []\<rparr>
      in case be_list_blobs_with_meta S s prefix of
           Inl e \<Rightarrow> (report\<lparr>pr_listing_error := Some ''source listing failed''\<rparr>, d)
         | Inr blobs \<Rightarrow>
             if blobs = [] then (report, d)
             else (case be_list_blobs_with_meta D d prefix of
                     Inl e \<Rightarrow> (report\<lparr>pr_listing_error := Some ''destination listing failed''\<rparr>, d)
                   | Inr existing \<Rightarrow>
                       (let (objects, d') = copy_each size' S s D d (index_by_name existing) blobs
                        in (verify_metadata D d' prefix blobs (report\<lparr>pr_objects := objects\<rparr>), d'))))"

section \<open>The resume marker\<close>

definition copy_sentinel_path :: string where
  "copy_sentinel_path = ''storage_copy/.copy.json''"

record copy_sentinel =
  cs_cursor :: string
  cs_copied :: nat
  cs_repaired :: nat
  cs_skipped :: nat
  cs_vanished :: nat
  cs_failed :: nat
  cs_bytes :: nat

definition fresh_sentinel :: copy_sentinel where
  "fresh_sentinel = \<lparr>cs_cursor = [], cs_copied = 0, cs_repaired = 0, cs_skipped = 0, cs_vanished = 0,
     cs_failed = 0, cs_bytes = 0\<rparr>"

definition sentinel_number :: "json \<Rightarrow> string \<Rightarrow> storage_error + nat" where
  "sentinel_number v key =
     (case get_key v key of
        None \<Rightarrow> Inr 0
      | Some JNull \<Rightarrow> Inr 0
      | Some member \<Rightarrow> ok_or (Other (''the copy sentinel holds '' @ key @ '', not a count'')) (as_u64 member))"

definition sentinel_from_value :: "json \<Rightarrow> storage_error + copy_sentinel" where
  "sentinel_from_value v =
     bind_result (case get_key v ''cursor'' of
         None \<Rightarrow> Inr []
       | Some JNull \<Rightarrow> Inr []
       | Some (JStr cursor) \<Rightarrow> Inr cursor
       | Some _ \<Rightarrow> Inl (Other ''the copy sentinel holds a cursor that is no object name'')) (\<lambda>cursor.
     bind_result (sentinel_number v ''copied'') (\<lambda>copied.
     bind_result (sentinel_number v ''repaired'') (\<lambda>repaired.
     bind_result (sentinel_number v ''skipped'') (\<lambda>skipped.
     bind_result (sentinel_number v ''vanished'') (\<lambda>vanished.
     bind_result (sentinel_number v ''failed'') (\<lambda>failed.
     bind_result (sentinel_number v ''bytes'') (\<lambda>bytes.
       Inr \<lparr>cs_cursor = cursor, cs_copied = copied, cs_repaired = repaired, cs_skipped = skipped,
            cs_vanished = vanished, cs_failed = failed, cs_bytes = bytes\<rparr>)))))))"

definition read_copy_sentinel :: "('d, 'b) object_backend \<Rightarrow> 'd \<Rightarrow> storage_error + copy_sentinel" where
  "read_copy_sentinel D d =
     bind_result (be_download_text D d copy_sentinel_path) (\<lambda>found.
       case found of
         None \<Rightarrow> Inr fresh_sentinel
       | Some (Json v) \<Rightarrow> sentinel_from_value v
       | Some raw \<Rightarrow> if raw = Raw [] then Inr fresh_sentinel else Inl JsonError)"

definition sentinel_to_body :: "copy_sentinel \<Rightarrow> body" where
  "sentinel_to_body st = Json (JObj [
     (''cursor'', JStr (cs_cursor st)), (''copied'', JInt (int (cs_copied st))),
     (''repaired'', JInt (int (cs_repaired st))), (''skipped'', JInt (int (cs_skipped st))),
     (''vanished'', JInt (int (cs_vanished st))), (''failed'', JInt (int (cs_failed st))),
     (''bytes'', JInt (int (cs_bytes st)))])"

definition write_copy_sentinel ::
  "('d, 'b) object_backend \<Rightarrow> 'd \<Rightarrow> copy_sentinel \<Rightarrow> (storage_error + unit) \<times> 'd" where
  "write_copy_sentinel D d st = be_upload_text D d copy_sentinel_path (sentinel_to_body st)"

section \<open>A run\<close>

definition canonical_prefixes :: "string list" where
  "canonical_prefixes = [''queue/'', ''job-transitions/'', ''running/'', ''completed/'', ''uploaded/'',
     ''failed/'', ''cancelled/'', ''queue_priority/'', ''scripts/'', ''status/'', ''capacity/'',
     ''provider-leases/'', ''runs/'', ''fixed/'', ''failed_again/'', ''schedules/'', ''cancellations/'',
     ''machine_requests/'', ''machine_inputs/'', ''config/'', ''state/'', ''operations/'',
     ''failure_fixes/'', ''coverage/'', ''host_health/'', ''billing_health/'', ''hf_rate/'',
     ''artifacts/'', ''ecosystem/'', ''registry.json'']"

definition selected_prefixes :: "string list \<Rightarrow> string list" where
  "selected_prefixes requested = (if requested = [] then canonical_prefixes else requested)"

fun position :: "'a \<Rightarrow> 'a list \<Rightarrow> nat option" where
  "position a [] = None"
| "position a (x # xs) = (if x = a then Some 0 else map_option Suc (position a xs))"

definition resume_index :: "string list \<Rightarrow> string \<Rightarrow> bool \<Rightarrow> nat option" where
  "resume_index prefixes cursor full_run =
     (if \<not> full_run \<or> cursor = [] then None else position cursor prefixes)"

definition resume_split :: "string list \<Rightarrow> string \<Rightarrow> bool \<Rightarrow> string \<times> string list" where
  "resume_split prefixes cursor full_run =
     (case resume_index prefixes cursor full_run of
        None \<Rightarrow> ([], prefixes)
      | Some index \<Rightarrow>
          (case drop index prefixes of
             done # rest \<Rightarrow> if rest \<noteq> [] then (done, rest) else ([], prefixes)
           | [] \<Rightarrow> ([], prefixes)))"

text \<open>Counts saturate at the width of their type.\<close>

definition saturating_add :: "nat \<Rightarrow> nat \<Rightarrow> nat" where
  "saturating_add a b = min (a + b) (2 ^ 64 - 1)"

definition tally_prefix :: "copy_sentinel \<Rightarrow> prefix_report \<Rightarrow> copy_sentinel" where
  "tally_prefix st r = st\<lparr>cs_copied := saturating_add (cs_copied st) (copied_count r),
     cs_repaired := saturating_add (cs_repaired st) (repaired_count r),
     cs_skipped := saturating_add (cs_skipped st) (skipped_count r),
     cs_vanished := saturating_add (cs_vanished st) (vanished_count r),
     cs_failed := saturating_add (cs_failed st) (failed_count r),
     cs_bytes := saturating_add (cs_bytes st) (bytes_written r)\<rparr>"

fun copy_remaining ::
  "('b \<Rightarrow> nat) \<Rightarrow> ('s, 'b) object_backend \<Rightarrow> 's \<Rightarrow> ('d, 'b) object_backend \<Rightarrow> 'd \<Rightarrow> copy_sentinel \<Rightarrow> bool
   \<Rightarrow> string list \<Rightarrow> (storage_error + prefix_report list \<times> copy_sentinel \<times> bool) \<times> 'd" where
  "copy_remaining size' S s D d st open' [] = (Inr ([], st, open'), d)"
| "copy_remaining size' S s D d st open' (prefix # prefixes) =
     (let (r, d1) = copy_prefix size' S s D d prefix;
          open1 = (open' \<and> prefix_clean r);
          st1 = (tally_prefix st r)\<lparr>cs_cursor := (if open1 then prefix else cs_cursor st)\<rparr>
      in case write_copy_sentinel D d1 st1 of
           (Inl e, d2) \<Rightarrow> (Inl e, d2)
         | (Inr _, d2) \<Rightarrow>
             (case copy_remaining size' S s D d2 st1 open1 prefixes of
                (Inl e, d3) \<Rightarrow> (Inl e, d3)
              | (Inr (rs, st2, open2), d3) \<Rightarrow> (Inr (r # rs, st2, open2), d3)))"

definition copy_store ::
  "('b \<Rightarrow> nat) \<Rightarrow> ('s, 'b) object_backend \<Rightarrow> 's \<Rightarrow> ('d, 'b) object_backend \<Rightarrow> 'd \<Rightarrow> string list
   \<Rightarrow> (storage_error + copy_report) \<times> 'd" where
  "copy_store size' S s D d requested =
     (let prefixes = selected_prefixes requested
      in case read_copy_sentinel D d of
           Inl e \<Rightarrow> (Inl e, d)
         | Inr st \<Rightarrow>
             (let (resumed_from, remaining) = resume_split prefixes (cs_cursor st) (requested = [])
              in case copy_remaining size' S s D d st True remaining of
                   (Inl e, d1) \<Rightarrow> (Inl e, d1)
                 | (Inr (rs, st1, open'), d1) \<Rightarrow>
                     let report = \<lparr>cr_prefixes = rs, cr_resumed_from = resumed_from\<rparr>
                     in if open' then
                          (case write_copy_sentinel D d1 (st1\<lparr>cs_cursor := []\<rparr>) of
                             (Inl e, d2) \<Rightarrow> (Inl e, d2)
                           | (Inr _, d2) \<Rightarrow> (Inr report, d2))
                        else (Inr report, d1)))"

section \<open>The plan of a run\<close>

record prefix_plan =
  pp_prefix :: string
  pp_source_objects :: nat
  pp_already_at_destination :: nat
  pp_fast_forward :: bool

definition plan_prefix ::
  "('s, 'b) object_backend \<Rightarrow> 's \<Rightarrow> ('d, 'b) object_backend \<Rightarrow> 'd \<Rightarrow> nat \<Rightarrow> nat \<times> string
   \<Rightarrow> storage_error + prefix_plan" where
  "plan_prefix S s D d fast_forwarded ip =
     (case ip of (index, prefix) \<Rightarrow>
        bind_result (be_list_blobs_with_meta S s prefix) (\<lambda>blobs.
        bind_result (be_list_blobs_with_meta D d prefix) (\<lambda>existing.
          Inr \<lparr>pp_prefix = prefix, pp_source_objects = length blobs,
               pp_already_at_destination =
                 length (filter (\<lambda>b. index_by_name existing (bi_name b) \<noteq> None) blobs),
               pp_fast_forward = (index < fast_forwarded)\<rparr>)))"

definition plan_copy ::
  "('s, 'b) object_backend \<Rightarrow> 's \<Rightarrow> ('d, 'b) object_backend \<Rightarrow> 'd \<Rightarrow> string list
   \<Rightarrow> storage_error + prefix_plan list \<times> string" where
  "plan_copy S s D d requested =
     (let prefixes = selected_prefixes requested
      in bind_result (read_copy_sentinel D d) (\<lambda>st.
           let (resumed_from, remaining) = resume_split prefixes (cs_cursor st) (requested = []);
               fast_forwarded = length prefixes - length remaining
           in bind_result (collect_results
                (map (plan_prefix S s D d fast_forwarded) (List.enumerate 0 prefixes)))
                (\<lambda>planned. Inr (planned, resumed_from))))"

section \<open>The replica\<close>

fun prune_each ::
  "('s, 'b) object_backend \<Rightarrow> 's \<Rightarrow> ('d, 'b) object_backend \<Rightarrow> 'd \<Rightarrow> string list
   \<Rightarrow> (storage_error + unit) \<times> 'd" where
  "prune_each S s D d [] = (Inr (), d)"
| "prune_each S s D d (stale # names) =
     (if stale = copy_sentinel_path then prune_each S s D d names
      else (case be_exists S s stale of
              Inl e \<Rightarrow> (Inl e, d)
            | Inr True \<Rightarrow> prune_each S s D d names
            | Inr False \<Rightarrow>
                (case be_delete D d stale of
                   (Inl e, d') \<Rightarrow> (Inl e, d')
                 | (Inr _, d') \<Rightarrow> prune_each S s D d' names)))"

definition prune_backup_extras ::
  "('s, 'b) object_backend \<Rightarrow> 's \<Rightarrow> ('d, 'b) object_backend \<Rightarrow> 'd \<Rightarrow> (storage_error + unit) \<times> 'd" where
  "prune_backup_extras S s D d =
     (case be_list_blobs_with_meta S s [] of
        Inl e \<Rightarrow> (Inl e, d)
      | Inr source \<Rightarrow>
          (case be_list_blobs_with_meta D d [] of
             Inl e \<Rightarrow> (Inl e, d)
           | Inr destination \<Rightarrow>
               prune_each S s D d
                 (filter (\<lambda>n. n \<notin> set (map bi_name source))
                   (sort (remdups (map bi_name destination))))))"

text \<open>\<open>replicate_configured_backup\<close>, from the two built endpoints on.\<close>

definition replicate_backup ::
  "('b \<Rightarrow> nat) \<Rightarrow> ('s, 'b) object_backend \<Rightarrow> 's \<Rightarrow> ('d, 'b) object_backend \<Rightarrow> 'd
   \<Rightarrow> (storage_error + copy_report) \<times> 'd" where
  "replicate_backup size' S s D d =
     (case copy_store size' S s D d [] of
        (Inl e, d1) \<Rightarrow> (Inl e, d1)
      | (Inr report, d1) \<Rightarrow>
          if report_clean report
          then (case prune_backup_extras S s D d1 of
                  (Inl e, d2) \<Rightarrow> (Inl e, d2)
                | (Inr _, d2) \<Rightarrow> (Inr report, d2))
          else (Inr report, d1))"

section \<open>What a clean run leaves\<close>

locale copying =
    source: object_store S sbytes served slisted ssane +
    dest: object_store D dbytes served dlisted dsane
  for S :: "('s, 'b) object_backend" and sbytes and served :: "string \<Rightarrow> bool" and slisted ssane
    and D :: "('d, 'b) object_backend" and dbytes dlisted dsane +
  assumes sentinel_served: "served copy_sentinel_path"
begin

abbreviation agree :: "'s \<Rightarrow> 'd \<Rightarrow> string \<Rightarrow> bool" where
  "agree s d q \<equiv> dbytes d q = sbytes s q"

lemma copy_body_ok:
  assumes "dsane d" and "served (bi_name blob)" and "copy_body size' D d blob b = ((n, o'), d')"
  shows "dsane d' \<and> (\<not> is_failed o' \<longrightarrow> o' = Copied \<and> dbytes d' (bi_name blob) = Some b) \<and>
    (\<forall>q. served q \<longrightarrow> q \<noteq> bi_name blob \<longrightarrow> dbytes d' q = dbytes d q)"
proof -
  obtain r d1 where up: "be_upload_bytes D d (bi_name blob) b = (r, d1)" by fastforce
  from dest.upload_law [OF assms(1,2) up]
  have d1: "dsane d1" "r = Inr () \<Longrightarrow> dbytes d1 (bi_name blob) = Some b"
    "\<And>q. served q \<Longrightarrow> q \<noteq> bi_name blob \<Longrightarrow> dbytes d1 q = dbytes d q" by blast+
  obtain r2 d2 where set: "be_set_metadata D d1 (bi_name blob) (bi_metadata blob) = (r2, d2)" by fastforce
  from dest.annotate_law [OF d1(1) assms(2) set]
  have d2: "dsane d2" "\<And>q. served q \<Longrightarrow> dbytes d2 q = dbytes d1 q" by blast+
  show ?thesis
    using assms(2,3) d1 d2 by (auto simp: copy_body_def up set split: sum.splits if_splits)
qed

lemma copy_object_ok:
  assumes "ssane s" and "dsane d" and "served (bi_name blob)"
    and "copy_object size' S s D d blob landed = ((n, o'), d')"
  shows "dsane d' \<and> (\<not> is_failed o' \<longrightarrow> sbytes s (bi_name blob) \<noteq> None \<longrightarrow> agree s d' (bi_name blob)) \<and>
    (\<not> is_failed o' \<longrightarrow> sbytes s (bi_name blob) = None \<longrightarrow> d' = d) \<and>
    (\<forall>q. served q \<longrightarrow> q \<noteq> bi_name blob \<longrightarrow> dbytes d' q = dbytes d q)"
proof (cases "be_download_bytes S s (bi_name blob)")
  case (Inl e)
  then show ?thesis using assms(2,4) by (auto simp: copy_object_def)
next
  case (Inr found)
  then have found: "found = sbytes s (bi_name blob)" using source.bytes_law assms(1,3) by blast
  show ?thesis
  proof (cases found)
    case None
    then show ?thesis using assms(2,4) Inr found by (auto simp: copy_object_def)
  next
    case (Some b)
    note body = copy_body_ok [OF assms(2,3), of size' b n o' d']
    have other: "copy_body size' D d blob b = ((n, o'), d') \<Longrightarrow> ?thesis"
      using body found Some by auto
    obtain r1 d1 where set: "be_set_metadata D d (bi_name blob) (bi_metadata blob) = (r1, d1)" by fastforce
    from dest.annotate_law [OF assms(2,3) set]
    have d1: "dsane d1" "\<And>q. served q \<Longrightarrow> dbytes d1 q = dbytes d q" by blast+
    have there: "be_download_bytes D d (bi_name blob) = Inr (Some b) \<Longrightarrow> dbytes d (bi_name blob) = Some b"
      using dest.bytes_law assms(2,3) by metis
    show ?thesis
      using assms(2-4) Inr found Some other d1 there
      by (auto simp: copy_object_def set split: option.splits sum.splits if_splits)
  qed
qed

text \<open>A clean pass copies every object it was given, and keeps what already agreed.\<close>

lemma copy_each_ok:
  assumes "ssane s" and "dsane d" and "\<forall>b \<in> set blobs. served (bi_name b)"
    and "copy_each size' S s D d present blobs = (rs, d')"
  shows "dsane d' \<and> length rs = length blobs \<and>
    (list_all (\<lambda>ob. \<not> is_failed (or_outcome ob)) rs \<longrightarrow>
      (\<forall>q. served q \<longrightarrow> agree s d q \<longrightarrow> agree s d' q) \<and>
      (\<forall>b \<in> set blobs. sbytes s (bi_name b) \<noteq> None \<longrightarrow> agree s d' (bi_name b))) \<and>
    (\<forall>q. served q \<longrightarrow> q \<notin> bi_name ` set blobs \<longrightarrow> dbytes d' q = dbytes d q)"
  using assms(2-4)
proof (induction blobs arbitrary: d rs)
  case (Cons blob blobs)
  obtain n o' d1 where one: "copy_object size' S s D d blob (present (bi_name blob)) = ((n, o'), d1)"
    by (metis surj_pair)
  obtain rs' where rest: "copy_each size' S s D d1 present blobs = (rs', d')"
    and eq: "rs = \<lparr>or_name = bi_name blob, or_bytes = n, or_outcome = o'\<rparr> # rs'"
    using Cons.prems(3) by (auto simp: one split: prod.splits)
  from copy_object_ok [OF assms(1) Cons.prems(1) _ one] Cons.prems(2)
  have o: "dsane d1"
      "\<not> is_failed o' \<Longrightarrow> sbytes s (bi_name blob) \<noteq> None \<Longrightarrow> agree s d1 (bi_name blob)"
      "\<not> is_failed o' \<Longrightarrow> sbytes s (bi_name blob) = None \<Longrightarrow> d1 = d"
      "\<And>q. served q \<Longrightarrow> q \<noteq> bi_name blob \<Longrightarrow> dbytes d1 q = dbytes d q"
    by auto
  have keep: "\<not> is_failed o' \<Longrightarrow> served q \<Longrightarrow> agree s d q \<Longrightarrow> agree s d1 q" for q
    using o(2-4) by metis
  note ih = Cons.IH [OF o(1) _ rest]
  show ?case
    unfolding eq using ih o(2,4) keep Cons.prems(2) by auto
qed simp

lemma verify_clean:
  assumes "length (pr_objects r) = length blobs" and "prefix_clean (verify_metadata D d prefix blobs r)"
  shows "prefix_clean r"
proof -
  have keeps: "is_failed (or_outcome ob) \<Longrightarrow> verified landed blob ob = ob" for landed blob ob
    by (cases "or_outcome ob") (simp_all add: verified_def wrote_def)
  have "ob \<in> set obs \<Longrightarrow> is_failed (or_outcome ob) \<Longrightarrow> length obs = length blobs \<Longrightarrow>
      \<exists>x \<in> set (map2 (verified landed) blobs obs). is_failed (or_outcome x)" for ob obs landed
  proof (induction blobs obs rule: list_induct2')
    case (4 b bs x xs)
    then show ?case using keeps by auto
  qed auto
  then show ?thesis
    using assms
    by (fastforce simp: verify_metadata_def prefix_clean_def failures_def filter_empty_conv
        split: if_splits sum.splits)
qed

lemma copy_prefix_ok:
  assumes "ssane s" and "dsane d" and "copy_prefix size' S s D d prefix = (r, d')"
  shows "dsane d' \<and> pr_prefix r = prefix \<and>
    (prefix_clean r \<longrightarrow>
      (\<forall>q. served q \<longrightarrow> agree s d q \<longrightarrow> agree s d' q) \<and>
      (slisted prefix \<longrightarrow> (\<forall>q. served q \<longrightarrow> starts_with q prefix \<longrightarrow> sbytes s q \<noteq> None \<longrightarrow> agree s d' q))) \<and>
    (\<forall>q. served q \<longrightarrow> sbytes s q = None \<longrightarrow> dbytes d' q = dbytes d q)"
proof (cases "be_list_blobs_with_meta S s prefix")
  case (Inl e)
  then show ?thesis using assms by (auto simp: copy_prefix_def prefix_clean_def Let_def)
next
  case (Inr blobs)
  note list = source.listing_law [OF assms(1) Inr]
  show ?thesis
  proof (cases "blobs = [] \<or> (\<exists>e. be_list_blobs_with_meta D d prefix = Inl e)")
    case True
    then show ?thesis
      using assms Inr list by (auto simp: copy_prefix_def prefix_clean_def Let_def split: if_splits)
  next
    case False
    then obtain existing where there: "be_list_blobs_with_meta D d prefix = Inr existing"
      by (cases "be_list_blobs_with_meta D d prefix") auto
    obtain rs d1 where each: "copy_each size' S s D d (index_by_name existing) blobs = (rs, d1)" by fastforce
    let ?r = "\<lparr>pr_prefix = prefix, pr_listing_error = None, pr_objects = rs\<rparr>"
    have eq: "r = verify_metadata D d1 prefix blobs ?r" "d' = d1"
      using assms(3) False Inr there each by (auto simp: copy_prefix_def Let_def)
    from copy_each_ok [OF assms(1,2) _ each] list
    have ok: "dsane d1" "length rs = length blobs"
      and clean: "list_all (\<lambda>ob. \<not> is_failed (or_outcome ob)) rs \<Longrightarrow>
        (\<forall>q. served q \<longrightarrow> agree s d q \<longrightarrow> agree s d1 q) \<and>
        (\<forall>b \<in> set blobs. sbytes s (bi_name b) \<noteq> None \<longrightarrow> agree s d1 (bi_name b))"
      and others: "\<And>q. served q \<Longrightarrow> q \<notin> bi_name ` set blobs \<Longrightarrow> dbytes d1 q = dbytes d q"
      by auto
    have "pr_prefix r = prefix" unfolding eq(1) by (auto simp: verify_metadata_def split: sum.splits)
    moreover have "prefix_clean r \<Longrightarrow> list_all (\<lambda>ob. \<not> is_failed (or_outcome ob)) rs"
      using verify_clean [of ?r blobs d1 prefix] ok(2) unfolding eq(1)
      by (simp add: prefix_clean_def failures_def filter_empty_conv list_all_iff)
    moreover have "served q \<Longrightarrow> sbytes s q = None \<Longrightarrow> dbytes d1 q = dbytes d q" for q
      using others [of q] list by (metis imageE)
    ultimately show ?thesis unfolding eq(2) using ok(1) clean list by blast
  qed
qed

lemma copy_remaining_ok:
  assumes "ssane s" and "dsane d"
    and "copy_remaining size' S s D d st open' prefixes = (Inr (rs, st', open''), d')"
  shows "dsane d' \<and> map pr_prefix rs = prefixes \<and>
    (\<forall>q. served q \<longrightarrow> q \<noteq> copy_sentinel_path \<longrightarrow> sbytes s q = None \<longrightarrow> dbytes d' q = dbytes d q) \<and>
    (list_all prefix_clean rs \<longrightarrow> (\<forall>q. served q \<longrightarrow> q \<noteq> copy_sentinel_path \<longrightarrow>
      (agree s d q \<longrightarrow> agree s d' q) \<and>
      (\<forall>r \<in> set rs. slisted (pr_prefix r) \<longrightarrow> starts_with q (pr_prefix r) \<longrightarrow> sbytes s q \<noteq> None \<longrightarrow>
        agree s d' q)))"
  using assms(2,3)
proof (induction prefixes arbitrary: d st open' rs)
  case (Cons prefix prefixes)
  obtain r d1 where one: "copy_prefix size' S s D d prefix = (r, d1)" by fastforce
  let ?open = "open' \<and> prefix_clean r"
  let ?st = "(tally_prefix st r)\<lparr>cs_cursor := (if ?open then prefix else cs_cursor st)\<rparr>"
  obtain a d2 where w: "write_copy_sentinel D d1 ?st = (a, d2)" by fastforce
  obtain rs' where rest: "copy_remaining size' S s D d2 ?st ?open prefixes = (Inr (rs', st', open''), d')"
    and rs: "rs = r # rs'"
    using Cons.prems(2) by (auto simp: one w Let_def split: sum.splits prod.splits)
  note p = copy_prefix_ok [OF assms(1) Cons.prems(1) one]
  from p have d1: "dsane d1" by blast
  from dest.text_law [OF d1 sentinel_served w [unfolded write_copy_sentinel_def]]
  have d2: "dsane d2" and same: "\<And>q. served q \<Longrightarrow> q \<noteq> copy_sentinel_path \<Longrightarrow> dbytes d2 q = dbytes d1 q"
    by blast+
  note ih = Cons.IH [OF d2 rest]
  show ?case unfolding rs using ih p same by simp
qed simp

lemma resume_split_suffix:
  assumes "resume_split prefixes cursor full = (from, remaining)"
  shows "(\<exists>before. prefixes = before @ remaining) \<and> (from = [] \<longrightarrow> remaining = prefixes)"
proof (cases "resume_index prefixes cursor full")
  case None
  then show ?thesis using assms by (auto simp: resume_split_def)
next
  case (Some i)
  then have "cursor \<noteq> []" and pos: "position cursor prefixes = Some i"
    by (auto simp: resume_index_def split: if_splits)
  have "position a xs = Some j \<Longrightarrow> \<exists>ys. drop j xs = a # ys" for a :: string and xs j
    by (induction xs arbitrary: j) (auto split: if_splits)
  from this [OF pos] obtain ys where drop: "drop i prefixes = cursor # ys" by blast
  then have "prefixes = (take i prefixes @ [cursor]) @ ys"
    by (metis append_take_drop_id append.assoc append_Cons append_Nil)
  then have "\<exists>before. prefixes = before @ ys" by blast
  moreover have "(from, remaining) = (if ys \<noteq> [] then (cursor, ys) else ([], prefixes))"
    using assms Some drop by (simp add: resume_split_def)
  ultimately show ?thesis using \<open>cursor \<noteq> []\<close> by (auto split: if_splits)
qed

lemma copy_store_ok:
  assumes "ssane s" and "dsane d" and "copy_store size' S s D d requested = (Inr rep, d')"
  shows "dsane d' \<and>
    (cr_resumed_from rep = [] \<longrightarrow> map pr_prefix (cr_prefixes rep) = selected_prefixes requested) \<and>
    (\<forall>q. served q \<longrightarrow> q \<noteq> copy_sentinel_path \<longrightarrow> sbytes s q = None \<longrightarrow> dbytes d' q = dbytes d q) \<and>
    (report_clean rep \<longrightarrow> (\<forall>q. served q \<longrightarrow> q \<noteq> copy_sentinel_path \<longrightarrow>
      (agree s d q \<longrightarrow> agree s d' q) \<and>
      (\<forall>r \<in> set (cr_prefixes rep). slisted (pr_prefix r) \<longrightarrow> starts_with q (pr_prefix r) \<longrightarrow>
        sbytes s q \<noteq> None \<longrightarrow> agree s d' q)))"
proof -
  obtain st where st: "read_copy_sentinel D d = Inr st"
    using assms(3) by (auto simp: copy_store_def Let_def split: sum.splits)
  obtain from' remaining where split:
    "resume_split (selected_prefixes requested) (cs_cursor st) (requested = []) = (from', remaining)" by fastforce
  obtain rs st1 open' d1 where loop: "copy_remaining size' S s D d st True remaining = (Inr (rs, st1, open'), d1)"
    using assms(3) by (auto simp: copy_store_def Let_def st split split: sum.splits prod.splits)
  obtain a d2 where w: "write_copy_sentinel D d1 (st1\<lparr>cs_cursor := []\<rparr>) = (a, d2)" by fastforce
  note r = copy_remaining_ok [OF assms(1,2) loop]
  from r have d1: "dsane d1" by blast
  from dest.text_law [OF d1 sentinel_served w [unfolded write_copy_sentinel_def]]
  have d2: "dsane d2" "\<And>q. served q \<Longrightarrow> q \<noteq> copy_sentinel_path \<Longrightarrow> dbytes d2 q = dbytes d1 q" by blast+
  have rep: "rep = \<lparr>cr_prefixes = rs, cr_resumed_from = from'\<rparr>" and d': "d' = d1 \<or> d' = d2"
    using assms(3) by (auto simp: copy_store_def Let_def st split loop w split: sum.splits if_splits)
  have same: "dsane d' \<and> (\<forall>q. served q \<longrightarrow> q \<noteq> copy_sentinel_path \<longrightarrow> dbytes d' q = dbytes d1 q)"
    using d' d1 d2 by blast
  show ?thesis
    using r same resume_split_suffix [OF split] by (simp add: rep report_clean_def)
qed

lemma prune_each_ok:
  assumes "ssane s" and "dsane d" and "\<forall>n \<in> set names. served n"
    and "prune_each S s D d names = (Inr (), d')"
  shows "dsane d' \<and> (\<forall>q. served q \<longrightarrow> dbytes d' q =
    (if q \<in> set names \<and> q \<noteq> copy_sentinel_path \<and> sbytes s q = None then None else dbytes d q))"
  using assms(2-4)
proof (induction names arbitrary: d)
  case (Cons n names)
  show ?case
  proof (cases "n = copy_sentinel_path")
    case True
    then show ?thesis using Cons.IH [OF Cons.prems(1)] Cons.prems(2,3) by auto
  next
    case False
    from Cons.prems(2) have n: "served n" by simp
    obtain there where there: "be_exists S s n = Inr there"
      using Cons.prems(3) False by (auto split: sum.splits)
    from source.exists_law [OF assms(1) n this] have iff: "there \<longleftrightarrow> sbytes s n \<noteq> None" .
    obtain r d1 where del: "be_delete D d n = (r, d1)" by fastforce
    from dest.delete_law [OF Cons.prems(1) n del]
    have d1: "dsane d1" "r = Inr () \<Longrightarrow> dbytes d1 n = None"
      "\<And>q. served q \<Longrightarrow> q \<noteq> n \<Longrightarrow> dbytes d1 q = dbytes d q" by blast+
    show ?thesis
    proof (cases there)
      case True
      then show ?thesis using Cons.IH [OF Cons.prems(1)] Cons.prems(2,3) False there iff by auto
    next
      case gone: False
      then have run: "r = Inr ()" "prune_each S s D d1 names = (Inr (), d')"
        using Cons.prems(3) False there by (auto simp: del split: sum.splits)
      have ih: "dsane d'" "served q \<Longrightarrow> dbytes d' q =
          (if q \<in> set names \<and> q \<noteq> copy_sentinel_path \<and> sbytes s q = None then None else dbytes d1 q)" for q
        using Cons.IH [OF d1(1) _ run(2)] Cons.prems(2) by auto
      have "served q \<Longrightarrow> dbytes d' q =
          (if q \<in> set (n # names) \<and> q \<noteq> copy_sentinel_path \<and> sbytes s q = None then None else dbytes d q)" for q
        using ih(2) [of q] d1(2) [OF run(1)] d1(3) [of q] False iff gone by (cases "q = n") simp_all
      with ih(1) show ?thesis by blast
    qed
  qed
qed simp

lemma prune_ok:
  assumes "ssane s" and "dsane d" and "slisted []" and "dlisted []"
    and "prune_backup_extras S s D d = (Inr (), d')" and "served q" and "q \<noteq> copy_sentinel_path"
  shows "dbytes d' q = (if sbytes s q = None then None else dbytes d q)"
proof -
  obtain source' destination where l: "be_list_blobs_with_meta S s [] = Inr source'"
    "be_list_blobs_with_meta D d [] = Inr destination"
    using assms(5) by (auto simp: prune_backup_extras_def split: sum.splits)
  let ?names = "filter (\<lambda>n. n \<notin> set (map bi_name source')) (sort (remdups (map bi_name destination)))"
  have run: "prune_each S s D d ?names = (Inr (), d')"
    using assms(5) by (simp add: prune_backup_extras_def l)
  note ls = source.listing_law [OF assms(1) l(1)] and ld = dest.listing_law [OF assms(2) l(2)]
  have "\<forall>n \<in> set ?names. served n" using ld by auto
  from prune_each_ok [OF assms(1,2) this run] assms(6,7)
  have "dbytes d' q = (if q \<in> set ?names \<and> sbytes s q = None then None else dbytes d q)" by simp
  moreover have "sbytes s q = None \<Longrightarrow> dbytes d q \<noteq> None \<Longrightarrow> q \<in> set ?names"
    using ls ld assms(4,6) by (auto simp: starts_with_def)
  ultimately show ?thesis by (cases "dbytes d q") (simp_all del: set_filter)
qed

text \<open>
  A replication that ends clean: the backup has nothing the source does not have, beside the marker,
  and every blob of every prefix it walked is the source's.
\<close>

lemma replicate_ok:
  assumes "ssane s" and "dsane d" and "slisted []" and "dlisted []"
    and "replicate_backup size' S s D d = (Inr rep, d')" and "report_clean rep"
    and "served q" and "q \<noteq> copy_sentinel_path"
  shows "(dbytes d' q \<noteq> None \<longrightarrow> sbytes s q \<noteq> None) \<and>
    (\<forall>r \<in> set (cr_prefixes rep). slisted (pr_prefix r) \<longrightarrow> starts_with q (pr_prefix r) \<longrightarrow>
      dbytes d' q = sbytes s q) \<and>
    (cr_resumed_from rep = [] \<longrightarrow> map pr_prefix (cr_prefixes rep) = canonical_prefixes)"
proof -
  obtain d1 where copy: "copy_store size' S s D d [] = (Inr rep, d1)"
    and prune: "prune_backup_extras S s D d1 = (Inr (), d')"
    using assms(5,6) by (auto simp: replicate_backup_def split: prod.splits sum.splits if_splits)
  note c = copy_store_ok [OF assms(1,2) copy]
  from c have d1: "dsane d1" by blast
  have "dbytes d' q = (if sbytes s q = None then None else dbytes d1 q)"
    by (rule prune_ok [OF assms(1) d1 assms(3,4) prune assms(7,8)])
  then show ?thesis using c assms(6-8) by (auto simp: selected_prefixes_def)
qed

end

section \<open>Metadata that a clean report vouches for\<close>

text \<open>Whatever the destination answers to a metadata write: the second listing is what counts.\<close>

lemma copy_each_names: "copy_each size' S s D d present blobs = (rs, d') \<Longrightarrow> map or_name rs = map bi_name blobs"
  by (induction blobs arbitrary: d rs) (auto simp: Let_def split: prod.splits)

lemma written_is_verified:
  assumes "copy_prefix size' S s D d prefix = (r, d')" and "prefix_clean r"
    and "ob \<in> set (pr_objects r)" and "wrote (or_outcome ob)"
  shows "\<exists>blobs blob landed found. be_list_blobs_with_meta S s prefix = Inr blobs \<and> blob \<in> set blobs \<and>
    bi_name blob = or_name ob \<and> be_list_blobs_with_meta D d' prefix = Inr landed \<and>
    index_by_name landed (or_name ob) = Some found \<and> metadata_satisfied found (bi_metadata blob)"
proof -
  obtain blobs where blobs: "be_list_blobs_with_meta S s prefix = Inr blobs" "blobs \<noteq> []"
    using assms(1,3) by (auto simp: copy_prefix_def Let_def split: sum.splits if_splits)
  obtain existing where there: "be_list_blobs_with_meta D d prefix = Inr existing"
    using assms(1,3) blobs by (auto simp: copy_prefix_def Let_def split: sum.splits)
  obtain rs d1 where each: "copy_each size' S s D d (index_by_name existing) blobs = (rs, d1)" by fastforce
  let ?r = "\<lparr>pr_prefix = prefix, pr_listing_error = None, pr_objects = rs\<rparr>"
  have eq: "r = verify_metadata D d1 prefix blobs ?r" "d' = d1"
    using assms(1) blobs there each by (auto simp: copy_prefix_def Let_def)
  have names: "map or_name rs = map bi_name blobs" by (rule copy_each_names [OF each])
  have some: "list_ex (\<lambda>ob. wrote (or_outcome ob)) rs"
  proof (rule ccontr)
    assume "\<not> list_ex (\<lambda>ob. wrote (or_outcome ob)) rs"
    then have "r = ?r" unfolding eq(1) by (simp add: verify_metadata_def)
    with assms(3,4) \<open>\<not> list_ex (\<lambda>ob. wrote (or_outcome ob)) rs\<close> show False by (auto simp: list_ex_iff)
  qed
  then obtain landed where landed: "be_list_blobs_with_meta D d1 prefix = Inr landed"
    and objects: "pr_objects r = map2 (verified (index_by_name landed)) blobs rs"
    using assms(2) unfolding eq(1) by (auto simp: verify_metadata_def prefix_clean_def split: sum.splits)
  obtain i where i: "i < length blobs" "i < length rs" and ob: "ob = verified (index_by_name landed) (blobs ! i) (rs ! i)"
    using assms(3) unfolding objects by (auto simp: in_set_conv_nth)
  have name: "or_name (rs ! i) = bi_name (blobs ! i)" using names i by (metis nth_map)
  have "or_name ob = bi_name (blobs ! i) \<and> (\<exists>found. index_by_name landed (bi_name (blobs ! i)) = Some found \<and>
      metadata_satisfied found (bi_metadata (blobs ! i)))"
    using assms(4) name unfolding ob
    by (auto simp: verified_def wrote_def split: if_splits option.splits)
  then show ?thesis using blobs(1) landed i(1) eq(2) by (metis nth_mem)
qed

section \<open>A run that ends clean\<close>

text \<open>
  Two stores that answer every call, and a source whose objects carry no metadata: then a replication
  ends, and clean. (With metadata it is the destination's listing that decides, see above.)
\<close>

definition bare :: "('s, 'b) object_backend \<Rightarrow> 's \<Rightarrow> bool" where
  "bare S s \<longleftrightarrow> (\<forall>P bs. be_list_blobs_with_meta S s P = Inr bs \<longrightarrow> (\<forall>b \<in> set bs. bi_metadata b = []))"

locale answering = copying S sbytes served slisted ssane D dbytes dlisted dsane
  for S :: "('s, 'b) object_backend" and sbytes and served :: "string \<Rightarrow> bool" and slisted ssane
    and D :: "('d, 'b) object_backend" and dbytes dlisted dsane +
  fixes dready :: "'d \<Rightarrow> bool"
  assumes ready_sane: "dready d \<Longrightarrow> dsane d"
    and source_bytes: "ssane s \<Longrightarrow> served p \<Longrightarrow> \<exists>found. be_download_bytes S s p = Inr found"
    and source_lists: "ssane s \<Longrightarrow> \<exists>bs. be_list_blobs_with_meta S s P = Inr bs \<and>
      (\<forall>b \<in> set bs. starts_with (bi_name b) P)"
    and source_exists: "ssane s \<Longrightarrow> served p \<Longrightarrow> \<exists>there. be_exists S s p = Inr there"
    and dest_bytes: "dready d \<Longrightarrow> served p \<Longrightarrow> \<exists>found. be_download_bytes D d p = Inr found"
    and dest_lists: "dready d \<Longrightarrow> \<exists>bs. be_list_blobs_with_meta D d P = Inr bs"
    and dest_upload: "dready d \<Longrightarrow> served p \<Longrightarrow> \<exists>d'. be_upload_bytes D d p b = (Inr (), d') \<and> dready d'"
    and dest_text: "dready d \<Longrightarrow> served p \<Longrightarrow> \<exists>d'. be_upload_text D d p t = (Inr (), d') \<and> dready d'"
    and dest_delete: "dready d \<Longrightarrow> served p \<Longrightarrow> \<exists>d'. be_delete D d p = (Inr (), d') \<and> dready d'"
    and listed_alike: "slisted P \<longleftrightarrow> dlisted P"
begin

lemma copy_body_answers:
  assumes "dready d" and "served (bi_name blob)" and "bi_metadata blob = []"
  shows "\<exists>n o' d'. copy_body size' D d blob b = ((n, o'), d') \<and> \<not> is_failed o' \<and> dready d'"
  using dest_upload [OF assms(1,2), of b] assms(3) by (auto simp: copy_body_def)

lemma copy_object_answers:
  assumes "ssane s" and "dready d" and "served (bi_name blob)" and "bi_metadata blob = []"
  shows "\<exists>n o' d'. copy_object size' S s D d blob landed = ((n, o'), d') \<and> \<not> is_failed o' \<and> dready d'"
proof -
  obtain found existing where f: "be_download_bytes S s (bi_name blob) = Inr found"
      "be_download_bytes D d (bi_name blob) = Inr existing"
    using source_bytes dest_bytes assms(1-3) by blast
  have "metadata_satisfied there (bi_metadata blob)" for there
    by (simp add: metadata_satisfied_def assms(4))
  then show ?thesis
    using f assms(2) copy_body_answers [OF assms(2-4), of size']
    by (cases found) (auto simp: copy_object_def split: option.splits)
qed

lemma copy_each_answers:
  assumes "ssane s" and "dready d" and "\<forall>b \<in> set blobs. served (bi_name b) \<and> bi_metadata b = []"
  shows "\<exists>rs d'. copy_each size' S s D d present blobs = (rs, d') \<and> dready d' \<and>
    list_all (\<lambda>ob. \<not> is_failed (or_outcome ob)) rs"
  using assms(2,3)
proof (induction blobs arbitrary: d)
  case (Cons blob blobs)
  obtain n o' d1 where one: "copy_object size' S s D d blob (present (bi_name blob)) = ((n, o'), d1)"
    "\<not> is_failed o'" "dready d1"
    using copy_object_answers [OF assms(1) Cons.prems(1)] Cons.prems(2) by (metis list.set_intros(1))
  from Cons.IH [OF one(3)] Cons.prems(2) obtain rs d2 where
    "copy_each size' S s D d1 present blobs = (rs, d2)" "dready d2"
    "list_all (\<lambda>ob. \<not> is_failed (or_outcome ob)) rs" by auto
  with one show ?case by simp
qed simp

lemma copy_prefix_answers:
  assumes "ssane s" and "dready d" and "bare S s" and "slisted prefix"
  shows "\<exists>r d'. copy_prefix size' S s D d prefix = (r, d') \<and> dready d' \<and> prefix_clean r"
proof -
  obtain blobs where blobs: "be_list_blobs_with_meta S s prefix = Inr blobs"
    and names: "\<forall>b \<in> set blobs. starts_with (bi_name b) prefix"
    using source_lists [OF assms(1)] by blast
  note list = source.listing_law [OF assms(1) blobs]
  have bare: "\<forall>b \<in> set blobs. served (bi_name b) \<and> bi_metadata b = []"
    using assms(3) blobs list by (auto simp: bare_def)
  obtain existing where there: "be_list_blobs_with_meta D d prefix = Inr existing"
    using dest_lists [OF assms(2)] by blast
  obtain rs d1 where each: "copy_each size' S s D d (index_by_name existing) blobs = (rs, d1)"
    and d1: "dready d1" and clean: "list_all (\<lambda>ob. \<not> is_failed (or_outcome ob)) rs"
    using copy_each_answers [OF assms(1,2) bare] by blast
  obtain landed where landed: "be_list_blobs_with_meta D d1 prefix = Inr landed"
    using dest_lists [OF d1] by blast
  have found: "index_by_name landed (bi_name b) \<noteq> None" if b: "b \<in> set blobs" for b
  proof -
    have "dbytes d1 (bi_name b) \<noteq> None"
      using copy_each_ok [OF assms(1) ready_sane [OF assms(2)] _ each] clean list b by auto
    then have "bi_name b \<in> bi_name ` set landed"
      using dest.listing_law [OF ready_sane [OF d1] landed] assms(4) listed_alike names list b by blast
    then show ?thesis
      by (auto simp: index_by_name_def map_of_eq_None_iff image_image)
  qed
  have keep: "map2 (verified (index_by_name landed)) bs os = os"
    if "length bs = length os" "set bs \<subseteq> set blobs" for bs os
    using that
  proof (induction bs os rule: list_induct2)
    case (Cons b bs ob os)
    then have "index_by_name landed (bi_name b) \<noteq> None" "bi_metadata b = []" using found bare by auto
    with Cons show ?case by (auto simp: verified_def metadata_satisfied_def)
  qed simp
  have "length blobs = length rs"
    using copy_each_ok [OF assms(1) ready_sane [OF assms(2)] _ each] bare by auto
  from keep [OF this] have "verify_metadata D d1 prefix blobs
      \<lparr>pr_prefix = prefix, pr_listing_error = None, pr_objects = rs\<rparr> =
      \<lparr>pr_prefix = prefix, pr_listing_error = None, pr_objects = rs\<rparr>"
    by (simp add: verify_metadata_def landed)
  then show ?thesis
    using each there blobs assms(2) d1 clean
    by (auto simp: copy_prefix_def Let_def prefix_clean_def failures_def filter_empty_conv list_all_iff)
qed

lemma copy_remaining_answers:
  assumes "ssane s" and "dready d" and "bare S s" and "\<forall>P \<in> set prefixes. slisted P"
  shows "\<exists>rs st' d'. copy_remaining size' S s D d st True prefixes = (Inr (rs, st', True), d') \<and> dready d' \<and>
    list_all prefix_clean rs"
  using assms(2,4)
proof (induction prefixes arbitrary: d st)
  case (Cons prefix prefixes)
  obtain r d1 where one: "copy_prefix size' S s D d prefix = (r, d1)" "dready d1" "prefix_clean r"
    using copy_prefix_answers [OF assms(1) Cons.prems(1) assms(3), of prefix size'] Cons.prems(2) by auto
  let ?st = "(tally_prefix st r)\<lparr>cs_cursor := prefix\<rparr>"
  obtain d2 where w: "write_copy_sentinel D d1 ?st = (Inr (), d2)" "dready d2"
    using dest_text [OF one(2) sentinel_served] by (auto simp: write_copy_sentinel_def)
  from Cons.IH [OF w(2)] Cons.prems(2) obtain rs st' d3 where
    "copy_remaining size' S s D d2 ?st True prefixes = (Inr (rs, st', True), d3)" "dready d3"
    "list_all prefix_clean rs" by fastforce
  with one w show ?case by (simp add: Let_def)
qed simp

lemma prune_each_answers:
  assumes "ssane s" and "dready d" and "\<forall>n \<in> set names. served n"
  shows "\<exists>d'. prune_each S s D d names = (Inr (), d') \<and> dready d'"
  using assms(2,3)
proof (induction names arbitrary: d)
  case (Cons n names)
  obtain there d1 where "be_exists S s n = Inr there" "be_delete D d n = (Inr (), d1)" "dready d1"
    using source_exists [OF assms(1)] dest_delete [OF Cons.prems(1)] Cons.prems(2) by (metis list.set_intros(1))
  then show ?case
    using Cons.IH [OF Cons.prems(1)] Cons.IH [of d1] Cons.prems(2) by (cases there) auto
qed simp

lemma replicate_answers:
  assumes "ssane s" and "dready d" and "bare S s" and "\<forall>P \<in> set canonical_prefixes. slisted P"
    and "read_copy_sentinel D d = Inr st" and "cs_cursor st = []"
  shows "\<exists>rep d'. replicate_backup size' S s D d = (Inr rep, d') \<and> report_clean rep \<and>
    cr_resumed_from rep = []"
proof -
  obtain rs st1 d1 where loop: "copy_remaining size' S s D d st True canonical_prefixes = (Inr (rs, st1, True), d1)"
    "dready d1" "list_all prefix_clean rs"
    using copy_remaining_answers [OF assms(1-4)] by blast
  obtain d2 where w: "write_copy_sentinel D d1 (st1\<lparr>cs_cursor := []\<rparr>) = (Inr (), d2)" "dready d2"
    using dest_text [OF loop(2) sentinel_served] by (auto simp: write_copy_sentinel_def)
  have split: "resume_split canonical_prefixes [] True = ([], canonical_prefixes)"
    by (simp add: resume_split_def resume_index_def)
  let ?rep = "\<lparr>cr_prefixes = rs, cr_resumed_from = []\<rparr>"
  have copy: "copy_store size' S s D d [] = (Inr ?rep, d2)"
    using loop w split by (simp add: copy_store_def selected_prefixes_def assms(5,6) Let_def)
  obtain source' destination where l: "be_list_blobs_with_meta S s [] = Inr source'"
    "be_list_blobs_with_meta D d2 [] = Inr destination"
    using source_lists [OF assms(1)] dest_lists [OF w(2)] by blast
  let ?names = "filter (\<lambda>n. n \<notin> set (map bi_name source')) (sort (remdups (map bi_name destination)))"
  have "\<forall>n \<in> set ?names. served n"
    using dest.listing_law [OF ready_sane [OF w(2)] l(2)] by auto
  from prune_each_answers [OF assms(1) w(2) this] obtain d3 where "prune_each S s D d2 ?names = (Inr (), d3)"
    by blast
  then have "prune_backup_extras S s D d2 = (Inr (), d3)" by (simp add: prune_backup_extras_def l)
  with copy loop(3) show ?thesis by (simp add: replicate_backup_def report_clean_def)
qed

end

section \<open>Two devices\<close>

interpretation cp: copying "local_objects L root" "local_view root" blob_name listable "local_named root"
  "local_objects L root'" "local_view root'" listable "local_named root'"
  for L root root'
proof (intro copying.intro copying_axioms.intro lo.object_store_axioms)
  show "blob_name copy_sentinel_path" by code_simp
qed

lemma canonical_listable: "list_all listable canonical_prefixes"
  by code_simp

interpretation ca: answering "local_objects L root" "local_view root" blob_name listable "local_named root"
  "local_objects L root'" "local_view root'" listable "local_named root'" "local_ready root'"
  for L root root'
proof (intro answering.intro answering_axioms.intro cp.copying_axioms, goal_cases)
  case (3 s P)
  then show ?case using names_under_sound [OF 3] by (simp add: local_listing)
next
  case (6 d P)
  then show ?case by (simp add: local_listing local_ready_named)
next
  case (7 d p b)
  then have "plain_path p" by (simp add: blob_name_def)
  then show ?case
    using 7(1) lf.ready_put [of root' d p b]
    by (simp add: local_upload_bytes_def local_path_plain local_ready_def local_put_def)
next
  case (8 d p t)
  then have "plain_path p" by (simp add: blob_name_def)
  then show ?case
    using 8(1) lf.ready_put [of root' d p t]
    by (simp add: local_ops local_path_plain local_ready_def local_put_def)
next
  case (9 d p)
  then have "plain_path p" by (simp add: blob_name_def)
  then show ?case
    using 9(1) lf.delete_law [of root' d p] lf.ready_remove [of root' d p] by (simp add: local_backend_def)
qed (simp_all add: local_ready_named local_download_bytes_def local_exists_def blob_name_def
      local_path_plain bind_result_def)

end
