(* ===== verification/Device_Samples.thy ===== *)
theory Device_Samples
  imports Scan_Samples Demand Failover Copy
begin

text \<open>
  Inputs of the witnesses about two stores and about the switches: a device and its backup on another
  root, and two operators who flip the pause at once.
\<close>

definition backup_root :: "string list" where
  "backup_root = [''mnt'', ''backup'']"

text \<open>A device at the given root with the given blobs.\<close>

definition device_at :: "string list \<Rightarrow> (string \<times> body) list \<Rightarrow> local_disk" where
  "device_at root docs =
     \<lparr>files = map (\<lambda>(p, t). (blob_target root p, t)) docs, sidecars = [], exclusive_locks = [],
      admitted = None, mtimes = (\<lambda>_. 0), device_time = 9\<rparr>"

definition pair_world :: "(string \<times> body) list \<Rightarrow> (string \<times> body) list \<Rightarrow> (local_disk \<times> local_disk) world" where
  "pair_world primary backup =
     \<lparr>disk = (device_at sample_root primary, device_at backup_root backup), clock = 9, uuids = 0,
      this_process = \<lparr>po_host = ''h'', po_pid = 1\<rparr>, live_pids = [1], active_owners = []\<rparr>"

definition device_pair :: "read_mode \<Rightarrow> (local_disk, local_disk, body) failover_backend" where
  "device_pair mode =
     \<lparr>fo_primary = local_objects sample_lib sample_root, fo_backup = local_objects sample_lib backup_root,
      fo_read_mode = mode\<rparr>"

lemma device_pair_sel [simp]:
  "fo_primary (device_pair mode) = local_objects sample_lib sample_root"
  "fo_backup (device_pair mode) = local_objects sample_lib backup_root"
  by (simp_all add: device_pair_def)

lemma device_at_view [simp]: "local_view root (device_at root docs) p = map_of docs p"
proof -
  have "map_of (map (\<lambda>(p, t). (blob_target root p, t)) docs) (blob_target root p) = map_of docs p"
    by (induction docs) auto
  then show ?thesis by (simp add: device_at_def local_view_def read_file_def)
qed

lemma device_at_ready:
  assumes "list_all (\<lambda>(p, t). plain_path p) docs"
  shows "local_ready sample_root (device_at sample_root docs)" "local_ready backup_root (device_at backup_root docs)"
proof -
  have fence: "write_fence_for_root sample_root = None" "write_fence_for_root backup_root = None"
    by (simp_all add: write_fence_for_root_def sample_root_def backup_root_def)
  have names: "list_all entry_name sample_root" "list_all entry_name backup_root"
    by (simp_all add: sample_root_def backup_root_def entry_name_def)
  have "list_all (\<lambda>(item, _). list_all entry_name item) (files (device_at root docs))"
    if "list_all entry_name root" for root
    using assms that by (fastforce simp: device_at_def list_all_iff blob_target_def plain_path_names)
  then show "local_ready sample_root (device_at sample_root docs)"
      "local_ready backup_root (device_at backup_root docs)"
    using fence names by (simp_all add: local_ready_def mutation_guard_def)
qed

definition pause_flip :: "bool \<Rightarrow> queue_control storage_prog" where
  "pause_flip paused = set_paused sample_lib ''h'' paused ''upgrade'' []"

definition flipped :: "bool \<Rightarrow> queue_control" where
  "flipped paused = \<lparr>qc_paused = paused, qc_reason = ''upgrade'', qc_since = ''TTTTTTTTT'', qc_by = ''h''\<rparr>"

definition source_docs :: "(string \<times> body) list" where
  "source_docs = [(''queue/job-1.json'', Raw ''new''), (''registry.json'', Raw ''hosts'')]"

definition stale_docs :: "(string \<times> body) list" where
  "stale_docs = [(''queue/job-1.json'', Raw ''old''), (''queue/job-0.json'', Raw ''gone''),
     (''other/extra'', Raw ''x'')]"

lemma docs_plain [simp]:
  "list_all (\<lambda>(p, t). plain_path p) source_docs" "list_all (\<lambda>(p, t). plain_path p) stale_docs"
  "list_all (\<lambda>(p, t). plain_path p) []"
  by (simp_all add: source_docs_def stale_docs_def plain_path_def)

lemma device_at_bare: "bare (local_objects L root) (device_at root docs)"
proof -
  have "read_sidecar (device_at root docs) k = []" for k by (simp add: device_at_def read_sidecar_def)
  moreover have "collect_results xs = Inr bs \<Longrightarrow> b \<in> set bs \<Longrightarrow> Inr b \<in> set xs" for xs :: "(storage_error + blob_info) list" and b bs
    by (induction xs arbitrary: bs) (auto simp: bind_result_def split: sum.splits)
  ultimately show ?thesis
    by (fastforce simp: bare_def local_list_blobs_with_meta_def bind_result_def split: sum.splits)
qed

lemma no_copy_sentinel:
  "map_of docs copy_sentinel_path = None \<Longrightarrow>
   read_copy_sentinel (local_objects L root) (device_at root docs) = Inr fresh_sentinel"
proof -
  assume none: "map_of docs copy_sentinel_path = None"
  have "plain_path copy_sentinel_path" by (simp add: copy_sentinel_path_def plain_path_def)
  moreover have "read_file (device_at root docs) (blob_target root copy_sentinel_path) = None"
    using device_at_view [of root docs copy_sentinel_path] none by (simp add: local_view_def)
  ultimately show ?thesis
    by (simp add: read_copy_sentinel_def local_download_text_def local_path_plain bind_result_def)
qed

end
