(* ===== verification/Submission.thy ===== *)
theory Submission
  imports Operations Leases
begin

text \<open>
  The transaction of a submission on its run manifest: \<open>src/stado-rs/src/queue/submit/manifest/claim.rs\<close>
  (who owns an entry, the claim that hands its planned job to the admission, the checkpoint that records
  the acceptance) and \<open>submit/batch/store.rs\<close>, which builds the manifest of a new run or reads the
  stored one and drives claim, admission and checkpoint over its entries. A claim is two swaps, claimed
  and then enqueuing; a lost one reads again. What a submission asks other parts of the program and the
  process for (the environment, the account, the build budget, the measured size of a model and the
  provider's ladder of machines) is its \<open>submit_env\<close>.
\<close>

section \<open>Owners of an entry\<close>

record submission_context =
  sx_path :: string
  sx_run_id :: string
  sx_request :: json
  sx_request_digest :: string
  sx_owner :: string

datatype entry_claim = Owned job | EntryAccepted job | EntryEnded job

definition describe_owner :: "process_owner \<Rightarrow> string" where
  "describe_owner holder = ''pid '' @ nat_digits (po_pid holder) @ '' on '' @ po_host holder"

text \<open>A record that is not what either version of the program writes is held, never taken over.\<close>

definition live_holder :: "lib \<Rightarrow> json_object \<Rightarrow> string option prog" where
  "live_holder L entry =
     (case Option.bind (obj_get entry ''owner_pid'') as_u64 of
        None \<Rightarrow>
          (case Option.bind (obj_get entry ''lease_expires_at'') as_str of
             None \<Rightarrow> Ret None
           | Some stamp \<Rightarrow>
               (case parse_rfc3339 L stamp of
                  None \<Rightarrow> Ret (Some ''a submission whose lease_expires_at is not a time'')
                | Some expires \<Rightarrow> bindp now (\<lambda>t.
                    Ret (if t < expires then Some ''a submission whose lease runs'' else None))))
      | Some pid \<Rightarrow>
          if \<not> pid < 2 ^ 32 then Ret (Some ''a submission whose owner_pid is not a process id'')
          else (case Option.bind (obj_get entry ''owner_host'') as_str of
                  None \<Rightarrow> Ret (Some ''a submission on a host the record does not name'')
                | Some host \<Rightarrow>
                    bindp (owner_observed \<lparr>po_host = host, po_pid = pid\<rparr>) (\<lambda>st.
                      Ret (case st of
                             Gone \<Rightarrow> None
                           | _ \<Rightarrow> Some (describe_owner \<lparr>po_host = host, po_pid = pid\<rparr>)))))"

section \<open>The claim of an entry\<close>

definition claimed_by :: "string \<Rightarrow> process_owner \<Rightarrow> json_object \<Rightarrow> json_object" where
  "claimed_by owner holder entry =
     obj_remove ''lease_expires_at''
       (obj_insert ''owner_pid'' (JInt (int (po_pid holder)))
       (obj_insert ''owner_host'' (JStr (po_host holder))
       (obj_insert ''owner'' (JStr owner)
       (obj_insert ''state'' (JStr (entry_word Claimed)) entry))))"

definition enqueuing_entry :: "json_object \<Rightarrow> json_object" where
  "enqueuing_entry entry = obj_insert ''state'' (JStr (entry_word Enqueuing)) entry"

definition held_by_another :: "string \<Rightarrow> json_object \<Rightarrow> bool" where
  "held_by_another owner entry \<longleftrightarrow>
     (case Option.bind (obj_get entry ''owner'') as_str of None \<Rightarrow> False | Some holder \<Rightarrow> holder \<noteq> owner)"

definition entry_missing :: submit_error where
  "entry_missing = Validation ''run checkpoint entry is missing''"

text \<open>The manifest a claim or a checkpoint works on: read with its version, and validated.\<close>

definition read_validated ::
  "lib \<Rightarrow> submission_context \<Rightarrow> (submit_error + (string \<times> json \<times> manifest_entry list)) prog" where
  "read_validated L ctx =
     bindE (with_error Storage (read_text_versioned (sx_path ctx))) (\<lambda>found.
       case found of
         None \<Rightarrow> fail (Validation ''run manifest disappeared'')
       | Some versioned \<Rightarrow>
           (case content versioned of
              Json manifest \<Rightarrow>
                bindE (validate_run_manifest L manifest (sx_run_id ctx) (sx_request ctx) (sx_request_digest ctx))
                  (\<lambda>validated. ok (version versioned, manifest, validated))
            | _ \<Rightarrow> fail (Validation ''invalid run manifest'')))"

fun claim_entry ::
  "nat \<Rightarrow> lib \<Rightarrow> submission_context \<Rightarrow> nat \<Rightarrow> (submit_error + entry_claim) prog" where
  "claim_entry 0 L ctx index = fail (Storage OutOfFuel)"
| "claim_entry (Suc fuel) L ctx index =
     bindE (read_validated L ctx) (\<lambda>(read, manifest, validated).
       if \<not> index < length validated then fail entry_missing
       else
         let current = validated ! index in
         if me_state current = Accepted then ok (EntryAccepted (me_planned_job current))
         else if entry_ended (me_state current) then
           (case me_outcome_job current of
              None \<Rightarrow> fail (Validation ''an ended run checkpoint entry names no outcome job'')
            | Some j \<Rightarrow> ok (EntryEnded j))
         else
           (case entry_object manifest index of
              None \<Rightarrow> fail entry_missing
            | Some entry \<Rightarrow>
                bindp (if (me_state current = Claimed \<or> me_state current = Enqueuing) \<and>
                          held_by_another (sx_owner ctx) entry
                       then live_holder L entry else Ret None) (\<lambda>holder.
                if holder \<noteq> None
                then fail (Validation ''run command is being submitted by another owner'')
                else
                  CurrentProcess (\<lambda>here.
                    let claimed = claimed_by (sx_owner ctx) here entry
                    in bindp (compare_and_swap_text (sx_path ctx) read (Json (set_entry manifest index claimed))) (\<lambda>r.
                         case r of
                           Inl (StorageConflict _) \<Rightarrow> claim_entry fuel L ctx index
                         | Inl e \<Rightarrow> fail (Storage e)
                         | Inr claimed_version \<Rightarrow>
                             bindp (compare_and_swap_text (sx_path ctx) claimed_version
                               (Json (set_entry manifest index (enqueuing_entry claimed)))) (\<lambda>r.
                               case r of
                                 Inr _ \<Rightarrow> ok (Owned (me_planned_job current))
                               | Inl (StorageConflict _) \<Rightarrow> claim_entry fuel L ctx index
                               | Inl e \<Rightarrow> fail (Storage e)))))))"

section \<open>The checkpoint\<close>

definition accepted_entry :: "string \<Rightarrow> json_object \<Rightarrow> json_object" where
  "accepted_entry at entry =
     obj_remove_all [''owner'', ''owner_host'', ''owner_pid'', ''lease_expires_at'']
       (obj_insert ''accepted_at'' (JStr at)
       (obj_insert ''state'' (JStr (entry_word Accepted)) entry))"

text \<open>Beyond the entries the code panics; its one caller stays within them.\<close>

fun checkpoint_accepted ::
  "nat \<Rightarrow> lib \<Rightarrow> submission_context \<Rightarrow> nat \<Rightarrow> string \<Rightarrow> (submit_error + unit) prog" where
  "checkpoint_accepted 0 L ctx index id' = fail (Storage OutOfFuel)"
| "checkpoint_accepted (Suc fuel) L ctx index id' =
     bindE (read_validated L ctx) (\<lambda>(read, manifest, validated).
       if \<not> index < length validated then fail entry_missing
       else if me_state (validated ! index) = Accepted \<or> entry_ended (me_state (validated ! index)) then ok ()
       else
         (case entry_object manifest index of
            None \<Rightarrow> fail entry_missing
          | Some entry \<Rightarrow>
              if Option.bind (obj_get entry ''job_id'') as_str \<noteq> Some id'
              then fail (Validation ''run checkpoint ownership changed before acceptance'')
              else bindE (Ret (entry_state_stored entry)) (\<lambda>stored.
                if stored \<noteq> Enqueuing \<or> Option.bind (obj_get entry ''owner'') as_str \<noteq> Some (sx_owner ctx)
                then fail (Validation ''run checkpoint ownership changed before acceptance'')
                else bindp now (\<lambda>t.
                  bindp (compare_and_swap_text (sx_path ctx) read
                    (Json (set_entry manifest index (accepted_entry (to_rfc3339 L t) entry)))) (\<lambda>r.
                    case r of
                      Inr _ \<Rightarrow> ok ()
                    | Inl (StorageConflict _) \<Rightarrow> checkpoint_accepted fuel L ctx index id'
                    | Inl e \<Rightarrow> fail (Storage e))))))"

section \<open>What a submission is resolved with\<close>

datatype env_var = Unset | EnvText string | EnvUnreadable

record submit_env =
  se_user :: env_var
  se_logname :: env_var
  se_account :: "unit + string option"
  se_hostname :: string
  se_submitter_app :: env_var
  se_run_name :: env_var
  se_bucket :: string
  se_configured_bucket :: string
  se_charge :: "string \<Rightarrow> string list \<Rightarrow> string + unit"
  se_estimate :: "string \<Rightarrow> storage_error + int option"
  se_ladder :: "string \<Rightarrow> (int \<times> string \<times> string) list option"

definition env_name :: "env_var \<Rightarrow> submit_error + string option" where
  "env_name v =
     (case v of
        EnvText name \<Rightarrow> Inr (if trim name = [] then None else Some name)
      | Unset \<Rightarrow> Inr None
      | EnvUnreadable \<Rightarrow> Inl (Validation ''a variable cannot be read''))"

definition submitter :: "submit_env \<Rightarrow> submit_error + string" where
  "submitter E =
     bind_result (env_name (se_user E)) (\<lambda>user. case user of Some name \<Rightarrow> Inr name | None \<Rightarrow>
     bind_result (env_name (se_logname E)) (\<lambda>user. case user of Some name \<Rightarrow> Inr name | None \<Rightarrow>
       (case se_account E of
          Inr (Some name) \<Rightarrow> Inr name
        | Inr None \<Rightarrow> Inl (Validation ''the user database holds no account'')
        | Inl _ \<Rightarrow> Inl (Validation ''the account cannot be read''))))"

definition cpu_machine_type :: string where
  "cpu_machine_type = ''e2-standard-8''"

text \<open>The smallest tier that holds the size, or the largest; a ladder is in ascending order.\<close>

definition lookup_instance_type :: "(int \<times> string \<times> string) list \<Rightarrow> int \<Rightarrow> (string \<times> string) option" where
  "lookup_instance_type tiers mem =
     map_option snd (case find (\<lambda>(size', _). mem \<le> size') tiers of
        Some tier \<Rightarrow> Some tier
      | None \<Rightarrow> if tiers = [] then None else Some (last tiers))"

definition hardware_for ::
  "(int \<times> string \<times> string) list option \<Rightarrow> submit_options \<Rightarrow> int option \<Rightarrow> int option \<Rightarrow>
   resolved_hardware_projection" where
  "hardware_for sizing o' stated mem =
     (let asked = (so_gpu_type o' \<noteq> [] \<or> stated \<noteq> None \<or> so_machine_type o' \<noteq> []);
          inferred = (case mem of
              Some m \<Rightarrow> Option.bind sizing (\<lambda>tiers. lookup_instance_type tiers m)
            | None \<Rightarrow> Option.bind sizing (\<lambda>tiers. if tiers = [] then None else Some (snd (hd tiers))));
          (inferred_machine, inferred_accel) = (case inferred of None \<Rightarrow> ([], []) | Some spec \<Rightarrow> spec);
          tier = Option.bind sizing (find (\<lambda>(_, _, accel). accel = so_gpu_type o'));
          (machine, gpu, mem') =
            (if \<not> asked \<and> mem = None then (cpu_machine_type, [], mem)
             else if so_machine_type o' = [] \<and> so_gpu_type o' \<noteq> [] \<and> stated = None then
               (case tier of
                  Some (size', machine, _) \<Rightarrow>
                    (machine, so_gpu_type o', if mem = None then Some size' else mem)
                | None \<Rightarrow> (inferred_machine, so_gpu_type o', mem))
             else (if so_machine_type o' \<noteq> [] then so_machine_type o' else inferred_machine,
                   if so_gpu_type o' = [] then inferred_accel else so_gpu_type o', mem))
      in \<lparr>rh_gpu_mem_gb = (case mem' of Some m \<Rightarrow> m | None \<Rightarrow> so_vram_gb o'),
          rh_gpu_type = gpu, rh_machine_type = machine\<rparr>)"

definition resolve_hardware ::
  "submit_env \<Rightarrow> string \<Rightarrow> submit_options \<Rightarrow> submit_error + resolved_hardware_projection" where
  "resolve_hardware E command' o' =
     (case so_resolved_hardware o' of
        Some resolved \<Rightarrow> Inr resolved
      | None \<Rightarrow>
          let stated = (if 0 < so_vram_gb o' then Some (so_vram_gb o') else None)
          in bind_result (case stated of Some v \<Rightarrow> Inr stated | None \<Rightarrow> map_err Storage (se_estimate E command'))
               (\<lambda>mem. Inr (hardware_for (se_ladder E (so_provider o')) o' stated mem)))"

section \<open>The manifest of a new run\<close>

definition plan_job ::
  "lib \<Rightarrow> string \<Rightarrow> submit_options \<Rightarrow> submission_provenance \<Rightarrow> nat \<Rightarrow> string \<Rightarrow>
   resolved_hardware_projection \<Rightarrow> job" where
  "plan_job L request_digest o' provenance index command' hardware =
     (build_planned_job command' o' (job_id_from_key (submission_job_key L request_digest index command'))
        hardware provenance)
       \<lparr>submission_request_digest := request_digest, submission_command_index := Some index\<rparr>"

definition planned_entry ::
  "lib \<Rightarrow> string \<Rightarrow> submit_options \<Rightarrow> submission_provenance \<Rightarrow> nat \<Rightarrow> string \<Rightarrow>
   resolved_hardware_projection \<Rightarrow> json" where
  "planned_entry L request_digest o' provenance index command' hardware =
     (let key = submission_job_key L request_digest index command'
      in JObj [(''command_index'', JInt (int index)), (''command'', JStr command'), (''job_key'', JStr key),
           (''job_id'', JStr (job_id_from_key key)), (''state'', JStr (entry_word Planned)),
           (''planned_job'', job_to_value (plan_job L request_digest o' provenance index command' hardware))])"

definition planned_entries ::
  "lib \<Rightarrow> string \<Rightarrow> submit_options \<Rightarrow> submission_provenance \<Rightarrow> string list \<Rightarrow>
   resolved_hardware_projection list \<Rightarrow> json list" where
  "planned_entries L request_digest o' provenance commands hardware =
     map (\<lambda>index. planned_entry L request_digest o' provenance index (commands ! index) (hardware ! index))
       [0..<length commands]"

definition new_manifest ::
  "lib \<Rightarrow> string \<Rightarrow> string list \<Rightarrow> submit_options \<Rightarrow> submission_provenance \<Rightarrow> json \<Rightarrow>
   resolved_hardware_projection list \<Rightarrow> json" where
  "new_manifest L name commands o' provenance request hardware =
     JObj [(''schema'', JStr ''stado.run-submission.v3''), (''run_id'', JStr (so_run_id o')),
       (''name'', JStr (if name = [] then derive_run_name commands else name)),
       (''request_digest'', JStr (digest_value L request)),
       (''source_digest'', JStr (submission_source_digest L o')),
       (''input_digest'', JStr (submission_input_digest L commands o')),
       (''request'', request),
       (''created_at'', JStr (sp_created_at provenance)),
       (''submitter_app'', JStr (sp_submitter_app provenance)),
       (''submitted_by'', JStr (sp_submitted_by provenance)),
       (''submitted_from'', JStr (sp_submitted_from provenance)),
       (''entries'', JArr (planned_entries L (digest_value L request) o' provenance commands hardware))]"

section \<open>The entries of a run\<close>

definition machine_job_prefixes :: "string list" where
  "machine_job_prefixes = [''cancelled'', ''failed'', ''uploaded'', ''completed'', ''running'', ''queue'']"

fun find_job_in :: "lib \<Rightarrow> string \<Rightarrow> string list \<Rightarrow> (submit_error + job option) prog" where
  "find_job_in L id' [] = ok None"
| "find_job_in L id' (prefix # prefixes) =
     bindE (with_error Storage (read_job L prefix id')) (\<lambda>found.
       case found of Some j \<Rightarrow> ok (Some j) | None \<Rightarrow> find_job_in L id' prefixes)"

definition find_job :: "lib \<Rightarrow> string \<Rightarrow> (submit_error + job option) prog" where
  "find_job L id' = find_job_in L id' machine_job_prefixes"

text \<open>A job that is there already is the planned one, or the submission is refused.\<close>

definition recovered :: "lib \<Rightarrow> nat \<Rightarrow> job \<Rightarrow> job \<Rightarrow> (submit_error + job) prog" where
  "recovered L index planned existing =
     bindE (Ret (validate_recovered_job existing planned index)) (\<lambda>_.
     bindE (with_error Storage (repair_queued_admission_metadata L planned)) (\<lambda>_. ok existing))"

definition replay_accepted :: "lib \<Rightarrow> nat \<Rightarrow> job \<Rightarrow> (submit_error + job) prog" where
  "replay_accepted L index planned =
     bindE (find_job L (job_id planned)) (\<lambda>found.
       case found of
         Some existing \<Rightarrow> recovered L index planned existing
       | None \<Rightarrow>
           bindE (with_error Storage (ended_by_transition L planned)) (\<lambda>ended.
             Ret (ok_or (Validation ''accepted stable job is absent; refusing to recreate it'') ended)))"

definition admit_planned :: "nat \<Rightarrow> lib \<Rightarrow> nat \<Rightarrow> job \<Rightarrow> (submit_error + job) prog" where
  "admit_planned fuel L index planned =
     bindE (find_job L (job_id planned)) (\<lambda>found.
       case found of
         Some existing \<Rightarrow> recovered L index planned existing
       | None \<Rightarrow>
           bindE (with_error Storage (ended_by_transition L planned)) (\<lambda>ended.
             case ended of
               Some j \<Rightarrow> ok j
             | None \<Rightarrow>
                 bindE (with_error Storage (create_queued_job_if_absent fuel L planned)) (\<lambda>created.
                   if created then ok planned
                   else bindE (find_job L (job_id planned)) (\<lambda>found.
                     case found of
                       None \<Rightarrow> fail (Validation ''stable job was concurrently created but is unreadable'')
                     | Some existing \<Rightarrow> recovered L index planned existing))))"

definition submit_entry ::
  "nat \<Rightarrow> lib \<Rightarrow> submission_context \<Rightarrow> nat \<Rightarrow> (submit_error + job) prog" where
  "submit_entry fuel L ctx index =
     bindE (claim_entry fuel L ctx index) (\<lambda>claim.
       case claim of
         EntryEnded j \<Rightarrow> ok j
       | EntryAccepted planned \<Rightarrow> replay_accepted L index planned
       | Owned planned \<Rightarrow>
           bindE (admit_planned fuel L index planned) (\<lambda>j.
           bindE (checkpoint_accepted fuel L ctx index (job_id j)) (\<lambda>_. ok j)))"

fun submit_entries ::
  "nat \<Rightarrow> lib \<Rightarrow> submission_context \<Rightarrow> nat list \<Rightarrow> (submit_error + job list) prog" where
  "submit_entries fuel L ctx [] = ok []"
| "submit_entries fuel L ctx (index # indices) =
     bindE (submit_entry fuel L ctx index) (\<lambda>j.
     bindE (submit_entries fuel L ctx indices) (\<lambda>js. ok (j # js)))"

definition submission_owner :: "string \<Rightarrow> string" where
  "submission_owner request_digest = ''submission:'' @ request_digest"

text \<open>A stored manifest submitted (again): validated, then every entry in order.\<close>

definition submit_manifest ::
  "nat \<Rightarrow> lib \<Rightarrow> string \<Rightarrow> json \<Rightarrow> json \<Rightarrow> (submit_error + job list) prog" where
  "submit_manifest fuel L run_id' request manifest =
     (let request_digest = digest_value L request;
          ctx = \<lparr>sx_path = run_path run_id', sx_run_id = run_id', sx_request = request,
                 sx_request_digest = request_digest, sx_owner = submission_owner request_digest\<rparr>
      in bindE (validate_run_manifest L manifest run_id' request request_digest) (\<lambda>planned.
           submit_entries fuel L ctx [0..<length planned]))"

section \<open>A submission\<close>

text \<open>The hardware of a stored run, once its request is seen to be this one.\<close>

definition stored_hardware ::
  "submit_env \<Rightarrow> string list \<Rightarrow> submit_options \<Rightarrow> json \<Rightarrow> submit_error + resolved_hardware_projection list" where
  "stored_hardware E commands o' manifest =
     (if get_str manifest ''schema'' \<noteq> Some ''stado.run-submission.v3''
      then Inl (Validation ''run id has an unsupported manifest schema'')
      else
        bind_result (ok_or (Validation ''stored run request is missing'') (get_key manifest ''request''))
          (\<lambda>stored.
        let same = (\<lambda>k v. case get_key stored k of None \<Rightarrow> False | Some x \<Rightarrow> value_eq x v)
        in if get_str stored ''schema'' \<noteq> Some ''stado.submission-request.v3'' \<or>
              \<not> same ''commands'' (JArr (map JStr commands)) \<or> \<not> same ''options'' (options_to_value o') \<or>
              get_str stored ''effective_bucket'' \<noteq> Some (se_bucket E)
           then Inl (Validation ''run id already belongs to a different submission request'')
           else
             bind_result (ok_or (Validation ''stored run request has no resolved hardware plan'')
               (get_key stored ''resolved_hardware'')) (\<lambda>plan.
             ok_or (Validation ''stored run request has invalid resolved hardware'')
               (hardware_list_from_value plan))))"

fun resolve_each ::
  "submit_env \<Rightarrow> submit_options \<Rightarrow> string list \<Rightarrow> submit_error + resolved_hardware_projection list" where
  "resolve_each E o' [] = Inr []"
| "resolve_each E o' (command' # commands) =
     bind_result (resolve_hardware E command' o') (\<lambda>h.
     bind_result (resolve_each E o' commands) (\<lambda>hs. Inr (h # hs)))"

definition submitter_app_name :: "submit_env \<Rightarrow> submit_error + string" where
  "submitter_app_name E =
     (case se_submitter_app E of
        EnvText app \<Rightarrow> Inr (if app \<noteq> [] then app else ''manual'')
      | Unset \<Rightarrow> Inr ''manual''
      | EnvUnreadable \<Rightarrow> Inl (Validation ''WC_SUBMITTER_APP is set but cannot be read''))"

definition explicit_name :: "submit_env \<Rightarrow> submit_error + string" where
  "explicit_name E =
     (case se_run_name E of
        EnvText name \<Rightarrow> Inr name
      | Unset \<Rightarrow> Inr []
      | EnvUnreadable \<Rightarrow> Inl (Validation ''WC_RUN_NAME cannot be read''))"

text \<open>The plan of a new run, stored unless another submission of the run stored its own first.\<close>

definition store_plan ::
  "nat \<Rightarrow> lib \<Rightarrow> submit_env \<Rightarrow> string list \<Rightarrow> submit_options \<Rightarrow> json \<Rightarrow>
   resolved_hardware_projection list \<Rightarrow> (submit_error + json) prog" where
  "store_plan fuel L E commands o' request hardware =
     bindp now (\<lambda>t.
     bindE (Ret (submitter_app_name E)) (\<lambda>app.
     bindE (Ret (submitter E)) (\<lambda>by'.
     bindE (Ret (explicit_name E)) (\<lambda>name.
       let provenance = \<lparr>sp_created_at = to_rfc3339 L t, sp_submitted_by = by',
             sp_submitted_from = se_hostname E, sp_submitter_app = app\<rparr>;
           candidate = new_manifest L name commands o' provenance request hardware
       in bindE (with_error Storage (create_text_if_absent (run_path (so_run_id o')) (Json candidate)))
            (\<lambda>created. if created then ok candidate else migrate_v2_run_manifest fuel L (so_run_id o'))))))"

definition submit ::
  "nat \<Rightarrow> lib \<Rightarrow> submit_env \<Rightarrow> string list \<Rightarrow> submit_options \<Rightarrow> (submit_error + job list) prog" where
  "submit fuel L E commands o' =
     bindE (with_error Storage (download_text (run_path (so_run_id o')))) (\<lambda>found.
     bindE (if found = None then ok None
            else bindE (migrate_v2_run_manifest fuel L (so_run_id o')) (\<lambda>m. ok (Some m))) (\<lambda>existing.
     bindE (Ret (map_err Charge (se_charge E (so_run_id o') commands))) (\<lambda>_.
     bindE (Ret (case existing of
                   Some manifest \<Rightarrow> stored_hardware E commands o' manifest
                 | None \<Rightarrow> resolve_each E o' commands)) (\<lambda>hardware.
       if length hardware \<noteq> length commands
       then fail (Validation ''run id has an invalid resolved hardware plan'')
       else
         let request = submission_request (se_configured_bucket E) commands o' hardware
         in bindE (case existing of
                     Some manifest \<Rightarrow> ok manifest
                   | None \<Rightarrow> store_plan fuel L E commands o' request hardware) (\<lambda>manifest.
            submit_manifest fuel L (so_run_id o') request manifest)))))"

text \<open>The checks before any call to the store, and the entry point of a selected store.\<close>

definition validate_batch :: "(string \<Rightarrow> bool) \<Rightarrow> string list \<Rightarrow> submit_options \<Rightarrow> submit_error + unit" where
  "validate_batch object_uri_ok commands o' =
     (if commands = [] then Inl (Validation ''at least one command is required'')
      else bind_result (validate_run_id (so_run_id o')) (\<lambda>_.
        bind_result (collect_results (map (\<lambda>c. validate_submission object_uri_ok c o') commands)) (\<lambda>_. Inr ())))"

definition submit_batch ::
  "nat \<Rightarrow> lib \<Rightarrow> (string \<Rightarrow> bool) \<Rightarrow> submit_env \<Rightarrow> string list \<Rightarrow> submit_options \<Rightarrow>
   (submit_error + job list) prog" where
  "submit_batch fuel L object_uri_ok E commands o' =
     bindE (Ret (validate_batch object_uri_ok commands o')) (\<lambda>_.
       if so_bucket o' \<noteq> se_bucket E
       then fail (Validation ''submission bucket does not match selected store bucket'')
       else submit fuel L E commands o')"

end
