(* ===== verification/Submission_Laws.thy ===== *)
theory Submission_Laws
  imports Submission
begin

text \<open>
  What the transaction of \<open>Submission\<close> does: the validation of a manifest depends on the clock alone and
  changes nothing; moving one entry between states that have not ended changes only that state in its
  answer; the manifest a new run stores passes it, with every entry planned as built; and on a store that
  keeps its contract, a claim, its refusal and the checkpoint.
\<close>

section \<open>Validation as a function of the instant\<close>

definition entry_at ::
  "lib \<Rightarrow> manifest_plan \<Rightarrow> int \<Rightarrow> nat \<Rightarrow> json \<Rightarrow> submit_error + manifest_entry" where
  "entry_at L plan t index entry =
     bind_result (entry_plan L plan index entry) (\<lambda>(j, st, outcome_job).
       bind_result (if entry_ended st
                    then bind_result (outcome_shape L entry outcome_job)
                           (outcome_times L t (mp_created_at plan) (mp_run_id plan) index j)
                    else if outcome_job \<noteq> None
                    then Inl (Validation ''non-terminal entry unexpectedly carries an outcome'')
                    else Inr ())
         (\<lambda>_. Inr \<lparr>me_planned_job = j, me_state = st, me_outcome_job = outcome_job\<rparr>))"

fun entries_at ::
  "lib \<Rightarrow> manifest_plan \<Rightarrow> int \<Rightarrow> nat \<Rightarrow> json list \<Rightarrow> submit_error + manifest_entry list" where
  "entries_at L plan t index [] = Inr []"
| "entries_at L plan t index (entry # entries) =
     bind_result (entry_at L plan t index entry) (\<lambda>e.
     bind_result (entries_at L plan t (Suc index) entries) (\<lambda>es. Inr (e # es)))"

definition manifest_at ::
  "lib \<Rightarrow> json \<Rightarrow> string \<Rightarrow> json \<Rightarrow> string \<Rightarrow> int \<Rightarrow> submit_error + manifest_entry list" where
  "manifest_at L manifest run_id' request request_digest t =
     bind_result (manifest_header L manifest run_id' request request_digest)
       (\<lambda>(plan, entries). entries_at L plan t 0 entries)"

lemma run_validate_entry: "run L B (validate_entry L plan index entry) w = (entry_at L plan (clock w) index entry, w)"
  by (auto simp: validate_entry_def entry_at_def terminal_outcome_def run_simps bind_result_def
      split: sum.splits prod.splits)

lemma run_validate_entries:
  "run L B (validate_entries L plan index entries) w = (entries_at L plan (clock w) index entries, w)"
  by (induction entries arbitrary: index)
     (auto simp: run_simps run_validate_entry bind_result_def split: sum.splits prod.splits)

lemma run_validate_manifest:
  "run L B (validate_run_manifest L m r q d) w = (manifest_at L m r q d (clock w), w)"
  by (auto simp: validate_run_manifest_def manifest_at_def run_simps run_validate_entries bind_result_def
      split: sum.splits prod.splits)

lemma entries_at_nth:
  "entries_at L plan t index entries = Inr es \<longleftrightarrow>
   length es = length entries \<and>
   (\<forall>k < length entries. entry_at L plan t (index + k) (entries ! k) = Inr (es ! k))"
proof (induction entries arbitrary: index es)
  case (Cons e entries)
  have tail: "entries_at L plan t (Suc index) entries = Inr es' \<longleftrightarrow> length es' = length entries \<and>
      (\<forall>k < length entries. entry_at L plan t (index + Suc k) (entries ! k) = Inr (es' ! k))" for es'
    using Cons [of "Suc index"] by simp
  show ?case
  proof (cases es)
    case Nil
    then show ?thesis by (auto simp: bind_result_def split: sum.splits)
  next
    case (Cons x es')
    have "entries_at L plan t index (e # entries) = Inr (x # es') \<longleftrightarrow>
        entry_at L plan t index e = Inr x \<and> entries_at L plan t (Suc index) entries = Inr es'"
      by (auto simp: bind_result_def split: sum.splits)
    then show ?thesis by (simp add: Cons tail All_less_Suc2) metis
  qed
qed auto

section \<open>A change of one entry\<close>

text \<open>What validation reads of an entry besides its state.\<close>

definition plan_keys :: "string list" where
  "plan_keys = [''command_index'', ''command'', ''job_key'', ''job_id'', ''planned_job'', ''outcome'']"

lemma entry_at_restated:
  assumes at: "entry_at L plan t index (JObj e) = Inr m" and live: "\<not> entry_ended (me_state m)"
    and same: "\<And>k. k \<in> set plan_keys \<Longrightarrow> obj_get e' k = obj_get e k"
    and st: "obj_get e' ''state'' = Some (JStr (entry_word st))" "\<not> entry_ended st"
  shows "entry_at L plan t index (JObj e') = Inr (m\<lparr>me_state := st\<rparr>)"
proof -
  have word: "entry_state_of_word (entry_word st) = Some st"
    by (cases st) (simp_all add: entry_state_of_word_def)
  have keys: "obj_get e' ''command_index'' = obj_get e ''command_index''"
      "obj_get e' ''command'' = obj_get e ''command''" "obj_get e' ''job_key'' = obj_get e ''job_key''"
      "obj_get e' ''job_id'' = obj_get e ''job_id''" "obj_get e' ''planned_job'' = obj_get e ''planned_job''"
      "obj_get e' ''outcome'' = obj_get e ''outcome''"
    by (simp_all add: same plan_keys_def)
  show ?thesis
    using at live st(2)
    by (auto simp: entry_at_def entry_plan_def keys st(1) word get_str_def bind_result_def ok_or_def Let_def
        split: if_splits option.splits sum.splits)
qed

lemma entry_at_state:
  assumes "entry_at L plan t index (JObj e) = Inr m"
  shows "obj_get e ''state'' = Some (JStr (entry_word (me_state m)))"
    and "obj_get e ''job_id'' = Some (JStr (planned_id L plan index))"
proof -
  have "entry_state_of_word w = Some st \<Longrightarrow> w = entry_word st" for w st
    by (auto simp: entry_state_of_word_def split: if_splits)
  then show "obj_get e ''state'' = Some (JStr (entry_word (me_state m)))"
    using assms by (auto simp: entry_at_def entry_plan_def get_str_def bind_result_def ok_or_def Let_def
        bind_eq_Some_conv split: if_splits option.splits sum.splits)
  show "obj_get e ''job_id'' = Some (JStr (planned_id L plan index))"
    using assms by (auto simp: entry_at_def entry_plan_def get_str_def bind_result_def Let_def
        bind_eq_Some_conv split: if_splits)
qed

text \<open>The planned job of a valid entry has the id its key derives.\<close>

lemma value_eq_text_field:
  assumes "value_eq (JObj a) (JObj b)" "obj_get a k = Some (JStr x)"
  shows "obj_get b k = Some (JStr x)"
proof -
  have each: "\<exists>u. map_of b (fst kv) = Some u \<and> value_eq (snd kv) u" if "entries_eq c b" "kv \<in> set c" for c kv
    using that by (induction c) (auto split: option.splits)
  have "(k, JStr x) \<in> set a" using assms(2) by (simp add: obj_get_def map_of_SomeD)
  then obtain u where "map_of b k = Some u" "value_eq (JStr x) u"
    using each [of a "(k, JStr x)"] assms(1) by auto
  then show ?thesis by (cases u) (simp_all add: obj_get_def)
qed

lemma entry_at_job_id:
  assumes "entry_at L plan t index entry = Inr m"
  shows "job_id (me_planned_job m) = planned_id L plan index"
proof -
  obtain j st oc where plan: "entry_plan L plan index entry = Inr (j, st, oc)" and m: "me_planned_job m = j"
    using assms by (auto simp: entry_at_def bind_result_def split: sum.splits)
  have j: "me_planned_job m = j" "value_eq (job_to_value (expected_job L plan index j)) (job_to_value j)"
    using plan m by (simp_all add: entry_plan_def bind_result_def ok_or_def Let_def
        split: if_splits option.splits sum.splits)
  have "obj_get (job_object j) ''job_id'' = Some (JStr (job_id j))" for j
    by (simp add: job_object_get)
  moreover have "job_id (expected_job L plan index j) = planned_id L plan index"
    by (simp add: expected_job_def build_planned_job_def Let_def)
  ultimately show ?thesis
    using value_eq_text_field [OF j(2) [unfolded job_to_value_def], of "''job_id''"] by (simp add: j(1))
qed

lemma container_Some [simp]:
  "as_array v = Some xs \<longleftrightarrow> v = JArr xs" "as_object v = Some o' \<longleftrightarrow> v = JObj o'"
  by (cases v; auto simp: as_array_def as_object_def)+

lemma entry_object_set:
  "entry_object m index = Some e \<Longrightarrow> entry_object (set_entry m index e') index = Some e'"
  by (auto simp: entry_object_def set_entry_def get_key_def split: json.splits option.splits if_splits)

lemma set_entry_request [simp]: "get_key (set_entry m index e) ''request'' = get_key m ''request''"
  by (auto simp: set_entry_def get_key_def split: json.splits option.splits)

lemma set_entry_twice:
  "entry_object m index = Some e \<Longrightarrow> set_entry (set_entry m index a) index b = set_entry m index b"
proof -
  have "obj_insert k v (obj_insert k u o') = obj_insert k v o'" for k u v o'
    by (induction k u o' rule: obj_insert.induct) auto
  then show "entry_object m index = Some e \<Longrightarrow> ?thesis"
    by (auto simp: entry_object_def set_entry_def get_key_def split: json.splits option.splits if_splits)
qed

lemma header_set_entry:
  assumes "entry_object m index = Some e" and "manifest_header L m r q d = Inr (plan, entries)"
  shows "manifest_header L (set_entry m index e') r q d = Inr (plan, entries[index := JObj e'])"
    and "index < length entries" and "entries ! index = JObj e"
proof -
  obtain o' xs where m: "m = JObj o'" "obj_get o' ''entries'' = Some (JArr xs)"
      "index < length xs" "xs ! index = JObj e"
    using assms(1) by (cases m) (auto simp: entry_object_def get_key_def
        bind_eq_Some_conv split: json.splits option.splits if_splits)
  have xs: "entries = xs"
    using assms(2) by (auto simp: m manifest_header_def bind_result_def ok_or_def Let_def
        split: if_splits option.splits sum.splits)
  show "index < length entries" "entries ! index = JObj e" by (simp_all add: xs m)
  show "manifest_header L (set_entry m index e') r q d = Inr (plan, entries[index := JObj e'])"
    using assms(2) unfolding xs
    by (auto simp: m set_entry_def manifest_header_def obsolete_fields_def required_manifest_string_def
        get_str_def bind_result_def ok_or_def Let_def
        split: if_splits option.splits sum.splits)
qed

lemma manifest_at_restated:
  assumes "manifest_at L m r q d t = Inr es" and "entry_object m index = Some e"
    and "\<not> entry_ended (me_state (es ! index))"
    and "\<And>k. k \<in> set plan_keys \<Longrightarrow> obj_get e' k = obj_get e k"
    and "obj_get e' ''state'' = Some (JStr (entry_word st))" "\<not> entry_ended st"
  shows "manifest_at L (set_entry m index e') r q d t = Inr (es[index := (es ! index)\<lparr>me_state := st\<rparr>])"
proof -
  obtain plan entries where header: "manifest_header L m r q d = Inr (plan, entries)"
      and at: "entries_at L plan t 0 entries = Inr es"
    using assms(1) by (auto simp: manifest_at_def bind_result_def split: sum.splits)
  note set = header_set_entry [OF assms(2) header]
  have "entry_at L plan t index (JObj e) = Inr (es ! index)"
    using at set(2,3) by (auto simp: entries_at_nth)
  note new = entry_at_restated [OF this assms(3-6)]
  have "entry_at L plan t k (entries[index := JObj e'] ! k) = Inr (es[index := (es ! index)\<lparr>me_state := st\<rparr>] ! k)"
    if "k < length entries" for k
    using new at that set(2) by (cases "k = index") (simp_all add: entries_at_nth)
  then have "entries_at L plan t 0 (entries[index := JObj e']) = Inr (es[index := (es ! index)\<lparr>me_state := st\<rparr>])"
    using at by (simp add: entries_at_nth)
  then show ?thesis by (simp add: manifest_at_def bind_result_def set(1))
qed

lemma manifest_at_entry:
  assumes "manifest_at L m r q d t = Inr es" and "index < length es"
  obtains e plan entries where "manifest_header L m r q d = Inr (plan, entries)" "index < length entries"
    "entry_at L plan t index (entries ! index) = Inr (es ! index)"
  using assms by (auto simp: manifest_at_def bind_result_def entries_at_nth split: sum.splits)

text \<open>What validates at an instant validates at every later one, alike.\<close>

lemma outcome_times_later:
  assumes "outcome_times L t c r k j shape = Inr ()" "t \<le> t'"
  shows "outcome_times L t' c r k j shape = Inr ()"
proof -
  obtain p job' recorded where shape: "shape = (p, job', recorded)" by (cases shape)
  have "\<not> (recorded < c \<or> recorded > t)"
    using assms(1) by (simp add: outcome_times_def shape split: if_split_asm)
  then have "outcome_times L t' c r k j shape = outcome_times L t c r k j shape"
    using assms(2) by (simp add: outcome_times_def shape)
  then show ?thesis using assms(1) by simp
qed

lemma entry_at_later:
  assumes "entry_at L plan t k entry = Inr e" "t \<le> t'"
  shows "entry_at L plan t' k entry = Inr e"
proof -
  obtain j st oc where plan: "entry_plan L plan k entry = Inr (j, st, oc)"
    using assms(1) by (auto simp: entry_at_def bind_result_def split: sum.splits)
  show ?thesis
  proof (cases "entry_ended st")
    case True
    then obtain shape where "outcome_shape L entry oc = Inr shape"
        "outcome_times L t (mp_created_at plan) (mp_run_id plan) k j shape = Inr ()"
      using assms(1) plan by (cases "outcome_shape L entry oc") (auto simp: entry_at_def bind_result_def split: sum.splits)
    then show ?thesis
      using assms plan True outcome_times_later [OF _ assms(2)] by (simp add: entry_at_def bind_result_def)
  next
    case False
    then show ?thesis using assms(1) plan by (simp add: entry_at_def bind_result_def)
  qed
qed

lemma manifest_at_later:
  assumes "manifest_at L m r q d t = Inr es" "t \<le> t'"
  shows "manifest_at L m r q d t' = Inr es"
proof -
  obtain plan entries where header: "manifest_header L m r q d = Inr (plan, entries)"
      and at: "entries_at L plan t 0 entries = Inr es"
    using assms(1) by (auto simp: manifest_at_def bind_result_def split: sum.splits)
  have "entry_at L plan t' k (entries ! k) = Inr (es ! k)" if "k < length entries" for k
    using entry_at_later [OF _ assms(2)] at that by (simp add: entries_at_nth)
  then show ?thesis using at by (simp add: manifest_at_def bind_result_def header entries_at_nth)
qed

lemma manifest_at_schema:
  assumes "manifest_at L m r q d t = Inr es"
  shows "get_str m ''schema'' = Some ''stado.run-submission.v3''"
proof -
  obtain x where "manifest_header L m r q d = Inr x"
    using assms by (auto simp: manifest_at_def bind_result_def split: sum.splits)
  then show ?thesis by (simp add: manifest_header_def split: if_splits)
qed

section \<open>Holders\<close>

text \<open>Whether the process an entry names still holds it, as this process sees it.\<close>

definition holder_seen :: "lib \<Rightarrow> 's world \<Rightarrow> json_object \<Rightarrow> bool" where
  "holder_seen L w entry =
     (case Option.bind (obj_get entry ''owner_pid'') as_u64 of
        None \<Rightarrow>
          (case Option.bind (obj_get entry ''lease_expires_at'') as_str of
             None \<Rightarrow> False
           | Some stamp \<Rightarrow>
               (case parse_rfc3339 L stamp of None \<Rightarrow> True | Some expires \<Rightarrow> clock w < expires))
      | Some pid \<Rightarrow>
          \<not> pid < 2 ^ 32 \<or>
          (case Option.bind (obj_get entry ''owner_host'') as_str of
             None \<Rightarrow> True
           | Some host \<Rightarrow> host \<noteq> po_host (this_process w) \<or> pid = po_pid (this_process w) \<or>
               pid < 2 ^ 31 \<and> pid \<in> set (live_pids w)))"

lemma run_live_holder:
  obtains h where "run L B (live_holder L entry) w = (h, w)" "h \<noteq> None \<longleftrightarrow> holder_seen L w entry"
proof -
  have "\<exists>h. run L B (live_holder L entry) w = (h, w) \<and> (h \<noteq> None \<longleftrightarrow> holder_seen L w entry)"
    by (auto simp: live_holder_def holder_seen_def owner_observed_def pid_alive_def run_simps
        split: option.splits)
  then show thesis using that by blast
qed

text \<open>A process as another one sees it; what cannot be seen to be gone is there.\<close>

definition process_seen :: "'s world \<Rightarrow> process_owner \<Rightarrow> bool" where
  "process_seen w holder \<longleftrightarrow> po_host holder \<noteq> po_host (this_process w) \<or>
     po_pid holder = po_pid (this_process w) \<or> po_pid holder < 2 ^ 31 \<and> po_pid holder \<in> set (live_pids w)"

text \<open>The entry is another owner's, in a state of being submitted.\<close>

definition claimed_elsewhere :: "string \<Rightarrow> entry_state \<Rightarrow> json_object \<Rightarrow> bool" where
  "claimed_elsewhere owner st entry \<longleftrightarrow> (st = Claimed \<or> st = Enqueuing) \<and> held_by_another owner entry"

section \<open>On a store\<close>

text \<open>A manifest in the store that validates, and what validation answers.\<close>

definition stored_plan ::
  "('s \<Rightarrow> string \<Rightarrow> body option) \<Rightarrow> ('s \<Rightarrow> bool) \<Rightarrow> lib \<Rightarrow> submission_context \<Rightarrow> 's world \<Rightarrow> json \<Rightarrow>
   manifest_entry list \<Rightarrow> bool" where
  "stored_plan view ready L ctx w m es \<longleftrightarrow> ready (disk w) \<and> run_id_ok (sx_run_id ctx) \<and>
     sx_path ctx = run_path (sx_run_id ctx) \<and> view (disk w) (sx_path ctx) = Some (Json m) \<and>
     get_key m ''request'' = Some (sx_request ctx) \<and>
     manifest_at L m (sx_run_id ctx) (sx_request ctx) (sx_request_digest ctx) (clock w) = Inr es"

locale submission_store =
  lifecycle_store B view put remove annotate token refusal good ready boundary L
  for B :: "'s backend" and view put remove annotate token refusal good ready boundary L +
  assumes good_run: "run_id_ok run_id' \<Longrightarrow> good (run_path run_id')"
begin

lemma run_read_validated:
  assumes "stored_plan view ready L ctx w m es"
  shows "run L B (read_validated L ctx) w = (Inr (token (Json m), m, es), w)"
  using assms by (auto simp: stored_plan_def read_validated_def run_simps run_calls good_run run_validate_manifest)

lemma stored_entry:
  assumes "stored_plan view ready L ctx w m es" and "index < length es"
  obtains e plan where "entry_object m index = Some e"
    "obj_get e ''state'' = Some (JStr (entry_word (me_state (es ! index))))"
    "obj_get e ''job_id'' = Some (JStr (planned_id L plan index))"
    "job_id (me_planned_job (es ! index)) = planned_id L plan index"
proof -
  obtain plan entries where header: "manifest_header L m (sx_run_id ctx) (sx_request ctx) (sx_request_digest ctx) = Inr (plan, entries)"
    and index: "index < length entries" and at: "entry_at L plan (clock w) index (entries ! index) = Inr (es ! index)"
    using assms by (auto simp: stored_plan_def elim: manifest_at_entry)
  obtain e where e: "entries ! index = JObj e"
    using at by (cases "entries ! index") (auto simp: entry_at_def entry_plan_def bind_result_def get_key_def Let_def)
  have "Option.bind (get_key m ''entries'') as_array = Some entries"
    using header by (auto simp: manifest_header_def bind_result_def ok_or_def Let_def
        split: if_splits option.splits sum.splits)
  then have "entry_object m index = Some e" using index e by (simp add: entry_object_def)
  moreover have "job_id (me_planned_job (es ! index)) = planned_id L plan index"
    using at by (rule entry_at_job_id)
  ultimately show thesis using that entry_at_state [OF at [unfolded e]] by blast
qed

lemma stored_plan_put:
  assumes "stored_plan view ready L ctx w m es" and "index < length es" and "entry_object m index = Some e"
    and "\<not> entry_ended (me_state (es ! index))"
    and "\<And>k. k \<in> set plan_keys \<Longrightarrow> obj_get e' k = obj_get e k"
    and "obj_get e' ''state'' = Some (JStr (entry_word st))" "\<not> entry_ended st"
  shows "stored_plan view ready L ctx (w\<lparr>disk := put (disk w) (sx_path ctx) (Json (set_entry m index e'))\<rparr>)
    (set_entry m index e') (es[index := (es ! index)\<lparr>me_state := st\<rparr>])"
  using assms(1) manifest_at_restated [OF _ assms(3-7)]
  by (auto simp: stored_plan_def store_simps good_run)

text \<open>An entry nobody is seen to hold is handed over, claimed and then enqueuing.\<close>

lemma claim_owned:
  assumes plan: "stored_plan view ready L ctx w m es" and index: "index < length es"
    and live: "\<not> entry_ended (me_state (es ! index))" "me_state (es ! index) \<noteq> Accepted"
    and e: "entry_object m index = Some e"
    and free: "claimed_elsewhere (sx_owner ctx) (me_state (es ! index)) e \<Longrightarrow> \<not> holder_seen L w e"
  obtains w' m' e' where "run L B (claim_entry (Suc fuel) L ctx index) w = (Inr (Owned (me_planned_job (es ! index))), w')"
    "w' = w\<lparr>disk := put (put (disk w) (sx_path ctx) (Json (set_entry m index (claimed_by (sx_owner ctx) (this_process w) e))))
       (sx_path ctx) (Json m')\<rparr>"
    "stored_plan view ready L ctx w' m' (es[index := (es ! index)\<lparr>me_state := Enqueuing\<rparr>])"
    "entry_object m' index = Some e'" "obj_get e' ''owner'' = Some (JStr (sx_owner ctx))"
    "obj_get e' ''owner_host'' = Some (JStr (po_host (this_process w)))"
    "obj_get e' ''owner_pid'' = Some (JInt (int (po_pid (this_process w))))"
proof -
  let ?c = "claimed_by (sx_owner ctx) (this_process w) e"
  let ?q = "enqueuing_entry ?c"
  let ?m1 = "set_entry m index ?c" and ?m2 = "set_entry m index ?q"
  let ?w1 = "w\<lparr>disk := put (disk w) (sx_path ctx) (Json ?m1)\<rparr>"
  let ?w2 = "w\<lparr>disk := put (put (disk w) (sx_path ctx) (Json ?m1)) (sx_path ctx) (Json ?m2)\<rparr>"
  have rdy: "ready (disk w)" and good: "good (sx_path ctx)" and doc: "view (disk w) (sx_path ctx) = Some (Json m)"
    using plan good_run by (auto simp: stored_plan_def)
  have keys: "\<And>k. k \<in> set plan_keys \<Longrightarrow> obj_get ?c k = obj_get e k" "\<And>k. k \<in> set plan_keys \<Longrightarrow> obj_get ?q k = obj_get e k"
    by (auto simp: plan_keys_def claimed_by_def enqueuing_entry_def)
  have twice: "set_entry ?m1 index ?q = ?m2" using e by (rule set_entry_twice)
  have one: "stored_plan view ready L ctx ?w1 ?m1 (es[index := (es ! index)\<lparr>me_state := Claimed\<rparr>])"
    using stored_plan_put [OF plan index e live(1) keys(1), of Claimed]
    by (simp add: claimed_by_def entry_ended_def)
  have word: "obj_get ?q ''state'' = Some (JStr (entry_word Enqueuing))" by (simp add: enqueuing_entry_def)
  have same: "obj_get ?q k = obj_get ?c k" if "k \<in> set plan_keys" for k
    using that keys by simp
  have two: "stored_plan view ready L ctx ?w2 ?m2 (es[index := (es ! index)\<lparr>me_state := Enqueuing\<rparr>])"
    using stored_plan_put [OF one _ entry_object_set [OF e] _ same word, unfolded twice] index
    by (simp add: entry_ended_def)
  obtain h where "run L B (live_holder L e) w = (h, w)" "h \<noteq> None \<longleftrightarrow> holder_seen L w e"
    by (rule run_live_holder)
  then have held: "run L B (if (me_state (es ! index) = Claimed \<or> me_state (es ! index) = Enqueuing) \<and>
      held_by_another (sx_owner ctx) e then live_holder L e else Ret None) w = (None, w)"
    using free by (auto simp: claimed_elsewhere_def)
  have swaps: "run L B (compare_and_swap_text (sx_path ctx) (token (Json m)) (Json ?m1)) w = (Inr (token (Json ?m1)), ?w1)"
      "run L B (compare_and_swap_text (sx_path ctx) (token (Json ?m1)) (Json ?m2)) ?w1 = (Inr (token (Json ?m2)), ?w2)"
    using rdy good doc by (simp_all add: run_swap store_simps)
  have "run L B (claim_entry (Suc fuel) L ctx index) w = (Inr (Owned (me_planned_job (es ! index))), ?w2)"
    using index live by (simp add: run_bindE run_bindp run_read_validated [OF plan] e held swaps twice Let_def)
  moreover have "entry_object ?m2 index = Some ?q" using e by (rule entry_object_set)
  ultimately show thesis
    by (rule that [OF _ refl two]) (simp_all add: enqueuing_entry_def claimed_by_def)
qed

text \<open>Another owner's entry stays with it while its process is seen; nothing is written.\<close>

lemma entry_claim_refused:
  assumes plan: "stored_plan view ready L ctx w m es" and index: "index < length es"
    and e: "entry_object m index = Some e"
    and held: "claimed_elsewhere (sx_owner ctx) (me_state (es ! index)) e" "holder_seen L w e"
  shows "run L B (claim_entry (Suc fuel) L ctx index) w =
    (Inl (Validation ''run command is being submitted by another owner''), w)"
proof -
  obtain h where "run L B (live_holder L e) w = (h, w)" "h \<noteq> None \<longleftrightarrow> holder_seen L w e"
    by (rule run_live_holder)
  moreover have "\<not> entry_ended (me_state (es ! index))" "me_state (es ! index) \<noteq> Accepted"
    using held(1) by (auto simp: claimed_elsewhere_def entry_ended_def)
  ultimately show ?thesis
    using held index by (auto simp: run_bindE run_bindp run_read_validated [OF plan] e Let_def claimed_elsewhere_def)
qed

lemma claim_accepted:
  assumes "stored_plan view ready L ctx w m es" and "index < length es" and "me_state (es ! index) = Accepted"
  shows "run L B (claim_entry (Suc fuel) L ctx index) w = (Inr (EntryAccepted (me_planned_job (es ! index))), w)"
  using assms(2,3) by (simp add: run_bindE run_read_validated [OF assms(1)] Let_def)

lemma stored_plan_later:
  assumes "stored_plan view ready L ctx w m es" "disk x = disk w" "clock w \<le> clock x"
  shows "stored_plan view ready L (ctx\<lparr>sx_owner := owner\<rparr>) x m es"
  using assms manifest_at_later [OF _ assms(3)] by (auto simp: stored_plan_def)

text \<open>
  What a claim leaves behind: while the process that claimed is seen, another owner is refused; a
  submission under the same owner is handed the same entry.
\<close>

lemma claim_fences:
  assumes plan: "stored_plan view ready L ctx w m es" and index: "index < length es"
    and live: "\<not> entry_ended (me_state (es ! index))" "me_state (es ! index) \<noteq> Accepted"
    and e: "entry_object m index = Some e"
    and free: "claimed_elsewhere (sx_owner ctx) (me_state (es ! index)) e \<Longrightarrow> \<not> holder_seen L w e"
    and pid: "po_pid (this_process w) < 2 ^ 32"
  shows "\<exists>w'. run L B (claim_entry (Suc fuel) L ctx index) w = (Inr (Owned (me_planned_job (es ! index))), w') \<and>
    (\<forall>x owner. disk x = disk w' \<longrightarrow> clock w \<le> clock x \<longrightarrow> owner \<noteq> sx_owner ctx \<longrightarrow>
      (if process_seen x (this_process w)
       then run L B (claim_entry (Suc fuel') L (ctx\<lparr>sx_owner := owner\<rparr>) index) x =
         (Inl (Validation ''run command is being submitted by another owner''), x)
       else \<exists>x'. run L B (claim_entry (Suc fuel') L (ctx\<lparr>sx_owner := owner\<rparr>) index) x =
         (Inr (Owned (me_planned_job (es ! index))), x'))) \<and>
    (\<forall>x. disk x = disk w' \<longrightarrow> clock w \<le> clock x \<longrightarrow>
      (\<exists>x'. run L B (claim_entry (Suc fuel') L ctx index) x = (Inr (Owned (me_planned_job (es ! index))), x')))"
proof -
  let ?j = "me_planned_job (es ! index)" and ?es = "es[index := (es ! index)\<lparr>me_state := Enqueuing\<rparr>]"
  obtain w' m' e' where run: "run L B (claim_entry (Suc fuel) L ctx index) w = (Inr (Owned ?j), w')"
    and w': "w' = w\<lparr>disk := put (put (disk w) (sx_path ctx) (Json (set_entry m index (claimed_by (sx_owner ctx) (this_process w) e))))
       (sx_path ctx) (Json m')\<rparr>"
    and plan': "stored_plan view ready L ctx w' m' ?es"
    and e': "entry_object m' index = Some e'" "obj_get e' ''owner'' = Some (JStr (sx_owner ctx))"
      "obj_get e' ''owner_host'' = Some (JStr (po_host (this_process w)))"
      "obj_get e' ''owner_pid'' = Some (JInt (int (po_pid (this_process w))))"
    by (rule claim_owned [OF plan index live e free, where fuel = fuel])
  have seen: "holder_seen L x e' \<longleftrightarrow> process_seen x (this_process w)" for x :: "'s world"
    using pid by (simp add: holder_seen_def process_seen_def e' u64_range_def)
  have elsewhere: "claimed_elsewhere owner Enqueuing e' \<longleftrightarrow> owner \<noteq> sx_owner ctx" for owner
    by (auto simp: claimed_elsewhere_def held_by_another_def e')
  have later: "stored_plan view ready L (ctx\<lparr>sx_owner := owner\<rparr>) x m' ?es"
    if "disk x = disk w'" "clock w \<le> clock x" for x :: "'s world" and owner
    using stored_plan_later [OF plan' that(1)] that(2) by (simp add: w')
  have again: "\<exists>x'. run L B (claim_entry (Suc fuel') L (ctx\<lparr>sx_owner := owner\<rparr>) index) x = (Inr (Owned ?j), x')"
    if "disk x = disk w'" "clock w \<le> clock x" "owner = sx_owner ctx \<or> \<not> process_seen x (this_process w)"
    for x :: "'s world" and owner
  proof -
    have "\<exists>x'. run L B (claim_entry (Suc fuel') L (ctx\<lparr>sx_owner := owner\<rparr>) index) x =
        (Inr (Owned (me_planned_job (?es ! index))), x')"
      by (rule claim_owned [OF later [OF that(1,2), of owner], of index e' fuel'])
         (use index that(3) in \<open>auto simp: e' entry_ended_def seen elsewhere\<close>)
    then show ?thesis using index by simp
  qed
  have refused: "run L B (claim_entry (Suc fuel') L (ctx\<lparr>sx_owner := owner\<rparr>) index) x =
      (Inl (Validation ''run command is being submitted by another owner''), x)"
    if "disk x = disk w'" "clock w \<le> clock x" "owner \<noteq> sx_owner ctx" "process_seen x (this_process w)"
    for x :: "'s world" and owner
    by (rule entry_claim_refused [OF later [OF that(1,2), of owner] _ e'(1)])
       (use index that(3,4) in \<open>simp_all add: seen elsewhere\<close>)
  show ?thesis
    using run refused again again [where owner = "sx_owner ctx"] by (intro exI [of _ w']) simp
qed

text \<open>The checkpoint of the entry this owner is enqueuing.\<close>

lemma checkpoint_accepts:
  assumes plan: "stored_plan view ready L ctx w m es" and index: "index < length es"
    and st: "me_state (es ! index) = Enqueuing"
    and e: "entry_object m index = Some e" and owner: "obj_get e ''owner'' = Some (JStr (sx_owner ctx))"
    and id': "id' = job_id (me_planned_job (es ! index))"
  obtains m' where "run L B (checkpoint_accepted (Suc fuel) L ctx index id') w =
      (Inr (), w\<lparr>disk := put (disk w) (sx_path ctx) (Json m')\<rparr>)"
    "stored_plan view ready L ctx (w\<lparr>disk := put (disk w) (sx_path ctx) (Json m')\<rparr>) m'
      (es[index := (es ! index)\<lparr>me_state := Accepted\<rparr>])"
proof -
  let ?a = "accepted_entry (to_rfc3339 L (clock w)) e"
  let ?w = "w\<lparr>disk := put (disk w) (sx_path ctx) (Json (set_entry m index ?a))\<rparr>"
  obtain e0 plan' where e0: "entry_object m index = Some e0"
      "obj_get e0 ''state'' = Some (JStr (entry_word (me_state (es ! index))))"
      "obj_get e0 ''job_id'' = Some (JStr (planned_id L plan' index))"
      "job_id (me_planned_job (es ! index)) = planned_id L plan' index"
    by (rule stored_entry [OF plan index])
  have doc: "obj_get e ''job_id'' = Some (JStr id')" "entry_state_stored e = Inr Enqueuing"
    using e0 e id' st by (auto simp: entry_state_stored_def ok_or_def entry_state_of_word_def)
  have keys: "\<And>k. k \<in> set plan_keys \<Longrightarrow> obj_get ?a k = obj_get e k"
    and word: "obj_get ?a ''state'' = Some (JStr (entry_word Accepted))"
    by (auto simp: plan_keys_def accepted_entry_def)
  have live: "\<not> entry_ended (me_state (es ! index))" "\<not> entry_ended Accepted"
    by (simp_all add: st entry_ended_def)
  have swap: "run L B (compare_and_swap_text (sx_path ctx) (token (Json m)) (Json (set_entry m index ?a))) w =
      (Inr (token (Json (set_entry m index ?a))), ?w)"
    using plan by (auto simp: stored_plan_def run_swap good_run)
  have "run L B (checkpoint_accepted (Suc fuel) L ctx index id') w = (Inr (), ?w)"
    using index by (simp add: run_bindE run_bindp run_now run_read_validated [OF plan] st entry_ended_def e doc owner swap)
  then show thesis
    by (rule that) (rule stored_plan_put [OF plan index e live(1) keys word live(2)])
qed

end

end
