(* ===== verification/New_Manifest.thy ===== *)
theory New_Manifest
  imports Submission_Laws
begin

text \<open>
  The manifest \<open>submit/batch/store.rs\<close> stores for a new run passes the validation of
  \<open>submit/manifest/validate.rs\<close>: what is written is what every later submission, claim and settlement of
  the run reads back, with every entry planned as it was built.
\<close>

section \<open>Writer against validator\<close>

lemma wf_hardware_value [simp]: "wf_json (hardware_to_value h)" "wf_json (hardware_value x)"
  by (simp_all add: hardware_to_value_def hardware_value_def split: option.splits)

lemma wf_options_value:
  assumes "wf_options o'"
  shows "wf_json (options_to_value o')"
proof -
  have "list_all (\<lambda>(k, x). pred_option wf_json x) (options_fields o')"
    using assms by (simp add: options_fields_def flag_field_def wf_secrets_value wf_options_def
        option.pred_map comp_def option.pred_True)
  then show ?thesis
    unfolding options_to_value_def using distinct_options_written
    by (intro wf_present_fields) (auto simp: list_all_iff options_fields_keys)
qed

lemma wf_request:
  "wf_options o' \<Longrightarrow> wf_json (submission_request configured commands o' hardware)"
  by (simp add: submission_request_def wf_options_value list_all_iff)

lemma wf_plan_job:
  assumes "wf_options o'" and "i64_range (rh_gpu_mem_gb h)" and "u64_range index"
  shows "wf_job (plan_job L d o' provenance index c h)"
proof -
  have zero: "i64_range 0" "f64_is_finite 0" by (simp_all add: i64_range_def f64_is_finite_def f64_exponent_def)
  have "wf_job job_default"
    by (simp add: job_default_def job_of_object_def field_reads wf_job_def zero)
  note base = this [unfolded wf_job_def]
  show ?thesis
    using assms base zero unfolding wf_job_def wf_options_def
    by (cases "so_max_yields_before_protected o'"; cases "so_boot_disk_gb o'"; cases "so_runtime_seconds_estimate o'";
        simp add: plan_job_def build_planned_job_def)
qed

lemma plan_job_simps [simp]:
  "job_id (plan_job L d o' provenance index c h) = job_id_from_key (submission_job_key L d index c)"
  "created_at (plan_job L d o' provenance index c h) = sp_created_at provenance"
  "state (plan_job L d o' provenance index c h) = state job_default"
  "re_submission_of (plan_job L d o' provenance index c h) = so_re_submission_of o'"
  "run_id (plan_job L d o' provenance index c h) = so_run_id o'"
  "submission_request_digest (plan_job L d o' provenance index c h) = d"
  "submission_command_index (plan_job L d o' provenance index c h) = Some index"
  by (simp_all add: plan_job_def build_planned_job_def)

lemma request_gets [simp]:
  "get_key (submission_request configured commands o' hardware) ''schema'' = Some (JStr ''stado.submission-request.v3'')"
  "get_key (submission_request configured commands o' hardware) ''commands'' = Some (JArr (map JStr commands))"
  "get_key (submission_request configured commands o' hardware) ''options'' = Some (options_to_value o')"
  "get_key (submission_request configured commands o' hardware) ''effective_bucket'' =
     Some (JStr (if so_bucket o' = [] then configured else so_bucket o'))"
  "get_key (submission_request configured commands o' hardware) ''resolved_hardware'' =
     Some (JArr (map hardware_to_value hardware))"
  by (simp_all add: submission_request_def)

lemma planned_entry_at:
  assumes "wf_options o'" "i64_range (rh_gpu_mem_gb (mp_hardware plan ! index))" "u64_range index"
    and "mp_options plan = o'" "mp_provenance plan = provenance" "mp_legacy_digest plan = None"
    and "mp_request_digest plan = d"
  shows "entry_at L plan t index (planned_entry L d o' provenance index (mp_commands plan ! index) (mp_hardware plan ! index)) =
    Inr \<lparr>me_planned_job = plan_job L d o' provenance index (mp_commands plan ! index) (mp_hardware plan ! index),
      me_state = Planned, me_outcome_job = None\<rparr>"
proof -
  let ?j = "plan_job L d o' provenance index (mp_commands plan ! index) (mp_hardware plan ! index)"
  have j: "expected_job L plan index ?j = ?j"
    using assms by (simp add: expected_job_def plan_job_def planned_id_def identity_digest_def)
  have wf: "wf_job ?j" using assms by (simp add: wf_plan_job)
  show ?thesis
    using assms(3-) wf
    by (simp add: entry_at_def entry_plan_def planned_entry_def get_str_def planned_id_def identity_digest_def
        doc_simps j value_eq_refl wf_job_to_value entry_state_of_word_def entry_ended_def bind_result_def ok_or_def Let_def)
qed

theorem new_manifest_at:
  assumes wf: "wf_options o'" "list_all (\<lambda>h. i64_range (rh_gpu_mem_gb h)) hardware"
    and len: "length hardware = length commands" "u64_range (length commands)"
    and created: "parse_rfc3339 L (sp_created_at provenance) \<noteq> None"
    and request: "request = submission_request configured commands o' hardware"
  shows "manifest_at L (new_manifest L name commands o' provenance request hardware) (so_run_id o') request
      (digest_value L request) t =
    Inr (map (\<lambda>i. \<lparr>me_planned_job = plan_job L (digest_value L request) o' provenance i (commands ! i) (hardware ! i),
        me_state = Planned, me_outcome_job = None\<rparr>) [0..<length commands])"
proof -
  let ?d = "digest_value L request"
  obtain instant where instant: "parse_rfc3339 L (sp_created_at provenance) = Some instant"
    using created by blast
  define plan where "plan = \<lparr>mp_run_id = so_run_id o', mp_request_digest = ?d, mp_commands = commands,
    mp_options = o', mp_hardware = hardware, mp_provenance = provenance, mp_created_at = instant,
    mp_legacy_digest = None\<rparr>"
  have "value_eq request request" using wf by (simp add: request wf_request value_eq_refl)
  then have header: "manifest_header L (new_manifest L name commands o' provenance request hardware) (so_run_id o')
      request ?d = Inr (plan, planned_entries L ?d o' provenance commands hardware)"
    using wf len instant
    by (simp add: manifest_header_def new_manifest_def get_str_def commands_of_request_def request doc_simps
        required_manifest_string_def obsolete_fields_def planned_entries_def bind_result_def ok_or_def Let_def plan_def)
  have "entry_at L plan t i (planned_entry L ?d o' provenance i (commands ! i) (hardware ! i)) =
      Inr \<lparr>me_planned_job = plan_job L ?d o' provenance i (commands ! i) (hardware ! i),
        me_state = Planned, me_outcome_job = None\<rparr>" if "i < length commands" for i
    using planned_entry_at [of o' plan i provenance ?d L t] wf len that
    by (simp add: plan_def list_all_length u64_range_def)
  then show ?thesis
    by (simp add: manifest_at_def header bind_result_def entries_at_nth planned_entries_def)
qed

end
