(* ===== verification/Accepted_Runs.thy ===== *)
theory Accepted_Runs
  imports New_Manifest
begin

text \<open>
  A whole submission on a store that keeps its contract: every entry of a planned run is claimed, its job
  admitted and indexed, and the entry accepted; submitted again, by whatever process and at whatever
  time, the run answers the same jobs and leaves every document as it was.
\<close>

declare claim_entry.simps [simp del] checkpoint_accepted.simps [simp del]

section \<open>Paths of a run\<close>

lemma run_path_other [simp]:
  "run_path r \<noteq> job_path (prefix_as_str p) i" "job_path (prefix_as_str p) i \<noteq> run_path r"
  "run_path r \<noteq> transition_path L i" "transition_path L i \<noteq> run_path r"
  "run_path r \<noteq> marker_path j" "marker_path j \<noteq> run_path r"
  by (cases p; simp add: run_path_def job_path_def transition_path_def marker_path_def marker_prefix_def
      prefix_words del: queue_words)+

definition key_id :: "string \<Rightarrow> bool" where
  "key_id i \<longleftrightarrow> length i = 28 \<and> no_slash i"

lemma key_id_planned [simp]: "key_id (job_id_from_key (submission_job_key L d index c))"
proof -
  have "no_slash (digest_value L v)" "length (digest_value L v) = 64" for v
    by (simp_all add: digest_value_def)
  moreover have "no_slash xs \<Longrightarrow> no_slash (take n xs)" for xs n
    by (auto simp: no_slash_def dest: in_set_takeD)
  ultimately have "no_slash (take 24 (digest_value L v))" "length (take 24 (digest_value L v)) = 24" for v
    by simp_all
  then show ?thesis
    by (simp add: key_id_def job_id_from_key_def job_id_head_def job_id_hex_len_def submission_job_key_def
        no_slash_def del: length_take)
qed

lemma marker_path_ids:
  assumes "key_id (job_id a)" "key_id (job_id b)" "marker_path a = marker_path b"
  shows "job_id a = job_id b"
  using assms by (simp add: key_id_def marker_path_def)

definition marker_document :: "job \<Rightarrow> body" where
  "marker_document j = Json (JObj [(''job_id'', JStr (job_id j)), (''priority'', JInt (priority j))])"

text \<open>A job nothing knows of, and one that is queued and indexed and nothing else.\<close>

definition unknown :: "('s \<Rightarrow> string \<Rightarrow> body option) \<Rightarrow> lib \<Rightarrow> 's \<Rightarrow> string \<Rightarrow> bool" where
  "unknown view L s i \<longleftrightarrow> view s (transition_path L i) = None \<and>
     (\<forall>p. view s (job_path (prefix_as_str p) i) = None)"

definition queued_only :: "('s \<Rightarrow> string \<Rightarrow> body option) \<Rightarrow> lib \<Rightarrow> 's \<Rightarrow> job \<Rightarrow> bool" where
  "queued_only view L s j \<longleftrightarrow> view s (transition_path L (job_id j)) = None \<and>
     (\<forall>p. view s (job_path (prefix_as_str p) (job_id j)) = (if p = Queue then Some (to_json j) else None)) \<and>
     view s (marker_path j) = Some (marker_document j)"

definition job_paths :: "job \<Rightarrow> string set" where
  "job_paths j = {marker_path j, job_path (prefix_as_str Queue) (job_id j)}"

lemma machine_prefix_words:
  "machine_job_prefixes = map prefix_as_str [Cancelled, Failed, Uploaded, Completed, Running, Queue]"
  by (simp add: machine_job_prefixes_def prefix_words)

text \<open>The plan of a run: its jobs, the answer of the validation of its fresh manifest, its context.\<close>

definition run_jobs ::
  "lib \<Rightarrow> string \<Rightarrow> submit_options \<Rightarrow> submission_provenance \<Rightarrow> string list \<Rightarrow>
   resolved_hardware_projection list \<Rightarrow> job list" where
  "run_jobs L d o' provenance commands hardware =
     map (\<lambda>i. plan_job L d o' provenance i (commands ! i) (hardware ! i)) [0..<length commands]"

definition planned_answer :: "job list \<Rightarrow> manifest_entry list" where
  "planned_answer jobs = map (\<lambda>j. \<lparr>me_planned_job = j, me_state = Planned, me_outcome_job = None\<rparr>) jobs"

definition run_context :: "lib \<Rightarrow> string \<Rightarrow> json \<Rightarrow> submission_context" where
  "run_context L run_id' request =
     \<lparr>sx_path = run_path run_id', sx_run_id = run_id', sx_request = request,
      sx_request_digest = digest_value L request, sx_owner = submission_owner (digest_value L request)\<rparr>"

lemma run_context_simps [simp]:
  "sx_path (run_context L r q) = run_path r" "sx_run_id (run_context L r q) = r"
  "sx_request (run_context L r q) = q" "sx_request_digest (run_context L r q) = digest_value L q"
  by (simp_all add: run_context_def)

lemma planned_answer_simps [simp]:
  "length (planned_answer jobs) = length jobs"
  "k < length jobs \<Longrightarrow> planned_answer jobs ! k = \<lparr>me_planned_job = jobs ! k, me_state = Planned, me_outcome_job = None\<rparr>"
  by (simp_all add: planned_answer_def)

lemma run_jobs_simps [simp]:
  "length (run_jobs L d o' provenance commands hardware) = length commands"
  "k < length commands \<Longrightarrow> run_jobs L d o' provenance commands hardware ! k =
     plan_job L d o' provenance k (commands ! k) (hardware ! k)"
  by (simp_all add: run_jobs_def)

lemma resolve_each_length: "resolve_each E o' commands = Inr hs \<Longrightarrow> length hs = length commands"
  by (induction commands arbitrary: hs) (auto simp: bind_result_def split: sum.splits)

text \<open>What this model relies on of time stamps: they are read back, and one is part of a path.\<close>

definition stamped :: "lib \<Rightarrow> int \<Rightarrow> bool" where
  "stamped L t \<longleftrightarrow> parse_rfc3339 L (to_rfc3339 L t) \<noteq> None \<and> to_rfc3339 L t \<noteq> [] \<and> no_slash (to_rfc3339 L t)"

text \<open>The answer of validation once the given entries are accepted.\<close>

definition accept :: "nat list \<Rightarrow> manifest_entry list \<Rightarrow> manifest_entry list" where
  "accept ks es = map (\<lambda>k. if k \<in> set ks then (es ! k)\<lparr>me_state := Accepted\<rparr> else es ! k) [0..<length es]"

lemma accept_simps [simp]:
  "length (accept ks es) = length es"
  "k < length es \<Longrightarrow> accept ks es ! k = (if k \<in> set ks then (es ! k)\<lparr>me_state := Accepted\<rparr> else es ! k)"
  by (simp_all add: accept_def)

lemma accept_Cons:
  "k < length es \<Longrightarrow> accept ks (es[k := (es ! k)\<lparr>me_state := Accepted\<rparr>]) = accept (k # ks) es"
  by (rule nth_equalityI) (auto simp: nth_list_update)

context submission_store
begin

section \<open>One entry\<close>

lemma find_job_unknown:
  assumes "ready (disk w)" "no_slash i" "unknown view L (disk w) i"
  shows "run L B (find_job L i) w = (Inr None, w)"
proof -
  have "run L B (find_job_in L i (map prefix_as_str ps)) w = (Inr None, w)" for ps
    using assms by (induction ps) (simp_all add: run_bindE run_with_error run_read_job_absent unknown_def)
  then show ?thesis unfolding find_job_def machine_prefix_words .
qed

lemma find_job_queued:
  assumes "ready (disk w)" "sound_job j" "state j = ''queued''" "queued_only view L (disk w) j"
  shows "run L B (find_job L (job_id j)) w = (Inr (Some j), w)"
proof -
  have j: "no_slash (job_id j)" "\<not> is_transition_sentinel_state (state j)"
    using assms(2,3) by (simp_all add: sound_job_def is_transition_sentinel_state_def starts_with_def
        transition_fence_prefix_def transition_cleaned_prefix_def)
  have "run L B (read_job L (prefix_as_str p) (job_id j)) w = (Inr (if p = Queue then Some j else None), w)" for p
    using assms j by (auto simp: run_read_job run_read_job_absent queued_only_def)
  then show ?thesis
    unfolding find_job_def machine_prefix_words by (simp add: run_bindE run_with_error)
qed

lemma run_ended_none:
  assumes "ready (disk w)" "view (disk w) (transition_path L (job_id j)) = None"
  shows "run L B (ended_by_transition L j) w = (Inr None, w)"
  using assms by (simp add: ended_by_transition_def ended_state_def run_simps run_calls)

lemma admit_planned_admits:
  assumes rdy: "ready (disk w)" and j: "sound_job j" and fresh: "unknown view L (disk w) (job_id j)"
  obtains w' where "run L B (admit_planned fuel L index j) w = (Inr j, w')" "ready (disk w')"
    "queued_only view L (disk w') j"
    "\<forall>p. good p \<longrightarrow> p \<notin> job_paths j \<longrightarrow> view (disk w') p = view (disk w) p"
proof -
  have id': "no_slash (job_id j)" using j by (simp add: sound_job_def)
  have none: "view (disk w) (transition_path L (job_id j)) = None"
      "\<And>p. view (disk w) (job_path (prefix_as_str p) (job_id j)) = None"
    using fresh by (simp_all add: unknown_def)
  obtain w' where run: "run L B (create_queued_job_if_absent fuel L j) w = (Inr True, w')"
    and rdy': "ready (disk w')" and q: "view (disk w') (job_path (prefix_as_str Queue) (job_id j)) = Some (to_json j)"
    and t: "view (disk w') (transition_path L (job_id j)) = None"
    and others: "\<forall>p. p \<noteq> Queue \<longrightarrow> view (disk w') (job_path (prefix_as_str p) (job_id j)) = None"
    and "\<forall>u \<in> set (crash_worlds L B (create_queued_job_if_absent fuel L j) w).
      view (disk u) (job_path (prefix_as_str Queue) (job_id j)) = None \<or> view (disk u) (marker_path j) \<noteq> None"
    and marker: "view (disk w') (marker_path j) =
      Some (Json (JObj [(''job_id'', JStr (job_id j)), (''priority'', JInt (priority j))]))"
    and frame: "\<forall>p. good p \<longrightarrow> p \<noteq> marker_path j \<longrightarrow> p \<noteq> job_path (prefix_as_str Queue) (job_id j) \<longrightarrow>
      view (disk w') p = view (disk w) p"
    by (rule admission_admits [OF rdy j none, where fuel = fuel])
  show thesis
  proof (rule that)
    show "run L B (admit_planned fuel L index j) w = (Inr j, w')"
      by (simp add: admit_planned_def run_bindE run_with_error find_job_unknown [OF rdy id' fresh]
          run_ended_none [OF rdy none(1)] run)
    show "queued_only view L (disk w') j"
      using t q others marker by (simp add: queued_only_def marker_document_def)
  qed (use rdy' frame in \<open>auto simp: job_paths_def\<close>)
qed

text \<open>A plan whose document other writes left alone, seen at any instant at which it still validates.\<close>

lemma stored_plan_moved:
  assumes "stored_plan view ready L ctx w m es" "ready (disk w')" "clock w' = clock w"
    and "view (disk w') (sx_path ctx) = view (disk w) (sx_path ctx)"
  shows "stored_plan view ready L ctx w' m es"
  using assms by (auto simp: stored_plan_def)

lemma stored_plan_id:
  assumes "stored_plan view ready L ctx w m es" "index < length es"
  shows "key_id (job_id (me_planned_job (es ! index)))"
  using stored_entry [OF assms] by (metis planned_id_def key_id_planned)

lemma queued_only_frame:
  assumes "queued_only view L s j" "no_slash (created_at j)" "no_slash (job_id j)"
    and "\<And>p. good p \<Longrightarrow> p = transition_path L (job_id j) \<or> (\<exists>x. p = job_path (prefix_as_str x) (job_id j)) \<or>
      p = marker_path j \<Longrightarrow> view s' p = view s p"
  shows "queued_only view L s' j"
  using assms by (simp add: queued_only_def good_job good_marker)

lemma unknown_frame:
  assumes "unknown view L s i" "no_slash i"
    and "\<And>p. good p \<Longrightarrow> p = transition_path L i \<or> (\<exists>x. p = job_path (prefix_as_str x) i) \<Longrightarrow> view s' p = view s p"
  shows "unknown view L s' i"
  using assms by (simp add: unknown_def good_job)

lemma submit_entry_admits:
  assumes plan: "stored_plan view ready L ctx w m es" and index: "index < length es"
    and st: "me_state (es ! index) = Planned" and j: "sound_job (me_planned_job (es ! index))"
    and fresh: "unknown view L (disk w) (job_id (me_planned_job (es ! index)))"
  defines "j \<equiv> me_planned_job (es ! index)"
  obtains w' m' where "run L B (submit_entry (Suc fuel) L ctx index) w = (Inr j, w')"
    "stored_plan view ready L ctx w' m' (es[index := (es ! index)\<lparr>me_state := Accepted\<rparr>])"
    "queued_only view L (disk w') j"
    "\<forall>p. good p \<longrightarrow> p \<noteq> sx_path ctx \<longrightarrow> p \<notin> job_paths j \<longrightarrow> view (disk w') p = view (disk w) p"
proof -
  have sound: "sound_job j" "no_slash (job_id j)" "no_slash (created_at j)"
    using assms(4) by (simp_all add: j_def sound_job_def)
  have path: "good (sx_path ctx)" "sx_path ctx = run_path (sx_run_id ctx)"
    using plan good_run by (auto simp: stored_plan_def)
  have live: "\<not> entry_ended (me_state (es ! index))" "me_state (es ! index) \<noteq> Accepted"
    by (simp_all add: st entry_ended_def)
  obtain e where e: "entry_object m index = Some e" by (rule stored_entry [OF plan index])
  have free: "claimed_elsewhere (sx_owner ctx) (me_state (es ! index)) e \<Longrightarrow> \<not> holder_seen L w e"
    by (simp add: st claimed_elsewhere_def)
  obtain w1 m1 e1 where claim: "run L B (claim_entry (Suc fuel) L ctx index) w = (Inr (Owned j), w1)"
    and w1: "w1 = w\<lparr>disk := put (put (disk w) (sx_path ctx) (Json (set_entry m index (claimed_by (sx_owner ctx) (this_process w) e))))
       (sx_path ctx) (Json m1)\<rparr>"
    and plan1: "stored_plan view ready L ctx w1 m1 (es[index := (es ! index)\<lparr>me_state := Enqueuing\<rparr>])"
    and e1: "entry_object m1 index = Some e1" "obj_get e1 ''owner'' = Some (JStr (sx_owner ctx))"
    unfolding j_def by (rule claim_owned [OF plan index live e free, of fuel]) auto
  have same1: "view (disk w1) p = view (disk w) p" if "good p" "p \<noteq> sx_path ctx" for p
    using that path by (simp add: w1 store_simps)
  have rdy1: "ready (disk w1)" using plan1 by (simp add: stored_plan_def)
  have "unknown view L (disk w1) (job_id j)"
  proof (rule unknown_frame [OF fresh [folded j_def] sound(2)])
    fix p
    assume "good p" and p: "p = transition_path L (job_id j) \<or> (\<exists>x. p = job_path (prefix_as_str x) (job_id j))"
    then show "view (disk w1) p = view (disk w) p" by (intro same1) (auto simp: path(2))
  qed
  then obtain w2 where admit: "run L B (admit_planned (Suc fuel) L index j) w1 = (Inr j, w2)" "ready (disk w2)"
    and queued: "queued_only view L (disk w2) j"
    and same2: "\<forall>p. good p \<longrightarrow> p \<notin> job_paths j \<longrightarrow> view (disk w2) p = view (disk w1) p"
    by (rule admit_planned_admits [OF rdy1 sound(1), where fuel = "Suc fuel" and index = index])
  have clock2: "clock w2 = clock w1" using run_frame [of L B "admit_planned (Suc fuel) L index j" w1] admit(1) by simp
  have plan2: "stored_plan view ready L ctx w2 m1 (es[index := (es ! index)\<lparr>me_state := Enqueuing\<rparr>])"
    using plan1 admit(2) clock2 by (rule stored_plan_moved) (use same2 path in \<open>auto simp: job_paths_def\<close>)
  obtain m3 where check: "run L B (checkpoint_accepted (Suc fuel) L ctx index (job_id j)) w2 =
      (Inr (), w2\<lparr>disk := put (disk w2) (sx_path ctx) (Json m3)\<rparr>)"
    and plan3: "stored_plan view ready L ctx (w2\<lparr>disk := put (disk w2) (sx_path ctx) (Json m3)\<rparr>) m3
      (es[index := (es ! index)\<lparr>me_state := Accepted\<rparr>])"
    using checkpoint_accepts [OF plan2 _ _ e1, of "job_id j" fuel] index by (auto simp: j_def)
  let ?w = "w2\<lparr>disk := put (disk w2) (sx_path ctx) (Json m3)\<rparr>"
  have same3: "view (disk ?w) p = view (disk w2) p" if "good p" "p \<noteq> sx_path ctx" for p
    using that path by (simp add: store_simps)
  show thesis
  proof (rule that)
    show "run L B (submit_entry (Suc fuel) L ctx index) w = (Inr j, ?w)"
      by (simp add: submit_entry_def run_bindE claim admit check)
    show "stored_plan view ready L ctx ?w m3 (es[index := (es ! index)\<lparr>me_state := Accepted\<rparr>])" by (rule plan3)
    show "queued_only view L (disk ?w) j"
    proof (rule queued_only_frame [OF queued sound(3,2)])
      fix p
      assume "good p" and p: "p = transition_path L (job_id j) \<or> (\<exists>x. p = job_path (prefix_as_str x) (job_id j)) \<or>
        p = marker_path j"
      then show "view (disk ?w) p = view (disk w2) p" by (intro same3) (auto simp: path(2))
    qed
    show "\<forall>p. good p \<longrightarrow> p \<noteq> sx_path ctx \<longrightarrow> p \<notin> job_paths j \<longrightarrow> view (disk ?w) p = view (disk w) p"
      using same1 same2 same3 by metis
  qed
qed

text \<open>Submitted again, an accepted entry answers its job; the writes repeat what is there.\<close>

lemma submit_entry_replays:
  assumes plan: "stored_plan view ready L ctx w m es" and index: "index < length es"
    and st: "me_state (es ! index) = Accepted" and j: "me_planned_job (es ! index) = j"
    and sound: "sound_job j" "state j = ''queued''" "submission_command_index j = Some index"
    and queued: "queued_only view L (disk w) j"
  obtains w' where "run L B (submit_entry (Suc fuel) L ctx index) w = (Inr j, w')" "ready (disk w')"
    "\<forall>p. good p \<longrightarrow> view (disk w') p = view (disk w) p"
proof -
  let ?q = "job_path (prefix_as_str Queue) (job_id j)"
  let ?d = "put (annotate (disk w) ?q (job_metadata j)) (marker_path j) (marker_document j)"
  have rdy: "ready (disk w)" using plan by (simp add: stored_plan_def)
  have plain: "wf_job j" "created_at j \<noteq> []" "good ?q" "good (marker_path j)"
    using sound(1) by (auto simp: sound_job_def good_job good_marker)
  have docs: "view (disk w) ?q = Some (to_json j)" "view (disk w) (marker_path j) = Some (marker_document j)"
    using queued by (simp_all add: queued_only_def)
  have repair: "run L B (repair_queued_admission_metadata L j) w = (Inr (), w\<lparr>disk := ?d\<rparr>)"
    using rdy docs plain sound(2)
    by (simp add: repair_queued_admission_metadata_def write_marker_def marker_document_def run_simps run_calls
        store_simps doc_simps Let_def)
  have "validate_recovered_job j j index = Inr ()"
    using sound(2,3) plain(1) by (simp add: validate_recovered_job_def)
  then have "run L B (submit_entry (Suc fuel) L ctx index) w = (Inr j, w\<lparr>disk := ?d\<rparr>)"
    using find_job_queued [OF rdy sound(1,2) queued]
    by (simp add: submit_entry_def run_bindE run_with_error claim_accepted [OF plan index st] j replay_accepted_def
        recovered_def repair)
  then show thesis
    by (rule that) (use rdy plain docs in \<open>auto simp: store_simps\<close>)
qed

section \<open>The entries of a run\<close>

definition admissible :: "'s world \<Rightarrow> manifest_entry \<Rightarrow> bool" where
  "admissible w e \<longleftrightarrow> me_state e = Planned \<and> sound_job (me_planned_job e) \<and>
     unknown view L (disk w) (job_id (me_planned_job e))"

lemma admissible_frame:
  assumes "admissible w e" and "\<And>p. good p \<Longrightarrow> p = transition_path L (job_id (me_planned_job e)) \<or>
    (\<exists>x. p = job_path (prefix_as_str x) (job_id (me_planned_job e))) \<Longrightarrow> view (disk w') p = view (disk w) p"
  shows "admissible w' e"
  using assms unknown_frame [of "disk w" "job_id (me_planned_job e)" "disk w'"]
  by (simp add: admissible_def sound_job_def)

lemma submit_entries_admit:
  assumes "stored_plan view ready L ctx w m es" and "set ks \<subseteq> {..<length es}"
    and "\<And>k. k \<in> set ks \<Longrightarrow> admissible w (es ! k)"
    and "distinct (map (\<lambda>k. job_id (me_planned_job (es ! k))) ks)"
  shows "\<exists>w' m'. run L B (submit_entries (Suc fuel) L ctx ks) w = (Inr (map (\<lambda>k. me_planned_job (es ! k)) ks), w') \<and>
    stored_plan view ready L ctx w' m' (accept ks es) \<and>
    (\<forall>k \<in> set ks. queued_only view L (disk w') (me_planned_job (es ! k))) \<and>
    (\<forall>p. good p \<longrightarrow> p \<noteq> sx_path ctx \<longrightarrow> (\<forall>k \<in> set ks. p \<notin> job_paths (me_planned_job (es ! k))) \<longrightarrow>
      view (disk w') p = view (disk w) p)"
  using assms
proof (induction ks arbitrary: w m es)
  case Nil
  have "accept [] es = es" by (rule nth_equalityI) simp_all
  then show ?case using Nil by auto
next
  case (Cons k ks)
  let ?j = "\<lambda>k. me_planned_job (es ! k)"
  have k: "k < length es" and adm: "admissible w (es ! k)" using Cons.prems by auto
  have path: "sx_path ctx = run_path (sx_run_id ctx)" using Cons.prems(1) by (simp add: stored_plan_def)
  obtain w1 m1 where one: "run L B (submit_entry (Suc fuel) L ctx k) w = (Inr (?j k), w1)"
    and plan1: "stored_plan view ready L ctx w1 m1 (es[k := (es ! k)\<lparr>me_state := Accepted\<rparr>])"
    and queued1: "queued_only view L (disk w1) (?j k)"
    and same1: "\<forall>p. good p \<longrightarrow> p \<noteq> sx_path ctx \<longrightarrow> p \<notin> job_paths (?j k) \<longrightarrow> view (disk w1) p = view (disk w) p"
    by (rule submit_entry_admits [OF Cons.prems(1) k, where fuel = fuel]) (use adm in \<open>simp_all add: admissible_def\<close>)
  let ?es = "es[k := (es ! k)\<lparr>me_state := Accepted\<rparr>]"
  have other: "k' \<noteq> k" "job_id (?j k') \<noteq> job_id (?j k)" "?es ! k' = es ! k'" if "k' \<in> set ks" for k'
  proof -
    show ids: "job_id (?j k') \<noteq> job_id (?j k)"
      using Cons.prems(4) imageI [OF that, of "\<lambda>k. job_id (?j k)"] by auto
    then show "k' \<noteq> k" by auto
    then show "?es ! k' = es ! k'" by simp
  qed
  have keys: "key_id (job_id (?j x))" if "x < length es" for x
    using that by (rule stored_plan_id [OF Cons.prems(1)])
  have apart: "job_paths (?j k') \<inter> job_paths (?j k) = {}" if "k' \<in> set ks" for k'
    using other(2) [OF that] marker_path_ids [of "?j k'" "?j k"] keys Cons.prems(2) that k
    by (auto simp: job_paths_def)
  have adm1: "admissible w1 (?es ! k')" if "k' \<in> set ks" for k'
  proof -
    have "admissible w1 (es ! k')"
    proof (rule admissible_frame)
      show "admissible w (es ! k')" using Cons.prems(3) that by simp
      fix p assume "good p" "p = transition_path L (job_id (?j k')) \<or> (\<exists>x. p = job_path (prefix_as_str x) (job_id (?j k')))"
      then show "view (disk w1) p = view (disk w) p"
        using same1 other(2) [OF that] by (auto simp: path job_paths_def)
    qed
    then show ?thesis by (simp add: other(3) [OF that])
  qed
  have ids: "map (\<lambda>k. me_planned_job (?es ! k)) ks = map ?j ks"
    using other(3) by simp
  have "map (\<lambda>k. job_id (me_planned_job (?es ! k))) ks = map (\<lambda>k. job_id (?j k)) ks"
    using other(3) by simp
  then have "distinct (map (\<lambda>k. job_id (me_planned_job (?es ! k))) ks)"
    using Cons.prems(4) by (simp del: map_eq_conv)
  then obtain w2 m2 where rest: "run L B (submit_entries (Suc fuel) L ctx ks) w1 = (Inr (map ?j ks), w2)"
    and plan2: "stored_plan view ready L ctx w2 m2 (accept ks ?es)"
    and queued2: "\<forall>k' \<in> set ks. queued_only view L (disk w2) (?j k')"
    and same2: "\<forall>p. good p \<longrightarrow> p \<noteq> sx_path ctx \<longrightarrow> (\<forall>k' \<in> set ks. p \<notin> job_paths (?j k')) \<longrightarrow>
      view (disk w2) p = view (disk w1) p"
    using Cons.IH [OF plan1 _ adm1] Cons.prems(2) ids other(3) by auto
  have "queued_only view L (disk w2) (?j k)"
  proof (rule queued_only_frame [OF queued1])
    fix p assume "good p" "p = transition_path L (job_id (?j k)) \<or> (\<exists>x. p = job_path (prefix_as_str x) (job_id (?j k))) \<or>
      p = marker_path (?j k)"
    moreover have "\<forall>k' \<in> set ks. p \<notin> job_paths (?j k')"
      using calculation(2) other(2) apart by (fastforce simp: job_paths_def)
    ultimately show "view (disk w2) p = view (disk w1) p"
      using same2 by (auto simp: path)
  qed (use adm in \<open>simp_all add: admissible_def sound_job_def\<close>)
  then show ?case
    using one rest plan2 queued2 same1 same2 k
    by (intro exI [of _ w2] exI [of _ m2]) (auto simp: run_bindE accept_Cons)
qed

lemma submit_entries_replay:
  assumes "stored_plan view ready L ctx w m es" and "set ks \<subseteq> {..<length es}"
    and "\<And>k. k \<in> set ks \<Longrightarrow> me_state (es ! k) = Accepted \<and> sound_job (me_planned_job (es ! k)) \<and>
      state (me_planned_job (es ! k)) = ''queued'' \<and> submission_command_index (me_planned_job (es ! k)) = Some k \<and>
      queued_only view L (disk w) (me_planned_job (es ! k))"
  shows "\<exists>w'. run L B (submit_entries (Suc fuel) L ctx ks) w = (Inr (map (\<lambda>k. me_planned_job (es ! k)) ks), w') \<and>
    ready (disk w') \<and> (\<forall>p. good p \<longrightarrow> view (disk w') p = view (disk w) p)"
  using assms
proof (induction ks arbitrary: w)
  case Nil
  then show ?case by (simp add: stored_plan_def)
next
  case (Cons k ks)
  let ?j = "\<lambda>k. me_planned_job (es ! k)"
  have k: "k < length es" using Cons.prems(2) by simp
  obtain w1 where one: "run L B (submit_entry (Suc fuel) L ctx k) w = (Inr (?j k), w1)" and rdy1: "ready (disk w1)"
    and same1: "\<forall>p. good p \<longrightarrow> view (disk w1) p = view (disk w) p"
    by (rule submit_entry_replays [OF Cons.prems(1) k _ refl, where fuel = fuel]) (use Cons.prems(3) in auto)
  have plan1: "stored_plan view ready L ctx w1 m es"
    using Cons.prems(1) rdy1
  proof (rule stored_plan_moved)
    show "clock w1 = clock w" using run_frame [of L B "submit_entry (Suc fuel) L ctx k" w] one by simp
    show "view (disk w1) (sx_path ctx) = view (disk w) (sx_path ctx)"
      using same1 good_run Cons.prems(1) by (auto simp: stored_plan_def)
  qed
  have "queued_only view L (disk w1) (?j k')" if "k' \<in> set ks" for k'
    by (rule queued_only_frame [of "disk w"]) (use Cons.prems(3) [of k'] that same1 in \<open>simp_all add: sound_job_def\<close>)
  then obtain w2 where "run L B (submit_entries (Suc fuel) L ctx ks) w1 = (Inr (map ?j ks), w2)" "ready (disk w2)"
    "\<forall>p. good p \<longrightarrow> view (disk w2) p = view (disk w1) p"
    using Cons.IH [OF plan1] Cons.prems(2,3) by auto
  then show ?case using one same1 by (auto simp: run_bindE)
qed

section \<open>A whole submission\<close>

lemma run_submit_manifest:
  assumes "stored_plan view ready L (run_context L r q) w m es"
  shows "run L B (submit_manifest fuel L r q m) w =
    run L B (submit_entries fuel L (run_context L r q) [0..<length es]) w"
  using assms by (simp add: submit_manifest_def run_context_def stored_plan_def run_bindE run_validate_manifest Let_def)

theorem submit_new_run:
  assumes rdy: "ready (disk w)" and id': "run_id_ok (so_run_id o')" "view (disk w) (run_path (so_run_id o')) = None"
    and o': "wf_options o'" "no_slash (so_re_submission_of o')" and commands: "u64_range (length commands)"
    and hardware: "resolve_each E o' commands = Inr hardware" "list_all (\<lambda>h. i64_range (rh_gpu_mem_gb h)) hardware"
    and env: "se_charge E (so_run_id o') commands = Inr ()" "submitter_app_name E = Inr app"
      "submitter E = Inr by'" "explicit_name E = Inr name"
    and stamp: "stamped L (clock w)"
  defines "q \<equiv> submission_request (se_configured_bucket E) commands o' hardware"
  defines "jobs \<equiv> run_jobs L (digest_value L q) o' \<lparr>sp_created_at = to_rfc3339 L (clock w), sp_submitted_by = by',
      sp_submitted_from = se_hostname E, sp_submitter_app = app\<rparr> commands hardware"
  assumes fresh: "\<And>j. j \<in> set jobs \<Longrightarrow> unknown view L (disk w) (job_id j)" and ids: "distinct (map job_id jobs)"
  shows "\<exists>w' m'. run L B (submit (Suc fuel) L E commands o') w = (Inr jobs, w') \<and>
    stored_plan view ready L (run_context L (so_run_id o') q) w' m' (accept [0..<length commands] (planned_answer jobs)) \<and>
    (\<forall>j \<in> set jobs. queued_only view L (disk w') j) \<and>
    (\<forall>p. good p \<longrightarrow> p \<noteq> run_path (so_run_id o') \<longrightarrow> (\<forall>j \<in> set jobs. p \<notin> job_paths j) \<longrightarrow>
      view (disk w') p = view (disk w) p)"
proof -
  let ?prov = "\<lparr>sp_created_at = to_rfc3339 L (clock w), sp_submitted_by = by',
      sp_submitted_from = se_hostname E, sp_submitter_app = app\<rparr>"
  let ?r = "so_run_id o'" and ?m = "new_manifest L name commands o' ?prov q hardware"
  let ?ctx = "run_context L ?r q"
  let ?w1 = "w\<lparr>disk := put (disk w) (run_path ?r) (Json ?m)\<rparr>"
  have len: "length hardware = length commands" using hardware(1) by (rule resolve_each_length)
  have jobs: "length jobs = length commands" by (simp add: jobs_def)
  have good: "good (run_path ?r)" using id'(1) by (rule good_run)
  have "planned_answer jobs = map (\<lambda>i. \<lparr>me_planned_job = plan_job L (digest_value L q) o' ?prov i (commands ! i) (hardware ! i),
        me_state = Planned, me_outcome_job = None\<rparr>) [0..<length commands]"
    by (simp add: planned_answer_def jobs_def run_jobs_def)
  then have plan1: "stored_plan view ready L ?ctx ?w1 ?m (planned_answer jobs)"
    using new_manifest_at [of o' hardware commands L ?prov q "se_configured_bucket E" name "clock w"] rdy id' good o' hardware len commands stamp
    by (simp add: stored_plan_def stamped_def q_def store_simps new_manifest_def)
  have same1: "view (disk ?w1) p = view (disk w) p" if "good p" "p \<noteq> run_path ?r" for p
    using that good by (simp add: store_simps)
  have sound: "sound_job (jobs ! k)" "no_slash (job_id (jobs ! k))" if "k < length commands" for k
  proof -
    have "wf_job (jobs ! k)"
      using that commands o'(1) hardware(2) len by (simp add: jobs_def wf_plan_job list_all_length u64_range_def)
    moreover show "no_slash (job_id (jobs ! k))"
      using that key_id_planned by (simp add: jobs_def key_id_def)
    ultimately show "sound_job (jobs ! k)"
      using that o'(2) stamp by (simp add: sound_job_def jobs_def stamped_def)
  qed
  have adm: "admissible ?w1 (planned_answer jobs ! k)" if "k < length commands" for k
    unfolding admissible_def
  proof (intro conjI)
    show "unknown view L (disk ?w1) (job_id (me_planned_job (planned_answer jobs ! k)))"
    proof (rule unknown_frame)
      show "unknown view L (disk w) (job_id (me_planned_job (planned_answer jobs ! k)))"
        using fresh [of "jobs ! k"] that jobs by simp
      fix p assume "good p" "p = transition_path L (job_id (me_planned_job (planned_answer jobs ! k))) \<or>
        (\<exists>x. p = job_path (prefix_as_str x) (job_id (me_planned_job (planned_answer jobs ! k))))"
      then show "view (disk ?w1) p = view (disk w) p" by (intro same1) auto
    qed (use sound that jobs in simp)
  qed (use that jobs sound in simp_all)
  have all: "map (\<lambda>k. me_planned_job (planned_answer jobs ! k)) [0..<length commands] = jobs"
    using jobs by (intro nth_equalityI) simp_all
  have mem: "(\<forall>k \<in> set [0..<length commands]. P (me_planned_job (planned_answer jobs ! k))) \<longleftrightarrow> (\<forall>j \<in> set jobs. P j)" for P
    using jobs by (auto simp: all_set_conv_all_nth)
  have entry_ids: "distinct (map (\<lambda>k. job_id (me_planned_job (planned_answer jobs ! k))) [0..<length commands])"
    using ids arg_cong [OF all, of "map job_id"] by (simp add: comp_def del: map_eq_conv)
  have "set [0..<length commands] \<subseteq> {..<length (planned_answer jobs)}" using jobs by auto
  moreover have "admissible ?w1 (planned_answer jobs ! k)" if "k \<in> set [0..<length commands]" for k
    using adm that by simp
  ultimately obtain w' m' where
      "run L B (submit_entries (Suc fuel) L ?ctx [0..<length commands]) ?w1 =
        (Inr (map (\<lambda>k. me_planned_job (planned_answer jobs ! k)) [0..<length commands]), w')"
    and plan': "stored_plan view ready L ?ctx w' m' (accept [0..<length commands] (planned_answer jobs))"
    and "\<forall>k \<in> set [0..<length commands]. queued_only view L (disk w') (me_planned_job (planned_answer jobs ! k))"
    and frame: "\<forall>p. good p \<longrightarrow> p \<noteq> sx_path ?ctx \<longrightarrow>
      (\<forall>k \<in> set [0..<length commands]. p \<notin> job_paths (me_planned_job (planned_answer jobs ! k))) \<longrightarrow>
      view (disk w') p = view (disk ?w1) p"
    using submit_entries_admit [OF plan1 _ _ entry_ids, where fuel = fuel] by blast
  then have entries: "run L B (submit_entries (Suc fuel) L ?ctx [0..<length commands]) ?w1 = (Inr jobs, w')"
      "\<forall>j \<in> set jobs. queued_only view L (disk w') j"
    unfolding all mem [of "queued_only view L (disk w')"] by simp_all
  have same: "\<forall>p. good p \<longrightarrow> p \<noteq> run_path ?r \<longrightarrow> (\<forall>j \<in> set jobs. p \<notin> job_paths j) \<longrightarrow>
      view (disk w') p = view (disk w) p"
    using frame same1 mem [of "\<lambda>j. p \<notin> job_paths j" for p] by (metis run_context_simps(1))
  have "run L B (store_plan (Suc fuel) L E commands o' q hardware) w = (Inr ?m, ?w1)"
    using rdy good id'(2) env
    by (simp add: store_plan_def run_bindp run_bindE run_now run_with_error run_calls Let_def)
  moreover have "run L B (submit_manifest (Suc fuel) L ?r q ?m) ?w1 = (Inr jobs, w')"
    using run_submit_manifest [OF plan1] entries(1) jobs by simp
  ultimately have "run L B (submit (Suc fuel) L E commands o') w = (Inr jobs, w')"
    using rdy good id' env hardware(1) len
    by (simp add: submit_def run_bindE run_with_error run_calls q_def Let_def)
  then show ?thesis using entries(2) plan' same by blast
qed

theorem submit_again:
  assumes plan: "stored_plan view ready L (run_context L (so_run_id o') q) w m (accept [0..<length jobs] (planned_answer jobs))"
    and request: "q = submission_request configured commands o' hardware"
    and o': "wf_options o'" and hardware: "list_all (\<lambda>h. i64_range (rh_gpu_mem_gb h)) hardware"
      "length hardware = length commands" "length jobs = length commands"
    and env: "se_charge E (so_run_id o') commands = Inr ()" "se_configured_bucket E = configured"
      "se_bucket E = (if so_bucket o' = [] then configured else so_bucket o')"
    and jobs: "\<And>k. k < length jobs \<Longrightarrow> sound_job (jobs ! k) \<and> state (jobs ! k) = ''queued'' \<and>
      submission_command_index (jobs ! k) = Some k \<and> queued_only view L (disk w) (jobs ! k)"
  shows "\<exists>w'. run L B (submit (Suc fuel) L E commands o') w = (Inr jobs, w') \<and> ready (disk w') \<and>
    (\<forall>p. good p \<longrightarrow> view (disk w') p = view (disk w) p)"
proof -
  let ?r = "so_run_id o'" and ?es = "accept [0..<length jobs] (planned_answer jobs)"
  have rdy: "ready (disk w)" and id': "run_id_ok ?r" "good (run_path ?r)"
    and doc: "view (disk w) (run_path ?r) = Some (Json m)" and req: "get_key m ''request'' = Some q"
    and at: "manifest_at L m ?r q (digest_value L q) (clock w) = Inr ?es"
    using plan good_run by (auto simp: stored_plan_def)
  have schema: "get_str m ''schema'' = Some ''stado.run-submission.v3''" using at by (rule manifest_at_schema)
  have migrated: "run L B (migrate_v2_run_manifest (Suc fuel) L ?r) w = (Inr m, w)"
    using rdy id' doc schema
    by (simp add: migrate_v2_run_manifest_def validate_run_id_def run_bindE run_with_error run_calls)
  have "value_eq (JArr (map JStr commands)) (JArr (map JStr commands))" by (rule value_eq_refl) simp
  moreover have "value_eq (options_to_value o') (options_to_value o')"
    by (rule value_eq_refl [OF wf_options_value [OF o']])
  ultimately have plan': "stored_hardware E commands o' m = Inr hardware"
    using hardware(1) env(3)
    by (simp add: stored_hardware_def schema schema [unfolded get_str_def] req request get_str_def doc_simps Let_def del: value_eq.simps)
  have all: "map (\<lambda>k. me_planned_job (?es ! k)) [0..<length jobs] = jobs"
    by (rule nth_equalityI) simp_all
  obtain w' where "run L B (submit_entries (Suc fuel) L (run_context L ?r q) [0..<length jobs]) w = (Inr jobs, w')"
    "ready (disk w')" "\<forall>p. good p \<longrightarrow> view (disk w') p = view (disk w) p"
    using submit_entries_replay [OF plan, of "[0..<length jobs]" fuel] jobs unfolding all
    by (auto simp: atLeast0LessThan)
  moreover from this have "run L B (submit_manifest (Suc fuel) L ?r q m) w = (Inr jobs, w')"
    using run_submit_manifest [OF plan] by simp
  then have "run L B (submit (Suc fuel) L E commands o') w = (Inr jobs, w')"
    using rdy id' doc migrated plan' env(1,2) hardware(2)
    by (simp add: submit_def run_bindE run_with_error run_calls request Let_def)
  ultimately show ?thesis by blast
qed

text \<open>Submitted again, later, from whatever process and environment, the run is the same run.\<close>

theorem submission_repeats:
  assumes rdy: "ready (disk w)" and id': "run_id_ok (so_run_id o')" "view (disk w) (run_path (so_run_id o')) = None"
    and o': "wf_options o'" "no_slash (so_re_submission_of o')" and commands: "u64_range (length commands)"
    and hardware: "resolve_each E o' commands = Inr hardware" "list_all (\<lambda>h. i64_range (rh_gpu_mem_gb h)) hardware"
    and env: "se_charge E (so_run_id o') commands = Inr ()" "submitter_app_name E = Inr app"
      "submitter E = Inr by'" "explicit_name E = Inr name"
    and stamp: "stamped L (clock w)"
    and jobs: "jobs = run_jobs L (digest_value L (submission_request (se_configured_bucket E) commands o' hardware)) o'
      \<lparr>sp_created_at = to_rfc3339 L (clock w), sp_submitted_by = by', sp_submitted_from = se_hostname E,
       sp_submitter_app = app\<rparr> commands hardware"
    and fresh: "\<And>j. j \<in> set jobs \<Longrightarrow> unknown view L (disk w) (job_id j)" and ids: "distinct (map job_id jobs)"
  shows "\<exists>w'. run L B (submit (Suc fuel) L E commands o') w = (Inr jobs, w') \<and>
    (\<forall>j \<in> set jobs. queued_only view L (disk w') j) \<and>
    (\<forall>p. good p \<longrightarrow> p \<noteq> run_path (so_run_id o') \<longrightarrow> (\<forall>j \<in> set jobs. p \<notin> job_paths j) \<longrightarrow>
      view (disk w') p = view (disk w) p) \<and>
    (\<forall>x E'. disk x = disk w' \<longrightarrow> clock w \<le> clock x \<longrightarrow> se_charge E' (so_run_id o') commands = Inr () \<longrightarrow>
      se_configured_bucket E' = se_configured_bucket E \<longrightarrow>
      se_bucket E' = (if so_bucket o' = [] then se_configured_bucket E else so_bucket o') \<longrightarrow>
      (\<exists>x'. run L B (submit (Suc fuel') L E' commands o') x = (Inr jobs, x') \<and>
        (\<forall>p. good p \<longrightarrow> view (disk x') p = view (disk w') p)))"
proof -
  let ?q = "submission_request (se_configured_bucket E) commands o' hardware" and ?r = "so_run_id o'"
  have len: "length hardware = length commands" "length jobs = length commands"
    using resolve_each_length [OF hardware(1)] by (simp_all add: jobs)
  obtain w' m' where run: "run L B (submit (Suc fuel) L E commands o') w = (Inr jobs, w')"
    and plan: "stored_plan view ready L (run_context L ?r ?q) w' m' (accept [0..<length commands] (planned_answer jobs))"
    and queued: "\<forall>j \<in> set jobs. queued_only view L (disk w') j"
    and frame: "\<forall>p. good p \<longrightarrow> p \<noteq> run_path ?r \<longrightarrow> (\<forall>j \<in> set jobs. p \<notin> job_paths j) \<longrightarrow> view (disk w') p = view (disk w) p"
    using submit_new_run [OF rdy id' o' commands hardware env stamp, where fuel = fuel] fresh ids unfolding jobs by blast
  have clock: "clock w' = clock w" using run_frame [of L B "submit (Suc fuel) L E commands o'" w] run by simp
  have each: "sound_job (jobs ! k) \<and> state (jobs ! k) = ''queued'' \<and> submission_command_index (jobs ! k) = Some k \<and>
      queued_only view L (disk w') (jobs ! k)" if "k < length jobs" for k
  proof (intro conjI)
    have k: "k < length commands" using that len by simp
    have "wf_job (jobs ! k)"
      using k commands o'(1) hardware(2) len by (simp add: jobs wf_plan_job list_all_length u64_range_def)
    then show "sound_job (jobs ! k)"
      using k o'(2) stamp key_id_planned by (simp add: sound_job_def jobs stamped_def key_id_def)
    show "state (jobs ! k) = ''queued''"
      using k by (simp add: jobs job_default_def job_of_object_def field_reads default_state_def)
    show "submission_command_index (jobs ! k) = Some k" using k by (simp add: jobs)
    show "queued_only view L (disk w') (jobs ! k)" using queued that by simp
  qed
  have again: "\<exists>x'. run L B (submit (Suc fuel') L E' commands o') x = (Inr jobs, x') \<and>
      (\<forall>p. good p \<longrightarrow> view (disk x') p = view (disk w') p)"
    if x: "disk x = disk w'" "clock w \<le> clock x" and E': "se_charge E' ?r commands = Inr ()"
      "se_configured_bucket E' = se_configured_bucket E"
      "se_bucket E' = (if so_bucket o' = [] then se_configured_bucket E else so_bucket o')" for x E'
  proof -
    have "stored_plan view ready L (run_context L ?r ?q) x m' (accept [0..<length jobs] (planned_answer jobs))"
      using stored_plan_later [OF plan x(1), of "sx_owner (run_context L ?r ?q)"] x(2) len(2) clock by simp
    from submit_again [OF this refl o'(1) hardware(2) len(1,2) E', where fuel = fuel'] show ?thesis
      using each x(1) by auto
  qed
  show ?thesis
    by (intro exI [of _ w'] conjI allI impI run queued frame again)
qed

end

lemma plain_run_path: "run_id_ok r \<Longrightarrow> plain_path (run_path r)"
proof -
  assume r: "run_id_ok r"
  then have "no_slash r"
    by (auto simp: run_id_ok_def no_slash_def list_all_iff is_ascii_alphanumeric_def is_ascii_lower_def
        is_ascii_upper_def is_ascii_digit_def Let_def)
  then show ?thesis
    using plain_two [of "''runs''" "r @ ''.json''"] by (simp add: run_path_def no_slash_def)
qed

interpretation subs: submission_store "local_backend L root" "local_view root" "local_put root"
  "local_remove root" "local_annotate root" "local_version L"
  "\<lambda>p. ''local storage version changed for '' @ p" plain_path "local_ready root" directory_prefix L
  for L root
  by unfold_locales (rule plain_run_path)

end
