(* ===== verification/Run_Samples.thy ===== *)
theory Run_Samples
  imports Device_Samples Accepted_Runs
begin

text \<open>
  Inputs of the witnesses about submissions: a run of two commands, its environment, the manifest a
  submission of it stores, and the device that holds it.
\<close>

text \<open>Digests that tell the commands of a run apart.\<close>

definition run_lib :: lib where
  "run_lib = sample_lib\<lparr>sha256 := (\<lambda>t. case t of
     Json v \<Rightarrow> (case Option.bind (get_key v ''command_index'') as_u64 of
        Some n \<Rightarrow> word_of_nat (n * 2 ^ 252) | None \<Rightarrow> sample_sha t)
   | _ \<Rightarrow> sample_sha t)\<rparr>"

definition run_options :: submit_options where
  "run_options = submit_options_default\<lparr>so_run_id := ''run-1'', so_bucket := ''fleet'',
     so_resolved_hardware := Some \<lparr>rh_gpu_mem_gb = 16, rh_gpu_type = ''t4'', rh_machine_type = ''n1''\<rparr>\<rparr>"

definition run_env :: "string \<Rightarrow> submit_env" where
  "run_env user = \<lparr>se_user = EnvText user, se_logname = Unset, se_account = Inr None, se_hostname = ''h'',
     se_submitter_app = Unset, se_run_name = Unset, se_bucket = ''fleet'', se_configured_bucket = ''fleet'',
     se_charge = (\<lambda>_ _. Inr ()), se_estimate = (\<lambda>_. Inr None), se_ladder = (\<lambda>_. None)\<rparr>"

definition run_commands :: "string list" where
  "run_commands = [''train'', ''evaluate'']"

definition run_hardware :: "resolved_hardware_projection list" where
  "run_hardware = replicate 2 \<lparr>rh_gpu_mem_gb = 16, rh_gpu_type = ''t4'', rh_machine_type = ''n1''\<rparr>"

definition run_request :: json where
  "run_request = submission_request ''fleet'' run_commands run_options run_hardware"

definition run_provenance :: submission_provenance where
  "run_provenance = \<lparr>sp_created_at = to_rfc3339 sample_lib 9, sp_submitted_by = ''ann'', sp_submitted_from = ''h'',
     sp_submitter_app = ''manual''\<rparr>"

definition sample_run :: "job list" where
  "sample_run = run_jobs run_lib (digest_value run_lib run_request) run_options run_provenance run_commands run_hardware"

definition sample_manifest :: json where
  "sample_manifest = new_manifest run_lib [] run_commands run_options run_provenance run_request run_hardware"

definition manifest_world :: "local_disk world" where
  "manifest_world = sample_device [(run_path ''run-1'', Json sample_manifest)]"

lemma run_lib_times [simp]:
  "to_rfc3339 run_lib = to_rfc3339 sample_lib" "parse_rfc3339 run_lib = parse_rfc3339 sample_lib"
  by (simp_all add: run_lib_def)

lemma run_options_wf [simp]:
  "wf_options run_options" "so_run_id run_options = ''run-1''" "so_bucket run_options = ''fleet''"
  "so_re_submission_of run_options = []"
  by (simp_all add: run_options_def submit_options_default_def wf_options_def i64_range_def f64_is_finite_def
      f64_exponent_def)

lemma run_id_sample [simp]: "run_id_ok ''run-1''"
  by code_simp

lemma run_hardware_wf [simp]:
  "list_all (\<lambda>h. i64_range (rh_gpu_mem_gb h)) run_hardware" "length run_hardware = 2" "length run_commands = 2"
  "resolve_each (run_env user) run_options run_commands = Inr run_hardware"
  by (simp_all add: run_hardware_def run_commands_def i64_range_def numeral_2_eq_2 resolve_hardware_def run_options_def)

lemma run_stamped [simp]: "stamped run_lib 9"
  by (simp add: stamped_def sample_lib_def no_slash_def)

lemma first_hex_digit: "hd (hex_digits (Suc w) n) = digit_char (n div 16 ^ w mod 16)"
proof (induction w arbitrary: n)
  case (Suc w)
  have "hex_digits (Suc w) m \<noteq> []" for m using length_hex_digits [of "Suc w" m] by fastforce
  then have "hd (hex_digits (Suc (Suc w)) n) = hd (hex_digits (Suc w) (n div 16))"
    by (simp only: hex_digits.simps(2) [of "Suc w" n] hd_append if_False)
  also have "\<dots> = digit_char (n div 16 ^ Suc w mod 16)"
    unfolding Suc by (simp add: div_mult2_eq)
  finally show ?case .
qed simp

lemma run_job_id:
  assumes "i < 2"
  shows "hd (drop 4 (job_id_from_key (submission_job_key run_lib d i c))) = digit_char i"
proof -
  have small: "i * 2 ^ 252 < 2 ^ 256" using assms by simp
  have wide: "unat (word_of_nat n :: 256 word) = n" if "n < 2 ^ 256" for n
    using that by (simp add: unat_of_nat take_bit_nat_eq_self)
  have "u64_range i" using assms by (simp add: u64_range_def)
  then have "sha256 run_lib (Json (sorted_value (JObj [(''request_digest'', JStr d), (''command_index'', JInt (int i)),
      (''command'', JStr c)]))) = word_of_nat (i * 2 ^ 252)"
    by (simp add: run_lib_def btree_collect_def)
  then have "submission_job_key run_lib d i c = hex_digits 64 (i * 2 ^ 252)"
    unfolding submission_job_key_def digest_value_def sha256_hex_def by (simp only: wide [OF small])
  moreover have "hd (hex_digits (Suc 63) (i * 2 ^ 252)) = digit_char i"
    using assms unfolding first_hex_digit by simp
  moreover have "hex_digits 64 (i * 2 ^ 252) \<noteq> []" 
    by (metis length_hex_digits list.size(3) zero_neq_numeral)
  ultimately show ?thesis
    by (simp add: job_id_from_key_def job_id_head_def job_id_hex_len_def hd_take)
qed

lemma sample_run_ids [simp]: "distinct (map job_id sample_run)"
proof -
  have "job_id_from_key (submission_job_key run_lib d 0 a) \<noteq> job_id_from_key (submission_job_key run_lib d 1 b)" for d a b
    using run_job_id [of 0 d a] run_job_id [of 1 d b] by (auto simp: digit_char_def)
  then show ?thesis by (simp add: sample_run_def run_jobs_def run_commands_def numeral_2_eq_2)
qed

lemma sample_run_unknown [simp]: "unknown sample_view run_lib (disk empty_world) i"
  by (simp add: unknown_def empty_world_def sample_device_def local_view_def read_file_def)

abbreviation sample_context :: submission_context where
  "sample_context \<equiv> run_context run_lib ''run-1'' run_request"

lemma sample_plan [simp]:
  "stored_plan sample_view (local_ready sample_root) run_lib sample_context manifest_world sample_manifest (planned_answer sample_run)"
proof -
  have "manifest_at run_lib sample_manifest ''run-1'' run_request (digest_value run_lib run_request) 9 =
      Inr (planned_answer sample_run)"
    using new_manifest_at [of run_options run_hardware run_commands run_lib run_provenance run_request "''fleet''" "[]" 9]
    by (simp add: run_request_def sample_manifest_def planned_answer_def sample_run_def run_jobs_def
        run_provenance_def sample_lib_def u64_range_def comp_def)
  moreover have "plain_path (run_path ''run-1'')" by (rule plain_run_path) simp
  ultimately show ?thesis
    by (simp add: stored_plan_def manifest_world_def sample_device_ready sample_manifest_def new_manifest_def)
qed

lemma sample_manifest_entry:
  obtains e where "entry_object sample_manifest 0 = Some e"
  using subs.stored_entry [OF sample_plan, of 0] by (auto simp: sample_run_def)

end
