(* ===== verification/Discipline.thy ===== *)
theory Discipline
  imports Lifecycle
begin

text \<open>
  The discipline of the job lifecycle, over every call a program can make whatever the store answers:
  a path under a lifecycle prefix, the transition records or the run manifests is written by a
  create-if-absent or by a swap that names the version it replaces, and is never deleted. The scan
  that repairs the priority index (\<open>delete_markers_scanning\<close>), \<open>delete_job\<close> and the sentinel sweep
  delete by path and are outside of it.
\<close>

definition lifecycle_path :: "string \<Rightarrow> bool" where
  "lifecycle_path p \<longleftrightarrow>
     list_ex (\<lambda>d. starts_with p (d @ ''/'')) (all_prefixes @ [''job-transitions'', ''runs''])"

abbreviation disciplined :: "'a prog \<Rightarrow> bool" where
  "disciplined \<equiv> all_calls (conditional_only lifecycle_path)"

lemma not_lifecycle_path [simp]:
  "\<not> lifecycle_path (marker_path j)"
  "tombstone_prefix q = Some m \<Longrightarrow> \<not> lifecycle_path (tombstone_path m orig)"
  by (auto simp: lifecycle_path_def all_prefixes_def starts_with_def marker_path_def marker_prefix_def
      tombstone_path_def tombstone_prefix_def split: option.splits prefix.splits)

lemmas calls_intro = all_calls_bindE all_calls_bindp all_calls_with_error
lemmas calls_split = option.split sum.split storage_error.split body.split prod.split if_split
  missing_manifest.split submit_error.split

lemma disciplined_swap [simp]: "disciplined (compare_and_swap_text p v t)"
  by simp

lemma disciplined_from_json [simp]: "disciplined (from_json L t)"
  by (auto simp: from_json_def finalize_new_def intro!: calls_intro split: calls_split)

lemma disciplined_read [simp]:
  "disciplined (read_job L p i)" "disciplined (read_job_transition L i)"
  by (auto simp: read_job_def read_job_transition_def intro!: calls_intro split: calls_split)

lemma disciplined_set_transition_state [simp]: "disciplined (set_transition_state fuel L t s)"
  by (induction fuel) (auto simp: loop_bodies intro!: calls_intro split: calls_split)

lemma disciplined_markers [simp]:
  "disciplined (write_marker j)" "disciplined (delete_marker_for j)"
  by (simp_all add: write_marker_def delete_marker_for_def)

lemma disciplined_retire [simp]:
  "disciplined (retire_transition_record fuel L t)"
  "disciplined (retire_transition_source fuel L t)"
  by (induction fuel; auto simp: loop_bodies Let_def intro!: calls_intro split: calls_split)+

lemma disciplined_on_transition [simp]: "disciplined (on_transition j q)"
  by (auto simp: on_transition_def intro!: calls_intro split: calls_split)

lemma disciplined_terminal_outcome [simp]: "disciplined (terminal_outcome L a b c d e f)"
  by (auto simp: terminal_outcome_def intro!: calls_intro split: calls_split)

lemma disciplined_validate_entries [simp]: "disciplined (validate_entries L a b c)"
  by (induction c arbitrary: b)
     (auto simp: validate_entry_def intro!: calls_intro split: calls_split)

lemma disciplined_validate [simp]:
  "disciplined (validate_run_manifest L m i r d)" "disciplined (validate_stored_run_manifest L m i)"
  by (auto simp: validate_run_manifest_def validate_stored_run_manifest_def intro!: calls_intro
      split: calls_split)

lemma disciplined_migrate [simp]: "disciplined (migrate_loop fuel L i)"
  "disciplined (migrate_v2_run_manifest fuel L i)"
proof -
  show "disciplined (migrate_loop fuel L i)"
    by (induction fuel) (auto simp: Let_def intro!: calls_intro split: calls_split)
  then show "disciplined (migrate_v2_run_manifest fuel L i)"
    by (auto simp: migrate_v2_run_manifest_def intro!: calls_intro)
qed

lemma disciplined_record_loop [simp]: "disciplined (record_loop fuel L r i j p m)"
  by (induction fuel)
     (auto simp: Let_def index_retained_job_def manifest_gone_def intro!: calls_intro split: calls_split)

lemma disciplined_record_outcome [simp]: "disciplined (record_terminal_outcome fuel L j p)"
  by (auto simp: record_terminal_outcome_def record_terminal_outcome_inner_def manifest_gone_def
      intro!: calls_intro split: calls_split)

lemma disciplined_first_holding [simp]: "disciplined (first_holding L i ps)"
  by (induction ps) (auto intro!: calls_intro split: calls_split)

lemma disciplined_retire_move [simp]: "disciplined (retire_move fuel L t d)"
  by (auto simp: retire_move_def intro!: calls_intro split: calls_split)

lemma disciplined_finish [simp]: "disciplined (finish_completed_transition fuel L t)"
  by (auto simp: finish_completed_transition_def Let_def intro!: calls_intro split: calls_split)

lemma disciplined_unrecognized [simp]: "disciplined (settle_unrecognized_transition fuel L t)"
  by (auto simp: settle_unrecognized_transition_def Let_def intro!: calls_intro split: calls_split)

lemma disciplined_install_destination [simp]: "disciplined (install_destination fuel L t)"
  by (induction fuel) (auto simp: loop_bodies Let_def intro!: calls_intro split: calls_split)

lemma disciplined_recover_sides [simp]:
  "disciplined (recover_aborted fuel L t)" "disciplined (recover_prepared fuel L t)"
  by (auto simp: recover_aborted_def recover_prepared_def settle_absent_source_def
      settle_prepared_def Let_def intro!: calls_intro split: calls_split)

lemma disciplined_recover [simp]: "disciplined (recover_job_transition fuel L i)"
  by (auto simp: recover_job_transition_def intro!: calls_intro
      split: calls_split transition_state.split)

lemma disciplined_transition [simp]: "disciplined (transition_loop rounds L r p q v u fuel)"
  by (induction fuel arbitrary: u)
     (auto simp: destination_basis_def candidate_transition_def install_transition_def
       prepare_candidate_def Let_def intro!: calls_intro split: calls_split install.split)

lemma disciplined_transition_job [simp]: "disciplined (transition_job_if_version fuel L j p q v)"
  by (simp add: transition_job_if_version_def)

lemma disciplined_cancellation [simp]:
  "disciplined (cancellation_request L i)" "disciplined (cancellation_exists i)"
  "disciplined (settle_queued_cancellation fuel L i)"
  by (auto simp: cancellation_request_def cancellation_exists_def settle_queued_cancellation_def
      intro!: calls_intro split: calls_split)

lemma disciplined_renew [simp]: "disciplined (renew_loop fuel L i d)"
  by (induction fuel) (auto simp: lifecycle_loops Let_def intro!: calls_intro split: calls_split)

lemma disciplined_rewrite [simp]: "disciplined (rewrite_loop fuel L i f)"
  by (induction fuel) (auto simp: lifecycle_loops rewritten_def Let_def intro!: calls_intro split: calls_split)

lemma disciplined_settle_each [simp]: "disciplined (settle_each fuel L n ids)"
  by (induction ids arbitrary: n) (auto intro!: calls_intro)

lemma disciplined_list_job_ids [simp]: "disciplined (list_job_ids p)"
  by (auto simp: list_job_ids_def Let_def intro!: calls_intro)

lemma disciplined_operations:
  "disciplined (settle_queued_cancellations fuel L)"
  "disciplined (create_queued_job_if_absent fuel L j)"
  "disciplined (repair_queued_admission_metadata L j)"
  "disciplined (claim_queued_job fuel L j promise)"
  "disciplined (renew_running_lease fuel L i promise)"
  "disciplined (rewrite_queued_job fuel L i f)"
  "disciplined (move_job fuel L j p q)"
  "disciplined (move_job_if_version fuel L j p q v)"
  by (auto simp: create_queued_job_if_absent_def repair_queued_admission_metadata_def
      claim_queued_job_def renew_running_lease_def rewrite_queued_job_def move_job_def
      move_job_if_version_def settle_queued_cancellations_def Let_def intro!: calls_intro split: calls_split)

end
