(* ===== verification/Digests.thy ===== *)
theory Digests
  imports Discipline "HOL-Library.Multiset"
begin

text \<open>
  The names that stand for content: a digest does not depend on the order of the keys of an object,
  a derived run id is one safe path component, a derived job id has the canonical form.
\<close>

lemma btree_insert_commute:
  "k \<noteq> k' \<Longrightarrow> btree_insert k v (btree_insert k' v' m) = btree_insert k' v' (btree_insert k v m)"
  by (induction m) auto

lemma btree_collect_perm:
  assumes "mset a = mset b" "distinct (map fst a)"
  shows "btree_collect a = btree_collect b"
proof -
  let ?f = "\<lambda>(k, v). btree_insert k v"
  have "fold ?f a = fold ?f b"
  proof (rule fold_multiset_equiv [OF _ assms(1)])
    fix x y assume "x \<in> set a" "y \<in> set a"
    then have "fst x = fst y \<Longrightarrow> x = y"
      using assms(2) by (metis distinct_map inj_onD)
    then show "?f x \<circ> ?f y = ?f y \<circ> ?f x"
      using btree_insert_commute by (cases x; cases y) (fastforce simp: fun_eq_iff)
  qed
  then have "fold ?f a [] = fold ?f b []" by simp
  then show ?thesis
    by (simp add: btree_collect_def foldl_conv_fold case_prod_beta' flip: fold_rev)
qed

lemma sorted_entries_map: "sorted_entries o' = map (\<lambda>kv. (fst kv, sorted_value (snd kv))) o'"
  by (induction o') auto

lemma digest_key_order:
  assumes "mset a = mset b" "distinct (map fst a)"
  shows "digest_value L (JObj a) = digest_value L (JObj b)"
proof -
  have "mset (sorted_entries a) = mset (sorted_entries b)" "distinct (map fst (sorted_entries a))"
    using assms by (simp_all add: sorted_entries_map comp_def)
  then show ?thesis
    by (simp add: digest_value_def btree_collect_perm [of "sorted_entries a" "sorted_entries b"])
qed

lemma set_trim_dashes: "set (trim_dashes s) \<subseteq> set s"
  unfolding trim_dashes_def by (metis set_rev set_dropWhileD subsetI)

lemma lower_hex_alphanumeric: "is_lower_hex c \<Longrightarrow> is_ascii_alphanumeric c"
  by (auto simp: is_lower_hex_def is_ascii_alphanumeric_def is_ascii_lower_def is_ascii_digit_def Let_def)

lemma stable_run_id_ok: "run_id_ok (stable_run_id L scope token)"
proof -
  let ?ok = "\<lambda>c. is_ascii_alphanumeric c \<or> c = CHR ''-'' \<or> c = CHR ''_'' \<or> c = CHR ''.''"
  have label: "list_all ?ok (trim_dashes (take 32 (map (\<lambda>c.
      if is_ascii_alphanumeric c \<or> c = CHR ''-'' \<or> c = CHR ''_'' then c else CHR ''-'') s)))" for s
    using set_trim_dashes by (fastforce simp: list_all_iff dest: in_set_takeD)
  have digest: "list_all ?ok (take 24 (digest_value L v))" for v
    using sha256_hex_lower by (fastforce simp: digest_value_def list_all_iff dest!: in_set_takeD lower_hex_alphanumeric)
  have scope: "list_all ?ok ''scope''"
    by (simp add: is_ascii_alphanumeric_def is_ascii_lower_def Let_def)
  have run: "list_all ?ok ''run-''"
    by (simp add: is_ascii_alphanumeric_def is_ascii_lower_def Let_def)
  show ?thesis
    unfolding run_id_ok_def stable_run_id_def Let_def
    using label digest scope run by (simp add: list_all_append)
qed

lemma job_ids_canonical:
  "is_canonical_job_id (job_id_from_key (submission_job_key L d i c))"
  using sha256_hex_lower
  by (fastforce simp: is_canonical_job_id_def job_id_from_key_def submission_job_key_def digest_value_def
      job_id_hex_len_def list_all_iff dest!: in_set_takeD)

lemma job_id_prefix_canonical:
  "is_canonical_job_id i \<Longrightarrow> job_id_prefix i = Some i"
  by (auto simp: is_canonical_job_id_def job_id_prefix_def strip_prefix_def starts_with_def job_id_hex_len_def
      split: if_splits option.splits) (metis append_take_drop_id)+

end
