(* ===== verification/Refinement.thy ===== *)
theory Refinement
  imports Local_File
begin

text \<open>
  What a store is to the programs of the queue: a map from paths to texts. \<open>spec_run\<close> executes a program
  on such a map, with nothing of files, locks, sidecars or listings; it has no answer where the map
  determines none (a path the store does not serve, a listing, a time of change). Every backend that
  keeps the contract refines it: the same answers, and the same map afterwards.
\<close>

type_synonym blobs = "string \<Rightarrow> body option"

primrec spec_run ::
  "lib \<Rightarrow> (body \<Rightarrow> string) \<Rightarrow> (string \<Rightarrow> string) \<Rightarrow> (string \<Rightarrow> bool) \<Rightarrow> 'a prog \<Rightarrow> blobs world \<Rightarrow> ('a \<times> blobs world) option"
where
  "spec_run L token refusal good (Ret a) m = Some (a, m)"
| "spec_run L token refusal good (UploadText p t k) m =
     (if good p then spec_run L token refusal good (k (Inr ())) (m\<lparr>disk := (disk m)(p \<mapsto> t)\<rparr>) else None)"
| "spec_run L token refusal good (DownloadText p k) m =
     (if good p then spec_run L token refusal good (k (Inr (disk m p))) m else None)"
| "spec_run L token refusal good (UploadTextIfAbsent p t k) m =
     (if \<not> good p then None
      else if disk m p = None
      then spec_run L token refusal good (k (Inr True)) (m\<lparr>disk := (disk m)(p \<mapsto> t)\<rparr>)
      else spec_run L token refusal good (k (Inr False)) m)"
| "spec_run L token refusal good (DownloadTextVersioned p k) m =
     (if good p
      then spec_run L token refusal good
        (k (Inr (map_option (\<lambda>t. \<lparr>content = t, version = token t\<rparr>) (disk m p)))) m
      else None)"
| "spec_run L token refusal good (CompareAndSwapText p v t k) m =
     (if \<not> good p then None
      else case disk m p of
        None \<Rightarrow> spec_run L token refusal good (k (Inl (NotFound p))) m
      | Some c \<Rightarrow>
          if token c = v
          then spec_run L token refusal good (k (Inr (token t))) (m\<lparr>disk := (disk m)(p \<mapsto> t)\<rparr>)
          else spec_run L token refusal good (k (Inl (StorageConflict (refusal p)))) m)"
| "spec_run L token refusal good (DeleteBlob p k) m =
     (if good p then spec_run L token refusal good (k (Inr ())) (m\<lparr>disk := (disk m)(p := None)\<rparr>) else None)"
| "spec_run L token refusal good (ExistsBlob p k) m =
     (if good p then spec_run L token refusal good (k (Inr (disk m p \<noteq> None))) m else None)"
| "spec_run L token refusal good (SetMetadata p kv k) m =
     (if good p then spec_run L token refusal good (k (Inr ())) m else None)"
| "spec_run L token refusal good (ListPaths p l k) m = None"
| "spec_run L token refusal good (ListPage p a n k) m = None"
| "spec_run L token refusal good (ListBlobsWithMeta p k) m = None"
| "spec_run L token refusal good (UpdatedAt p k) m = None"
| "spec_run L token refusal good (Now k) m = spec_run L token refusal good (k (clock m)) m"
| "spec_run L token refusal good (NewUuid k) m =
     spec_run L token refusal good (k (uuid_simple L (uuids m))) (m\<lparr>uuids := Suc (uuids m)\<rparr>)"
| "spec_run L token refusal good (CurrentProcess k) m = spec_run L token refusal good (k (this_process m)) m"
| "spec_run L token refusal good (PidAlive p k) m = spec_run L token refusal good (k (p \<in> set (live_pids m))) m"
| "spec_run L token refusal good (OwnerRunning i k) m =
     spec_run L token refusal good (k (i \<in> set (active_owners m))) m"

text \<open>The map a store holds, as far as it serves paths.\<close>

definition blobs_of :: "('s \<Rightarrow> string \<Rightarrow> body option) \<Rightarrow> (string \<Rightarrow> bool) \<Rightarrow> 's world \<Rightarrow> blobs world" where
  "blobs_of view good w =
     \<lparr>disk = (\<lambda>p. if good p then view (disk w) p else None), clock = clock w, uuids = uuids w,
      this_process = this_process w, live_pids = live_pids w, active_owners = active_owners w\<rparr>"

lemma blobs_of_fields [simp]:
  "good p \<Longrightarrow> disk (blobs_of view good w) p = view (disk w) p"
  "clock (blobs_of view good w) = clock w" "uuids (blobs_of view good w) = uuids w"
  "this_process (blobs_of view good w) = this_process w" "live_pids (blobs_of view good w) = live_pids w"
  "active_owners (blobs_of view good w) = active_owners w"
  "(blobs_of view good w)\<lparr>uuids := n\<rparr> = blobs_of view good (w\<lparr>uuids := n\<rparr>)"
  by (simp_all add: blobs_of_def cong: if_cong)

context blob_store
begin

lemma blobs_after:
  assumes "good p"
  shows "(blobs_of view good w)\<lparr>disk := (disk (blobs_of view good w))(p \<mapsto> t)\<rparr> =
      blobs_of view good (w\<lparr>disk := put (disk w) p t\<rparr>)"
    and "(blobs_of view good w)\<lparr>disk := (disk (blobs_of view good w))(p := None)\<rparr> =
      blobs_of view good (w\<lparr>disk := remove (disk w) p\<rparr>)"
    and "blobs_of view good (w\<lparr>disk := annotate (disk w) p kv\<rparr>) = blobs_of view good w"
  using assms by (auto simp: blobs_of_def view_put view_remove view_annotate)

lemma refines_map:
  assumes "ready (disk w)" and "spec_run L token refusal good p (blobs_of view good w) = Some (a, m)"
  shows "\<exists>w'. run L B p w = (a, w') \<and> ready (disk w') \<and> m = blobs_of view good w'"
  using assms
proof (induction p arbitrary: w)
  case (UploadText p t k)
  then show ?case
    by (auto simp: upload_law ready_put blobs_after split: if_splits)
next
  case (UploadTextIfAbsent p t k)
  then show ?case
    by (auto simp: create_law ready_put blobs_after split: if_splits)
next
  case (CompareAndSwapText p v t k)
  then show ?case
    by (auto simp: swap_law ready_put blobs_after split: if_splits option.splits)
next
  case (DeleteBlob p k)
  then show ?case
    by (auto simp: delete_law ready_remove blobs_after split: if_splits)
next
  case (SetMetadata p kv k)
  then show ?case
    by (auto simp: metadata_law ready_annotate blobs_after split: if_splits)
qed (auto simp: download_law versioned_law exists_law split: if_splits)

end

end
