(* ===== verification/Spec2Isabelle.thy ===== *)
theory Spec2Isabelle
  imports Run_Samples Digests Refinement
begin

text \<open>
  A verification development of the job queue of stado (\<open>src/stado-rs/src/queue/\<close>) and of the job
  record it moves (\<open>src/stado-rs/src/models/\<close>).

  \<^bold>\<open>The program.\<close> A stado deployment runs jobs on whatever machines it owns or rents. All of its durable
  state is text blobs in one store: a device-local directory or a cloud bucket behind the trait
  \<open>BlobBackend\<close>. A job is a JSON document that stands under one lifecycle prefix (\<open>queue/\<close>,
  \<open>running/\<close>, \<open>completed/\<close>, \<open>failed/\<close>, \<open>cancelled/\<close> and so on), and no process is in charge of it:
  workers claim it, renew its lease, finish it, a reaper puts it back, an operator cancels it, and any
  of them may die between two calls. A store has no transaction over two blobs, so a move between
  prefixes is a protocol: a transition record is prepared, the source document is replaced by a fence,
  the destination is created, the record is completed, and every process that meets an unfinished
  record finishes it. Beside the documents stand the priority index of the queue (one marker per
  queued job, named so that a listing is in priority order), the run manifests (what a submission
  promised, and the outcome of each of its jobs), the cancellation requests and the tombstones.

  \<^bold>\<open>How it is modelled.\<close> Code that talks to the store is a program: a tree of calls of the contract,
  each followed by what the code does with the answer (\<open>Store\<close>: \<open>call\<close>, \<open>prog\<close>). \<open>run\<close> executes it on
  a world (the backend's state, the clock, the source of fresh identifiers, the process) and
  \<open>trace\<close> lists the worlds between its calls, so that a crash after any call is a prefix of the
  trace. An error is \<open>Inl\<close>, and \<open>bindE\<close> is the question mark operator. What is not under \<open>src/\<close> is a
  parameter: \<open>lib\<close> holds SHA-256 of a text, the reading and printing of RFC 3339 instants and the text of a
  fresh UUID. A text is a \<open>body\<close>: a JSON value where the code serialises one, so that the laws of the
  printer and parser of \<open>serde_json\<close> are those of the constructor. An \<open>f64\<close> is its 64 bits; integers keep the ranges of their Rust types.

  \<^bold>\<open>The theories.\<close>
  \<^item> \<open>Prelude\<close>: results, the string functions of the Rust standard library, ordered maps.
  \<^item> \<open>Json\<close>: JSON values, floats as bits, typed reads of a field.
  \<^item> \<open>Jobs\<close>: \<open>models/job/record.rs\<close>, \<open>models/job/worker.rs\<close>, \<open>models/states.rs\<close>: the record of a job, its
    serialised form, and that reading it back gives the record.
  \<^item> \<open>Store\<close>: \<open>queue/contract/\<close> and \<open>queue/storage/facade/\<close>: the calls of a backend, programs, runs,
    traces.
  \<^item> \<open>Contract\<close>: what a backend promises, as the locales \<open>blob_store\<close> and \<open>listed_store\<close>.
  \<^item> \<open>Local_File\<close>: \<open>queue/local_file/\<close>, the device-local backend with its path normalisation, version
    tokens and write fence; it interprets the two locales.
  \<^item> \<open>Identity\<close>, \<open>Digests\<close>: \<open>models/job/methods.rs\<close>, \<open>models/activation.rs\<close>,
    \<open>queue/submit/request/identity.rs\<close>: digests, run ids, job ids, the immutable projection.
  \<^item> \<open>Records\<close>: \<open>queue/storage/records/\<close>: the transition record, fences, the merge that builds
    the destination document.
  \<^item> \<open>Options\<close>: \<open>queue/submit/options.rs\<close>, \<open>queue/submit/request/mod.rs\<close>: a submission's options and request.
  \<^item> \<open>Markers\<close>: \<open>queue/listing/\<close>: the priority index and the listing of jobs.
  \<^item> \<open>Manifest\<close>, \<open>Runs\<close>: \<open>queue/submit/manifest/\<close>, \<open>queue/runs/\<close>: manifest validation and
    migration, the recorded outcome, the status of a run.
  \<^item> \<open>Transitions\<close>: \<open>queue/storage/lifecycle/transitions/\<close>: prepare, recover, retire, and the verdict
    that lets a cleaner delete a job's working directory.
  \<^item> \<open>Moves\<close>: the locale \<open>job_store\<close> and the protocol proved over it: what a move does in each of its
    stages, and what recovery makes of a crash in any of them.
  \<^item> \<open>Lifecycle\<close>, \<open>Operations\<close>: \<open>queue/storage/lifecycle/\<close>: admission, claim, lease renewal, cancellation,
    rewriting a queued job, deletion, the sentinel sweep; and what each does, in the locale
    \<open>lifecycle_store\<close>, interpreted on the device-local store.
  \<^item> \<open>Leases\<close>: \<open>queue/leases/\<close>: the lease of a provider's resource, its states, owners and fences.
  \<^item> \<open>Migrations\<close>: \<open>queue/migrations/\<close>: the sweep that repairs the priority index.
  \<^item> \<open>Reads\<close>, \<open>Release_Output\<close>: \<open>queue/reaper/release_output.rs\<close>: the evidence that a release job whose
    worker is gone has finished.
  \<^item> \<open>Liveness\<close>: \<open>monitor/heartbeat_guard/\<close>: whether a running job is alive.
  \<^item> \<open>Capacity\<close>: \<open>queue/capacity/\<close>: the publications of workers and the reservations of placed work.
  \<^item> \<open>Reaper\<close>: \<open>queue/reaper/\<close>: what becomes of a job whose worker is gone, in the locale
    \<open>reaped_store\<close>, interpreted on the device-local store.
  \<^item> \<open>Refinement\<close>: a store as a map from paths to texts, and that every backend of the contract refines it.
  \<^item> \<open>Claimable\<close>, \<open>Polls\<close>, \<open>Fair_Polls\<close>: \<open>queue/listing/claimable/\<close>: what a scheduler poll can
    claim; the walk over the index against its plain reading, in the locale \<open>paged_store\<close>; the cursor.
  \<^item> \<open>Retries\<close>: every loop that reads again after a refused write ends.
  \<^item> \<open>Interleaving\<close>: schedules of several processes on one store.
  \<^item> \<open>Discipline\<close>: over every call any of them can make, whatever the store answers.
  \<^item> \<open>Control\<close>, \<open>Demand\<close>: \<open>queue/control.rs\<close>, \<open>queue/demand.rs\<close>, \<open>cli/demand.rs\<close> and
    \<open>agent/tick/gates/admission.rs\<close>: the pause of the queue under any interleaving of its operators, the
    demand events, and the reason a tick of an agent refuses work.
  \<^item> \<open>Objects\<close>: the byte and \<open>stat\<close> calls of the contract, and what a successful answer of a store that may
    refuse promises, as the locale \<open>object_store\<close>, interpreted on the device.
  \<^item> \<open>Failover\<close>: \<open>queue/failover/\<close>: a primary with a backup, in the locales \<open>authority\<close> and
    \<open>replicated\<close>, interpreted on two devices. Its reads can write (they heal), so programs run on the pair
    by \<open>run_failover\<close>.
  \<^item> \<open>Copy\<close>: \<open>queue/copy/\<close>: the copy of a store with its resume marker, and the replica, in the locales
    \<open>copying\<close> (what a clean run leaves) and \<open>answering\<close> (that it ends clean).
  \<^item> \<open>Submission\<close>: \<open>queue/submit/batch/\<close>, \<open>queue/submit/manifest/claim.rs\<close>,
    \<open>queue/submit/placement.rs\<close>: the hardware and the manifest of a new run, the claim and the checkpoint of
    an entry, the whole submission. \<open>Submission_Laws\<close>: validation as a function of the instant and the
    locale \<open>submission_store\<close>; \<open>New_Manifest\<close>: what a submission writes is what the validation
    accepts; \<open>Accepted_Runs\<close>: a submission and its repetition, interpreted on the device.
  \<^item> \<open>Samples\<close>, \<open>Scan_Samples\<close>, \<open>Device_Samples\<close>, \<open>Run_Samples\<close>: the concrete worlds on which the properties are evaluated.

  \<^bold>\<open>What is shown.\<close> A job has one home after recovery from a crash at any point of a move
  (C1); a move that succeeds puts the job where it says and a stale one changes
  nothing (C2, \<open>stale_move_refused\<close>); a claim grants a lease, no job is granted
  twice, a renewal makes an older observation useless to the reaper (C3,
  C4, C5); admission happens once and leaves an index entry
  (C6, C7); cancellation (C8,
  C9); a submission admits the jobs of its run once, however often it is made,
  and who may take an entry of it over (C10, C11); the write discipline (C12); the order of the
  index and its upkeep (C13, C14); the sweep of sentinels
  (C15); the device-local store (C16), which refines a map (C33); documents and names
  (C17, C18, C19,
  C20); provider leases (C22, C23,
  C24); the repair of the index, alone and beside an admission
  (C25, C26); the reaper: a job with a live worker is left
  alone, a lost one is put back once, failed the second time or completed from its evidence, and loses to
  a renewal (C27, C28, C21,
  C29, C30), and what stops a pass
  (C31); a reservation holds as long as it promised
  (C32); retries end (C34); a poll returns what its caller may have,
  reads the index as it stands, and polls that resume one another reach every job (C35,
  C36, C37). A store with a backup is its primary and keeps its
  backup up (C38), a replication that ends clean makes a replica
  (C39), and an acknowledged pause is in force (C40).
  Without an id, as lemmas of their theories: a clean report vouches for the metadata of every object it
  wrote (\<open>Copy.written_is_verified\<close>), a release object the primary has lost is served and restored
  (\<open>Failover.lost_object_healed\<close>), a tick admits work exactly when neither switch nor a reading of the
  machine is against it (\<open>Demand.tick_admits_exactly\<close>), and a withdrawn demand event can come back
  (\<open>Demand.withdrawal_undone\<close>).

  \<^bold>\<open>Bounds.\<close> A loop of the code that retries a compare-and-swap until it is undisturbed takes the
  number of its rounds as fuel and ends in an error of the model when it is used up; the theorems
  state the result for every positive fuel, since one round is enough when nobody interferes. The
  discipline (C12) is over every fuel and every interference. Conversely no loop of a recovery, a renewal
  or a rewrite uses up a bound that exceeds the number of its writes that other processes refused it
  (C34). The outer loop of a move is not bounded by that number: it also repeats when another process
  settles its record. Time stands still during one run.

  \<^bold>\<open>Not modelled.\<close> The cloud backends (\<open>queue/s3\<close>, \<open>queue/gcs\<close>, \<open>queue/azure_blob\<close>,
  \<open>queue/stado_object\<close>) are HTTP clients of services that are not part of the source; they enter as the
  contract. The texts of error messages and of logs are abbreviated or left out. Of \<open>queue/capacity/\<close> what a
  worker measures before it publishes and the background renewal of a hold are left out. Of failover the
  ranged reads, the reads by release URI and the transfers to local files, and of copying the endpoints
  and their configuration are left out; during a copy the source stands still, and the objects of a
  prefix are copied one after the other where the code overlaps them. What a submission asks other
  parts for (environment, account, build budget, measured size of a model, ladder of machines) is an
  argument of the model, the record \<open>submit_env\<close>, and the opening of the configured store is left
  out. The rest of the program (command line, dashboard, providers, coordinator, release control, desktop
  application) is outside of this development.
\<close>

section \<open>Moves between lifecycle prefixes\<close>

text \<open>
  C1. Stop the process that moves a job from prefix \<open>p\<close> to \<open>q\<close> before any of its calls, or after the
  last one, and let any process recover the job on that device. The recovery returns, and the job is
  then live under exactly one lifecycle prefix: where it was, or where it was going.
\<close>

theorem crash_recovery_single_home:
  assumes "local_ready root (disk w)"
    and "movable (local_view root) L (disk w) cur requested p q"
    and "ev = None \<or> ev = Some (local_version L (to_json cur))"
    and "homes (local_view root) (disk w) (job_id cur) = [p]"
    and "u \<in> set (crash_worlds L (local_backend L root) (transition_job_if_version (Suc fuel) L requested
      (prefix_as_str p) (prefix_as_str q) ev) w)"
    and "disk x = disk u"
  shows "\<exists>b x'. run L (local_backend L root) (recover_job_transition (Suc fuel') L (job_id cur)) x = (Inr b, x') \<and>
    (homes (local_view root) (disk x') (job_id cur) = [p] \<or>
     homes (local_view root) (disk x') (job_id cur) = [q])"
  by (rule jobs.crash_recovery [OF assms])

theorem crash_recovery_single_home_witness:
  "\<exists>b x'. run sample_lib sample_backend (recover_job_transition 1 sample_lib ''job-1'')
     (snd (run sample_lib sample_backend (transition_job_if_version 1 sample_lib sample_job
       (prefix_as_str Queue) (prefix_as_str Running) None) queued_world)) = (Inr b, x') \<and>
     (homes sample_view (disk x') ''job-1'' = [Queue] \<or> homes sample_view (disk x') ''job-1'' = [Running])"
  using crash_recovery_single_home [of sample_root queued_world sample_lib sample_job sample_job Queue
      Running None _ 0 _ 0, OF _ _ _ _ _ refl] sample_movable(2)
  by (simp add: crash_worlds_def)

text \<open>
  C2. A move that nobody interferes with completes: it answers \<open>true\<close>, the destination holds the
  document merged from the source and the request, the job is live there and nowhere else, and the
  documents of every other job are as they were.
\<close>

theorem move_reaches_destination:
  assumes "local_ready root (disk w)"
    and "movable (local_view root) L (disk w) cur requested p q"
    and "homes (local_view root) (disk w) (job_id cur) = [p]"
  shows "\<exists>d w'. merge_transition_destination cur requested (prefix_as_str p) (prefix_as_str q) = Inr d \<and>
    run L (local_backend L root) (move_job (Suc fuel) L requested (prefix_as_str p) (prefix_as_str q)) w =
      (Inr (), w') \<and>
    local_view root (disk w') (job_path (prefix_as_str q) (job_id cur)) = Some (to_json d) \<and>
    homes (local_view root) (disk w') (job_id cur) = [q] \<and>
    (\<forall>y a. no_slash a \<longrightarrow> a \<noteq> job_id cur \<longrightarrow>
      local_view root (disk w') (job_path (prefix_as_str y) a) =
      local_view root (disk w) (job_path (prefix_as_str y) a))"
proof -
  obtain d w' where d: "merge_transition_destination cur requested (prefix_as_str p) (prefix_as_str q) = Inr d"
    and run: "run L (local_backend L root) (transition_job_if_version (Suc fuel) L requested
      (prefix_as_str p) (prefix_as_str q) None) w = (Inr True, w')"
    and moved: "jobs.moved root L (disk w) cur d p q (disk w')"
    and home: "homes (local_view root) (disk w') (job_id cur) = [q]"
    using jobs.move_home [OF assms(1,2), of None fuel] assms(3) by blast
  have "local_view root (disk w') (job_path (prefix_as_str y) a) =
      local_view root (disk w) (job_path (prefix_as_str y) a)" if "no_slash a" "a \<noteq> job_id cur" for y a
    by (rule jobs.movedD(6) [OF moved]) (use that plain_move_paths in auto)
  then show ?thesis
    using d run home jobs.movedD(3) [OF moved] by (simp add: move_job_def run_simps)
qed

theorem move_reaches_destination_witness:
  "\<exists>d w'. merge_transition_destination sample_job sample_job (prefix_as_str Queue) (prefix_as_str Running) = Inr d \<and>
    run sample_lib sample_backend (move_job 1 sample_lib sample_job (prefix_as_str Queue)
      (prefix_as_str Running)) queued_world = (Inr (), w') \<and>
    sample_view (disk w') (job_path (prefix_as_str Running) ''job-1'') = Some (to_json d) \<and>
    homes sample_view (disk w') ''job-1'' = [Running]"
  using move_reaches_destination [of sample_root queued_world sample_lib sample_job sample_job Queue Running 0]
    sample_movable(2) by fastforce

text \<open>
  A move pinned to a version the source no longer has is refused and changes nothing: neither the
  store nor any other part of the world.
\<close>

lemma stale_move_refused:
  assumes "local_ready root (disk w)" and "no_slash (job_id requested)"
    and "idle_record (job_id requested) (local_view root (disk w) (transition_path L (job_id requested)))"
    and "local_view root (disk w) (job_path (prefix_as_str p) (job_id requested)) = Some text'"
    and "local_version L text' \<noteq> v"
  shows "run L (local_backend L root) (move_job_if_version (Suc fuel) L requested (prefix_as_str p) q v) w =
    (Inr False, w)"
  unfolding move_job_if_version_def by (rule jobs.move_stale [OF assms])

lemma stale_move_refused_witness:
  "run sample_lib sample_backend (move_job_if_version 1 sample_lib sample_job (prefix_as_str Queue)
     ''running'' ''another version'') queued_world = (Inr False, queued_world)"
proof -
  have "local_version sample_lib (to_json sample_job) \<noteq> ''another version''"
    using sha256_hex_length [of sample_lib "to_json sample_job"]
    by (auto simp: local_version_def dest: arg_cong [where f = length])
  then show ?thesis
    using stale_move_refused [of sample_root queued_world sample_job sample_lib Queue
        "to_json sample_job" "''another version''" 0 "''running''"]
    by (simp add: idle_record_def no_slash_def) (simp add: queued_world_def)
qed

section \<open>Claims, leases and cancellation\<close>

text \<open>
  C3. The claim of a queued job that still agrees with what the worker saw, is due and has no
  cancellation, answers \<open>true\<close>: the job is live under \<open>running/\<close> alone, with the same immutable
  identity and a lease that ends exactly the promised time after the instant of the claim.
\<close>

theorem claim_grants_lease:
  assumes "local_ready root (disk w)" and "movable (local_view root) L (disk w) cur j Queue Running"
    and "assigned_to cur = assigned_to j" and "provider cur = provider j"
    and "pin_to_provider cur = pin_to_provider j" and "\<not> held_back L cur (clock w)"
    and "local_view root (disk w) (cancellation_path (job_id cur)) = None"
    and "local_view root (disk w) (job_path (prefix_as_str Cancelled) (job_id cur)) = None"
    and "homes (local_view root) (disk w) (job_id cur) = [Queue]"
  shows "\<exists>d w'. run L (local_backend L root) (claim_queued_job (Suc fuel) L j promise) w = (Inr True, w') \<and>
    local_view root (disk w') (job_path (prefix_as_str Running) (job_id cur)) = Some (to_json d) \<and>
    state d = ''running'' \<and> same_identity cur d \<and>
    lease_expires_at d = Some (to_rfc3339 L (clock w + promise)) \<and>
    homes (local_view root) (disk w') (job_id cur) = [Running]"
proof -
  obtain d w' where run: "run L (local_backend L root) (claim_queued_job (Suc fuel) L j promise) w = (Inr True, w')"
    and moved: "jobs.moved root L (disk w) cur d Queue Running (disk w')"
    and d: "state d = ''running''" "same_identity cur d"
      "lease_expires_at d = Some (to_rfc3339 L (clock w + promise))"
    and home: "homes (local_view root) (disk w') (job_id cur) = [Running]"
    using lives.claim_granted [OF assms(1-8), of fuel promise] assms(9) by blast
  then show ?thesis using jobs.movedD(3) [OF moved] by blast
qed

theorem claim_grants_lease_witness:
  "\<exists>d w'. run sample_lib sample_backend (claim_queued_job 1 sample_lib sample_job 5) queued_world = (Inr True, w') \<and>
    sample_view (disk w') (job_path (prefix_as_str Running) ''job-1'') = Some (to_json d) \<and>
    state d = ''running'' \<and> same_identity sample_job d \<and>
    lease_expires_at d = Some (to_rfc3339 sample_lib (clock queued_world + 5)) \<and>
    homes sample_view (disk w') ''job-1'' = [Running]"
  using claim_grants_lease [of sample_root queued_world sample_lib sample_job sample_job 0 5]
    sample_movable(2) [of Running sample_lib]
  by (simp add: held_back_def sample_blank) (simp add: queued_world_def)

text \<open>
  C4. A job is claimed once: after a granted claim, every further claim of that job, by any worker,
  with any promise and whatever that worker believes of the job, answers \<open>false\<close> and writes nothing.
\<close>

theorem claimed_once:
  assumes "local_ready root (disk w)" and "movable (local_view root) L (disk w) cur j Queue Running"
    and "assigned_to cur = assigned_to j" and "provider cur = provider j"
    and "pin_to_provider cur = pin_to_provider j" and "\<not> held_back L cur (clock w)"
    and "local_view root (disk w) (cancellation_path (job_id cur)) = None"
    and "local_view root (disk w) (job_path (prefix_as_str Cancelled) (job_id cur)) = None"
    and "job_id k = job_id cur"
  shows "\<exists>w'. run L (local_backend L root) (claim_queued_job (Suc fuel) L j promise) w = (Inr True, w') \<and>
    (\<forall>x. disk x = disk w' \<longrightarrow>
      run L (local_backend L root) (claim_queued_job fuel' L k promise') x = (Inr False, x))"
  by (rule lives.claim_exclusive [OF assms])

theorem claimed_once_witness:
  "\<exists>w'. run sample_lib sample_backend (claim_queued_job 1 sample_lib sample_job 5) queued_world = (Inr True, w') \<and>
    (\<forall>x. disk x = disk w' \<longrightarrow>
      run sample_lib sample_backend (claim_queued_job 3 sample_lib sample_running 7) x = (Inr False, x))"
  using claimed_once [of sample_root queued_world sample_lib sample_job sample_job sample_running 0 5 3 7]
    sample_movable(2) [of Running sample_lib]
  by (simp add: held_back_def) (simp add: queued_world_def)

text \<open>
  C5. A reaper moves an expired job at the version of the document it judged. When the worker renewed
  the lease in between, the renewal answers \<open>true\<close> and the reaper's move, wherever it was going, is
  refused and changes nothing.
\<close>

theorem renewal_fences_reaper:
  assumes "local_ready root (disk w)" and "no_slash (job_id j)" and "sound_job j" and "state j = ''running''"
    and "local_view root (disk w) (job_path (prefix_as_str Running) (job_id j)) = Some (to_json j)"
    and "idle_record (job_id j) (local_view root (disk w) (transition_path L (job_id j)))"
    and "local_version L (to_json (j\<lparr>lease_expires_at := Some (to_rfc3339 L (clock w + promise))\<rparr>)) \<noteq>
      local_version L (to_json j)"
    and "job_id requested = job_id j"
  shows "\<exists>w'. run L (local_backend L root) (renew_running_lease (Suc fuel) L (job_id j) promise) w = (Inr True, w') \<and>
    (\<forall>x. disk x = disk w' \<longrightarrow>
      run L (local_backend L root) (move_job_if_version (Suc fuel') L requested (prefix_as_str Running) to
        (local_version L (to_json j))) x = (Inr False, x))"
  by (rule lives.renewal_outdates [OF assms])

theorem renewal_fences_reaper_witness:
  "\<exists>w'. run sample_lib sample_backend (renew_running_lease 1 sample_lib ''job-1'' 5) running_world = (Inr True, w') \<and>
    (\<forall>x. disk x = disk w' \<longrightarrow>
      run sample_lib sample_backend (move_job_if_version 1 sample_lib sample_running (prefix_as_str Running)
        ''queue'' (local_version sample_lib (to_json sample_running))) x = (Inr False, x))"
  using renewal_fences_reaper [of sample_root running_world sample_running sample_lib 5 sample_running 0 0 "''queue''"]
    sample_renewal
  by (simp add: idle_record_def no_slash_def) (simp add: running_world_def)

text \<open>
  C6. First admission happens once. A job no prefix and no transition record knows is queued, and at
  every point the admission can be interrupted, a queued document has its entry in the priority index,
  without which no scheduler would ever see it. A second admission answers \<open>false\<close> and writes nothing.
\<close>

theorem admitted_once_and_indexed:
  assumes "local_ready root (disk w)" and "sound_job j" and "state j = ''queued''"
    and "local_view root (disk w) (transition_path L (job_id j)) = None"
    and "\<And>p. local_view root (disk w) (job_path (prefix_as_str p) (job_id j)) = None"
  shows "\<exists>w'. run L (local_backend L root) (create_queued_job_if_absent fuel L j) w = (Inr True, w') \<and>
    local_view root (disk w') (job_path (prefix_as_str Queue) (job_id j)) = Some (to_json j) \<and>
    (\<forall>u \<in> set (crash_worlds L (local_backend L root) (create_queued_job_if_absent fuel L j) w).
      local_view root (disk u) (job_path (prefix_as_str Queue) (job_id j)) = None \<or>
      local_view root (disk u) (marker_path j) \<noteq> None) \<and>
    (\<forall>x. disk x = disk w' \<longrightarrow>
      run L (local_backend L root) (create_queued_job_if_absent fuel' L j) x = (Inr False, x))"
proof -
  obtain w' where run: "run L (local_backend L root) (create_queued_job_if_absent fuel L j) w = (Inr True, w')"
    and rdy: "local_ready root (disk w')"
    and q: "local_view root (disk w') (job_path (prefix_as_str Queue) (job_id j)) = Some (to_json j)"
    and r: "local_view root (disk w') (transition_path L (job_id j)) = None"
    and p: "\<forall>p. p \<noteq> Queue \<longrightarrow> local_view root (disk w') (job_path (prefix_as_str p) (job_id j)) = None"
    and crash: "\<forall>u \<in> set (crash_worlds L (local_backend L root) (create_queued_job_if_absent fuel L j) w).
      local_view root (disk u) (job_path (prefix_as_str Queue) (job_id j)) = None \<or>
      local_view root (disk u) (marker_path j) \<noteq> None"
    and "local_view root (disk w') (marker_path j) =
      Some (Json (JObj [(''job_id'', JStr (job_id j)), (''priority'', JInt (priority j))]))"
    and "\<forall>p. plain_path p \<longrightarrow> p \<noteq> marker_path j \<longrightarrow> p \<noteq> job_path (prefix_as_str Queue) (job_id j) \<longrightarrow>
      local_view root (disk w') p = local_view root (disk w) p"
    by (rule lives.admission_admits [OF assms(1,2,4,5), where fuel = fuel])
  have tidy: "tidy (local_view root) (disk w') (job_id j)"
    unfolding tidy_def
  proof
    fix y
    show "case local_view root (disk w') (job_path (prefix_as_str y) (job_id j)) of
        None \<Rightarrow> True | Some text' \<Rightarrow> \<exists>c. sound_job c \<and> text' = to_json c"
      using q p assms(2) by (cases "y = Queue") auto
  qed
  have "run L (local_backend L root) (create_queued_job_if_absent fuel' L j) x = (Inr False, x)"
    if "disk x = disk w'" for x
    by (rule lives.admission_found [where p = Queue])
       (use rdy r q tidy that assms(2,3) in \<open>auto simp: sound_job_def sentinel_queued\<close>)
  then show ?thesis using run q crash by blast
qed

theorem admitted_once_and_indexed_witness:
  "\<exists>w'. run sample_lib sample_backend (create_queued_job_if_absent 1 sample_lib sample_job) empty_world = (Inr True, w') \<and>
    sample_view (disk w') (job_path (prefix_as_str Queue) ''job-1'') = Some (to_json sample_job) \<and>
    (\<forall>x. disk x = disk w' \<longrightarrow>
      run sample_lib sample_backend (create_queued_job_if_absent 1 sample_lib sample_job) x = (Inr False, x))"
  using admitted_once_and_indexed [of sample_root empty_world sample_job sample_lib 1 1] by auto

text \<open>
  C7. A job id that was admitted before is never queued again: while its transition record stands, in
  whatever settled state, a first admission is refused with a conflict and writes nothing, also when
  no lifecycle prefix holds the job any more.
\<close>

theorem prior_admission_refused:
  assumes "local_ready root (disk w)" and "no_slash (job_id j)" and "tidy (local_view root) (disk w) (job_id j)"
    and "local_view root (disk w) (transition_path L (job_id j)) \<noteq> None"
    and "idle_record (job_id j) (local_view root (disk w) (transition_path L (job_id j)))"
  shows "run L (local_backend L root) (create_queued_job_if_absent fuel L j) w =
    (Inl (StorageConflict ''durable prior admission exists''), w)"
  by (rule lives.admission_refused [OF assms])

theorem prior_admission_refused_witness:
  "run sample_lib sample_backend (create_queued_job_if_absent 1 sample_lib sample_job) settled_world =
    (Inl (StorageConflict ''durable prior admission exists''), settled_world)"
  using prior_admission_refused [of sample_root settled_world sample_job sample_lib 1] sample_settled
  by (simp add: no_slash_def)



text \<open>
  C9. A job whose cancellation was asked for, or that is cancelled, is not claimed; the claim answers
  \<open>false\<close> and writes nothing.
\<close>

theorem cancelled_job_not_claimed:
  assumes "local_ready root (disk w)" and "no_slash (job_id j)" and "sound_job c"
    and "idle_record (job_id j) (local_view root (disk w) (transition_path L (job_id j)))"
    and "local_view root (disk w) (job_path (prefix_as_str Queue) (job_id j)) = Some (to_json c)"
    and "local_view root (disk w) (cancellation_path (job_id j)) \<noteq> None \<or>
      local_view root (disk w) (job_path (prefix_as_str Cancelled) (job_id j)) \<noteq> None"
  shows "run L (local_backend L root) (claim_queued_job fuel L j promise) w = (Inr False, w)"
  by (rule lives.claim_cancelled [OF assms])

theorem cancelled_job_not_claimed_witness:
  "run sample_lib sample_backend (claim_queued_job 1 sample_lib sample_job 5) asked_world = (Inr False, asked_world)"
  using cancelled_job_not_claimed [of sample_root asked_world sample_job sample_job sample_lib 1 5] sample_asked
  by (simp add: no_slash_def movable_def Let_def)


section \<open>The priority index\<close>

text \<open>
  C13. Name order of the index is the scheduling order: of two queued jobs the one with the higher
  priority comes first, over the whole signed range; of two with equal priority the one created first,
  as long as both instants are written in the same number of characters.
\<close>

theorem marker_order:
  assumes "i64_range (priority a)" and "i64_range (priority b)"
    and "priority b < priority a \<or>
      priority a = priority b \<and> created_at a < created_at b \<and> length (created_at a) = length (created_at b)"
  shows "marker_path a < marker_path b"
  using assms marker_path_priority_less [of a b] marker_path_age_less [of a b] by blast

theorem marker_order_witness:
  "marker_path (sample_job\<lparr>priority := 3\<rparr>) < marker_path (sample_job\<lparr>priority := - 4\<rparr>)"
  using marker_order [of "sample_job\<lparr>priority := 3\<rparr>" "sample_job\<lparr>priority := - 4\<rparr>"]
  by (simp add: i64_range_def)

text \<open>
  C14. A priority change never leaves the job out of the index: at every point where it can be
  interrupted the job has its old entry or its new one. When it returns, the document has the new
  priority, the new entry stands and every other entry of the job is gone.
\<close>

theorem priority_change_keeps_index:
  assumes "local_ready root (disk w)" and "sound_job j" and "state j = ''queued''"
    and "idle_record (job_id j) (local_view root (disk w) (transition_path L (job_id j)))"
    and "local_view root (disk w) (job_path (prefix_as_str Queue) (job_id j)) = Some (to_json j)"
    and "local_view root (disk w) (marker_path j) \<noteq> None" and "priority_fits n"
  shows "\<exists>w'. run L (local_backend L root) (update_queued_priority (Suc fuel) L (job_id j) n) w =
      (Inr (Some (j\<lparr>priority := n\<rparr>)), w') \<and>
    local_view root (disk w') (job_path (prefix_as_str Queue) (job_id j)) = Some (to_json (j\<lparr>priority := n\<rparr>)) \<and>
    local_view root (disk w') (marker_path (j\<lparr>priority := n\<rparr>)) \<noteq> None \<and>
    (\<forall>x. plain_path x \<longrightarrow> stale_marker (job_id j) (Some (marker_path (j\<lparr>priority := n\<rparr>))) x \<longrightarrow>
      local_view root (disk w') x = None) \<and>
    (\<forall>u \<in> set (crash_worlds L (local_backend L root) (update_queued_priority (Suc fuel) L (job_id j) n) w).
      local_view root (disk u) (marker_path j) \<noteq> None \<or>
      local_view root (disk u) (marker_path (j\<lparr>priority := n\<rparr>)) \<noteq> None)"
  by (rule lives.rekey_indexed [OF assms, of fuel]) blast

theorem priority_change_keeps_index_witness:
  "\<exists>w'. run sample_lib sample_backend (update_queued_priority 1 sample_lib ''job-1'' 6) indexed_world =
      (Inr (Some (sample_job\<lparr>priority := 6\<rparr>)), w') \<and>
    sample_view (disk w') (marker_path (sample_job\<lparr>priority := 6\<rparr>)) \<noteq> None \<and>
    (\<forall>u \<in> set (crash_worlds sample_lib sample_backend (update_queued_priority 1 sample_lib ''job-1'' 6) indexed_world).
      sample_view (disk u) (marker_path sample_job) \<noteq> None \<or>
      sample_view (disk u) (marker_path (sample_job\<lparr>priority := 6\<rparr>)) \<noteq> None)"
  using priority_change_keeps_index [of sample_root indexed_world sample_job sample_lib 6 0] sample_indexed
  by (auto simp: idle_record_def priority_fits_def)

text \<open>
  C15. The sentinel sweep deletes nothing but the cleaned sentinels of jobs that ended: on every
  outcome, an error in the middle included, a blob of the device is as it was, or it was such a
  sentinel. A live document is never deleted.
\<close>

theorem sweep_spares_live_jobs:
  assumes "local_ready root (disk w)" and "no_slash d" and "d \<noteq> ''job-transitions''"
    and "\<forall>y v j. starts_with y (d @ ''/'') \<longrightarrow> local_view root (disk w) y = Some (Json v) \<longrightarrow>
      job_from_value v = Some j \<longrightarrow> no_slash (job_id j)"
    and "run L (local_backend L root) (retire_settled_sentinels L d) w = (r, w')" and "plain_path x"
  shows "(local_view root (disk w') x = local_view root (disk w) x \<or>
      local_view root (disk w') x = None \<and> sweepable (local_view root) L (disk w) x) \<and>
    (live_document (local_view root (disk w) x) \<longrightarrow>
      local_view root (disk w') x = local_view root (disk w) x)"
  using lives.sweep_spares [OF assms] sweepable_not_live [of "local_view root" L "disk w" x] by blast

theorem sweep_spares_live_jobs_witness:
  "sample_view (disk (snd (run sample_lib sample_backend (retire_settled_sentinels sample_lib ''queue'') queued_world)))
     (job_path (prefix_as_str Queue) ''job-1'') = Some (to_json sample_job)"
proof -
  obtain r w' where run: "run sample_lib sample_backend (retire_settled_sentinels sample_lib ''queue'') queued_world = (r, w')"
    by fastforce
  have "no_slash (job_id j)" if "sample_view (disk queued_world) y = Some (Json v)" "job_from_value v = Some j" for y v j
    using that sound_jobD(1) [OF sample_job_default(1)]
    by (auto simp: queued_world_def to_json_def job_roundtrip no_slash_def split: if_splits)
  then show ?thesis
    using sweep_spares_live_jobs [OF _ _ _ _ run, of "job_path (prefix_as_str Queue) ''job-1''"]
      plain_move_paths(1) [of "''job-1''" Queue] run
    by (simp add: no_slash_def) (simp add: queued_world_def)
qed

section \<open>The device-local store\<close>



section \<open>Documents and names\<close>

text \<open>
  C17. A move keeps what must not change and loses nothing that was counted: the destination has the
  identity of the source and the state of its prefix; it carries a lease only under \<open>running/\<close>; no
  counter and no recorded artifact of the source is lost, and a terminal move keeps the artifacts of
  both documents.
\<close>

theorem merge_keeps_identity_and_history:
  assumes "merge_transition_destination current requested from_prefix to_prefix = Inr d"
  shows "immutable_job_projection d = immutable_job_projection current \<and>
    state d = prefix_state to_prefix \<and>
    lease_expires_at d = (if prefix_parse to_prefix = Some Running then lease_expires_at requested else None) \<and>
    restarts current \<le> restarts d \<and> preempt_count current \<le> preempt_count d \<and>
    yield_count current \<le> yield_count d \<and> peak_vram_gb current \<le> peak_vram_gb d \<and>
    set (artifact_paths d) = set (artifact_paths current) \<union>
      (if to_prefix \<in> set terminal_prefixes then set (artifact_paths requested) else {})"
  using merge_identity [OF assms] merge_fields [OF assms] merge_lease [OF assms] merge_history [OF assms]
  by blast

theorem merge_keeps_identity_and_history_witness:
  "\<exists>d. merge_transition_destination sample_job (sample_job\<lparr>artifact_paths := [''a'']\<rparr>) ''running'' ''completed'' = Inr d \<and>
    ''a'' \<in> set (artifact_paths d) \<and> lease_expires_at d = None"
proof -
  obtain d where d: "merge_transition_destination sample_job (sample_job\<lparr>artifact_paths := [''a'']\<rparr>) ''running''
      (prefix_as_str Completed) = Inr d"
    using merge_defined [of sample_job "sample_job\<lparr>artifact_paths := [''a'']\<rparr>" "''running''" Completed]
      sound_jobD(1) [OF sample_job_default(1)] by auto
  then show ?thesis
    using merge_keeps_identity_and_history [OF d] by (auto simp: prefix_words terminal_prefixes_def prefix_parse_def)
qed





text \<open>
  C20. Derived names pass the checks names must pass: a derived run id is a valid run id for every scope
  and token; a job id derived for a command of a submission is canonical, and the lookup by prefix of it
  is itself.
\<close>

theorem derived_names_valid:
  "validate_run_id (stable_run_id L scope token) = Inr () \<and>
   is_canonical_job_id (job_id_from_key (submission_job_key L request_digest index command')) \<and>
   job_id_prefix (job_id_from_key (submission_job_key L request_digest index command')) =
     Some (job_id_from_key (submission_job_key L request_digest index command'))"
  using stable_run_id_ok job_ids_canonical job_id_prefix_canonical by (simp add: validate_run_id_def)

section \<open>Provider leases\<close>

text \<open>
  C22. Nobody takes a provider lease whose holder is not seen to be gone. A holder on another host, a
  process of this host that exists and an invocation that still runs in this process are all held; the
  acquisition is refused with a conflict, and the store is as it was.
\<close>

theorem held_lease_not_taken:
  assumes "local_ready root (disk w)" and "safe_job_id id'" and "po_pid (this_process w) < 2 ^ 32"
    and "local_view root (disk w) (lease_blob id') = Some (lease_encode l)" and "pl_owner_pid l < 2 ^ 32"
    and "holder_live w l"
  shows "\<exists>why w'. run L (local_backend L root) (lease_acquire L id' provider' owner_id ttl) w =
      (Inl (LeaseConflict why), w') \<and> disk w' = disk w"
  by (rule held.acquire_held [OF assms])

theorem held_lease_not_taken_witness:
  "\<exists>why w'. run sample_lib sample_backend (lease_acquire sample_lib ''job-1'' ''box'' ''second'' 60) held_world =
      (Inl (LeaseConflict why), w') \<and> disk w' = disk held_world"
  by (rule held_lease_not_taken [OF sample_lease_worlds(2) sample_safe_id _ sample_lease_worlds(4) _ sample_holders(2)])
     (simp_all add: sample_holders sample_lease_def)

text \<open>
  C23. A lease whose holder is gone is taken over: the new owner has a fence token of its own, what the
  lease records of the resource is kept, and the old owner is locked out. Whatever document the old
  owner saves at the version it read is refused with a conflict and nothing is written.
\<close>

theorem takeover_locks_out:
  assumes "local_ready root (disk w)" and "safe_job_id id'" and "po_pid (this_process w) < 2 ^ 32"
    and "local_view root (disk w) (lease_blob id') = Some (lease_encode l)" and "pl_owner_pid l < 2 ^ 32"
    and "pl_job_id l = id'" and "pl_provider l = provider'" and "holder_gone w l"
    and "local_version L (lease_encode (taken_lease L w l owner_id)) \<noteq> local_version L (lease_encode l)"
  shows "\<exists>t w'. run L (local_backend L root) (lease_acquire L id' provider' owner_id ttl) w = (Inr t, w') \<and>
    pl_owner_id t = owner_id \<and> pl_fence_token t = uuid_simple L (uuids w + 1) \<and>
    pl_state t = pl_state l \<and> pl_provider_resource_id t = pl_provider_resource_id l \<and>
    local_view root (disk w') (lease_blob id') = Some (lease_encode t) \<and>
    (\<forall>x s. disk x = disk w' \<longrightarrow> pl_job_id s = id' \<longrightarrow> pl_version s = local_version L (lease_encode l) \<longrightarrow>
      run L (local_backend L root) (lease_save s (pl_version s)) x =
        (Inl (LeaseConflict ''provider lease changed concurrently''), x))"
proof -
  let ?t = "taken_lease L w l owner_id" and ?p = "lease_blob id'"
  obtain w' where run: "run L (local_backend L root) (lease_acquire L id' provider' owner_id ttl) w =
      (Inr (?t\<lparr>pl_version := local_version L (lease_encode ?t)\<rparr>), w')"
    and w': "disk w' = local_put root (disk w) ?p (lease_encode ?t)"
    using held.acquire_takes_over [OF assms(1-8)] by blast
  have view: "local_view root (disk w') ?p = Some (lease_encode ?t)" and ready: "local_ready root (disk w')"
    using assms(1) plain_lease_blob [OF assms(2)] by (simp_all add: w' lf.view_put lf.ready_put)
  have "run L (local_backend L root) (lease_save s (pl_version s)) x =
      (Inl (LeaseConflict ''provider lease changed concurrently''), x)"
    if "disk x = disk w'" "pl_job_id s = id'" "pl_version s = local_version L (lease_encode l)" for x s
    using held.run_save [where root = root and w = x and l = s and c = "lease_encode ?t"] that view ready assms(2,9) by simp
  then show ?thesis
    using run view by (auto simp: taken_lease_def)
qed

theorem takeover_locks_out_witness:
  "\<exists>t w'. run sample_lib sample_backend (lease_acquire sample_lib ''job-1'' ''box'' ''second'' 60) left_world = (Inr t, w') \<and>
    pl_owner_id t = ''second'' \<and> pl_provider_resource_id t = ''r-9'' \<and>
    (\<forall>x s. disk x = disk w' \<longrightarrow> pl_job_id s = ''job-1'' \<longrightarrow>
      pl_version s = local_version sample_lib (lease_encode sample_lease) \<longrightarrow>
      run sample_lib sample_backend (lease_save s (pl_version s)) x =
        (Inl (LeaseConflict ''provider lease changed concurrently''), x))"
  using takeover_locks_out [OF sample_lease_worlds(1) sample_safe_id _ sample_lease_worlds(3) _ _ _ sample_holders(1)
      sample_takeover_version, of "''box''" 60]
  by (auto simp: sample_holders sample_lease_def)

text \<open>
  C24. A lease reaches \<open>running\<close> in one way only: however an owner drives a freshly allocated document,
  when it stands at \<open>running\<close> its transitions were provisioning, ready, starting and running, in this
  order and nothing else.
\<close>

theorem running_was_prepared:
  assumes "run L B (lease_drive L l sts owner_id fence) w = (Inr l', w')"
    and "pl_state l = ''allocating''" and "pl_state l' = ''running''"
  shows "sts = [Provisioning, Ready, Starting, LRunning]"
  using drive_to_running [OF assms(1), of Allocating] assms(2,3) by (simp add: lease_state_from_str_def)

theorem running_was_prepared_witness:
  "\<exists>sts l' w'. run sample_lib sample_backend
      (lease_drive sample_lib (sample_lease\<lparr>pl_owner_host := ''other'', pl_state := ''allocating''\<rparr>)
        sts ''first'' ''f'') held_world = (Inr l', w') \<and>
    pl_state l' = ''running'' \<and> sts = [Provisioning, Ready, Starting, LRunning]"
proof -
  let ?l = "sample_lease\<lparr>pl_owner_host := ''other'', pl_state := ''allocating''\<rparr>"
  let ?sts = "[Provisioning, Ready, Starting, LRunning]"
  obtain l' w' where run: "run sample_lib sample_backend (lease_drive sample_lib ?l ?sts ''first'' ''f'') held_world = (Inr l', w')"
    and l': "pl_state l' = ''running''"
    by (simp add: run_simps lease_transition_def assert_fence_def owner_expired_def owner_observed_def
        held_world_def sample_device_def sample_lease_def lease_state_from_str_def)
  then show ?thesis using running_was_prepared [OF run _ l'] by blast
qed

section \<open>Repair of the priority index\<close>

text \<open>
  C25. The repair leaves the index exact: after a sweep of a queue whose documents are in order, every
  queued job has its marker and no other, no marker stands whose name ends in an id the queue does not
  hold, and nothing outside of the index has changed.
\<close>

theorem repaired_index_exact:
  assumes "local_ready root (disk w)" and "queue_in_order plain_path (local_view root) (disk w)"
  shows "\<exists>w'. run L (local_backend L root) (backfill_priority_markers L) w = (Inr True, w') \<and>
    local_ready root (disk w') \<and>
    (\<forall>j. queued_in (local_view root) (disk w) j \<longrightarrow> local_view root (disk w') (marker_path j) \<noteq> None) \<and>
    (\<forall>x j. plain_path x \<longrightarrow> starts_with x marker_prefix \<longrightarrow> is_marker x \<longrightarrow> local_view root (disk w') x \<noteq> None \<longrightarrow>
      queued_in (local_view root) (disk w) j \<longrightarrow> ends_with x (id_suffix (job_id j)) \<longrightarrow> x = marker_path j) \<and>
    (\<forall>x. plain_path x \<longrightarrow> starts_with x marker_prefix \<longrightarrow> is_marker x \<longrightarrow> local_view root (disk w') x \<noteq> None \<longrightarrow>
      (\<exists>p id'. plain_path p \<and> starts_with p ''queue/'' \<and> local_view root (disk w) p \<noteq> None \<and>
        path_job_id p = Some id' \<and> ends_with x (id_suffix id'))) \<and>
    (\<forall>x. plain_path x \<longrightarrow> \<not> starts_with x marker_prefix \<longrightarrow>
      local_view root (disk w') x = local_view root (disk w) x)"
  by (rule lives.run_backfill [OF assms directories(2) plain_sentinel])

theorem repaired_index_exact_witness:
  "\<exists>w'. run sample_lib sample_backend (backfill_priority_markers sample_lib) stray_world = (Inr True, w') \<and>
    sample_view (disk stray_world) (marker_path named_job) = None \<and>
    sample_view (disk w') (marker_path named_job) \<noteq> None \<and>
    sample_view (disk stray_world) ''queue_priority/stray.json'' \<noteq> None \<and>
    sample_view (disk w') ''queue_priority/stray.json'' = None"
proof -
  obtain w' where run: "run sample_lib sample_backend (backfill_priority_markers sample_lib) stray_world = (Inr True, w')"
    and kept: "\<forall>j. queued_in sample_view (disk stray_world) j \<longrightarrow> sample_view (disk w') (marker_path j) \<noteq> None"
    and names: "\<forall>x. plain_path x \<longrightarrow> starts_with x marker_prefix \<longrightarrow> is_marker x \<longrightarrow> sample_view (disk w') x \<noteq> None \<longrightarrow>
      (\<exists>p id'. plain_path p \<and> starts_with p ''queue/'' \<and> sample_view (disk stray_world) p \<noteq> None \<and>
        path_job_id p = Some id' \<and> ends_with x (id_suffix id'))"
    using repaired_index_exact [OF sample_stray(1,2), of sample_lib] by (elim exE conjE) (rule that)
  have "sample_view (disk w') ''queue_priority/stray.json'' = None"
  proof (rule ccontr)
    assume "sample_view (disk w') ''queue_priority/stray.json'' \<noteq> None"
    then obtain p id' where "starts_with p ''queue/''" "sample_view (disk stray_world) p \<noteq> None"
        "path_job_id p = Some id'" "ends_with ''queue_priority/stray.json'' (id_suffix id')"
      using names sample_stray(4,5,6) by metis
    then show False using sample_stray(7) by blast
  qed
  then show ?thesis using run kept sample_stray(3,8,9) by blast
qed

text \<open>
  C26. A sweep of the repair between the marker of an admission and its document undoes the marker: the
  admission and the repair both succeed, and the job is queued without an entry in the index. The order
  of the two listings of the sweep does not exclude it, since the marker is written before the
  document; the next sweep writes the entry again (C25).
\<close>

theorem repair_overtakes_admission:
  assumes "local_ready root (disk w)" and "sound_job j"
    and "local_view root (disk w) (transition_path L (job_id j)) = None"
    and "\<And>p. local_view root (disk w) (job_path (prefix_as_str p) (job_id j)) = None"
    and "\<And>p. plain_path p \<Longrightarrow> starts_with p ''queue/'' \<Longrightarrow> local_view root (disk w) p = None"
  shows "\<exists>w'. schedule L (local_backend L root) ([create_queued_job_if_absent fuel L j, backfill_priority_markers L], w)
      ([Ret (Inr True), Ret (Inr True)], w') \<and>
    local_view root (disk w') (job_path (prefix_as_str Queue) (job_id j)) = Some (to_json j) \<and>
    local_view root (disk w') (marker_path j) = None"
  by (rule lives.repair_between [OF assms directories(2) plain_sentinel])

theorem repair_overtakes_admission_witness:
  "\<exists>w'. schedule sample_lib sample_backend
      ([create_queued_job_if_absent 1 sample_lib sample_job, backfill_priority_markers sample_lib], empty_world)
      ([Ret (Inr True), Ret (Inr True)], w') \<and>
    sample_view (disk w') (job_path (prefix_as_str Queue) (job_id sample_job)) = Some (to_json sample_job) \<and>
    sample_view (disk w') (marker_path sample_job) = None"
  by (rule repair_overtakes_admission) simp_all

section \<open>The reaper\<close>

text \<open>
  C27. A running job whose worker has kept its word is left alone: while the promise of its record has
  not passed, or a pulse was written after it, or when the record carries no promise, the judgement of
  the reaper changes nothing in the world and counts nothing but an unpromised record.
\<close>

theorem live_worker_keeps_job:
  assumes "local_ready root (disk w)" and "sound_job j" and "state j = ''running''"
    and "local_view root (disk w) (job_path (prefix_as_str Running) (job_id j)) = Some (to_json j)"
    and "idle_record (job_id j) (local_view root (disk w) (transition_path L (job_id j)))"
    and "\<And>e. lease_promise L j = Some e \<Longrightarrow>
      t < e \<or> (\<exists>u. be_updated_at (local_backend L root) (disk w) (heartbeat_path (job_id j)) = Inr (Some u) \<and> e < u)"
  shows "\<exists>s'. run L (local_backend L root) (reap_one fuel L namespace (job_id j) t s) w = ((Inr (), s'), w) \<and>
    (s' = s \<or> lease_promise L j = None \<and> s' = s\<lparr>rs_unpromised := tally (rs_unpromised s)\<rparr>)"
proof -
  have verdict: "case fst (run L (local_backend L root) (job_liveness_at L j t) w) of
      Lapsed _ \<Rightarrow> False | Unpromised \<Rightarrow> lease_promise L j = None | _ \<Rightarrow> True"
    using assms(6)
    by (auto simp: job_liveness_at_def run_simps facade_defs split: option.splits sum.splits)
  show ?thesis
    unfolding reaps.reap_one_judges [OF assms(1-5)] using verdict
    by (simp split: job_liveness.splits)
qed

theorem live_worker_keeps_job_witness:
  "\<exists>s'. run sample_lib sample_backend (reap_one 1 sample_lib [] ''job-1'' 0 summary_default) running_world =
      ((Inr (), s'), running_world) \<and> rs_requeued s' = 0"
proof -
  have "lease_promise sample_lib sample_running = Some 1"
    by (simp add: lease_promise_def sample_running_def parse_iso_lenient_def sample_lib_def)
  then show ?thesis
    using live_worker_keeps_job [of sample_root running_world sample_running sample_lib 0 1 "[]" summary_default]
    by (auto simp: idle_record_def summary_default_def)
       (simp_all add: running_world_def)
qed

text \<open>
  C28. A running job whose worker broke its promise, with no pulse and no checkpoint after it, with no
  finished release and lost in this way for the first time, is put back: live under \<open>queue/\<close> alone,
  one restart more, the reason recorded, no lease, no instance, assigned to nobody unless an operator
  pinned it, and the two status blobs are gone. The record refuses to be put back for the same loss
  again.
\<close>

theorem lapsed_job_put_back:
  assumes "local_ready root (disk w)" and "state j = ''running''" and "entry_name (job_id j)"
    and "movable (local_view root) L (disk w) j (put_back L j t lease_expired_reason) Running Queue"
    and "homes (local_view root) (disk w) (job_id j) = [Running]"
    and "lease_promise L j = Some e" and "e \<le> t"
    and "be_updated_at (local_backend L root) (disk w) (heartbeat_path (job_id j)) = Inr None"
    and "fst (run L (local_backend L root) (checkpoint_written_after (command j) e) w) = False"
    and "\<not> terminates_agent j" and "restart_refusal j lease_expired_reason = None"
    and "started_instant L j = None \<or> local_view root (disk w) (receipt_path (job_id j)) = None"
  shows "\<exists>d w'. run L (local_backend L root) (reap_one (Suc fuel) L namespace (job_id j) t s) w =
      ((Inr (), s\<lparr>rs_requeued := tally (rs_requeued s)\<rparr>), w') \<and>
    local_view root (disk w') (job_path (prefix_as_str Queue) (job_id j)) = Some (to_json d) \<and>
    homes (local_view root) (disk w') (job_id j) = [Queue] \<and> state d = ''queued'' \<and>
    restarts d = tally_i64 (restarts j) \<and> error d = Some lease_expired_reason \<and>
    lease_expires_at d = None \<and> instance_ref d = None \<and>
    assigned_to d = (if pinned_host j = [] then [] else assigned_to j) \<and>
    restart_refusal d lease_expired_reason \<noteq> None \<and>
    local_view root (disk w') (status_path (job_id j)) = None \<and>
    local_view root (disk w') (heartbeat_path (job_id j)) = None"
proof -
  have job: "sound_job j" "local_view root (disk w) (job_path (prefix_as_str Running) (job_id j)) = Some (to_json j)"
    "idle_record (job_id j) (local_view root (disk w) (transition_path L (job_id j)))"
    using assms(4) by (simp_all add: movable_def Let_def)
  have verdict: "fst (run L (local_backend L root) (job_liveness_at L j t) w) = Lapsed e"
    by (rule silent_lapsed [OF assms(6-9)])
  have "fst (run L (local_backend L root) (evidence L namespace j t) w) = Inr None"
    using assms(12) reaps.run_no_receipt [OF assms(1,3)] by (auto simp: evidence_def split: option.split)
  from reaps.settle_puts_back [OF assms(1,4,5,3,10) this assms(11)]
  show ?thesis
    unfolding reaps.reap_one_judges [OF assms(1) job(1) assms(2) job(2,3)] verdict by simp
qed

theorem lapsed_job_put_back_witness:
  "\<exists>d w'. run sample_lib sample_backend (reap_one 1 sample_lib [] ''job-1'' 9 summary_default) running_world =
      ((Inr (), summary_default\<lparr>rs_requeued := 1\<rparr>), w') \<and>
    sample_view (disk w') (job_path (prefix_as_str Queue) ''job-1'') = Some (to_json d) \<and>
    homes sample_view (disk w') ''job-1'' = [Queue] \<and> restarts d = 1"
  using lapsed_job_put_back [of sample_root running_world sample_running sample_lib 9 1 0 "[]" summary_default]
    sample_lapsed sample_promise
  by (simp add: summary_default_def tally_def tally_i64_def clamp_i64_def restart_refusal_def started_instant_def) blast









text \<open>
  C31. One record that is no job stops the pass: while a document under \<open>running/\<close> cannot be read, a
  pass of the reaper answers an error and changes nothing outside of the index, whatever else has
  lapsed.
\<close>

theorem unreadable_record_stops_pass:
  assumes "local_ready root (disk w)" and "queue_in_order plain_path (local_view root) (disk w)" and "0 < workers"
    and "plain_path p" and "starts_with p ''running/''" and "ends_with p ''.json''"
    and "local_view root (disk w) p = Some text'" and "unreadable text'"
  shows "\<exists>w'. run L (local_backend L root) (reap_expired_leases fuel L namespace workers) w = (Inl JsonError, w') \<and>
    (\<forall>x. plain_path x \<longrightarrow> \<not> starts_with x marker_prefix \<longrightarrow> local_view root (disk w') x = local_view root (disk w) x)"
  by (rule reaps.pass_stopped [OF assms])

theorem unreadable_record_stops_pass_witness:
  "\<exists>w'. run sample_lib sample_backend (reap_expired_leases 1 sample_lib [] 1)
      (sample_device [(job_path (prefix_as_str Running) ''job-1'', to_json sample_running), (''running/x.json'', Raw ''{'')]) =
      (Inl JsonError, w') \<and>
    sample_view (disk w') (job_path (prefix_as_str Running) ''job-1'') = Some (to_json sample_running)"
proof -
  let ?w = "sample_device [(job_path (prefix_as_str Running) ''job-1'', to_json sample_running), (''running/x.json'', Raw ''{'')]"
  have plain: "plain_path ''running/x.json''" by (simp add: plain_path_def)
  then have ready: "local_ready sample_root (disk ?w)"
    by (simp add: sample_device_ready plain_move_paths no_slash_def)
  have order: "queue_in_order plain_path sample_view (disk ?w)"
    by (auto simp: queue_in_order_def starts_with_def job_path_def prefix_words simp del: queue_words split: if_splits)
  have "plain_path (job_path (prefix_as_str Running) ''job-1'')"
    "\<not> starts_with (job_path (prefix_as_str Running) ''job-1'') marker_prefix"
    by (simp_all add: plain_move_paths no_slash_def) (simp add: job_path_def prefix_words starts_with_def marker_prefix_def del: queue_words)
  moreover have "sample_view (disk ?w) ''running/x.json'' = Some (Raw ''{'')"
    by (simp add: job_path_def prefix_words del: queue_words)
  ultimately show ?thesis
    using unreadable_record_stops_pass [OF ready order, of 1 "''running/x.json''" "Raw ''{''" sample_lib 1 "[]"] plain
    by (fastforce simp: starts_with_def ends_with_def unreadable_def)
qed

section \<open>Reservations\<close>

text \<open>
  C32. A reservation holds for its promise and not a second longer: once \<open>reserve\<close> has written it, every
  sweep of its consumer before the promise has passed counts it and leaves its row, and every sweep a
  whole second after that does not count it and has removed the row.
\<close>

theorem reservation_kept_as_promised:
  assumes "local_ready root (disk w)" and "entry_name (rq_consumer_id q)" and "no_slash (uuid_simple L (uuids w))"
    and "local_view root (disk w) (rv_key (new_reservation L q (clock w) (uuid_simple L (uuids w)))) = None"
    and "wf_reservation (new_reservation L q (clock w) (uuid_simple L (uuids w)))"
    and "rows_in_order plain_path (local_view root) (reservation_prefix @ rq_consumer_id q @ ''/'') (disk w)"
    and "parse_rfc3339 L (to_rfc3339 L (clock w)) = Some beat" and "seconds_covering (rq_promise q) < 2 ^ 63"
  shows "\<exists>r w'. run L (local_backend L root) (reserve L q) w = (Inr r, w') \<and>
    (\<forall>t. \<exists>sw w2. run L (local_backend L root) (sweep_for_consumer L (rq_consumer_id q) t) w' = (Inr sw, w2) \<and>
      (t < beat + int (rq_promise q) \<longrightarrow> r \<in> set (cs_live sw) \<and>
         local_view root (disk w2) (rv_key r) = Some (Json (reservation_to_value r))) \<and>
      (beat + int (rq_promise q) + 1000000000 \<le> t \<longrightarrow> r \<notin> set (cs_live sw) \<and>
         local_view root (disk w2) (rv_key r) = None))"
  using lp.reserved_until [OF assms(1) refl plain_reservation [OF assms(2,3)] assms(4,5)
    reservation_directory [OF assms(2)] refl assms(6-8)] by blast

definition sample_hold :: reservation_request where
  "sample_hold = \<lparr>rq_consumer_id = ''box'', rq_target = ''t'', rq_kind = ''k'', rq_product = ''p'', rq_holder = ''h'',
     rq_cpu_cores = 2, rq_ram_gb = f64_of_int 0, rq_vram_gb = 0, rq_promise = 1500000000\<rparr>"

theorem reservation_kept_as_promised_witness:
  "\<exists>r w'. run sample_lib sample_backend (reserve sample_lib sample_hold) empty_world = (Inr r, w') \<and>
    (\<exists>sw w2. run sample_lib sample_backend (sweep_for_consumer sample_lib ''box'' 1500000008) w' = (Inr sw, w2) \<and>
       r \<in> set (cs_live sw)) \<and>
    (\<exists>sw w2. run sample_lib sample_backend (sweep_for_consumer sample_lib ''box'' 2500000009) w' = (Inr sw, w2) \<and>
       sample_view (disk w2) (rv_key r) = None)"
proof -
  have hyps: "entry_name (rq_consumer_id sample_hold)" "no_slash (uuid_simple sample_lib (uuids empty_world))"
    "wf_reservation (new_reservation sample_lib sample_hold (clock empty_world) (uuid_simple sample_lib (uuids empty_world)))"
    "rows_in_order plain_path sample_view (reservation_prefix @ rq_consumer_id sample_hold @ ''/'') (disk empty_world)"
    "parse_rfc3339 sample_lib (to_rfc3339 sample_lib (clock empty_world)) = Some 9"
    "seconds_covering (rq_promise sample_hold) < 2 ^ 63"
    "sample_view (disk empty_world) p = None" for p
    by (simp_all add: sample_hold_def entry_name_def no_slash_def sample_lib_def empty_world_def sample_device_def
        wf_reservation_def new_reservation_def reservation_schema_version_def seconds_covering_def u64_range_def
        i64_range_def rows_in_order_def local_view_def read_file_def f64_is_finite_def f64_exponent_def f64_of_int_def)
  have names: "rq_consumer_id sample_hold = ''box''" "int (rq_promise sample_hold) = 1500000000"
    by (simp_all add: sample_hold_def)
  obtain r w' where r: "run sample_lib sample_backend (reserve sample_lib sample_hold) empty_world = (Inr r, w')"
    and sweeps: "\<And>t. \<exists>sw w2. run sample_lib sample_backend (sweep_for_consumer sample_lib ''box'' t) w' = (Inr sw, w2) \<and>
      (t < 1500000009 \<longrightarrow> r \<in> set (cs_live sw) \<and> sample_view (disk w2) (rv_key r) = Some (Json (reservation_to_value r))) \<and>
      (2500000009 \<le> t \<longrightarrow> r \<notin> set (cs_live sw) \<and> sample_view (disk w2) (rv_key r) = None)"
    using reservation_kept_as_promised [OF sample_ready(3) hyps(1,2) hyps(7) hyps(3-6)] unfolding names by auto
  show ?thesis
    using r sweeps [of 1500000008] sweeps [of 2500000009] by (intro exI [of _ r] exI [of _ w']) auto
qed

section \<open>The store as a map, and the end of retries\<close>



text \<open>
  C34. Retries end: whatever the store answers, a recovery, a renewal of a lease and a rewrite of a queued
  document that at most \<open>n\<close> refused writes interfere with return within \<open>n + 1\<close> rounds of each of their
  loops.
\<close>

theorem retries_end:
  "returns n (recover_job_transition (Suc n) L id') \<and> returns n (renew_running_lease (Suc n) L id' promise) \<and>
   returns n (rewrite_queued_job (Suc n) L id' mutate)"
  by (simp add: returns_recover returns_renew returns_rewrite)

section \<open>What a poll can claim\<close>

text \<open>
  C35. Whatever the store answers, and whatever other processes do between the reads, a poll returns no
  more jobs than were wanted, one of each id, and only jobs the caller's own rule takes and that are no
  fences. That the answer is an error of the store is the other possibility.
\<close>

theorem poll_within_window:
  "within (list_claimable pages L workers prefix' scan cursor) n
     (pred_sum (\<lambda>_. True) (\<lambda>(jobs, cursor'). distinct (map job_id jobs) \<and> list_all (accepts scan) jobs \<and>
       pred_option (\<lambda>want. length jobs \<le> want) (js_want scan)))"
  using list_claimable_sound by blast

text \<open>
  C36. The paged walk is the plain reading of the index. A poll from the head of an indexed queue reads
  the markers in name order, as many as its budget allows, and returns the first jobs among those they
  lead to, up to its window: \<open>claimable\<close>, which knows no pages, no fan-out and no charges. Markers that
  lead nowhere, or to a job the caller refuses, take no place of the window. The answer is in index order,
  the cursor stays, and the store is not written.
\<close>

theorem poll_from_head_exact:
  assumes "local_ready root (disk w)"
    and "index_readable (local_view root) (disk w) (filter is_marker (local_names root (disk w) marker_prefix))"
    and "\<forall>b. js_budget scan = Some b \<longrightarrow> 0 < b \<and> b \<le> usize_max" and "js_want scan \<noteq> Some 0" and "js_from_head scan"
    and "run L (local_backend L root) has_swept w = (Inr True, w)"
    and "Suc (2 * length (local_names root (disk w) marker_prefix)) < pages"
  shows "run L (local_backend L root) (list_claimable pages L workers ''queue'' scan cursor) w =
      (Inr (claimable (local_view root) (disk w) scan (filter is_marker (local_names root (disk w) marker_prefix)), cursor), w) \<and>
    sorted_wrt (\<lambda>a b. marker_path a < marker_path b)
      (claimable (local_view root) (disk w) scan (filter is_marker (local_names root (disk w) marker_prefix)))"
  using pages.run_poll_from_head [OF assms(1-4,6,7,5)] claimable_ordered [OF assms(2)] pages.names_sorted
  by (simp add: sorted_wrt_filter)

theorem poll_from_head_exact_witness:
  "run sample_lib sample_backend (list_claimable 99 sample_lib 4 ''queue'' (one_job True) ''c'') scan_world =
     (Inr ([urgent_job], ''c''), scan_world)"
proof -
  have "length (local_names sample_root (disk scan_world) marker_prefix) < 49"
    using scan_names by simp
  moreover have "claimable sample_view (disk scan_world) (one_job True) [marker_path urgent_job, marker_path sample_job] = [urgent_job]"
    by (simp add: claimable_def up_to_def map_filter_Cons scan_jobs)
  ultimately show ?thesis
    using poll_from_head_exact [of sample_root scan_world "one_job True" sample_lib 99 4 "''c''"]
      scan_ready scan_readable scan_swept by (simp add: scan_markers)
qed

text \<open>
  C37. Polls that resume one another come round to every job. A queued job whose marker names it, and that
  the caller takes, is returned by one of as many polls as the index has markers, from whatever cursor the
  first of them starts and however small the window and the budget are. The store is one that nobody
  changes between them.
\<close>

theorem resumed_polls_reach_job:
  assumes "local_ready root (disk w)"
    and "index_readable (local_view root) (disk w) (filter is_marker (local_names root (disk w) marker_prefix))"
    and "\<forall>b. js_budget scan = Some b \<longrightarrow> 0 < b \<and> b \<le> usize_max" and "js_want scan \<noteq> Some 0" and "\<not> js_from_head scan"
    and "run L (local_backend L root) has_swept w = (Inr True, w)"
    and "Suc (2 * length (local_names root (disk w) marker_prefix)) < pages"
    and "queued_in (local_view root) (disk w) j" and "accepts scan j"
    and "named_in (local_view root) (disk w) (marker_path j) = Some (job_id j)"
  shows "\<exists>jobs. run L (local_backend L root)
      (polls (length (filter is_marker (local_names root (disk w) marker_prefix))) pages L workers scan cursor) w = (Inr jobs, w) \<and>
    j \<in> set jobs"
proof -
  let ?ms = "filter is_marker (local_names root (disk w) marker_prefix)"
  have j: "sound_job j" "local_view root (disk w) (job_path ''queue'' (job_id j)) = Some (to_json j)"
    using assms(8) by (simp_all add: queued_in_def)
  have "plain_path (marker_path j)" "local_view root (disk w) (marker_path j) \<noteq> None"
    "starts_with (marker_path j) marker_prefix"
    using j(1) assms(10) by (auto simp: plain_move_paths sound_job_def named_in_def split: option.splits)
      (simp add: marker_path_def)
  then have marker: "marker_path j \<in> set ?ms"
    using marker_is_marker [OF j(1)] pages.names_all [OF assms(1) lives.marker_boundary] by simp
  have job: "indexed_job (local_view root) (disk w) scan (marker_path j) = Some j"
    using indexed_job_read [of "local_view root" "disk w" "marker_path j" j scan] assms(9,10) j by simp
  show ?thesis
    using pages.run_polls [where root = root and L = L and w = w and scan = scan and n = "length ?ms" and workers = workers
        and cursor = cursor, OF assms(1-4,6,7,5) marker job] distance_bound [OF marker] by blast
qed

theorem resumed_polls_reach_job_witness:
  "\<exists>jobs. run sample_lib sample_backend (polls 2 99 sample_lib 4 (one_job False) []) scan_world = (Inr jobs, scan_world) \<and>
    sample_job \<in> set jobs"
proof -
  have "length (local_names sample_root (disk scan_world) marker_prefix) < 49"
    using scan_names by simp
  then show ?thesis
    using resumed_polls_reach_job [of sample_root scan_world "one_job False" sample_lib 99 sample_job 4 "[]"]
      scan_ready scan_readable scan_swept scan_named scan_view
    by (simp add: scan_markers queued_in_def numeral_2_eq_2)
qed

section \<open>Two stores and the switches\<close>







section \<open>Submissions\<close>

text \<open>
  C10. A submission runs once. Over a store that knows neither the run nor its jobs, a submission
  answers one job per command, each queued and indexed and nothing else, and touches no document but
  the manifest of the run and those of its jobs. Submitted again at any later time, by any process and
  under any user, name and environment that selects the same bucket, the run answers the very same jobs,
  with the submitter and the time of the first submission, and every document is what it was.
\<close>

theorem submission_admits_once:
  assumes "local_ready root (disk w)"
    and "run_id_ok (so_run_id o')" "local_view root (disk w) (run_path (so_run_id o')) = None"
    and "wf_options o'" "no_slash (so_re_submission_of o')" and "u64_range (length commands)"
    and "resolve_each E o' commands = Inr hardware" "list_all (\<lambda>h. i64_range (rh_gpu_mem_gb h)) hardware"
    and "se_charge E (so_run_id o') commands = Inr ()" "submitter_app_name E = Inr app"
      "submitter E = Inr by'" "explicit_name E = Inr name"
    and "stamped L (clock w)"
    and "jobs = run_jobs L (digest_value L (submission_request (se_configured_bucket E) commands o' hardware)) o'
      \<lparr>sp_created_at = to_rfc3339 L (clock w), sp_submitted_by = by', sp_submitted_from = se_hostname E,
       sp_submitter_app = app\<rparr> commands hardware"
    and "\<And>j. j \<in> set jobs \<Longrightarrow> unknown (local_view root) L (disk w) (job_id j)" and "distinct (map job_id jobs)"
  shows "\<exists>w'. run L (local_backend L root) (submit (Suc fuel) L E commands o') w = (Inr jobs, w') \<and>
    (\<forall>j \<in> set jobs. queued_only (local_view root) L (disk w') j) \<and>
    (\<forall>p. plain_path p \<longrightarrow> p \<noteq> run_path (so_run_id o') \<longrightarrow> (\<forall>j \<in> set jobs. p \<notin> job_paths j) \<longrightarrow>
      local_view root (disk w') p = local_view root (disk w) p) \<and>
    (\<forall>x E'. disk x = disk w' \<longrightarrow> clock w \<le> clock x \<longrightarrow> se_charge E' (so_run_id o') commands = Inr () \<longrightarrow>
      se_configured_bucket E' = se_configured_bucket E \<longrightarrow>
      se_bucket E' = (if so_bucket o' = [] then se_configured_bucket E else so_bucket o') \<longrightarrow>
      (\<exists>x'. run L (local_backend L root) (submit (Suc fuel') L E' commands o') x = (Inr jobs, x') \<and>
        (\<forall>p. plain_path p \<longrightarrow> local_view root (disk x') p = local_view root (disk w') p)))"
  using assms by (rule subs.submission_repeats)

theorem submission_admits_once_witness:
  "\<exists>w'. run run_lib (local_backend run_lib sample_root) (submit 1 run_lib (run_env ''ann'') run_commands run_options) empty_world =
      (Inr sample_run, w') \<and>
    (\<exists>x'. run run_lib (local_backend run_lib sample_root) (submit 1 run_lib (run_env ''bob'') run_commands run_options)
        (w'\<lparr>clock := 12\<rparr>) = (Inr sample_run, x') \<and>
      sample_view (disk x') (run_path ''run-1'') = sample_view (disk w') (run_path ''run-1''))"
proof -
  have env: "submitter_app_name (run_env u) = Inr ''manual''" "submitter (run_env ''ann'') = Inr ''ann''"
      "explicit_name (run_env u) = Inr []" "se_charge (run_env u) r c = Inr ()"
      "se_configured_bucket (run_env u) = ''fleet''" "se_bucket (run_env u) = ''fleet''" "se_hostname (run_env u) = ''h''" for u r c
    by (simp_all add: run_env_def submitter_app_name_def submitter_def env_name_def explicit_name_def trim_def
        trim_start_def is_space_def)
  have jobs: "sample_run = run_jobs run_lib (digest_value run_lib (submission_request (se_configured_bucket (run_env ''ann''))
      run_commands run_options run_hardware)) run_options \<lparr>sp_created_at = to_rfc3339 run_lib (clock empty_world),
      sp_submitted_by = ''ann'', sp_submitted_from = se_hostname (run_env ''ann''), sp_submitter_app = ''manual''\<rparr>
      run_commands run_hardware"
    by (simp add: sample_run_def run_request_def env run_provenance_def empty_world_def)
  have plain: "plain_path (run_path ''run-1'')" by (rule plain_run_path) simp
  have w: "local_ready sample_root (disk empty_world)" "sample_view (disk empty_world) (run_path (so_run_id run_options)) = None"
      "stamped run_lib (clock empty_world)" "run_id_ok (so_run_id run_options)" "no_slash (so_re_submission_of run_options)"
      "u64_range (length run_commands)"
    by (simp_all add: empty_world_def sample_device_ready no_slash_def u64_range_def)
  obtain w' where first: "run run_lib (local_backend run_lib sample_root)
        (submit 1 run_lib (run_env ''ann'') run_commands run_options) empty_world = (Inr sample_run, w')"
    and again: "\<forall>x E'. disk x = disk w' \<longrightarrow> clock empty_world \<le> clock x \<longrightarrow>
      se_charge E' (so_run_id run_options) run_commands = Inr () \<longrightarrow>
      se_configured_bucket E' = se_configured_bucket (run_env ''ann'') \<longrightarrow>
      se_bucket E' = (if so_bucket run_options = [] then se_configured_bucket (run_env ''ann'') else so_bucket run_options) \<longrightarrow>
      (\<exists>x'. run run_lib (local_backend run_lib sample_root) (submit 1 run_lib E' run_commands run_options) x = (Inr sample_run, x') \<and>
        (\<forall>p. plain_path p \<longrightarrow> sample_view (disk x') p = sample_view (disk w') p))"
    using submission_admits_once [OF w(1,4,2) run_options_wf(1) w(5,6) run_hardware_wf(4,1) env(4,1,2,3) w(3) jobs
        sample_run_unknown sample_run_ids, of 0 0] by auto
  have "clock empty_world = 9" by (simp add: empty_world_def)
  then obtain x' where "run run_lib (local_backend run_lib sample_root)
        (submit 1 run_lib (run_env ''bob'') run_commands run_options) (w'\<lparr>clock := 12\<rparr>) = (Inr sample_run, x')"
      "sample_view (disk x') (run_path ''run-1'') = sample_view (disk w') (run_path ''run-1'')"
    using again [rule_format, of "w'\<lparr>clock := 12\<rparr>" "run_env ''bob''"] plain by (auto simp: env)
  then show ?thesis using first by blast
qed

text \<open>
  C11. Who may take an entry of a run over. A claim hands the entry's planned job to its caller. From then
  on, while the process that made the claim is there as seen by another one (on its own host: it exists;
  on any other host: always), a submission under another owner is refused and writes nothing; once it is
  seen to be gone, the entry is handed over. But a submission under the same owner is handed the same
  entry though the first process is alive, and the owner a submission states is a digest of its request.
\<close>

theorem claim_fences_other_owners:
  assumes "stored_plan (local_view root) (local_ready root) L ctx w m es" and "index < length es"
    and "\<not> entry_ended (me_state (es ! index))" and "me_state (es ! index) \<noteq> Accepted"
    and "entry_object m index = Some e"
    and "claimed_elsewhere (sx_owner ctx) (me_state (es ! index)) e \<Longrightarrow> \<not> holder_seen L w e"
    and "po_pid (this_process w) < 2 ^ 32"
  shows "\<exists>w'. run L (local_backend L root) (claim_entry (Suc fuel) L ctx index) w =
      (Inr (Owned (me_planned_job (es ! index))), w') \<and>
    (\<forall>x owner. disk x = disk w' \<longrightarrow> clock w \<le> clock x \<longrightarrow> owner \<noteq> sx_owner ctx \<longrightarrow>
      (if process_seen x (this_process w)
       then run L (local_backend L root) (claim_entry (Suc fuel') L (ctx\<lparr>sx_owner := owner\<rparr>) index) x =
         (Inl (Validation ''run command is being submitted by another owner''), x)
       else \<exists>x'. run L (local_backend L root) (claim_entry (Suc fuel') L (ctx\<lparr>sx_owner := owner\<rparr>) index) x =
         (Inr (Owned (me_planned_job (es ! index))), x'))) \<and>
    (\<forall>x. disk x = disk w' \<longrightarrow> clock w \<le> clock x \<longrightarrow>
      (\<exists>x'. run L (local_backend L root) (claim_entry (Suc fuel') L ctx index) x =
        (Inr (Owned (me_planned_job (es ! index))), x')))"
  using assms by (rule subs.claim_fences)

text \<open>The first process runs on \<open>h\<close> with pid 1; the second one, on the same host, has pid 2.\<close>

theorem claim_fences_other_owners_witness:
  "\<exists>w'. run run_lib (local_backend run_lib sample_root) (claim_entry 1 run_lib sample_context 0) manifest_world =
      (Inr (Owned (hd sample_run)), w') \<and>
    (let second = w'\<lparr>this_process := \<lparr>po_host = ''h'', po_pid = 2\<rparr>, live_pids := [1, 2]\<rparr>;
         other = sample_context\<lparr>sx_owner := ''someone else''\<rparr>
     in run run_lib (local_backend run_lib sample_root) (claim_entry 1 run_lib other 0) second =
          (Inl (Validation ''run command is being submitted by another owner''), second) \<and>
        fst (run run_lib (local_backend run_lib sample_root) (claim_entry 1 run_lib other 0) (second\<lparr>live_pids := [2]\<rparr>)) =
          Inr (Owned (hd sample_run)) \<and>
        fst (run run_lib (local_backend run_lib sample_root) (claim_entry 1 run_lib sample_context 0) second) =
          Inr (Owned (hd sample_run)))"
proof -
  obtain e where e: "entry_object sample_manifest 0 = Some e" by (rule sample_manifest_entry)
  have first: "me_planned_job (planned_answer sample_run ! 0) = hd sample_run" "0 < length (planned_answer sample_run)"
      "me_state (planned_answer sample_run ! 0) = Planned"
    by (simp_all add: sample_run_def run_jobs_def run_commands_def hd_conv_nth)
  have here: "this_process manifest_world = \<lparr>po_host = ''h'', po_pid = 1\<rparr>"
    by (simp add: manifest_world_def sample_device_def)
  have owner: "''someone else'' \<noteq> sx_owner sample_context"
    by (simp add: run_context_def submission_owner_def)
  obtain w' where run: "run run_lib (local_backend run_lib sample_root) (claim_entry 1 run_lib sample_context 0) manifest_world =
      (Inr (Owned (hd sample_run)), w')"
    and others: "\<forall>x owner. disk x = disk w' \<longrightarrow> clock manifest_world \<le> clock x \<longrightarrow> owner \<noteq> sx_owner sample_context \<longrightarrow>
      (if process_seen x (this_process manifest_world)
       then run run_lib (local_backend run_lib sample_root) (claim_entry 1 run_lib (sample_context\<lparr>sx_owner := owner\<rparr>) 0) x =
         (Inl (Validation ''run command is being submitted by another owner''), x)
       else \<exists>x'. run run_lib (local_backend run_lib sample_root) (claim_entry 1 run_lib (sample_context\<lparr>sx_owner := owner\<rparr>) 0) x =
         (Inr (Owned (hd sample_run)), x'))"
    and same: "\<forall>x. disk x = disk w' \<longrightarrow> clock manifest_world \<le> clock x \<longrightarrow>
      (\<exists>x'. run run_lib (local_backend run_lib sample_root) (claim_entry 1 run_lib sample_context 0) x =
        (Inr (Owned (hd sample_run)), x'))"
    using claim_fences_other_owners [OF sample_plan first(2) _ _ e, of 0 0] unfolding first here
    by (auto simp: entry_ended_def claimed_elsewhere_def)
  have clock: "clock w' = clock manifest_world"
    using run_frame [of run_lib "local_backend run_lib sample_root" "claim_entry 1 run_lib sample_context 0" manifest_world] run by simp
  let ?second = "w'\<lparr>this_process := \<lparr>po_host = ''h'', po_pid = 2\<rparr>, live_pids := [1, 2]\<rparr>"
  show ?thesis
    using run others [rule_format, of ?second "''someone else''"]
      others [rule_format, of "?second\<lparr>live_pids := [2]\<rparr>" "''someone else''"] same [rule_format, of ?second] owner clock
    by (intro exI [of _ w']) (auto simp: Let_def process_seen_def here)
qed

end
